(* ===== verification/Prelude.thy ===== *)
theory Prelude
  imports "HOL-Library.Word" "HOL-Library.AList" "HOL-Library.Multiset"
begin

text \<open>
  The shared layer of the development: the machine types the Rust sources use, the
  combinator for Rust's question mark operator, big-endian integers, byte strings and the
  association lists that stand for hash maps. Every component theory imports it.

  The named collections are filled by the component theories: \<open>wire\<close> with the equations
  that run writers and readers on wire data, \<open>shrinks\<close> with the facts that readers consume
  their input.
\<close>

named_theorems wire "equations that evaluate readers and writers on wire data"
named_theorems shrinks "readers leave no more input than they were given"

unbundle bit_operations_syntax

subsection \<open>Machine types\<close>

type_synonym u8 = "8 word"
type_synonym u16 = "16 word"
type_synonym u32 = "32 word"
type_synonym u64 = "64 word"
type_synonym bytes = "u8 list"

text \<open>
  Lengths and sizes (\<open>usize\<close>) of buffers that are in memory are natural numbers: a Rust
  buffer is at most \<open>isize::MAX\<close> bytes long, so sums of a few lengths do not wrap.
  \<open>usize_max\<close> is \<open>usize::MAX\<close> of a 64-bit target.
\<close>

definition usize_max :: nat where
  "usize_max = 2 ^ 64 - 1"

definition u32_max :: u32 where
  "u32_max = 0xffffffff"

subsection \<open>Results\<close>

text \<open>
  \<open>Result<T, E>\<close> is the sum \<open>'e + 'a\<close>. \<open>and_then m f\<close> is \<open>let x = m?; f(x)\<close>: an error of
  \<open>m\<close> is returned at once.
\<close>

abbreviation and_then :: "'e + 'a \<Rightarrow> ('a \<Rightarrow> 'e + 'b) \<Rightarrow> 'e + 'b" where
  "and_then m f \<equiv> (case m of Inl e \<Rightarrow> Inl e | Inr x \<Rightarrow> f x)"

lemma and_then_Inr_iff:
  "and_then m f = Inr y \<longleftrightarrow> (\<exists>x. m = Inr x \<and> f x = Inr y)"
  by (cases m) auto

lemma and_then_Inl_iff:
  "and_then m f = Inl e \<longleftrightarrow> m = Inl e \<or> (\<exists>x. m = Inr x \<and> f x = Inl e)"
  by (cases m) auto

lemmas and_then_iff = and_then_Inr_iff and_then_Inl_iff

text \<open>\<open>ok_or e o\<close> is \<open>o.ok_or(e)\<close>, and \<open>try_into().map_err(|_| e)\<close> of a partial conversion.\<close>

definition ok_or :: "'e \<Rightarrow> 'a option \<Rightarrow> 'e + 'a" where
  "ok_or e v = (case v of None \<Rightarrow> Inl e | Some x \<Rightarrow> Inr x)"

lemma ok_or_simps [simp]: "ok_or e None = Inl e" "ok_or e (Some x) = Inr x"
  by (simp_all add: ok_or_def)

lemma ok_or_Inr_iff [simp]: "ok_or e v = Inr x \<longleftrightarrow> v = Some x"
  by (cases v) auto

text \<open>\<open>ensure!(c, e)\<close> of \<open>macros.rs\<close> in front of the rest of a function.\<close>

definition ensure :: "bool \<Rightarrow> 'e \<Rightarrow> 'e + unit" where
  "ensure c e = (if c then Inr () else Inl e)"

lemma ensure_simps [simp]:
  "ensure True e = Inr ()" "ensure False e = Inl e"
  "ensure c e = Inr u \<longleftrightarrow> c" "ensure c e = Inl e' \<longleftrightarrow> \<not> c \<and> e' = e"
  by (auto simp: ensure_def)

text \<open>\<open>NonZeroU16::try_from\<close> and \<open>NonZeroUsize::try_from\<close>.\<close>

definition nonzero :: "'a::zero \<Rightarrow> 'a option" where
  "nonzero n = (if n = 0 then None else Some n)"

lemma nonzero_simps [simp]: "nonzero n = Some m \<longleftrightarrow> n \<noteq> 0 \<and> m = n" "nonzero n = None \<longleftrightarrow> n = 0"
  "n \<noteq> 0 \<Longrightarrow> nonzero n = Some n"
  by (auto simp: nonzero_def)

subsection \<open>Conversions derived by \<open>num_enum\<close>\<close>

text \<open>
  \<open>TryFromPrimitive\<close> on a \<open>repr(u8)\<close> enum: the variant whose discriminant is the number.
  The enums below are given by their discriminant function and the list of their variants.
\<close>

definition try_from_primitive :: "('c \<Rightarrow> u8) \<Rightarrow> 'c list \<Rightarrow> u8 \<Rightarrow> 'c option" where
  "try_from_primitive disc variants n = find (\<lambda>c. disc c = n) variants"

lemma try_from_primitive_Some:
  "try_from_primitive disc variants n = Some c \<Longrightarrow> disc c = n"
  by (auto simp: try_from_primitive_def find_Some_iff)

lemma try_from_primitive_disc:
  assumes "inj disc" "c \<in> set variants"
  shows "try_from_primitive disc variants (disc c) = Some c"
proof -
  have "find (\<lambda>c'. disc c' = disc c) variants \<noteq> None"
    using assms(2) by (auto simp: find_None_iff)
  then obtain d where "find (\<lambda>c'. disc c' = disc c) variants = Some d" by auto
  with assms(1) show ?thesis
    by (auto simp: try_from_primitive_def find_Some_iff dest: injD)
qed

lemma try_from_primitive_None:
  "try_from_primitive disc variants n = None \<longleftrightarrow> n \<notin> disc ` set variants"
  by (auto simp: try_from_primitive_def find_None_iff)

text \<open>Enum discriminants are an interface: injective on the listed variants, which are all.\<close>

locale primitive_enum =
  fixes disc :: "'c \<Rightarrow> u8" and variants :: "'c list"
  assumes disc_inj: "disc a = disc b \<Longrightarrow> a = b"
    and variants_complete: "c \<in> set variants"
begin

lemma roundtrip: "try_from_primitive disc variants (disc c) = Some c"
  by (rule try_from_primitive_disc) (auto intro: injI disc_inj variants_complete)

lemma parse_iff: "try_from_primitive disc variants n = Some c \<longleftrightarrow> n = disc c"
  using roundtrip try_from_primitive_Some by fastforce

end

lemma primitive_enumI:
  assumes "distinct (map disc variants)" "\<And>c. c \<in> set variants"
  shows "primitive_enum disc variants"
proof
  fix a b
  show "disc a = disc b \<Longrightarrow> a = b"
    using assms by (auto simp: distinct_map dest: inj_onD)
qed (rule assms(2))

subsection \<open>Big-endian integers\<close>

text \<open>
  \<open>put_u16\<close>, \<open>put_u32\<close>, \<open>get_u16\<close> and \<open>get_u32\<close> of the byte buffers are big-endian.
\<close>

definition be16 :: "u16 \<Rightarrow> bytes" where
  "be16 w = [ucast (drop_bit 8 w), ucast w]"

definition be32 :: "u32 \<Rightarrow> bytes" where
  "be32 w = [ucast (drop_bit 24 w), ucast (drop_bit 16 w), ucast (drop_bit 8 w), ucast w]"

definition get_be16 :: "u8 \<Rightarrow> u8 \<Rightarrow> u16" where
  "get_be16 a b = push_bit 8 (ucast a) OR ucast b"

definition get_be32 :: "u8 \<Rightarrow> u8 \<Rightarrow> u8 \<Rightarrow> u8 \<Rightarrow> u32" where
  "get_be32 a b c d =
     push_bit 24 (ucast a) OR push_bit 16 (ucast b) OR push_bit 8 (ucast c) OR ucast d"

lemma get_be16_be16: "get_be16 (ucast (drop_bit 8 w)) (ucast w) = w"
  unfolding get_be16_def by (rule bit_word_eqI) (auto simp: bit_simps)

lemma get_be32_be32:
  "get_be32 (ucast (drop_bit 24 w)) (ucast (drop_bit 16 w)) (ucast (drop_bit 8 w)) (ucast w) = w"
proof (rule bit_word_eqI)
  fix n assume "n < LENGTH(32)"
  then consider "n < 8" | "8 \<le> n" "n < 16" | "16 \<le> n" "n < 24" | "24 \<le> n" "n < 32"
    by fastforce
  then show "bit (get_be32 (ucast (drop_bit 24 w)) (ucast (drop_bit 16 w))
      (ucast (drop_bit 8 w)) (ucast w)) n = bit w n"
    unfolding get_be32_def by cases (auto simp: bit_simps)
qed

lemma length_be [simp]: "length (be16 w) = 2" "length (be32 v) = 4"
  by (simp_all add: be16_def be32_def)

subsection \<open>Strings\<close>

text \<open>
  A \<open>ByteString\<close> is a string of bytes that is valid UTF-8. Isabelle's characters are bytes,
  so it is a \<open>string\<close>, and \<open>len()\<close> is its \<open>length\<close>. \<open>utf8_valid\<close> is \<open>std::str::from_utf8\<close>
  of the standard library (the table of well-formed byte sequences of the Unicode standard).
\<close>

definition byte_of_char :: "char \<Rightarrow> u8" where
  "byte_of_char c = word_of_nat (of_char c)"

definition char_of_byte :: "u8 \<Rightarrow> char" where
  "char_of_byte b = char_of (unat b)"

lemma char_of_byte_of_char [simp]: "char_of_byte (byte_of_char c) = c"
  by (simp add: char_of_byte_def byte_of_char_def unat_of_nat)

lemma byte_of_char_of_byte [simp]: "byte_of_char (char_of_byte b) = b"
proof -
  have "unat b < 256" using unsigned_less [of b, where ?'a = nat] by simp
  then have "unat b mod 256 = unat b" by simp
  then show ?thesis by (simp add: char_of_byte_def byte_of_char_def)
qed

definition as_bytes :: "string \<Rightarrow> bytes" where
  "as_bytes s = map byte_of_char s"

definition string_of_bytes :: "bytes \<Rightarrow> string" where
  "string_of_bytes bs = map char_of_byte bs"

lemma string_of_as_bytes [simp]: "string_of_bytes (as_bytes s) = s"
  by (induction s) (simp_all add: as_bytes_def string_of_bytes_def)

lemma as_bytes_of_string [simp]: "as_bytes (string_of_bytes bs) = bs"
  by (induction bs) (simp_all add: as_bytes_def string_of_bytes_def)

lemma length_as_bytes [simp]: "length (as_bytes s) = length s"
  by (simp add: as_bytes_def)

lemma length_string_of_bytes [simp]: "length (string_of_bytes bs) = length bs"
  by (simp add: string_of_bytes_def)

fun utf8_valid :: "bytes \<Rightarrow> bool" where
  "utf8_valid [] = True"
| "utf8_valid (a # s) =
     (if a < 0x80 then utf8_valid s
      else if 0xc2 \<le> a \<and> a \<le> 0xdf then
        (case s of b # s \<Rightarrow> 0x80 \<le> b \<and> b \<le> 0xbf \<and> utf8_valid s | _ \<Rightarrow> False)
      else if 0xe0 \<le> a \<and> a \<le> 0xef then
        (case s of b # c # s \<Rightarrow>
           (if a = 0xe0 then 0xa0 \<le> b \<and> b \<le> 0xbf
            else if a = 0xed then 0x80 \<le> b \<and> b \<le> 0x9f
            else 0x80 \<le> b \<and> b \<le> 0xbf)
           \<and> 0x80 \<le> c \<and> c \<le> 0xbf \<and> utf8_valid s | _ \<Rightarrow> False)
      else if 0xf0 \<le> a \<and> a \<le> 0xf4 then
        (case s of b # c # d # s \<Rightarrow>
           (if a = 0xf0 then 0x90 \<le> b \<and> b \<le> 0xbf
            else if a = 0xf4 then 0x80 \<le> b \<and> b \<le> 0x8f
            else 0x80 \<le> b \<and> b \<le> 0xbf)
           \<and> 0x80 \<le> c \<and> c \<le> 0xbf \<and> 0x80 \<le> d \<and> d \<le> 0xbf \<and> utf8_valid s | _ \<Rightarrow> False)
      else False)"

lemma utf8_valid_append: "utf8_valid s \<Longrightarrow> utf8_valid t \<Longrightarrow> utf8_valid (s @ t)"
proof (induction s rule: utf8_valid.induct)
  case 1
  then show ?case by simp
next
  case (2 a s)
  then show ?case
    by (simp only: append_Cons utf8_valid.simps split: if_splits)
      (auto split: list.splits if_splits)
qed

text \<open>What the type \<open>ByteString\<close> guarantees, and what fits the 16-bit length prefix.\<close>

definition valid_str :: "string \<Rightarrow> bool" where
  "valid_str s \<longleftrightarrow> utf8_valid (as_bytes s)"

definition str_ok :: "string \<Rightarrow> bool" where
  "str_ok s \<longleftrightarrow> valid_str s \<and> length s \<le> 65535"

definition bin_ok :: "bytes \<Rightarrow> bool" where
  "bin_ok b \<longleftrightarrow> length b \<le> 65535"

definition opt_ok :: "('a \<Rightarrow> bool) \<Rightarrow> 'a option \<Rightarrow> bool" where
  "opt_ok p v = (case v of None \<Rightarrow> True | Some x \<Rightarrow> p x)"

lemma opt_ok_simps [simp]: "opt_ok p None" "opt_ok p (Some x) = p x"
  by (simp_all add: opt_ok_def)

definition pairs_ok :: "(string \<times> string) list \<Rightarrow> bool" where
  "pairs_ok kvs = list_all (\<lambda>(k, v). str_ok k \<and> str_ok v) kvs"

lemma pairs_ok_simps [simp]:
  "pairs_ok []" "pairs_ok (kv # kvs) \<longleftrightarrow> str_ok (fst kv) \<and> str_ok (snd kv) \<and> pairs_ok kvs"
  "pairs_ok (kvs @ kvs') \<longleftrightarrow> pairs_ok kvs \<and> pairs_ok kvs'"
  by (auto simp: pairs_ok_def split: prod.splits)

end
