(* ===== verification/Filter_Util.thy ===== *)
theory Filter_Util
  imports Prelude
begin

text \<open>
  \<open>libs/service/src/filter_util.rs\<close>: the syntax of topics and topic filters, with the string
  functions of the standard library it uses. \<open>split\<close>, the \<open>str::split('/')\<close> of all the code that
  walks over topics, comes with the facts that make paths of segments and strings the same
  thing.
\<close>

subsection \<open>Strings of the standard library\<close>

text \<open>\<open>str::split(c)\<close> collected: always at least one segment.\<close>

fun split :: "char \<Rightarrow> string \<Rightarrow> string list" where
  "split c [] = [[]]"
| "split c (x # s) =
     (if x = c then [] # split c s
      else case split c s of seg # segs \<Rightarrow> (x # seg) # segs | [] \<Rightarrow> [[x]])"

text \<open>\<open>str::split_once(c)\<close>.\<close>

fun split_once :: "char \<Rightarrow> string \<Rightarrow> (string \<times> string) option" where
  "split_once c [] = None"
| "split_once c (x # s) =
     (if x = c then Some ([], s)
      else case split_once c s of None \<Rightarrow> None | Some (a, b) \<Rightarrow> Some (x # a, b))"

text \<open>\<open>str::contains(&['+', '#'][..])\<close>.\<close>

definition contains_wildcard :: "string \<Rightarrow> bool" where
  "contains_wildcard s \<longleftrightarrow> list_ex (\<lambda>c. c = CHR ''+'' \<or> c = CHR ''#'') s"

text \<open>\<open>str::strip_prefix(p)\<close>.\<close>

definition strip_prefix :: "string \<Rightarrow> string \<Rightarrow> string option" where
  "strip_prefix p s = (if take (length p) s = p then Some (drop (length p) s) else None)"

definition join_segments :: "char \<Rightarrow> string list \<Rightarrow> string" where
  "join_segments c segs = concat (case segs of [] \<Rightarrow> [] | seg # segs \<Rightarrow> seg # map (\<lambda>seg. c # seg) segs)"

lemma split_not_Nil [simp]: "split c s \<noteq> []"
  by (cases s) (auto split: list.splits)

lemma join_segments_simps [simp]:
  "join_segments c [seg] = seg"
  "segs \<noteq> [] \<Longrightarrow> join_segments c (seg # segs) = seg @ c # join_segments c segs"
  by (auto simp: join_segments_def split: list.splits)

lemma join_split [simp]: "join_segments c (split c s) = s"
proof (induction s)
  case (Cons x s)
  obtain seg segs where "split c s = seg # segs" by (cases "split c s") auto
  with Cons show ?case by (cases segs) auto
qed simp

lemma split_inject [simp]: "split c s = split c t \<longleftrightarrow> s = t"
  using join_split by metis

lemma set_split: "seg \<in> set (split c s) \<Longrightarrow> set seg \<subseteq> set s"
proof (induction s arbitrary: seg)
  case (Cons x s)
  obtain seg0 segs where split: "split c s = seg0 # segs" by (cases "split c s") auto
  with Cons.IH have "set seg0 \<subseteq> set s" "\<And>seg. seg \<in> set segs \<Longrightarrow> set seg \<subseteq> set s" by auto
  with Cons.prems split show ?case by (auto split: if_splits)
qed simp

lemma split_segment: "seg \<in> set (split c s) \<Longrightarrow> c \<notin> set seg"
proof (induction s arbitrary: seg)
  case (Cons x s)
  then show ?case by (auto split: if_splits list.splits)
qed simp

lemma split_once_Some:
  "split_once c s = Some (a, b) \<longleftrightarrow> s = a @ c # b \<and> c \<notin> set a"
proof (induction s arbitrary: a)
  case (Cons x s)
  have "split_once c (x # s) = Some (a, b) \<longleftrightarrow>
      (if x = c then a = [] \<and> b = s else \<exists>a'. a = x # a' \<and> split_once c s = Some (a', b))"
    by (simp split: option.split) blast
  with Cons.IH show ?case by (cases a) auto
qed simp

lemma strip_prefix_Some: "strip_prefix p s = Some t \<longleftrightarrow> s = p @ t"
  by (auto simp: strip_prefix_def) (metis append_take_drop_id)

lemma contains_wildcard_iff: "contains_wildcard s \<longleftrightarrow> CHR ''+'' \<in> set s \<or> CHR ''#'' \<in> set s"
  by (auto simp: contains_wildcard_def list_ex_iff)

subsection \<open>Topics and filters\<close>

definition valid_topic :: "string \<Rightarrow> bool" where
  "valid_topic topic \<longleftrightarrow> (if topic = [] then False else \<not> contains_wildcard topic)"

definition has_wildcards :: "string \<Rightarrow> bool" where
  "has_wildcards flt \<longleftrightarrow> contains_wildcard flt"

record Filter =
  share_name :: "string option"
  path :: string

definition valid_filter :: "string \<Rightarrow> bool" where
  "valid_filter flt \<longleftrightarrow>
     (if flt = [] then False
      else list_all (\<lambda>segment. \<not> (contains_wildcard segment \<and> length segment \<noteq> 1))
        (split CHR ''/'' flt))"

definition parse_filter :: "string \<Rightarrow> Filter option" where
  "parse_filter flt =
     (case strip_prefix ''$share'' flt of
        Some tail \<Rightarrow>
          if \<not> (case tail of c # _ \<Rightarrow> c = CHR ''/'' | [] \<Rightarrow> False) then None
          else let tail = tl tail in
            if tail = [] then None
            else (case split_once CHR ''/'' tail of
                None \<Rightarrow> None
              | Some (name, p) \<Rightarrow>
                  if has_wildcards name then None
                  else if \<not> valid_filter p then None
                  else Some \<lparr>share_name = Some name, path = p\<rparr>)
      | None \<Rightarrow>
          if \<not> valid_filter flt then None
          else Some \<lparr>share_name = None, path = flt\<rparr>)"

subsection \<open>What a valid filter is\<close>

text \<open>The wildcards stand alone in their segment.\<close>

definition valid_segment :: "string \<Rightarrow> bool" where
  "valid_segment segment \<longleftrightarrow> segment = ''#'' \<or> segment = ''+'' \<or> \<not> contains_wildcard segment"

lemma valid_segment_iff: "\<not> (contains_wildcard s \<and> length s \<noteq> 1) \<longleftrightarrow> valid_segment s"
  by (cases s; cases "tl s") (auto simp: valid_segment_def contains_wildcard_iff)

lemma valid_filter_iff:
  "valid_filter flt \<longleftrightarrow> flt \<noteq> [] \<and> list_all valid_segment (split CHR ''/'' flt)"
  by (simp only: valid_filter_def valid_segment_iff) simp

lemma valid_topic_segments:
  "valid_topic topic \<Longrightarrow> list_all (\<lambda>s. \<not> contains_wildcard s) (split CHR ''/'' topic)"
  by (auto simp: valid_topic_def list_all_iff contains_wildcard_iff split: if_splits dest: set_split)

lemma parse_filter_Some:
  "parse_filter s = Some f \<longleftrightarrow>
     valid_filter (path f) \<and>
     (case share_name f of
        None \<Rightarrow> s = path f \<and> strip_prefix ''$share'' s = None
      | Some n \<Rightarrow> s = ''$share/'' @ n @ ''/'' @ path f \<and> \<not> contains_wildcard n \<and> CHR ''/'' \<notin> set n)"
proof (cases "strip_prefix ''$share'' s")
  case None
  then have "s \<noteq> ''$share/'' @ t" for t by (auto simp: strip_prefix_def split: if_splits)
  with None show ?thesis by (cases f) (auto simp: parse_filter_def split: option.splits)
next
  case (Some tail)
  then have s: "s = ''$share'' @ tail" by (simp add: strip_prefix_Some)
  have tail: "s = ''$share/'' @ t \<longleftrightarrow> tail = CHR ''/'' # t" for t
    by (auto simp: s)
  show ?thesis
  proof (cases "\<exists>t. tail = CHR ''/'' # t")
    case False
    with Some tail show ?thesis
      by (cases f) (auto simp: parse_filter_def split: option.splits list.splits)
  next
    case True
    then obtain t where t: "tail = CHR ''/'' # t" by blast
    have "parse_filter s = (if t = [] then None else
      (case split_once CHR ''/'' t of None \<Rightarrow> None
       | Some (n, p) \<Rightarrow> if has_wildcards n \<or> \<not> valid_filter p then None
           else Some \<lparr>share_name = Some n, path = p\<rparr>))"
      using Some by (auto simp: parse_filter_def t split: option.splits)
    also have "\<dots> = Some f \<longleftrightarrow>
      (\<exists>n p. split_once CHR ''/'' t = Some (n, p) \<and> \<not> has_wildcards n \<and> valid_filter p \<and>
        f = \<lparr>share_name = Some n, path = p\<rparr>)"
      by (auto split: option.splits if_splits)
    finally show ?thesis
      using Some by (cases f) (auto simp: split_once_Some tail t has_wildcards_def s split: option.splits)
  qed
qed

end
