(* ===== verification/Codec_Types.thy ===== *)
theory Codec_Types
  imports Prelude
begin

text \<open>
  \<open>libs/codec/src/types.rs\<close>, \<open>error.rs\<close> and \<open>property.rs\<close>: the protocol level and the quality
  of service, the errors of the decoder and the encoder, and the identifiers of the MQTT
  properties.
\<close>

subsection \<open>types.rs\<close>

datatype ProtocolLevel = V4 | V5

fun ProtocolLevel_u8 :: "ProtocolLevel \<Rightarrow> u8" where
  "ProtocolLevel_u8 V4 = 4"
| "ProtocolLevel_u8 V5 = 5"

definition ProtocolLevel_try_from :: "u8 \<Rightarrow> ProtocolLevel option" where
  "ProtocolLevel_try_from = try_from_primitive ProtocolLevel_u8 [V4, V5]"

record Login =
  username :: string
  password :: string

datatype Qos = AtMostOnce | AtLeastOnce | ExactlyOnce

fun Qos_u8 :: "Qos \<Rightarrow> u8" where
  "Qos_u8 AtMostOnce = 0"
| "Qos_u8 AtLeastOnce = 1"
| "Qos_u8 ExactlyOnce = 2"

definition Qos_try_from :: "u8 \<Rightarrow> Qos option" where
  "Qos_try_from = try_from_primitive Qos_u8 [AtMostOnce, AtLeastOnce, ExactlyOnce]"

text \<open>The derived order of \<open>Qos\<close> is the order of its variants.\<close>

instantiation Qos :: linorder
begin

definition less_eq_Qos :: "Qos \<Rightarrow> Qos \<Rightarrow> bool" where
  "less_eq_Qos a b \<longleftrightarrow> Qos_u8 a \<le> Qos_u8 b"

definition less_Qos :: "Qos \<Rightarrow> Qos \<Rightarrow> bool" where
  "less_Qos a b \<longleftrightarrow> Qos_u8 a < Qos_u8 b"

instance
proof
  fix a b c :: Qos
  show "(a < b) = (a \<le> b \<and> \<not> b \<le> a)"
    by (auto simp: less_eq_Qos_def less_Qos_def)
  show "a \<le> a" by (simp add: less_eq_Qos_def)
  show "a \<le> b \<Longrightarrow> b \<le> c \<Longrightarrow> a \<le> c" by (simp add: less_eq_Qos_def)
  show "a \<le> b \<Longrightarrow> b \<le> a \<Longrightarrow> a = b" by (cases a; cases b) (simp_all add: less_eq_Qos_def word_le_nat_alt)
  show "a \<le> b \<or> b \<le> a" by (auto simp: less_eq_Qos_def)
qed

end

interpretation level_enum: primitive_enum ProtocolLevel_u8 "[V4, V5]"
proof (rule primitive_enumI)
  show "c \<in> set [V4, V5]" for c by (cases c) simp_all
qed simp

interpretation qos_enum: primitive_enum Qos_u8 "[AtMostOnce, AtLeastOnce, ExactlyOnce]"
proof (rule primitive_enumI)
  show "c \<in> set [AtMostOnce, AtLeastOnce, ExactlyOnce]" for c by (cases c) simp_all
qed simp

lemma ProtocolLevel_roundtrip [wire]: "ProtocolLevel_try_from (ProtocolLevel_u8 l) = Some l"
  unfolding ProtocolLevel_try_from_def by (rule level_enum.roundtrip)

lemma Qos_roundtrip [wire]: "Qos_try_from (Qos_u8 q) = Some q"
  unfolding Qos_try_from_def by (rule qos_enum.roundtrip)

lemma Qos_try_from_None: "Qos_try_from n = None \<longleftrightarrow> n \<notin> {0, 1, 2}"
  by (auto simp: Qos_try_from_def try_from_primitive_None)

subsection \<open>error.rs\<close>

text \<open>
  Variants keep their names; where two enums share one (\<open>DecodeError.PacketTooLarge\<close>,
  \<open>EncodeError.PacketTooLarge\<close>) it is written with its type. The I/O errors carry \<open>std::io::Error\<close> values; only their kind is kept.
\<close>

datatype io_error = UnexpectedEof | OtherIo string

datatype DecodeError =
    MalformedPacket
  | UnknownPacketType u8
  | PacketTooLarge
  | ReservedPacketType
  | InvalidProtocol string
  | UnsupportedProtocolLevel u8
  | InvalidConnectFlags
  | InvalidQOS u8
  | InvalidRetainHandling u8
  | InvalidConnectProperty u8
  | InvalidConnAckProperty u8
  | InvalidWillProperty u8
  | InvalidDisconnectProperty u8
  | InvalidPublishProperty u8
  | InvalidSubscribeProperty u8
  | InvalidUnsubscribeProperty u8
  | InvalidUnsubAckProperty u8
  | InvalidPubAckProperty u8
  | InvalidPubRecProperty u8
  | InvalidPubRelProperty u8
  | InvalidPubCompProperty u8
  | InvalidConnAckReasonCode u8
  | InvalidDisconnectReasonCode u8
  | InvalidPubAckReasonCode u8
  | InvalidPubRecReasonCode u8
  | InvalidPubRelReasonCode u8
  | InvalidPubCompReasonCode u8
  | InvalidSubAckReasonCode u8
  | InvalidUnsubAckReasonCode u8
  | InvalidPacketId
  | InvalidTopicAlias
  | DecodeIo io_error

datatype EncodeError =
    PayloadTooLarge
  | PacketTooLarge
  | RequirePacketId
  | EncodeIo io_error

subsection \<open>property.rs\<close>

abbreviation (input) PAYLOAD_FORMAT_INDICATOR :: u8 where "PAYLOAD_FORMAT_INDICATOR \<equiv> 0x01"
abbreviation (input) MESSAGE_EXPIRY_INTERVAL :: u8 where "MESSAGE_EXPIRY_INTERVAL \<equiv> 0x02"
abbreviation (input) CONTENT_TYPE :: u8 where "CONTENT_TYPE \<equiv> 0x03"
abbreviation (input) RESPONSE_TOPIC :: u8 where "RESPONSE_TOPIC \<equiv> 0x08"
abbreviation (input) CORRELATION_DATA :: u8 where "CORRELATION_DATA \<equiv> 0x09"
abbreviation (input) SUBSCRIPTION_IDENTIFIER :: u8 where "SUBSCRIPTION_IDENTIFIER \<equiv> 0x0b"
abbreviation (input) SESSION_EXPIRY_INTERVAL :: u8 where "SESSION_EXPIRY_INTERVAL \<equiv> 0x11"
abbreviation (input) ASSIGNED_CLIENT_IDENTIFIER :: u8 where "ASSIGNED_CLIENT_IDENTIFIER \<equiv> 0x12"
abbreviation (input) SERVER_KEEP_ALIVE :: u8 where "SERVER_KEEP_ALIVE \<equiv> 0x13"
abbreviation (input) AUTHENTICATION_METHOD :: u8 where "AUTHENTICATION_METHOD \<equiv> 0x15"
abbreviation (input) AUTHENTICATION_DATA :: u8 where "AUTHENTICATION_DATA \<equiv> 0x16"
abbreviation (input) REQUEST_PROBLEM_INFORMATION :: u8 where "REQUEST_PROBLEM_INFORMATION \<equiv> 0x17"
abbreviation (input) WILL_DELAY_INTERVAL :: u8 where "WILL_DELAY_INTERVAL \<equiv> 0x18"
abbreviation (input) REQUEST_RESPONSE_INFORMATION :: u8 where "REQUEST_RESPONSE_INFORMATION \<equiv> 0x19"
abbreviation (input) RESPONSE_INFORMATION :: u8 where "RESPONSE_INFORMATION \<equiv> 0x1a"
abbreviation (input) SERVER_REFERENCE :: u8 where "SERVER_REFERENCE \<equiv> 0x1c"
abbreviation (input) REASON_STRING :: u8 where "REASON_STRING \<equiv> 0x1f"
abbreviation (input) RECEIVE_MAXIMUM :: u8 where "RECEIVE_MAXIMUM \<equiv> 0x21"
abbreviation (input) TOPIC_ALIAS_MAXIMUM :: u8 where "TOPIC_ALIAS_MAXIMUM \<equiv> 0x22"
abbreviation (input) TOPIC_ALIAS :: u8 where "TOPIC_ALIAS \<equiv> 0x23"
abbreviation (input) MAXIMUM_QOS :: u8 where "MAXIMUM_QOS \<equiv> 0x24"
abbreviation (input) RETAIN_AVAILABLE :: u8 where "RETAIN_AVAILABLE \<equiv> 0x25"
abbreviation (input) USER_PROPERTY :: u8 where "USER_PROPERTY \<equiv> 0x26"
abbreviation (input) MAXIMUM_PACKET_SIZE :: u8 where "MAXIMUM_PACKET_SIZE \<equiv> 0x27"
abbreviation (input) WILDCARD_SUBSCRIPTION_AVAILABLE :: u8 where
  "WILDCARD_SUBSCRIPTION_AVAILABLE \<equiv> 0x28"
abbreviation (input) SUBSCRIPTION_IDENTIFIER_AVAILABLE :: u8 where
  "SUBSCRIPTION_IDENTIFIER_AVAILABLE \<equiv> 0x29"
abbreviation (input) SHARED_SUBSCRIPTION_AVAILABLE :: u8 where
  "SHARED_SUBSCRIPTION_AVAILABLE \<equiv> 0x2a"

subsection \<open>Packet types of \<open>packet.rs\<close>\<close>

abbreviation (input) RESERVED :: u8 where "RESERVED \<equiv> 0"
abbreviation (input) CONNECT :: u8 where "CONNECT \<equiv> 1"
abbreviation (input) CONNACK :: u8 where "CONNACK \<equiv> 2"
abbreviation (input) PUBLISH :: u8 where "PUBLISH \<equiv> 3"
abbreviation (input) PUBACK :: u8 where "PUBACK \<equiv> 4"
abbreviation (input) PUBREC :: u8 where "PUBREC \<equiv> 5"
abbreviation (input) PUBREL :: u8 where "PUBREL \<equiv> 6"
abbreviation (input) PUBCOMP :: u8 where "PUBCOMP \<equiv> 7"
abbreviation (input) SUBSCRIBE :: u8 where "SUBSCRIBE \<equiv> 8"
abbreviation (input) SUBACK :: u8 where "SUBACK \<equiv> 9"
abbreviation (input) UNSUBSCRIBE :: u8 where "UNSUBSCRIBE \<equiv> 10"
abbreviation (input) UNSUBACK :: u8 where "UNSUBACK \<equiv> 11"
abbreviation (input) PINGREQ :: u8 where "PINGREQ \<equiv> 12"
abbreviation (input) PINGRESP :: u8 where "PINGRESP \<equiv> 13"
abbreviation (input) DISCONNECT :: u8 where "DISCONNECT \<equiv> 14"

end
