(* ===== verification/Codec_Reader.thy ===== *)
theory Codec_Reader
  imports Codec_Types
begin

text \<open>
  \<open>libs/codec/src/reader.rs\<close>: the trait \<open>PacketReader\<close> implemented for \<open>Bytes\<close>. A reader takes
  the bytes that are left and returns a value with the bytes it did not consume, or an error;
  the \<open>&mut self\<close> of the source is the bytes that are passed on.
\<close>

unbundle bit_operations_syntax

type_synonym 'a reader = "bytes \<Rightarrow> DecodeError + ('a \<times> bytes)"

subsection \<open>Fixed-size values\<close>

fun read_u8 :: "u8 reader" where
  "read_u8 (b # data) = Inr (b, data)"
| "read_u8 _ = Inl DecodeError.MalformedPacket"

fun read_u16 :: "u16 reader" where
  "read_u16 (a # b # data) = Inr (get_be16 a b, data)"
| "read_u16 _ = Inl DecodeError.MalformedPacket"

fun read_u32 :: "u32 reader" where
  "read_u32 (a # b # c # d # data) = Inr (get_be32 a b c d, data)"
| "read_u32 _ = Inl DecodeError.MalformedPacket"

definition read_bool :: "bool reader" where
  "read_bool data = and_then (read_u8 data) (\<lambda>(b, data). Inr (b > 0, data))"

subsection \<open>Length-prefixed values\<close>

definition read_string :: "string reader" where
  "read_string data =
     and_then (read_u16 data) (\<lambda>(len, data).
     and_then (ensure (unat len \<le> length data) MalformedPacket) (\<lambda>_.
     let s = take (unat len) data in
     and_then (ensure (utf8_valid s) MalformedPacket) (\<lambda>_.
     Inr (string_of_bytes s, drop (unat len) data))))"

definition read_binary :: "bytes reader" where
  "read_binary data =
     and_then (read_u16 data) (\<lambda>(len, data).
     and_then (ensure (unat len \<le> length data) MalformedPacket) (\<lambda>_.
     Inr (take (unat len) data, drop (unat len) data)))"

subsection \<open>Variable-length integers\<close>

text \<open>
  The loop of \<open>read_remaining_length\<close> with its variables \<open>n\<close> and \<open>shift\<close>: seven bits per byte,
  least significant first, four bytes at most.
\<close>

function read_remaining_length_loop :: "nat \<Rightarrow> nat \<Rightarrow> nat reader" where
  "read_remaining_length_loop n shift data =
     and_then (read_u8 data) (\<lambda>(byte, data).
     let n = n + push_bit shift (unat (byte AND 0x7f)) in
     if byte AND 0x80 = 0 then Inr (n, data)
     else and_then (ensure (shift + 7 \<le> 21) MalformedPacket) (\<lambda>_.
       read_remaining_length_loop n (shift + 7) data))"
  by pat_completeness auto
termination
  by (relation "measure (\<lambda>(n, shift, data). length data)") (auto elim!: read_u8.elims)

declare read_remaining_length_loop.simps [simp del]

definition read_remaining_length :: "nat reader" where
  "read_remaining_length = read_remaining_length_loop 0 0"

text \<open>
  \<open>let len = read_remaining_length()?; ensure!(remaining() >= len); split_to(len)\<close>, the block
  every packet with properties starts them with.
\<close>

definition read_properties_block :: "bytes reader" where
  "read_properties_block data =
     and_then (read_remaining_length data) (\<lambda>(len, data).
     and_then (ensure (len \<le> length data) MalformedPacket) (\<lambda>_.
     Inr (take len data, drop len data)))"

text \<open>The same block followed by the \<open>decode\<close> of the properties it delimits.\<close>

definition read_properties :: "(bytes \<Rightarrow> DecodeError + 'p) \<Rightarrow> 'p reader" where
  "read_properties decode data =
     and_then (read_properties_block data) (\<lambda>(block, data).
     and_then (decode block) (\<lambda>properties. Inr (properties, data)))"

text \<open>\<open>read_u16()?.try_into().map_err(|_| DecodeError::InvalidPacketId)?\<close>.\<close>

definition read_packet_id :: "u16 reader" where
  "read_packet_id data =
     and_then (read_u16 data) (\<lambda>(n, data).
     and_then (ok_or InvalidPacketId (nonzero n)) (\<lambda>packet_id. Inr (packet_id, data)))"

subsection \<open>Readers consume their input\<close>

lemma read_u8_shrinks [shrinks]: "read_u8 d = Inr (x, d') \<Longrightarrow> length d' < length d"
  by (cases d) auto

lemma read_u16_shrinks [shrinks]: "read_u16 d = Inr (x, d') \<Longrightarrow> length d' < length d"
  by (cases d rule: read_u16.cases) auto

lemma read_u32_shrinks [shrinks]: "read_u32 d = Inr (x, d') \<Longrightarrow> length d' < length d"
  by (cases d rule: read_u32.cases) auto

lemma read_bool_shrinks [shrinks]: "read_bool d = Inr (x, d') \<Longrightarrow> length d' < length d"
  by (auto simp: read_bool_def and_then_Inr_iff dest: shrinks)

lemma read_string_shrinks [shrinks]: "read_string d = Inr (x, d') \<Longrightarrow> length d' < length d"
  by (auto simp: read_string_def and_then_Inr_iff Let_def dest!: read_u16_shrinks)

lemma read_binary_shrinks [shrinks]: "read_binary d = Inr (x, d') \<Longrightarrow> length d' < length d"
  by (auto simp: read_binary_def and_then_Inr_iff dest!: read_u16_shrinks)

lemma read_remaining_length_loop_shrinks:
  "read_remaining_length_loop n shift d = Inr (x, d') \<Longrightarrow> length d' < length d"
proof (induction n shift d rule: read_remaining_length_loop.induct)
  case (1 n shift data)
  note unfolded = read_remaining_length_loop.simps [of n shift data]
  from "1.prems" obtain byte rest where r: "read_u8 data = Inr (byte, rest)"
    by (cases "read_u8 data") (auto simp: unfolded)
  then have less: "length rest < length data" by (rule read_u8_shrinks)
  show ?case
  proof (cases "byte AND 0x80 = 0")
    case True
    with "1.prems" r less show ?thesis by (simp add: unfolded Let_def)
  next
    case False
    with "1.prems" r have "length d' < length rest"
      by (intro "1.IH" [OF r]) (auto simp: unfolded Let_def and_then_Inr_iff)
    with less show ?thesis by simp
  qed
qed

lemma read_remaining_length_shrinks [shrinks]:
  "read_remaining_length d = Inr (x, d') \<Longrightarrow> length d' < length d"
  unfolding read_remaining_length_def by (rule read_remaining_length_loop_shrinks)

lemma read_properties_shrinks [shrinks]:
  "read_properties decode d = Inr (p, d') \<Longrightarrow> length d' < length d"
  by (auto simp: read_properties_def read_properties_block_def and_then_Inr_iff dest!: shrinks)

lemma read_packet_id_shrinks [shrinks]:
  "read_packet_id d = Inr (p, d') \<Longrightarrow> length d' < length d"
  by (auto simp: read_packet_id_def and_then_Inr_iff dest!: shrinks)

subsection \<open>What readers return\<close>

lemma read_packet_id_ok: "read_packet_id d = Inr (n, d') \<Longrightarrow> n \<noteq> 0"
  by (auto simp: read_packet_id_def and_then_Inr_iff)

lemma read_properties_ok:
  "read_properties decode d = Inr (p, d') \<Longrightarrow> (\<And>b. decode b = Inr p \<Longrightarrow> Q p) \<Longrightarrow> Q p"
  by (auto simp: read_properties_def and_then_Inr_iff)

lemma read_string_ok: "read_string d = Inr (s, d') \<Longrightarrow> str_ok s"
  using unsigned_less [where ?'a = nat and ?'b = 16]
  by (fastforce simp: read_string_def and_then_Inr_iff Let_def str_ok_def valid_str_def
      less_Suc_eq_le [of _ 65535, simplified])

lemma read_binary_ok: "read_binary d = Inr (s, d') \<Longrightarrow> bin_ok s"
  using unsigned_less [where ?'a = nat and ?'b = 16]
  by (fastforce simp: read_binary_def and_then_Inr_iff bin_ok_def
      less_Suc_eq_le [of _ 65535, simplified])

end
