(* ===== verification/Codec_Writer.thy ===== *)
theory Codec_Writer
  imports Codec_Reader
begin

text \<open>
  \<open>libs/codec/src/writer.rs\<close> and the length macros of \<open>macros.rs\<close>. A writer transforms the
  \<open>BytesMut\<close> it is given and returns \<open>Ok(())\<close> or an error; an error keeps what was written
  before it, as the source does. A block of statements is the list of its writers.

  The wire formats (\<open>str_wire\<close>, \<open>varint\<close>, \<open>wire_opt\<close>, ...) are the specification side: the
  bytes that a successful writer appends. \<open>put_slice bs\<close> is the writer that appends \<open>bs\<close>, and
  the lemmas in \<open>wire\<close> turn every writer that succeeds into a \<open>put_slice\<close>.
\<close>

unbundle bit_operations_syntax

type_synonym writer = "bytes \<Rightarrow> (EncodeError + unit) \<times> bytes"

subsection \<open>Statements\<close>

definition put_slice :: "bytes \<Rightarrow> writer" where
  "put_slice bs = (\<lambda>buf. (Inr (), buf @ bs))"

definition put_u8 :: "u8 \<Rightarrow> writer" where
  "put_u8 b = put_slice [b]"

definition put_u16 :: "u16 \<Rightarrow> writer" where
  "put_u16 w = put_slice (be16 w)"

definition put_u32 :: "u32 \<Rightarrow> writer" where
  "put_u32 w = put_slice (be32 w)"

primrec block :: "writer list \<Rightarrow> writer" where
  "block [] = (\<lambda>buf. (Inr (), buf))"
| "block (w # ws) = (\<lambda>buf. case w buf of
     (Inl e, buf) \<Rightarrow> (Inl e, buf)
   | (Inr _, buf) \<Rightarrow> block ws buf)"

definition for_each :: "('a \<Rightarrow> writer) \<Rightarrow> 'a list \<Rightarrow> writer" where
  "for_each f xs = block (map f xs)"

definition if_some :: "'a option \<Rightarrow> ('a \<Rightarrow> writer) \<Rightarrow> writer" where
  "if_some v f = (case v of None \<Rightarrow> block [] | Some x \<Rightarrow> f x)"

definition if_true :: "bool \<Rightarrow> writer \<Rightarrow> writer" where
  "if_true c w = (if c then w else block [])"

declare block.simps [simp del]

text \<open>\<open>ensure!(c, e)\<close> and \<open>let x = m?\<close> inside an encoder.\<close>

definition ensure_w :: "bool \<Rightarrow> EncodeError \<Rightarrow> writer" where
  "ensure_w c e = (\<lambda>buf. (ensure c e, buf))"

definition let_ok :: "EncodeError + 'a \<Rightarrow> ('a \<Rightarrow> writer) \<Rightarrow> writer" where
  "let_ok m f = (\<lambda>buf. case m of Inl e \<Rightarrow> (Inl e, buf) | Inr x \<Rightarrow> f x buf)"

subsection \<open>writer.rs\<close>

text \<open>The loop of \<open>write_remaining_length\<close>.\<close>

function write_remaining_length_loop :: "nat \<Rightarrow> writer" where
  "write_remaining_length_loop n =
     (let value = word_of_nat (n AND 0x7f) :: u8; n = drop_bit 7 n;
          value = (if n > 0 then value OR 0x80 else value)
      in if n = 0 then put_u8 value
         else block [put_u8 value, write_remaining_length_loop n])"
  by pat_completeness auto
termination
  by (relation "measure id") (auto simp: drop_bit_eq_div)

declare write_remaining_length_loop.simps [simp del]

definition write_remaining_length :: "nat \<Rightarrow> writer" where
  "write_remaining_length value =
     block [ensure_w (value \<le> 268435455) PayloadTooLarge, write_remaining_length_loop value]"

definition write_string :: "string \<Rightarrow> writer" where
  "write_string value =
     block [ensure_w (length value \<le> 65535) PayloadTooLarge,
            put_u16 (word_of_nat (length value)),
            put_slice (as_bytes value)]"

definition write_binary :: "bytes \<Rightarrow> writer" where
  "write_binary value =
     block [ensure_w (length value \<le> 65535) PayloadTooLarge,
            put_u16 (word_of_nat (length value)),
            put_slice value]"

definition write_bool :: "bool \<Rightarrow> writer" where
  "write_bool value = (if value then put_u8 1 else put_u8 0)"

definition bytes_remaining_length :: "nat \<Rightarrow> EncodeError + nat" where
  "bytes_remaining_length value =
     (if value < 128 then Inr 1
      else if value < 16383 then Inr 2
      else if value < 2097151 then Inr 3
      else if value < 268435455 then Inr 4
      else Inl PayloadTooLarge)"

subsection \<open>macros.rs\<close>

definition prop_len :: "'a option \<Rightarrow> nat \<Rightarrow> nat" where
  "prop_len value len = (if value \<noteq> None then 1 + len else 0)"

definition prop_remaining_length_len :: "nat option \<Rightarrow> EncodeError + nat" where
  "prop_remaining_length_len value =
     (case value of
        Some value \<Rightarrow> and_then (bytes_remaining_length value) (\<lambda>len. Inr (1 + len))
      | None \<Rightarrow> Inr 0)"

definition prop_data_len :: "'a list option \<Rightarrow> nat" where
  "prop_data_len value = (case value of Some value \<Rightarrow> 1 + 2 + length value | None \<Rightarrow> 0)"

definition prop_kv_len :: "string \<Rightarrow> string \<Rightarrow> nat" where
  "prop_kv_len key value = 1 + 2 + length key + 2 + length value"

text \<open>The sum over \<open>user_properties\<close> that every \<open>bytes_length\<close> contains.\<close>

definition user_properties_len :: "(string \<times> string) list \<Rightarrow> nat" where
  "user_properties_len kvs = sum_list (map (\<lambda>(key, value). prop_kv_len key value) kvs)"

text \<open>
  The block \<open>if let Some(value) = v { data.put_u8(flag); data.w(value); }\<close> and the \<open>for\<close> loop
  over \<open>user_properties\<close> of which every \<open>encode\<close> of properties consists.
\<close>

definition write_prop :: "u8 \<Rightarrow> ('a \<Rightarrow> writer) \<Rightarrow> 'a option \<Rightarrow> writer" where
  "write_prop flag w v = if_some v (\<lambda>value. block [put_u8 flag, w value])"

definition write_user_properties :: "(string \<times> string) list \<Rightarrow> writer" where
  "write_user_properties =
     for_each (\<lambda>(key, value). block [put_u8 USER_PROPERTY, write_string key, write_string value])"

subsection \<open>Writers that succeed append their wire format\<close>

lemma put_slice_apply: "put_slice a buf = (Inr (), buf @ a)"
  by (simp add: put_slice_def)

lemma block_append:
  "block (ws @ ws') = (\<lambda>buf. case block ws buf of
     (Inl e, buf) \<Rightarrow> (Inl e, buf) | (Inr _, buf) \<Rightarrow> block ws' buf)"
  by (induction ws) (auto simp: fun_eq_iff block.simps split: sum.splits prod.splits)

lemma block_put_slice [wire]:
  "block [] = put_slice []"
  "block [put_slice a] = put_slice a"
  "block (put_slice a # put_slice b # ws) = block (put_slice (a @ b) # ws)"
  "block (block ws # ws') = block (ws @ ws')"
  by (auto simp: put_slice_def block_append block.simps fun_eq_iff split: sum.splits prod.splits)

lemma put_word_slice [wire]:
  "put_u8 b = put_slice [b]" "put_u16 v = put_slice (be16 v)" "put_u32 w = put_slice (be32 w)"
  by (simp_all add: put_u8_def put_u16_def put_u32_def)

lemma ensure_w_slice [wire]: "c \<Longrightarrow> ensure_w c e = put_slice []"
  by (simp add: ensure_w_def put_slice_def fun_eq_iff)

lemma let_ok_cong [cong]: "m = m' \<Longrightarrow> let_ok m f = let_ok m' f"
  by simp

lemma let_ok_Inr [wire]: "let_ok (Inr x) f = f x"
  by (simp add: let_ok_def)

lemma if_some_simps [wire]: "if_some None f = put_slice []" "if_some (Some x) f = f x"
  by (simp_all add: if_some_def wire)

lemma if_true_simps [wire]: "if_true False w = put_slice []" "if_true True w = w"
  by (simp_all add: if_true_def wire)

lemma write_bool_slice [wire]: "write_bool b = put_slice [if b then 1 else 0]"
  by (simp add: write_bool_def wire)

definition str_wire :: "string \<Rightarrow> bytes" where
  "str_wire s = be16 (word_of_nat (length s)) @ as_bytes s"

definition bin_wire :: "bytes \<Rightarrow> bytes" where
  "bin_wire b = be16 (word_of_nat (length b)) @ b"

definition bool_wire :: "bool \<Rightarrow> bytes" where
  "bool_wire b = [if b then 1 else 0]"

lemma str_wire_not_Nil [simp]: "str_wire s \<noteq> []"
  by (simp add: str_wire_def be16_def)

lemma write_string_slice [wire]: "str_ok s \<Longrightarrow> write_string s = put_slice (str_wire s)"
  by (simp add: write_string_def str_wire_def str_ok_def wire)

lemma write_binary_slice [wire]: "bin_ok b \<Longrightarrow> write_binary b = put_slice (bin_wire b)"
  by (simp add: write_binary_def bin_wire_def bin_ok_def wire)

lemma for_each_slice [wire]:
  "(\<And>x. x \<in> set xs \<Longrightarrow> f x = put_slice (g x)) \<Longrightarrow> for_each f xs = put_slice (concat (map g xs))"
proof (induction xs)
  case Nil
  show ?case by (simp add: for_each_def wire)
next
  case (Cons x xs)
  then have "block (map f xs) = put_slice (concat (map g xs))" "f x = put_slice (g x)"
    by (simp_all add: for_each_def)
  then show ?case by (simp add: for_each_def fun_eq_iff block.simps put_slice_apply)
qed

definition kv_wire :: "string \<times> string \<Rightarrow> bytes" where
  "kv_wire kv = USER_PROPERTY # str_wire (fst kv) @ str_wire (snd kv)"

definition users_wire :: "(string \<times> string) list \<Rightarrow> bytes" where
  "users_wire kvs = concat (map kv_wire kvs)"

lemma write_user_properties_slice [wire]:
  "pairs_ok kvs \<Longrightarrow> write_user_properties kvs = put_slice (users_wire kvs)"
  unfolding write_user_properties_def users_wire_def
  by (intro for_each_slice)
    (auto simp: pairs_ok_def list_all_iff kv_wire_def wire split: prod.splits)

definition wire_opt :: "u8 \<Rightarrow> ('a \<Rightarrow> bytes) \<Rightarrow> 'a option \<Rightarrow> bytes" where
  "wire_opt flag f v = (case v of None \<Rightarrow> [] | Some x \<Rightarrow> flag # f x)"

lemma write_prop_slice:
  "opt_ok p v \<Longrightarrow> (\<And>x. p x \<Longrightarrow> w x = put_slice (f x)) \<Longrightarrow>
   write_prop flag w v = put_slice (wire_opt flag f v)"
  by (cases v) (simp_all add: wire wire_opt_def write_prop_def)

lemma write_prop_slices [wire]:
  "write_prop flag put_u32 v32 = put_slice (wire_opt flag be32 v32)"
  "write_prop flag put_u16 v16 = put_slice (wire_opt flag be16 v16)"
  "write_prop flag write_bool vb = put_slice (wire_opt flag bool_wire vb)"
  "opt_ok str_ok vs \<Longrightarrow> write_prop flag write_string vs = put_slice (wire_opt flag str_wire vs)"
  "opt_ok bin_ok vd \<Longrightarrow> write_prop flag write_binary vd = put_slice (wire_opt flag bin_wire vd)"
  "write_prop flag (\<lambda>x. put_slice (f x)) v = put_slice (wire_opt flag f v)"
proof -
  show "write_prop flag (\<lambda>x. put_slice (f x)) v = put_slice (wire_opt flag f v)"
    by (cases v) (simp_all add: wire wire_opt_def write_prop_def)
  show "write_prop flag put_u32 v32 = put_slice (wire_opt flag be32 v32)"
    "write_prop flag put_u16 v16 = put_slice (wire_opt flag be16 v16)"
    by (cases v32; cases v16; simp add: wire wire_opt_def write_prop_def)+
  show "write_prop flag write_bool vb = put_slice (wire_opt flag bool_wire vb)"
    by (cases vb) (simp_all add: wire wire_opt_def bool_wire_def write_prop_def)
  show "opt_ok str_ok vs \<Longrightarrow> write_prop flag write_string vs = put_slice (wire_opt flag str_wire vs)"
    "opt_ok bin_ok vd \<Longrightarrow> write_prop flag write_binary vd = put_slice (wire_opt flag bin_wire vd)"
    by (erule write_prop_slice, simp add: wire)+
qed

subsection \<open>Lengths of the wire formats\<close>

lemma length_wires [simp]:
  "length (str_wire s) = 2 + length s" "length (bin_wire b) = 2 + length b"
  "length (bool_wire c) = 1" "length (kv_wire kv) = prop_kv_len (fst kv) (snd kv)"
  by (simp_all add: str_wire_def bin_wire_def bool_wire_def kv_wire_def prop_kv_len_def)

lemma length_users_wire [simp]: "length (users_wire kvs) = user_properties_len kvs"
  by (induction kvs) (simp_all add: users_wire_def user_properties_len_def split: prod.splits)

lemma length_wire_opt [simp]:
  "length (wire_opt flag be32 v32) = prop_len v32 4"
  "length (wire_opt flag be16 v16) = prop_len v16 2"
  "length (wire_opt flag bool_wire vb) = prop_len vb 1"
  "length (wire_opt flag (\<lambda>q. [g q]) vq) = prop_len vq 1"
  "length (wire_opt flag str_wire vs) = prop_data_len vs"
  "length (wire_opt flag bin_wire vd) = prop_data_len vd"
  by (auto simp: wire_opt_def prop_len_def prop_data_len_def split: option.splits)

subsection \<open>Variable-length integers\<close>

text \<open>The specification of the encoding: base 128, least significant digit first.\<close>

function varint :: "nat \<Rightarrow> bytes" where
  "varint n = (if n < 128 then [word_of_nat n]
     else (word_of_nat (n mod 128) OR 128) # varint (n div 128))"
  by pat_completeness auto
termination by (relation "measure id") auto

declare varint.simps [simp del]

lemma varint_not_Nil [simp]: "varint n \<noteq> []"
  by (simp add: varint.simps [of n])

lemma and_127: "(n::nat) AND 127 = n mod 128"
  using take_bit_eq_mask [of 7 n] by (simp add: take_bit_eq_mod mask_eq_exp_minus_1)

lemma and_128_iff: "x AND 128 = 0 \<longleftrightarrow> \<not> bit (x :: u8) 7"
  using and_exp_eq_0_iff_not_bit [of x 7] by simp

lemma unat_and_127: "unat ((x :: u8) AND 127) = unat x mod 128"
proof -
  have "x AND 127 = take_bit 7 x" using take_bit_eq_mask [of 7 x] by (simp add: mask_eq_exp_minus_1)
  then have "unat (x AND 127) = take_bit 7 (unat x)" by (simp only: unsigned_take_bit_eq)
  then show ?thesis by (simp add: take_bit_eq_mod)
qed

lemma seven_bits:
  assumes "m < 128"
  shows "unat ((word_of_nat m :: u8) AND 127) = m" "(word_of_nat m :: u8) AND 128 = 0"
    "unat ((word_of_nat m OR 128 :: u8) AND 127) = m" "(word_of_nat m OR 128 :: u8) AND 128 \<noteq> 0"
proof -
  have m: "\<not> bit m 7" "m mod 256 = m" using assms by (simp_all add: bit_iff_odd)
  show "(word_of_nat m :: u8) AND 128 = 0"
    using m by (simp add: and_128_iff bit_simps)
  show "(word_of_nat m OR 128 :: u8) AND 128 \<noteq> 0"
    by (simp add: and_128_iff bit_or_iff)
  show one: "unat ((word_of_nat m :: u8) AND 127) = m"
    using assms m by (simp add: unat_and_127 unat_of_nat)
  have "(word_of_nat m OR 128 :: u8) AND 127 = word_of_nat m AND 127"
    by (simp add: bit.conj_disj_distrib2)
  with one show "unat ((word_of_nat m OR 128 :: u8) AND 127) = m" by simp
qed

lemma write_remaining_length_loop_slice:
  "write_remaining_length_loop n = put_slice (varint n)"
proof (induction n rule: varint.induct)
  case (1 n)
  show ?case
  proof (cases "n < 128")
    case True
    then show ?thesis
      by (simp add: write_remaining_length_loop.simps [of n] varint.simps [of n] wire Let_def
          and_127 drop_bit_eq_div)
  next
    case False
    then have "drop_bit 7 n > 0" by (simp add: drop_bit_eq_div div_greater_zero_iff)
    with False "1.IH" show ?thesis
      by (simp add: write_remaining_length_loop.simps [of n] varint.simps [of n] wire Let_def
          and_127 drop_bit_eq_div)
  qed
qed

lemma write_remaining_length_slice [wire]:
  "n \<le> 268435455 \<Longrightarrow> write_remaining_length n = put_slice (varint n)"
  by (simp add: write_remaining_length_def write_remaining_length_loop_slice wire)

text \<open>
  The reader inverts the writer on every length below \<open>2 ^ 28\<close>, whatever follows: the loop at
  \<open>shift\<close> with \<open>acc\<close> read so far.
\<close>

lemma read_varint_loop:
  assumes "n < 128 ^ (4 - k)" "k \<le> 3"
  shows "read_remaining_length_loop acc (7 * k) (varint n @ rest) =
    Inr (acc + n * 2 ^ (7 * k), rest)"
  using assms
proof (induction n arbitrary: acc k rule: varint.induct)
  case (1 n)
  note unfolded = read_remaining_length_loop.simps [of acc "7 * k" "_ # _"] varint.simps [of n]
  show ?case
  proof (cases "n < 128")
    case True
    then show ?thesis by (simp add: unfolded seven_bits Let_def push_bit_eq_mult)
  next
    case False
    with "1.prems" have k: "k \<le> 2" by (cases "k = 3") auto
    then have "(128::nat) ^ (4 - k) = 128 * 128 ^ (4 - Suc k)"
      by (simp flip: power_Suc add: Suc_diff_le)
    with "1.prems" have "n div 128 < 128 ^ (4 - Suc k)"
      by (simp add: less_mult_imp_div_less mult.commute)
    then have "read_remaining_length_loop (acc + n mod 128 * 2 ^ (7 * k)) (7 * Suc k)
        (varint (n div 128) @ rest)
      = Inr (acc + n mod 128 * 2 ^ (7 * k) + n div 128 * 2 ^ (7 * Suc k), rest)"
      using k False by (intro "1.IH") auto
    moreover have "n mod 128 * 2 ^ (7 * k) + n div 128 * 2 ^ (7 * Suc k) = n * 2 ^ (7 * k)"
    proof -
      have "n * 2 ^ (7 * k) = (n div 128 * 128 + n mod 128) * 2 ^ (7 * k)" by simp
      also have "\<dots> = n mod 128 * 2 ^ (7 * k) + n div 128 * 2 ^ (7 * Suc k)"
        by (simp only: power_add add_mult_distrib mult_Suc_right) simp
      finally show ?thesis by simp
    qed
    ultimately show ?thesis
      using False k by (simp add: unfolded seven_bits Let_def push_bit_eq_mult add.assoc add.commute [of 7])
  qed
qed

lemma read_varint [wire]:
  "n \<le> 268435455 \<Longrightarrow> read_remaining_length (varint n @ rest) = Inr (n, rest)"
  using read_varint_loop [of n 0 0 rest] by (simp add: read_remaining_length_def)

lemma read_remaining_length_loop_bound:
  assumes "read_remaining_length_loop acc (7 * k) d = Inr (n, d')" "k \<le> 3"
  shows "n \<le> acc + (2 ^ 28 - 2 ^ (7 * k))"
  using assms
proof (induction acc "7 * k" d arbitrary: k rule: read_remaining_length_loop.induct)
  case (1 acc data)
  note unfolded = read_remaining_length_loop.simps [of acc "7 * k" data]
  from "1.prems" obtain byte rest where r: "read_u8 data = Inr (byte, rest)"
    by (cases "read_u8 data") (auto simp: unfolded)
  define acc' where "acc' = acc + push_bit (7 * k) (unat (byte AND 0x7f))"
  have "unat (byte AND 0x7f) < 128" by (simp add: unat_and_127)
  then have "unat (byte AND 0x7f) * 2 ^ (7 * k) \<le> 127 * 2 ^ (7 * k)" by simp
  then have acc': "acc' \<le> acc + 127 * 2 ^ (7 * k)"
    by (simp add: acc'_def push_bit_eq_mult)
  have next_pow: "(2::nat) ^ (7 * Suc k) = 128 * 2 ^ (7 * k)" by (simp add: power_add)
  have "(2::nat) ^ (7 * Suc k) \<le> 2 ^ 28" using "1.prems"(2) by (intro power_increasing) auto
  with next_pow have pow: "128 * 2 ^ (7 * k) \<le> (2::nat) ^ 28" by simp
  show ?case
  proof (cases "byte AND 0x80 = 0")
    case True
    with "1.prems" r have "n = acc'" by (simp add: unfolded Let_def acc'_def)
    with acc' pow show ?thesis by simp
  next
    case False
    with "1.prems" r have more: "7 * k + 7 \<le> 21"
      and rec: "read_remaining_length_loop acc' (7 * k + 7) rest = Inr (n, d')"
      by (auto simp: unfolded Let_def and_then_Inr_iff acc'_def)
    have "n \<le> acc' + (2 ^ 28 - 2 ^ (7 * Suc k))"
      using more rec False
      by (intro "1.hyps" [where k = "Suc k", OF r refl]) (auto simp: acc'_def add.commute)
    with acc' pow next_pow show ?thesis by simp
  qed
qed

lemma read_remaining_length_bound:
  "read_remaining_length d = Inr (n, d') \<Longrightarrow> n \<le> 268435455"
  using read_remaining_length_loop_bound [of 0 0 d n d'] by (simp add: read_remaining_length_def)

subsection \<open>The length estimate of \<open>bytes_remaining_length\<close>\<close>

text \<open>
  \<open>bytes_remaining_length\<close> announces how long \<open>varint n\<close> is. It is right except at the three
  upper ends, where its comparisons are strict: it is one too large for 16383 and 2097151, and
  refuses 268435455, which \<open>write_remaining_length\<close> accepts.
\<close>

definition off_by_one :: "nat \<Rightarrow> nat" where
  "off_by_one n = (if n = 16383 \<or> n = 2097151 then 1 else 0)"

lemma length_varint:
  "n \<le> 268435455 \<Longrightarrow> length (varint n) =
     (if n < 128 then 1 else if n < 16384 then 2 else if n < 2097152 then 3 else 4)"
proof -
  have less: "a div 128 < b \<longleftrightarrow> a < b * 128" for a b :: nat
    by (simp add: div_less_iff_less_mult)
  assume "n \<le> 268435455"
  then show ?thesis
    by (simp add: varint.simps [of n] varint.simps [of "n div 128"]
        varint.simps [of "n div 128 div 128"] varint.simps [of "n div 128 div 128 div 128"] less)
qed

lemma bytes_remaining_length_eq:
  "bytes_remaining_length n =
     (if n < 268435455 then Inr (length (varint n) + off_by_one n) else Inl PayloadTooLarge)"
  by (simp add: bytes_remaining_length_def length_varint off_by_one_def)

text \<open>
  The block \<open>bytes_remaining_length(n)? + n\<close> of every \<open>variable_header_length\<close>, and the bound
  under which a block of \<open>n\<close> bytes of properties is announced.
\<close>

definition props_size :: "nat \<Rightarrow> EncodeError + nat" where
  "props_size n = and_then (bytes_remaining_length n) (\<lambda>k. Inr (k + n))"

definition props_wire :: "bytes \<Rightarrow> bytes" where
  "props_wire w = varint (length w) @ w"

lemma props_size_wire [wire]:
  "length w < 268435455 \<Longrightarrow>
     props_size (length w) = Inr (length (props_wire w) + off_by_one (length w))"
  by (simp add: props_size_def props_wire_def bytes_remaining_length_eq)

subsection \<open>Readers on the wire formats\<close>

lemma read_u8_wire [wire]: "read_u8 (b # rest) = Inr (b, rest)"
  by simp

lemma read_u16_wire [wire]: "read_u16 (be16 w @ rest) = Inr (w, rest)"
  by (simp add: be16_def get_be16_be16)

lemma read_u32_wire [wire]: "read_u32 (be32 w @ rest) = Inr (w, rest)"
  by (simp add: be32_def get_be32_be32)

lemma read_bool_wire [wire]: "read_bool (bool_wire b @ rest) = Inr (b, rest)"
  by (simp add: read_bool_def bool_wire_def)

lemma unat_of_len: "n \<le> 65535 \<Longrightarrow> unat (word_of_nat n :: u16) = n"
  by (simp add: unat_of_nat)

lemma read_string_wire [wire]: "str_ok s \<Longrightarrow> read_string (str_wire s @ rest) = Inr (s, rest)"
  by (simp add: read_string_def str_wire_def wire unat_of_len str_ok_def valid_str_def Let_def)

lemma read_binary_wire [wire]: "bin_ok b \<Longrightarrow> read_binary (bin_wire b @ rest) = Inr (b, rest)"
  by (simp add: read_binary_def bin_wire_def wire unat_of_len bin_ok_def)

lemma read_properties_block_wire [wire]:
  assumes "length b \<le> 268435455"
  shows "read_properties_block (props_wire b @ rest) = Inr (b, rest)"
    "read_properties_block (props_wire b) = Inr (b, [])"
proof -
  show block: "read_properties_block (props_wire b @ rest) = Inr (b, rest)" for rest
    using assms by (simp add: read_properties_block_def props_wire_def wire)
  show "read_properties_block (props_wire b) = Inr (b, [])"
    using block [of "[]"] by simp
qed

lemma read_properties_wire [wire]:
  assumes "decode w = Inr p" "length w < 268435455"
  shows "read_properties decode (props_wire w @ rest) = Inr (p, rest)"
    "read_properties decode (props_wire w) = Inr (p, [])"
  using assms by (simp_all add: read_properties_def wire)

lemma read_packet_id_wire [wire]:
  "n \<noteq> 0 \<Longrightarrow> read_packet_id (be16 n @ rest) = Inr (n, rest)"
  by (simp add: read_packet_id_def wire)

lemma read_u16_wire_end [wire]: "read_u16 (be16 w) = Inr (w, [])"
  using read_u16_wire [of w "[]"] by simp

lemma read_packet_id_wire_end [wire]: "n \<noteq> 0 \<Longrightarrow> read_packet_id (be16 n) = Inr (n, [])"
  using read_packet_id_wire [of n "[]"] by simp

end
