(* ===== verification/Codec_Properties.thy ===== *)
theory Codec_Properties
  imports Codec_Writer
begin

text \<open>
  The interface between a packet and its block of properties. Every \<open>...Properties::decode\<close> is
  the same loop \<open>while data.has_remaining() { let flag = data.read_u8()?; match flag {...} }\<close>
  around its own \<open>match\<close>, here \<open>step\<close>. The locale \<open>properties_loop\<close> proves once what that loop
  does on the wire format of the properties; \<open>properties_codec\<close> is what a packet needs of its
  properties: the encoder appends their wire format, whose length \<open>bytes_length\<close> announces, the
  decoder inverts it, and what the decoder returns is well-formed. Each packet's theory
  interprets both on its own definitions.
\<close>

subsection \<open>Subscription identifiers\<close>

text \<open>
  A subscription identifier is a \<open>NonZeroUsize\<close> written as a variable-length integer.
\<close>

definition identifier_ok :: "nat \<Rightarrow> bool" where
  "identifier_ok i \<longleftrightarrow> 0 < i \<and> i \<le> 268435455"

text \<open>The \<open>try_fold\<close> over the identifiers in \<open>PublishProperties::bytes_length\<close>.\<close>

primrec identifiers_len :: "nat \<Rightarrow> nat list \<Rightarrow> EncodeError + nat" where
  "identifiers_len acc [] = Inr acc"
| "identifiers_len acc (i # ids) =
     and_then (bytes_remaining_length i) (\<lambda>sz. identifiers_len (acc + 1 + sz) ids)"

lemma identifiers_len_wire:
  "list_all (\<lambda>i. i < 268435455 \<and> off_by_one i = 0) ids \<Longrightarrow>
   identifiers_len acc ids = Inr (acc + length (concat (map (\<lambda>i. flag # varint i) ids)))"
  by (induction ids arbitrary: acc) (simp_all add: bytes_remaining_length_eq)

lemma identifier_len_wire:
  "opt_ok (\<lambda>i. i < 268435455 \<and> off_by_one i = 0) v \<Longrightarrow>
   prop_remaining_length_len v = Inr (length (wire_opt flag varint v))"
  by (cases v) (simp_all add: prop_remaining_length_len_def bytes_remaining_length_eq wire_opt_def)

lemma identifier_writers:
  "list_all identifier_ok ids \<Longrightarrow>
     for_each (\<lambda>i. block [put_slice [flag], write_remaining_length i]) ids
     = put_slice (concat (map (\<lambda>i. flag # varint i) ids))"
  "opt_ok identifier_ok v \<Longrightarrow>
     write_prop flag write_remaining_length v = put_slice (wire_opt flag varint v)"
proof -
  show "list_all identifier_ok ids \<Longrightarrow>
     for_each (\<lambda>i. block [put_slice [flag], write_remaining_length i]) ids
     = put_slice (concat (map (\<lambda>i. flag # varint i) ids))"
    by (rule for_each_slice) (auto simp: list_all_iff identifier_ok_def wire)
  show "opt_ok identifier_ok v \<Longrightarrow>
     write_prop flag write_remaining_length v = put_slice (wire_opt flag varint v)"
    by (erule write_prop_slice) (simp add: identifier_ok_def wire)
qed

lemma read_identifier_ok:
  "read_remaining_length d = Inr (n, d') \<Longrightarrow> n \<noteq> 0 \<longrightarrow> identifier_ok n"
  by (auto simp: identifier_ok_def dest: read_remaining_length_bound)

subsection \<open>The loop over the properties\<close>

locale properties_loop =
  fixes step :: "u8 \<Rightarrow> 'p \<Rightarrow> 'p reader" and loop :: "'p \<Rightarrow> bytes \<Rightarrow> DecodeError + 'p"
  assumes loop_unfold: "loop p data =
      (if data = [] then Inr p
       else and_then (read_u8 data) (\<lambda>(flag, data).
            and_then (step flag p data) (\<lambda>(p, data). loop p data)))"
    and step_shrinks: "step flag p data = Inr (p', data') \<Longrightarrow> length data' \<le> length data"
begin

lemma loop_Nil: "loop p [] = Inr p"
  by (simp add: loop_unfold [of p "[]"])

lemma loop_step: "step flag p data = Inr (p', data') \<Longrightarrow> loop p (flag # data) = loop p' data'"
  by (simp add: loop_unfold [of p "flag # data"])

lemma loop_error: "step flag p data = Inl e \<Longrightarrow> loop p (flag # data) = Inl e"
  by (simp add: loop_unfold [of p "flag # data"])

lemma loop_opt:
  assumes "\<And>x. v = Some x \<Longrightarrow> step flag p (f x @ rest) = Inr (p', rest)"
    and "v = None \<Longrightarrow> p' = p"
  shows "loop p (wire_opt flag f v @ rest) = loop p' rest"
  using assms by (cases v) (auto simp: wire_opt_def intro: loop_step)

lemma loop_opt_end:
  assumes "\<And>x. v = Some x \<Longrightarrow> step flag p (f x @ []) = Inr (p', [])"
    and "v = None \<Longrightarrow> p' = p"
  shows "loop p (wire_opt flag f v) = Inr p'"
  using loop_opt [OF assms] by (simp add: loop_Nil)

text \<open>A run of repeated properties folds their updates.\<close>

lemma loop_repeated:
  assumes "\<And>x p rest. x \<in> set xs \<Longrightarrow> step flag p (f x @ rest) = Inr (upd x p, rest)"
  shows "loop p (concat (map (\<lambda>x. flag # f x) xs) @ rest) = loop (fold upd xs p) rest"
  using assms
proof (induction xs arbitrary: p)
  case Nil
  then show ?case by simp
next
  case (Cons x xs)
  then have "loop p ((flag # f x @ (concat (map (\<lambda>x. flag # f x) xs) @ rest)))
    = loop (upd x p) (concat (map (\<lambda>x. flag # f x) xs) @ rest)"
    by (intro loop_step) simp
  with Cons show ?case by simp
qed

lemma loop_users:
  assumes "\<And>k v p rest. str_ok k \<Longrightarrow> str_ok v \<Longrightarrow>
      step USER_PROPERTY p (str_wire k @ str_wire v @ rest) = Inr (upd (k, v) p, rest)"
    and "pairs_ok kvs"
  shows "loop p (users_wire kvs @ rest) = loop (fold upd kvs p) rest"
proof -
  have "users_wire kvs = concat (map (\<lambda>kv. USER_PROPERTY # (str_wire (fst kv) @ str_wire (snd kv))) kvs)"
    by (simp add: users_wire_def kv_wire_def [abs_def])
  moreover have "step USER_PROPERTY p ((str_wire (fst kv) @ str_wire (snd kv)) @ rest) = Inr (upd kv p, rest)"
    if "kv \<in> set kvs" for kv p rest
    using assms(1) [of "fst kv" "snd kv"] assms(2) that
    by (auto simp: pairs_ok_def list_all_iff)
  ultimately show ?thesis by (simp only: loop_repeated)
qed

text \<open>What every step keeps, the loop keeps.\<close>

lemma loop_invariant:
  assumes step: "\<And>flag p data p' data'. I p \<Longrightarrow> step flag p data = Inr (p', data') \<Longrightarrow> I p'"
  shows "loop p data = Inr p' \<Longrightarrow> I p \<Longrightarrow> I p'"
proof (induction "length data" arbitrary: p data rule: less_induct)
  case less
  show ?case
  proof (cases data)
    case Nil
    with less.prems show ?thesis by (simp add: loop_Nil)
  next
    case (Cons flag rest)
    with less.prems(1) obtain q rest' where s: "step flag p rest = Inr (q, rest')"
      and l: "loop q rest' = Inr p'"
      by (cases "step flag p rest") (auto simp: Cons loop_step loop_error)
    have "length rest' < length data" using step_shrinks [OF s] Cons by simp
    then show ?thesis using l step [OF less.prems(2) s] by (rule less.hyps)
  qed
qed

end

text \<open>
  \<open>exact p\<close> says that \<open>bytes_length p\<close> announces the right number of bytes: it does for every
  well-formed value, except for subscription identifiers of the lengths at which
  \<open>bytes_remaining_length\<close> is wrong.
\<close>

locale properties_codec = properties_loop step loop
  for step :: "u8 \<Rightarrow> 'p \<Rightarrow> 'p reader" and loop :: "'p \<Rightarrow> bytes \<Rightarrow> DecodeError + 'p" +
  fixes initial :: 'p and encode :: "'p \<Rightarrow> writer" and bytes_length :: "'p \<Rightarrow> EncodeError + nat"
    and wire_of :: "'p \<Rightarrow> bytes" and wf :: "'p \<Rightarrow> bool" and exact :: "'p \<Rightarrow> bool"
  assumes encode_wire: "wf p \<Longrightarrow> encode p = put_slice (wire_of p)"
    and length_wire: "wf p \<Longrightarrow> exact p \<Longrightarrow> bytes_length p = Inr (length (wire_of p))"
    and decode_wire: "wf p \<Longrightarrow> loop initial (wire_of p) = Inr p"
    and wf_initial: "wf initial"
    and wf_step: "wf p \<Longrightarrow> step flag p data = Inr (p', data') \<Longrightarrow> wf p'"
begin

lemma decode_wf: "loop initial data = Inr p \<Longrightarrow> wf p"
  by (rule loop_invariant [where I = wf]) (auto intro: wf_step wf_initial)

lemma encode_block:
  assumes "wf p" "exact p" "length (wire_of p) \<le> 268435455"
  shows "block [let_ok (bytes_length p) write_remaining_length, encode p]
    = put_slice (props_wire (wire_of p))"
  using assms by (simp add: length_wire encode_wire wire props_wire_def)

end

subsection \<open>The contract of a packet\<close>

text \<open>
  What \<open>Packet\<close> and \<open>Codec\<close> rely on for each packet type. \<open>size_of\<close> is
  \<open>variable_header_length(level)? + payload_length(level)?\<close>, the remaining length that the
  encoder announces; \<open>body\<close> is the specification of the bytes behind the fixed header; \<open>limit\<close>
  is the comparison with \<open>max_size\<close>. On well-formed packets the encoder is \<open>framed\<close>: it writes
  the header byte, then checks the size against the limit, then writes the size and the body.
  The decoder inverts the body, up to what the protocol level has no place for: \<open>norm\<close> is the
  packet as a peer of that level sees it.
\<close>

definition framed :: "u8 \<Rightarrow> EncodeError + nat \<Rightarrow> (nat \<Rightarrow> bool) \<Rightarrow> bytes \<Rightarrow> writer" where
  "framed header size_of limit body = block [
     put_u8 header,
     let_ok size_of (\<lambda>size. block [
       ensure_w (limit size) EncodeError.PacketTooLarge,
       write_remaining_length size,
       put_slice body])]"

lemma framed_ok:
  "limit n \<Longrightarrow> n \<le> 268435455 \<Longrightarrow>
   framed header (Inr n) limit body = put_slice (header # varint n @ body)"
  by (simp add: framed_def wire)

lemma framed_apply:
  "framed header size_of limit body buf =
     (case size_of of
        Inl e \<Rightarrow> (Inl e, buf @ [header])
      | Inr n \<Rightarrow>
          if \<not> limit n then (Inl EncodeError.PacketTooLarge, buf @ [header])
          else if 268435455 < n then (Inl PayloadTooLarge, buf @ [header])
          else (Inr (), buf @ header # varint n @ body))"
proof (cases size_of)
  case (Inr n)
  then show ?thesis
    by (cases "limit n"; cases "n \<le> 268435455")
      (simp_all add: framed_ok put_slice_apply, simp_all add: framed_def put_u8_def let_ok_def
        block.simps put_slice_apply ensure_w_def write_remaining_length_def ensure_def)
qed (simp add: framed_def put_u8_def block.simps put_slice_apply let_ok_def)

locale packet_codec =
  fixes header :: "'p \<Rightarrow> u8" and size_of :: "ProtocolLevel \<Rightarrow> 'p \<Rightarrow> EncodeError + nat"
    and encode :: "'p \<Rightarrow> ProtocolLevel \<Rightarrow> nat \<Rightarrow> writer"
    and decode :: "bytes \<Rightarrow> ProtocolLevel \<Rightarrow> u8 \<Rightarrow> DecodeError + 'p"
    and body :: "ProtocolLevel \<Rightarrow> 'p \<Rightarrow> bytes" and ok :: "ProtocolLevel \<Rightarrow> 'p \<Rightarrow> bool"
    and norm :: "ProtocolLevel \<Rightarrow> 'p \<Rightarrow> 'p" and limit :: "nat \<Rightarrow> nat \<Rightarrow> bool"
  assumes encode_framed: "ok level p \<Longrightarrow>
      encode p level max_size = framed (header p) (size_of level p) (\<lambda>n. limit n max_size) (body level p)"
    and decode_body: "ok level p \<Longrightarrow> decode (body level p) level (header p) = Inr (norm level p)"
begin

lemma roundtrip:
  assumes "ok level p" "size_of level p = Inr (length (body level p))"
    and "limit (length (body level p)) max_size" "length (body level p) \<le> 268435455"
  shows "encode p level max_size
      = put_slice (header p # varint (length (body level p)) @ body level p)"
    and "decode (body level p) level (header p) = Inr (norm level p)"
  using assms by (simp_all add: encode_framed framed_ok decode_body)

text \<open>An encoder that fails has written exactly the header byte.\<close>

lemma failure_residue:
  assumes "ok level p" "encode p level max_size buf = (Inl e, buf')"
  shows "buf' = buf @ [header p]"
  using assms by (auto simp: encode_framed framed_apply split: sum.splits if_splits)

end

end
