(* ===== verification/Packet_Publish.thy ===== *)
theory Packet_Publish
  imports Codec_Properties
begin

text \<open>
  \<open>libs/codec/src/publish.rs\<close>: the PUBLISH packet.
\<close>

unbundle bit_operations_syntax

subsection \<open>PublishProperties\<close>

record PublishProperties =
  pubprop_payload_format_indicator :: "bool option"
  pubprop_message_expiry_interval :: "u32 option"
  pubprop_topic_alias :: "u16 option"
  pubprop_response_topic :: "string option"
  pubprop_correlation_data :: "bytes option"
  pubprop_user_properties :: "(string \<times> string) list"
  pubprop_subscription_identifiers :: "nat list"
  pubprop_content_type :: "string option"

definition PublishProperties_default :: PublishProperties where
  "PublishProperties_default = \<lparr>pubprop_payload_format_indicator = None, pubprop_message_expiry_interval = None,
     pubprop_topic_alias = None, pubprop_response_topic = None, pubprop_correlation_data =
     None, pubprop_user_properties = [], pubprop_subscription_identifiers = [],
     pubprop_content_type = None\<rparr>"

definition PublishProperties_bytes_length :: "PublishProperties \<Rightarrow> EncodeError + nat" where
  "PublishProperties_bytes_length p = and_then (identifiers_len 0 (pubprop_subscription_identifiers p)) (\<lambda>ids_len.
   Inr (
     prop_len (pubprop_payload_format_indicator p) 1
   + prop_len (pubprop_message_expiry_interval p) 4
   + prop_len (pubprop_topic_alias p) 2
   + prop_data_len (pubprop_response_topic p)
   + prop_data_len (pubprop_correlation_data p)
   + user_properties_len (pubprop_user_properties p)
   + ids_len
   + prop_data_len (pubprop_content_type p)))"

definition PublishProperties_step :: "u8 \<Rightarrow> PublishProperties \<Rightarrow> PublishProperties reader" where
  "PublishProperties_step flag p data =
    (if flag = PAYLOAD_FORMAT_INDICATOR then
       and_then (read_bool data) (\<lambda>(v, data). Inr (p\<lparr>pubprop_payload_format_indicator := Some v\<rparr>, data))
     else if flag = MESSAGE_EXPIRY_INTERVAL then
       and_then (read_u32 data) (\<lambda>(v, data). Inr (p\<lparr>pubprop_message_expiry_interval := Some v\<rparr>, data))
     else if flag = TOPIC_ALIAS then
       and_then (read_u16 data) (\<lambda>(v, data).
       and_then (ok_or InvalidTopicAlias (nonzero v)) (\<lambda>v.
       Inr (p\<lparr>pubprop_topic_alias := Some v\<rparr>, data)))
     else if flag = RESPONSE_TOPIC then
       and_then (read_string data) (\<lambda>(v, data). Inr (p\<lparr>pubprop_response_topic := Some v\<rparr>, data))
     else if flag = CORRELATION_DATA then
       and_then (read_binary data) (\<lambda>(v, data). Inr (p\<lparr>pubprop_correlation_data := Some v\<rparr>, data))
     else if flag = USER_PROPERTY then
       and_then (read_string data) (\<lambda>(key, data).
       and_then (read_string data) (\<lambda>(value, data).
       Inr (p\<lparr>pubprop_user_properties := pubprop_user_properties p @ [(key, value)]\<rparr>, data)))
     else if flag = SUBSCRIPTION_IDENTIFIER then
       and_then (read_remaining_length data) (\<lambda>(v, data).
       and_then (ok_or DecodeError.MalformedPacket (nonzero v)) (\<lambda>v.
       Inr (p\<lparr>pubprop_subscription_identifiers := pubprop_subscription_identifiers p @ [v]\<rparr>, data)))
     else if flag = CONTENT_TYPE then
       and_then (read_string data) (\<lambda>(v, data). Inr (p\<lparr>pubprop_content_type := Some v\<rparr>, data))
     else Inl (InvalidPublishProperty flag))"

lemma PublishProperties_step_shrinks [shrinks]:
  "PublishProperties_step flag p data = Inr (p', data') \<Longrightarrow> length data' \<le> length data"
  by (auto simp: PublishProperties_step_def and_then_Inr_iff split: if_splits dest!: shrinks)

function PublishProperties_loop :: "PublishProperties \<Rightarrow> bytes \<Rightarrow> DecodeError + PublishProperties" where
  "PublishProperties_loop p data =
     (if data = [] then Inr p
      else and_then (read_u8 data) (\<lambda>(flag, data).
           and_then (PublishProperties_step flag p data) (\<lambda>(p, data). PublishProperties_loop p data)))"
  by pat_completeness auto
termination by (relation "measure (\<lambda>(p, data). length data)") (auto dest!: shrinks)

declare PublishProperties_loop.simps [simp del]

definition PublishProperties_decode :: "bytes \<Rightarrow> DecodeError + PublishProperties" where
  "PublishProperties_decode data =
     and_then (PublishProperties_loop PublishProperties_default data) (\<lambda>p.
     Inr (p\<lparr>pubprop_subscription_identifiers := sort (pubprop_subscription_identifiers p)\<rparr>))"

definition PublishProperties_encode :: "PublishProperties \<Rightarrow> writer" where
  "PublishProperties_encode p = block [
     write_prop PAYLOAD_FORMAT_INDICATOR write_bool (pubprop_payload_format_indicator p),
     write_prop MESSAGE_EXPIRY_INTERVAL put_u32 (pubprop_message_expiry_interval p),
     write_prop TOPIC_ALIAS put_u16 (pubprop_topic_alias p),
     write_prop RESPONSE_TOPIC write_string (pubprop_response_topic p),
     write_prop CORRELATION_DATA write_binary (pubprop_correlation_data p),
     write_user_properties (pubprop_user_properties p),
     for_each (\<lambda>i. block [put_u8 SUBSCRIPTION_IDENTIFIER, write_remaining_length i]) (pubprop_subscription_identifiers p),
     write_prop CONTENT_TYPE write_string (pubprop_content_type p)]"

text \<open>What the types of the fields guarantee, and the limits of the length prefixes.\<close>

definition PublishProperties_ok :: "PublishProperties \<Rightarrow> bool" where
  "PublishProperties_ok p \<longleftrightarrow>
     opt_ok (\<lambda>v. v \<noteq> 0) (pubprop_topic_alias p) \<and>
     opt_ok str_ok (pubprop_response_topic p) \<and>
     opt_ok bin_ok (pubprop_correlation_data p) \<and>
     pairs_ok (pubprop_user_properties p) \<and>
     list_all identifier_ok (pubprop_subscription_identifiers p) \<and>
     opt_ok str_ok (pubprop_content_type p)"

definition PublishProperties_wire :: "PublishProperties \<Rightarrow> bytes" where
  "PublishProperties_wire p =
     wire_opt PAYLOAD_FORMAT_INDICATOR bool_wire (pubprop_payload_format_indicator p)
   @ wire_opt MESSAGE_EXPIRY_INTERVAL be32 (pubprop_message_expiry_interval p)
   @ wire_opt TOPIC_ALIAS be16 (pubprop_topic_alias p)
   @ wire_opt RESPONSE_TOPIC str_wire (pubprop_response_topic p)
   @ wire_opt CORRELATION_DATA bin_wire (pubprop_correlation_data p)
   @ users_wire (pubprop_user_properties p)
   @ concat (map (\<lambda>i. SUBSCRIPTION_IDENTIFIER # varint i) (pubprop_subscription_identifiers p))
   @ wire_opt CONTENT_TYPE str_wire (pubprop_content_type p)"

interpretation pubprop_loop: properties_loop PublishProperties_step PublishProperties_loop
  by unfold_locales (rule PublishProperties_loop.simps, rule PublishProperties_step_shrinks)

lemma PublishProperties_fields:
  shows "pubprop_payload_format_indicator p = None \<Longrightarrow>
    PublishProperties_loop p (wire_opt PAYLOAD_FORMAT_INDICATOR bool_wire vb @ rest)
    = PublishProperties_loop (p\<lparr>pubprop_payload_format_indicator := vb\<rparr>) rest"
  and "pubprop_message_expiry_interval p = None \<Longrightarrow>
    PublishProperties_loop p (wire_opt MESSAGE_EXPIRY_INTERVAL be32 v32 @ rest)
    = PublishProperties_loop (p\<lparr>pubprop_message_expiry_interval := v32\<rparr>) rest"
  and "pubprop_topic_alias p = None \<Longrightarrow> opt_ok (\<lambda>v. v \<noteq> 0) v16 \<Longrightarrow>
    PublishProperties_loop p (wire_opt TOPIC_ALIAS be16 v16 @ rest)
    = PublishProperties_loop (p\<lparr>pubprop_topic_alias := v16\<rparr>) rest"
  and "pubprop_response_topic p = None \<Longrightarrow> opt_ok str_ok vs \<Longrightarrow>
    PublishProperties_loop p (wire_opt RESPONSE_TOPIC str_wire vs @ rest)
    = PublishProperties_loop (p\<lparr>pubprop_response_topic := vs\<rparr>) rest"
  and "pubprop_correlation_data p = None \<Longrightarrow> opt_ok bin_ok vd \<Longrightarrow>
    PublishProperties_loop p (wire_opt CORRELATION_DATA bin_wire vd @ rest)
    = PublishProperties_loop (p\<lparr>pubprop_correlation_data := vd\<rparr>) rest"
  and "pubprop_content_type p = None \<Longrightarrow> opt_ok str_ok vs \<Longrightarrow>
    PublishProperties_loop p (wire_opt CONTENT_TYPE str_wire vs @ rest)
    = PublishProperties_loop (p\<lparr>pubprop_content_type := vs\<rparr>) rest"
  by (rule pubprop_loop.loop_opt; simp add: PublishProperties_step_def wire identifier_ok_def)+

lemma PublishProperties_users:
  assumes "pairs_ok kvs"
  shows "PublishProperties_loop p (users_wire kvs @ rest)
    = PublishProperties_loop (p\<lparr>pubprop_user_properties := pubprop_user_properties p @ kvs\<rparr>) rest"
proof -
  have "fold (\<lambda>kv p. p\<lparr>pubprop_user_properties := pubprop_user_properties p @ [kv]\<rparr>) kvs p
    = p\<lparr>pubprop_user_properties := pubprop_user_properties p @ kvs\<rparr>" for kvs and p :: PublishProperties
    by (induction kvs arbitrary: p) simp_all
  then show ?thesis
    using assms pubprop_loop.loop_users [where kvs = kvs and p = p and rest = rest
        and upd = "\<lambda>kv p. p\<lparr>pubprop_user_properties := pubprop_user_properties p @ [kv]\<rparr>"]
    by (simp add: PublishProperties_step_def wire)
qed

lemma PublishProperties_identifiers:
  assumes "list_all identifier_ok ids"
  shows "PublishProperties_loop p (concat (map (\<lambda>i. SUBSCRIPTION_IDENTIFIER # varint i) ids) @ rest)
    = PublishProperties_loop (p\<lparr>pubprop_subscription_identifiers := pubprop_subscription_identifiers p @ ids\<rparr>) rest"
proof -
  have "fold (\<lambda>v p. p\<lparr>pubprop_subscription_identifiers := pubprop_subscription_identifiers p @ [v]\<rparr>) ids p
    = p\<lparr>pubprop_subscription_identifiers := pubprop_subscription_identifiers p @ ids\<rparr>" for ids and p :: PublishProperties
    by (induction ids arbitrary: p) simp_all
  then show ?thesis
    using assms pubprop_loop.loop_repeated [where xs = ids and p = p and rest = rest and f = varint
        and flag = SUBSCRIPTION_IDENTIFIER and upd = "\<lambda>v p. p\<lparr>pubprop_subscription_identifiers := pubprop_subscription_identifiers p @ [v]\<rparr>"]
    by (simp add: PublishProperties_step_def wire list_all_iff identifier_ok_def)
qed

lemmas PublishProperties_decode_rules =
  PublishProperties_fields PublishProperties_users PublishProperties_identifiers pubprop_loop.loop_Nil
  PublishProperties_fields [where rest = "[]", simplified]
      PublishProperties_users [where rest = "[]", simplified]
      PublishProperties_identifiers [where rest = "[]", simplified]

interpretation pubprop_codec: properties_codec PublishProperties_step PublishProperties_loop
  PublishProperties_default PublishProperties_encode PublishProperties_bytes_length
  PublishProperties_wire PublishProperties_ok "\<lambda>p. list_all (\<lambda>i. i < 268435455 \<and> off_by_one i = 0) (pubprop_subscription_identifiers p)"
proof unfold_locales
  fix p q flag data data'
  show "PublishProperties_ok p \<Longrightarrow> PublishProperties_encode p = put_slice (PublishProperties_wire p)"
    by (simp add: PublishProperties_encode_def PublishProperties_wire_def PublishProperties_ok_def wire identifier_writers)
  show "list_all (\<lambda>i. i < 268435455 \<and> off_by_one i = 0) (pubprop_subscription_identifiers p) \<Longrightarrow> PublishProperties_bytes_length p = Inr (length (PublishProperties_wire p))"
    by (simp add: PublishProperties_bytes_length_def PublishProperties_wire_def identifiers_len_wire [where flag = SUBSCRIPTION_IDENTIFIER])
  show "PublishProperties_ok p \<Longrightarrow> PublishProperties_loop PublishProperties_default (PublishProperties_wire p) = Inr p"
    by (simp add: PublishProperties_wire_def PublishProperties_default_def PublishProperties_ok_def PublishProperties_decode_rules)
  show "PublishProperties_ok PublishProperties_default"
    by (simp add: PublishProperties_ok_def PublishProperties_default_def)
  show "PublishProperties_ok p \<Longrightarrow> PublishProperties_step flag p data = Inr (q, data') \<Longrightarrow> PublishProperties_ok q"
    by (auto simp: PublishProperties_ok_def PublishProperties_step_def and_then_Inr_iff
        split: if_splits dest!: read_string_ok read_binary_ok read_identifier_ok)
qed

text \<open>The properties a packet can announce and carry.\<close>

definition PublishProperties_fits :: "PublishProperties \<Rightarrow> bool" where
  "PublishProperties_fits p \<longleftrightarrow> PublishProperties_ok p \<and>
     list_all (\<lambda>i. i < 268435455 \<and> off_by_one i = 0) (pubprop_subscription_identifiers p) \<and>
     sorted (pubprop_subscription_identifiers p) \<and>
     length (PublishProperties_wire p) < 268435455"

lemma PublishProperties_length_wire [wire]:
  "PublishProperties_fits p \<Longrightarrow> PublishProperties_bytes_length p = Inr (length (PublishProperties_wire p))"
  by (rule pubprop_codec.length_wire) (auto simp: PublishProperties_fits_def)

lemma PublishProperties_fits_length: "PublishProperties_fits p \<Longrightarrow> length (PublishProperties_wire p) < 268435455"
  by (simp add: PublishProperties_fits_def)

lemma PublishProperties_encode_block:
  "PublishProperties_fits p \<Longrightarrow>
   block [let_ok (PublishProperties_bytes_length p) write_remaining_length, PublishProperties_encode p]
   = put_slice (props_wire (PublishProperties_wire p))"
  by (rule pubprop_codec.encode_block) (auto simp: PublishProperties_fits_def)

lemma PublishProperties_decode_wire [wire]:
  "PublishProperties_fits p \<Longrightarrow> PublishProperties_decode (PublishProperties_wire p) = Inr p"
  by (cases p) (simp add: PublishProperties_decode_def PublishProperties_fits_def pubprop_codec.decode_wire sorted_sort_id)

lemma PublishProperties_decode_wf: "PublishProperties_decode data = Inr p \<Longrightarrow> PublishProperties_ok p"
  using pubprop_codec.decode_wf
  by (fastforce simp: PublishProperties_decode_def PublishProperties_ok_def and_then_Inr_iff list_all_iff)

subsection \<open>Publish\<close>

record Publish =
  publish_dup :: bool
  publish_qos :: Qos
  publish_retain :: bool
  publish_topic :: string
  publish_packet_id :: "u16 option"
  publish_properties :: PublishProperties
  publish_payload :: bytes

definition Publish_decode :: "bytes \<Rightarrow> ProtocolLevel \<Rightarrow> u8 \<Rightarrow> DecodeError + Publish" where
  "Publish_decode data level flags =
     (let dup = flags AND 0b1000 > 0;
          n_qos = drop_bit 1 (flags AND 0b110) in
     and_then (ok_or (InvalidQOS n_qos) (Qos_try_from n_qos)) (\<lambda>qos.
     let retain = flags AND 0b1 > 0 in
     and_then (read_string data) (\<lambda>(topic, data).
     and_then
       (if qos \<noteq> AtMostOnce then
          and_then (read_packet_id data) (\<lambda>(packet_id, data). Inr (Some packet_id, data))
        else Inr (None, data)) (\<lambda>(packet_id, data).
     and_then
       (if level = V5 then read_properties PublishProperties_decode data
        else Inr (PublishProperties_default, data)) (\<lambda>(properties, data).
     Inr \<lparr>publish_dup = dup, publish_qos = qos, publish_retain = retain, publish_topic = topic,
          publish_packet_id = packet_id, publish_properties = properties,
          publish_payload = data\<rparr>)))))"

text \<open>\<open>bytes_length\<close> of the properties is computed, and may fail, at both levels.\<close>

definition Publish_variable_header_length :: "Publish \<Rightarrow> ProtocolLevel \<Rightarrow> EncodeError + nat" where
  "Publish_variable_header_length p level =
     (let len = 2 + length (publish_topic p) + (if publish_qos p \<noteq> AtMostOnce then 2 else 0) in
      and_then (PublishProperties_bytes_length (publish_properties p)) (\<lambda>properties_len.
      if level = V5 then
        and_then (props_size properties_len) (\<lambda>n. Inr (len + n))
      else Inr len))"

definition Publish_payload_length :: "Publish \<Rightarrow> ProtocolLevel \<Rightarrow> EncodeError + nat" where
  "Publish_payload_length p level = Inr (length (publish_payload p))"

definition Publish_size :: "ProtocolLevel \<Rightarrow> Publish \<Rightarrow> EncodeError + nat" where
  "Publish_size level p =
     and_then (Publish_variable_header_length p level) (\<lambda>a.
     and_then (Publish_payload_length p level) (\<lambda>b. Inr (a + b)))"

definition Publish_flag :: "Publish \<Rightarrow> u8" where
  "Publish_flag p =
     (let flag = 0; flag = (if publish_dup p then flag OR 0b1000 else flag);
          flag = flag OR push_bit 1 (Qos_u8 (publish_qos p))
      in if publish_retain p then flag OR 0b1 else flag)"

definition Publish_encode_body :: "ProtocolLevel \<Rightarrow> Publish \<Rightarrow> writer" where
  "Publish_encode_body level p = block [
     write_string (publish_topic p),
     if_some (publish_packet_id p) put_u16,
     if_true (level = V5) (block [
       let_ok (PublishProperties_bytes_length (publish_properties p)) write_remaining_length,
       PublishProperties_encode (publish_properties p)]),
     put_slice (publish_payload p)]"

text \<open>Here the limit is inclusive, in the other packets it is exclusive.\<close>

definition Publish_encode :: "Publish \<Rightarrow> ProtocolLevel \<Rightarrow> nat \<Rightarrow> writer" where
  "Publish_encode p level max_size = block [
     ensure_w (publish_qos p = AtMostOnce \<or> publish_packet_id p \<noteq> None) RequirePacketId,
     put_u8 (push_bit 4 PUBLISH OR Publish_flag p),
     let_ok (Publish_size level p) (\<lambda>size. block [
       ensure_w (size \<le> max_size) EncodeError.PacketTooLarge,
       write_remaining_length size,
       Publish_encode_body level p])]"

text \<open>The wire format.\<close>

definition Publish_header :: "Publish \<Rightarrow> u8" where
  "Publish_header p = push_bit 4 PUBLISH OR Publish_flag p"

definition Publish_body :: "ProtocolLevel \<Rightarrow> Publish \<Rightarrow> bytes" where
  "Publish_body level p = str_wire (publish_topic p)
   @ (case publish_packet_id p of Some n \<Rightarrow> be16 n | None \<Rightarrow> [])
   @ (if level = V5 then props_wire (PublishProperties_wire (publish_properties p)) else [])
   @ publish_payload p"

text \<open>
  A packet identifier is there exactly if the quality of service needs one: with level 0 the
  encoder would write an identifier that its size does not count and the decoder does not read.
\<close>

definition Publish_ok :: "ProtocolLevel \<Rightarrow> Publish \<Rightarrow> bool" where
  "Publish_ok level p \<longleftrightarrow> str_ok (publish_topic p) \<and>
     (publish_packet_id p = None \<longleftrightarrow> publish_qos p = AtMostOnce) \<and>
     opt_ok (\<lambda>n. n \<noteq> 0) (publish_packet_id p) \<and>
     PublishProperties_fits (publish_properties p)"

definition Publish_norm :: "ProtocolLevel \<Rightarrow> Publish \<Rightarrow> Publish" where
  "Publish_norm level p =
     (case level of V4 \<Rightarrow> p\<lparr>publish_properties := PublishProperties_default\<rparr> | V5 \<Rightarrow> p)"

definition Publish_exact :: "ProtocolLevel \<Rightarrow> Publish \<Rightarrow> bool" where
  "Publish_exact level p \<longleftrightarrow>
     level = V5 \<longrightarrow> off_by_one (length (PublishProperties_wire (publish_properties p))) = 0"

lemma Publish_header_bits:
  "Publish_header p AND 0b1000 > 0 \<longleftrightarrow> publish_dup p"
  "drop_bit 1 (Publish_header p AND 0b110) = Qos_u8 (publish_qos p)"
  "Publish_header p AND 0b1 > 0 \<longleftrightarrow> publish_retain p"
  "drop_bit 4 (Publish_header p) = PUBLISH"
  by (cases "publish_dup p"; cases "publish_qos p"; cases "publish_retain p";
      simp add: Publish_header_def Publish_flag_def)+

lemma Publish_encode_body_wire:
  "Publish_ok level p \<Longrightarrow> Publish_encode_body level p = put_slice (Publish_body level p)"
  using PublishProperties_encode_block [of "publish_properties p"]
  by (cases level; cases "publish_packet_id p")
    (auto simp: Publish_encode_body_def Publish_body_def Publish_ok_def wire)

lemma Publish_decode_wire:
  assumes "Publish_ok level p"
  shows "Publish_decode (Publish_body level p) level (Publish_header p) = Inr (Publish_norm level p)"
proof -
  let ?id = "case publish_packet_id p of Some n \<Rightarrow> be16 n | None \<Rightarrow> []"
  have packet_id: "(if publish_qos p \<noteq> AtMostOnce then
       and_then (read_packet_id (?id @ rest)) (\<lambda>(packet_id, data). Inr (Some packet_id, data))
     else Inr (None, ?id @ rest)) = Inr (publish_packet_id p, rest)" for rest
    using assms by (cases "publish_packet_id p") (auto simp: Publish_ok_def wire)
  let ?props = "if level = V5 then props_wire (PublishProperties_wire (publish_properties p)) else []"
  have props: "(if level = V5 then read_properties PublishProperties_decode (?props @ rest)
     else Inr (PublishProperties_default, ?props @ rest))
     = Inr (publish_properties (Publish_norm level p), rest)" for rest
    using assms PublishProperties_fits_length [of "publish_properties p"]
    by (cases level) (auto simp: Publish_ok_def Publish_norm_def wire)
  have norm: "Publish_norm level p = p\<lparr>publish_properties := publish_properties (Publish_norm level p)\<rparr>"
    by (cases level) (simp_all add: Publish_norm_def)
  have "Publish_decode (Publish_body level p) level (Publish_header p)
    = Inr (p\<lparr>publish_properties := publish_properties (Publish_norm level p)\<rparr>)"
    using assms
    by (simp only: Publish_decode_def Let_def Publish_header_bits Qos_roundtrip)
      (simp add: Publish_body_def read_string_wire Publish_ok_def packet_id props split del: if_split)
  with norm show ?thesis by simp
qed

lemma Publish_size_eq:
  "Publish_ok level p \<Longrightarrow> Publish_exact level p \<Longrightarrow>
   Publish_size level p = Inr (length (Publish_body level p))"
  using PublishProperties_fits_length [of "publish_properties p"]
  by (cases level; cases "publish_packet_id p")
    (auto simp: Publish_size_def Publish_variable_header_length_def Publish_payload_length_def
      Publish_body_def Publish_ok_def Publish_exact_def wire)

lemma Publish_decode_wf:
  assumes "Publish_decode data level flags = Inr p"
  shows "str_ok (publish_topic p)" "publish_packet_id p = None \<longleftrightarrow> publish_qos p = AtMostOnce"
    "opt_ok (\<lambda>n. n \<noteq> 0) (publish_packet_id p)" "PublishProperties_ok (publish_properties p)"
proof -
  show "str_ok (publish_topic p)" "publish_packet_id p = None \<longleftrightarrow> publish_qos p = AtMostOnce"
    "opt_ok (\<lambda>n. n \<noteq> 0) (publish_packet_id p)"
    using assms by (auto simp: Publish_decode_def Let_def and_then_Inr_iff split: if_splits
        dest: read_packet_id_ok read_string_ok)
  show "PublishProperties_ok (publish_properties p)"
    using assms PublishProperties_decode_wf pubprop_codec.wf_initial
    by (auto simp: Publish_decode_def Let_def and_then_Inr_iff split: if_splits
        elim!: read_properties_ok)
qed

lemma block_ensure: "c \<Longrightarrow> block (ensure_w c e # ws) = block ws"
  by (simp add: fun_eq_iff block.simps ensure_w_def)

interpretation publish: packet_codec Publish_header Publish_size Publish_encode
  Publish_decode Publish_body Publish_ok Publish_norm "(\<le>)"
proof unfold_locales
  fix level p max_size
  assume ok: "Publish_ok level p"
  then have "publish_qos p = AtMostOnce \<or> publish_packet_id p \<noteq> None"
    by (auto simp: Publish_ok_def)
  then show "Publish_encode p level max_size
    = framed (Publish_header p) (Publish_size level p) (\<lambda>n. n \<le> max_size) (Publish_body level p)"
    by (simp add: Publish_encode_def framed_def block_ensure Publish_encode_body_wire [OF ok]
        Publish_header_def del: push_bit_numeral cong del: let_ok_cong)
  show "Publish_decode (Publish_body level p) level (Publish_header p) = Inr (Publish_norm level p)"
    using ok by (rule Publish_decode_wire)
qed

end
