(* ===== verification/Packet_Connect.thy ===== *)
theory Packet_Connect
  imports Codec_Properties
begin

text \<open>
  \<open>libs/codec/src/connect.rs\<close>: the CONNECT packet with its properties and its last will. Fields
  of all records carry a prefix for their struct, since record fields are global names here.
\<close>

unbundle bit_operations_syntax

subsection \<open>WillProperties\<close>

record WillProperties =
  will_delay_interval :: "u32 option"
  will_payload_format_indicator :: "bool option"
  will_message_expiry_interval :: "u32 option"
  will_content_type :: "string option"
  will_response_topic :: "string option"
  will_correlation_data :: "bytes option"
  will_user_properties :: "(string \<times> string) list"

definition WillProperties_default :: WillProperties where
  "WillProperties_default = \<lparr>will_delay_interval = None, will_payload_format_indicator = None,
     will_message_expiry_interval = None, will_content_type = None, will_response_topic =
     None, will_correlation_data = None, will_user_properties = []\<rparr>"

definition WillProperties_bytes_length :: "WillProperties \<Rightarrow> EncodeError + nat" where
  "WillProperties_bytes_length p = Inr (
     prop_len (will_delay_interval p) 4
   + prop_len (will_payload_format_indicator p) 1
   + prop_len (will_message_expiry_interval p) 4
   + prop_data_len (will_content_type p)
   + prop_data_len (will_response_topic p)
   + prop_data_len (will_correlation_data p)
   + user_properties_len (will_user_properties p))"

definition WillProperties_step :: "u8 \<Rightarrow> WillProperties \<Rightarrow> WillProperties reader" where
  "WillProperties_step flag p data =
    (if flag = WILL_DELAY_INTERVAL then
       and_then (read_u32 data) (\<lambda>(v, data). Inr (p\<lparr>will_delay_interval := Some v\<rparr>, data))
     else if flag = PAYLOAD_FORMAT_INDICATOR then
       and_then (read_bool data) (\<lambda>(v, data). Inr (p\<lparr>will_payload_format_indicator := Some v\<rparr>, data))
     else if flag = MESSAGE_EXPIRY_INTERVAL then
       and_then (read_u32 data) (\<lambda>(v, data). Inr (p\<lparr>will_message_expiry_interval := Some v\<rparr>, data))
     else if flag = CONTENT_TYPE then
       and_then (read_string data) (\<lambda>(v, data). Inr (p\<lparr>will_content_type := Some v\<rparr>, data))
     else if flag = RESPONSE_TOPIC then
       and_then (read_string data) (\<lambda>(v, data). Inr (p\<lparr>will_response_topic := Some v\<rparr>, data))
     else if flag = CORRELATION_DATA then
       and_then (read_binary data) (\<lambda>(v, data). Inr (p\<lparr>will_correlation_data := Some v\<rparr>, data))
     else if flag = USER_PROPERTY then
       and_then (read_string data) (\<lambda>(key, data).
       and_then (read_string data) (\<lambda>(value, data).
       Inr (p\<lparr>will_user_properties := will_user_properties p @ [(key, value)]\<rparr>, data)))
     else Inl (InvalidWillProperty flag))"

lemma WillProperties_step_shrinks [shrinks]:
  "WillProperties_step flag p data = Inr (p', data') \<Longrightarrow> length data' \<le> length data"
  by (auto simp: WillProperties_step_def and_then_Inr_iff split: if_splits dest!: shrinks)

function WillProperties_loop :: "WillProperties \<Rightarrow> bytes \<Rightarrow> DecodeError + WillProperties" where
  "WillProperties_loop p data =
     (if data = [] then Inr p
      else and_then (read_u8 data) (\<lambda>(flag, data).
           and_then (WillProperties_step flag p data) (\<lambda>(p, data). WillProperties_loop p data)))"
  by pat_completeness auto
termination by (relation "measure (\<lambda>(p, data). length data)") (auto dest!: shrinks)

declare WillProperties_loop.simps [simp del]

definition WillProperties_decode :: "bytes \<Rightarrow> DecodeError + WillProperties" where
  "WillProperties_decode data = WillProperties_loop WillProperties_default data"

definition WillProperties_encode :: "WillProperties \<Rightarrow> writer" where
  "WillProperties_encode p = block [
     write_prop WILL_DELAY_INTERVAL put_u32 (will_delay_interval p),
     write_prop PAYLOAD_FORMAT_INDICATOR write_bool (will_payload_format_indicator p),
     write_prop MESSAGE_EXPIRY_INTERVAL put_u32 (will_message_expiry_interval p),
     write_prop CONTENT_TYPE write_string (will_content_type p),
     write_prop RESPONSE_TOPIC write_string (will_response_topic p),
     write_prop CORRELATION_DATA write_binary (will_correlation_data p),
     write_user_properties (will_user_properties p)]"

text \<open>What the types of the fields guarantee, and the limits of the length prefixes.\<close>

definition WillProperties_ok :: "WillProperties \<Rightarrow> bool" where
  "WillProperties_ok p \<longleftrightarrow>
     opt_ok str_ok (will_content_type p) \<and>
     opt_ok str_ok (will_response_topic p) \<and>
     opt_ok bin_ok (will_correlation_data p) \<and>
     pairs_ok (will_user_properties p)"

definition WillProperties_wire :: "WillProperties \<Rightarrow> bytes" where
  "WillProperties_wire p =
     wire_opt WILL_DELAY_INTERVAL be32 (will_delay_interval p)
   @ wire_opt PAYLOAD_FORMAT_INDICATOR bool_wire (will_payload_format_indicator p)
   @ wire_opt MESSAGE_EXPIRY_INTERVAL be32 (will_message_expiry_interval p)
   @ wire_opt CONTENT_TYPE str_wire (will_content_type p)
   @ wire_opt RESPONSE_TOPIC str_wire (will_response_topic p)
   @ wire_opt CORRELATION_DATA bin_wire (will_correlation_data p)
   @ users_wire (will_user_properties p)"

interpretation will_loop: properties_loop WillProperties_step WillProperties_loop
  by unfold_locales (rule WillProperties_loop.simps, rule WillProperties_step_shrinks)

lemma WillProperties_fields:
  shows "will_delay_interval p = None \<Longrightarrow>
    WillProperties_loop p (wire_opt WILL_DELAY_INTERVAL be32 v32 @ rest)
    = WillProperties_loop (p\<lparr>will_delay_interval := v32\<rparr>) rest"
  and "will_payload_format_indicator p = None \<Longrightarrow>
    WillProperties_loop p (wire_opt PAYLOAD_FORMAT_INDICATOR bool_wire vb @ rest)
    = WillProperties_loop (p\<lparr>will_payload_format_indicator := vb\<rparr>) rest"
  and "will_message_expiry_interval p = None \<Longrightarrow>
    WillProperties_loop p (wire_opt MESSAGE_EXPIRY_INTERVAL be32 v32 @ rest)
    = WillProperties_loop (p\<lparr>will_message_expiry_interval := v32\<rparr>) rest"
  and "will_content_type p = None \<Longrightarrow> opt_ok str_ok vs \<Longrightarrow>
    WillProperties_loop p (wire_opt CONTENT_TYPE str_wire vs @ rest)
    = WillProperties_loop (p\<lparr>will_content_type := vs\<rparr>) rest"
  and "will_response_topic p = None \<Longrightarrow> opt_ok str_ok vs \<Longrightarrow>
    WillProperties_loop p (wire_opt RESPONSE_TOPIC str_wire vs @ rest)
    = WillProperties_loop (p\<lparr>will_response_topic := vs\<rparr>) rest"
  and "will_correlation_data p = None \<Longrightarrow> opt_ok bin_ok vd \<Longrightarrow>
    WillProperties_loop p (wire_opt CORRELATION_DATA bin_wire vd @ rest)
    = WillProperties_loop (p\<lparr>will_correlation_data := vd\<rparr>) rest"
  by (rule will_loop.loop_opt; simp add: WillProperties_step_def wire identifier_ok_def)+

lemma WillProperties_users:
  assumes "pairs_ok kvs"
  shows "WillProperties_loop p (users_wire kvs @ rest)
    = WillProperties_loop (p\<lparr>will_user_properties := will_user_properties p @ kvs\<rparr>) rest"
proof -
  have "fold (\<lambda>kv p. p\<lparr>will_user_properties := will_user_properties p @ [kv]\<rparr>) kvs p
    = p\<lparr>will_user_properties := will_user_properties p @ kvs\<rparr>" for kvs and p :: WillProperties
    by (induction kvs arbitrary: p) simp_all
  then show ?thesis
    using assms will_loop.loop_users [where kvs = kvs and p = p and rest = rest
        and upd = "\<lambda>kv p. p\<lparr>will_user_properties := will_user_properties p @ [kv]\<rparr>"]
    by (simp add: WillProperties_step_def wire)
qed

lemmas WillProperties_decode_rules =
  WillProperties_fields WillProperties_users will_loop.loop_Nil
  WillProperties_fields [where rest = "[]", simplified]
      WillProperties_users [where rest = "[]", simplified]

interpretation will_codec: properties_codec WillProperties_step WillProperties_loop
  WillProperties_default WillProperties_encode WillProperties_bytes_length
  WillProperties_wire WillProperties_ok "\<lambda>_. True"
proof unfold_locales
  fix p q flag data data'
  show "WillProperties_ok p \<Longrightarrow> WillProperties_encode p = put_slice (WillProperties_wire p)"
    by (simp add: WillProperties_encode_def WillProperties_wire_def WillProperties_ok_def wire identifier_writers)
  show "WillProperties_bytes_length p = Inr (length (WillProperties_wire p))"
    by (simp add: WillProperties_bytes_length_def WillProperties_wire_def)
  show "WillProperties_ok p \<Longrightarrow> WillProperties_loop WillProperties_default (WillProperties_wire p) = Inr p"
    by (simp add: WillProperties_wire_def WillProperties_default_def WillProperties_ok_def WillProperties_decode_rules)
  show "WillProperties_ok WillProperties_default"
    by (simp add: WillProperties_ok_def WillProperties_default_def)
  show "WillProperties_ok p \<Longrightarrow> WillProperties_step flag p data = Inr (q, data') \<Longrightarrow> WillProperties_ok q"
    by (auto simp: WillProperties_ok_def WillProperties_step_def and_then_Inr_iff
        split: if_splits dest!: read_string_ok read_binary_ok read_identifier_ok)
qed

text \<open>The properties a packet can announce and carry.\<close>

definition WillProperties_fits :: "WillProperties \<Rightarrow> bool" where
  "WillProperties_fits p \<longleftrightarrow> WillProperties_ok p \<and>
     length (WillProperties_wire p) < 268435455"

lemma WillProperties_length_wire [wire]:
  "WillProperties_fits p \<Longrightarrow> WillProperties_bytes_length p = Inr (length (WillProperties_wire p))"
  by (rule will_codec.length_wire) (auto simp: WillProperties_fits_def)

lemma WillProperties_fits_length: "WillProperties_fits p \<Longrightarrow> length (WillProperties_wire p) < 268435455"
  by (simp add: WillProperties_fits_def)

lemma WillProperties_encode_block:
  "WillProperties_fits p \<Longrightarrow>
   block [let_ok (WillProperties_bytes_length p) write_remaining_length, WillProperties_encode p]
   = put_slice (props_wire (WillProperties_wire p))"
  by (rule will_codec.encode_block) (auto simp: WillProperties_fits_def)

lemma WillProperties_decode_wire [wire]:
  "WillProperties_fits p \<Longrightarrow> WillProperties_decode (WillProperties_wire p) = Inr p"
  by (simp add: WillProperties_decode_def WillProperties_fits_def will_codec.decode_wire)

lemma WillProperties_decode_wf: "WillProperties_decode data = Inr p \<Longrightarrow> WillProperties_ok p"
  unfolding WillProperties_decode_def by (rule will_codec.decode_wf)

subsection \<open>ConnectProperties\<close>

record ConnectProperties =
  connprop_session_expiry_interval :: "u32 option"
  connprop_receive_max :: "u16 option"
  connprop_max_packet_size :: "u32 option"
  connprop_topic_alias_max :: "u16 option"
  connprop_request_response_info :: "bool option"
  connprop_request_problem_info :: "bool option"
  connprop_user_properties :: "(string \<times> string) list"
  connprop_authentication_method :: "string option"
  connprop_authentication_data :: "bytes option"

definition ConnectProperties_default :: ConnectProperties where
  "ConnectProperties_default = \<lparr>connprop_session_expiry_interval = None, connprop_receive_max = None,
     connprop_max_packet_size = None, connprop_topic_alias_max = None,
     connprop_request_response_info = None, connprop_request_problem_info = None,
     connprop_user_properties = [], connprop_authentication_method = None,
     connprop_authentication_data = None\<rparr>"

definition ConnectProperties_bytes_length :: "ConnectProperties \<Rightarrow> EncodeError + nat" where
  "ConnectProperties_bytes_length p = Inr (
     prop_len (connprop_session_expiry_interval p) 4
   + prop_len (connprop_receive_max p) 2
   + prop_len (connprop_max_packet_size p) 4
   + prop_len (connprop_topic_alias_max p) 2
   + prop_len (connprop_request_response_info p) 1
   + prop_len (connprop_request_problem_info p) 1
   + user_properties_len (connprop_user_properties p)
   + prop_data_len (connprop_authentication_method p)
   + prop_data_len (connprop_authentication_data p))"

definition ConnectProperties_step :: "u8 \<Rightarrow> ConnectProperties \<Rightarrow> ConnectProperties reader" where
  "ConnectProperties_step flag p data =
    (if flag = SESSION_EXPIRY_INTERVAL then
       and_then (read_u32 data) (\<lambda>(v, data). Inr (p\<lparr>connprop_session_expiry_interval := Some v\<rparr>, data))
     else if flag = RECEIVE_MAXIMUM then
       and_then (read_u16 data) (\<lambda>(v, data). Inr (p\<lparr>connprop_receive_max := Some v\<rparr>, data))
     else if flag = MAXIMUM_PACKET_SIZE then
       and_then (read_u32 data) (\<lambda>(v, data). Inr (p\<lparr>connprop_max_packet_size := Some v\<rparr>, data))
     else if flag = TOPIC_ALIAS_MAXIMUM then
       and_then (read_u16 data) (\<lambda>(v, data). Inr (p\<lparr>connprop_topic_alias_max := Some v\<rparr>, data))
     else if flag = REQUEST_RESPONSE_INFORMATION then
       and_then (read_bool data) (\<lambda>(v, data). Inr (p\<lparr>connprop_request_response_info := Some v\<rparr>, data))
     else if flag = REQUEST_PROBLEM_INFORMATION then
       and_then (read_bool data) (\<lambda>(v, data). Inr (p\<lparr>connprop_request_problem_info := Some v\<rparr>, data))
     else if flag = USER_PROPERTY then
       and_then (read_string data) (\<lambda>(key, data).
       and_then (read_string data) (\<lambda>(value, data).
       Inr (p\<lparr>connprop_user_properties := connprop_user_properties p @ [(key, value)]\<rparr>, data)))
     else if flag = AUTHENTICATION_METHOD then
       and_then (read_string data) (\<lambda>(v, data). Inr (p\<lparr>connprop_authentication_method := Some v\<rparr>, data))
     else if flag = AUTHENTICATION_DATA then
       and_then (read_binary data) (\<lambda>(v, data). Inr (p\<lparr>connprop_authentication_data := Some v\<rparr>, data))
     else Inl (InvalidConnectProperty flag))"

lemma ConnectProperties_step_shrinks [shrinks]:
  "ConnectProperties_step flag p data = Inr (p', data') \<Longrightarrow> length data' \<le> length data"
  by (auto simp: ConnectProperties_step_def and_then_Inr_iff split: if_splits dest!: shrinks)

function ConnectProperties_loop :: "ConnectProperties \<Rightarrow> bytes \<Rightarrow> DecodeError + ConnectProperties" where
  "ConnectProperties_loop p data =
     (if data = [] then Inr p
      else and_then (read_u8 data) (\<lambda>(flag, data).
           and_then (ConnectProperties_step flag p data) (\<lambda>(p, data). ConnectProperties_loop p data)))"
  by pat_completeness auto
termination by (relation "measure (\<lambda>(p, data). length data)") (auto dest!: shrinks)

declare ConnectProperties_loop.simps [simp del]

definition ConnectProperties_decode :: "bytes \<Rightarrow> DecodeError + ConnectProperties" where
  "ConnectProperties_decode data = ConnectProperties_loop ConnectProperties_default data"

definition ConnectProperties_encode :: "ConnectProperties \<Rightarrow> writer" where
  "ConnectProperties_encode p = block [
     write_prop SESSION_EXPIRY_INTERVAL put_u32 (connprop_session_expiry_interval p),
     write_prop RECEIVE_MAXIMUM put_u16 (connprop_receive_max p),
     write_prop MAXIMUM_PACKET_SIZE put_u32 (connprop_max_packet_size p),
     write_prop TOPIC_ALIAS_MAXIMUM put_u16 (connprop_topic_alias_max p),
     write_prop REQUEST_RESPONSE_INFORMATION write_bool (connprop_request_response_info p),
     write_prop REQUEST_PROBLEM_INFORMATION write_bool (connprop_request_problem_info p),
     write_user_properties (connprop_user_properties p),
     write_prop AUTHENTICATION_METHOD write_string (connprop_authentication_method p),
     write_prop AUTHENTICATION_DATA write_binary (connprop_authentication_data p)]"

text \<open>What the types of the fields guarantee, and the limits of the length prefixes.\<close>

definition ConnectProperties_ok :: "ConnectProperties \<Rightarrow> bool" where
  "ConnectProperties_ok p \<longleftrightarrow>
     pairs_ok (connprop_user_properties p) \<and>
     opt_ok str_ok (connprop_authentication_method p) \<and>
     opt_ok bin_ok (connprop_authentication_data p)"

definition ConnectProperties_wire :: "ConnectProperties \<Rightarrow> bytes" where
  "ConnectProperties_wire p =
     wire_opt SESSION_EXPIRY_INTERVAL be32 (connprop_session_expiry_interval p)
   @ wire_opt RECEIVE_MAXIMUM be16 (connprop_receive_max p)
   @ wire_opt MAXIMUM_PACKET_SIZE be32 (connprop_max_packet_size p)
   @ wire_opt TOPIC_ALIAS_MAXIMUM be16 (connprop_topic_alias_max p)
   @ wire_opt REQUEST_RESPONSE_INFORMATION bool_wire (connprop_request_response_info p)
   @ wire_opt REQUEST_PROBLEM_INFORMATION bool_wire (connprop_request_problem_info p)
   @ users_wire (connprop_user_properties p)
   @ wire_opt AUTHENTICATION_METHOD str_wire (connprop_authentication_method p)
   @ wire_opt AUTHENTICATION_DATA bin_wire (connprop_authentication_data p)"

interpretation connprop_loop: properties_loop ConnectProperties_step ConnectProperties_loop
  by unfold_locales (rule ConnectProperties_loop.simps, rule ConnectProperties_step_shrinks)

lemma ConnectProperties_fields:
  shows "connprop_session_expiry_interval p = None \<Longrightarrow>
    ConnectProperties_loop p (wire_opt SESSION_EXPIRY_INTERVAL be32 v32 @ rest)
    = ConnectProperties_loop (p\<lparr>connprop_session_expiry_interval := v32\<rparr>) rest"
  and "connprop_receive_max p = None \<Longrightarrow>
    ConnectProperties_loop p (wire_opt RECEIVE_MAXIMUM be16 v16 @ rest)
    = ConnectProperties_loop (p\<lparr>connprop_receive_max := v16\<rparr>) rest"
  and "connprop_max_packet_size p = None \<Longrightarrow>
    ConnectProperties_loop p (wire_opt MAXIMUM_PACKET_SIZE be32 v32 @ rest)
    = ConnectProperties_loop (p\<lparr>connprop_max_packet_size := v32\<rparr>) rest"
  and "connprop_topic_alias_max p = None \<Longrightarrow>
    ConnectProperties_loop p (wire_opt TOPIC_ALIAS_MAXIMUM be16 v16 @ rest)
    = ConnectProperties_loop (p\<lparr>connprop_topic_alias_max := v16\<rparr>) rest"
  and "connprop_request_response_info p = None \<Longrightarrow>
    ConnectProperties_loop p (wire_opt REQUEST_RESPONSE_INFORMATION bool_wire vb @ rest)
    = ConnectProperties_loop (p\<lparr>connprop_request_response_info := vb\<rparr>) rest"
  and "connprop_request_problem_info p = None \<Longrightarrow>
    ConnectProperties_loop p (wire_opt REQUEST_PROBLEM_INFORMATION bool_wire vb @ rest)
    = ConnectProperties_loop (p\<lparr>connprop_request_problem_info := vb\<rparr>) rest"
  and "connprop_authentication_method p = None \<Longrightarrow> opt_ok str_ok vs \<Longrightarrow>
    ConnectProperties_loop p (wire_opt AUTHENTICATION_METHOD str_wire vs @ rest)
    = ConnectProperties_loop (p\<lparr>connprop_authentication_method := vs\<rparr>) rest"
  and "connprop_authentication_data p = None \<Longrightarrow> opt_ok bin_ok vd \<Longrightarrow>
    ConnectProperties_loop p (wire_opt AUTHENTICATION_DATA bin_wire vd @ rest)
    = ConnectProperties_loop (p\<lparr>connprop_authentication_data := vd\<rparr>) rest"
  by (rule connprop_loop.loop_opt; simp add: ConnectProperties_step_def wire identifier_ok_def)+

lemma ConnectProperties_users:
  assumes "pairs_ok kvs"
  shows "ConnectProperties_loop p (users_wire kvs @ rest)
    = ConnectProperties_loop (p\<lparr>connprop_user_properties := connprop_user_properties p @ kvs\<rparr>) rest"
proof -
  have "fold (\<lambda>kv p. p\<lparr>connprop_user_properties := connprop_user_properties p @ [kv]\<rparr>) kvs p
    = p\<lparr>connprop_user_properties := connprop_user_properties p @ kvs\<rparr>" for kvs and p :: ConnectProperties
    by (induction kvs arbitrary: p) simp_all
  then show ?thesis
    using assms connprop_loop.loop_users [where kvs = kvs and p = p and rest = rest
        and upd = "\<lambda>kv p. p\<lparr>connprop_user_properties := connprop_user_properties p @ [kv]\<rparr>"]
    by (simp add: ConnectProperties_step_def wire)
qed

lemmas ConnectProperties_decode_rules =
  ConnectProperties_fields ConnectProperties_users connprop_loop.loop_Nil
  ConnectProperties_fields [where rest = "[]", simplified]
      ConnectProperties_users [where rest = "[]", simplified]

interpretation connprop_codec: properties_codec ConnectProperties_step ConnectProperties_loop
  ConnectProperties_default ConnectProperties_encode ConnectProperties_bytes_length
  ConnectProperties_wire ConnectProperties_ok "\<lambda>_. True"
proof unfold_locales
  fix p q flag data data'
  show "ConnectProperties_ok p \<Longrightarrow> ConnectProperties_encode p = put_slice (ConnectProperties_wire p)"
    by (simp add: ConnectProperties_encode_def ConnectProperties_wire_def ConnectProperties_ok_def wire identifier_writers)
  show "ConnectProperties_bytes_length p = Inr (length (ConnectProperties_wire p))"
    by (simp add: ConnectProperties_bytes_length_def ConnectProperties_wire_def)
  show "ConnectProperties_ok p \<Longrightarrow> ConnectProperties_loop ConnectProperties_default (ConnectProperties_wire p) = Inr p"
    by (simp add: ConnectProperties_wire_def ConnectProperties_default_def ConnectProperties_ok_def ConnectProperties_decode_rules)
  show "ConnectProperties_ok ConnectProperties_default"
    by (simp add: ConnectProperties_ok_def ConnectProperties_default_def)
  show "ConnectProperties_ok p \<Longrightarrow> ConnectProperties_step flag p data = Inr (q, data') \<Longrightarrow> ConnectProperties_ok q"
    by (auto simp: ConnectProperties_ok_def ConnectProperties_step_def and_then_Inr_iff
        split: if_splits dest!: read_string_ok read_binary_ok read_identifier_ok)
qed

text \<open>The properties a packet can announce and carry.\<close>

definition ConnectProperties_fits :: "ConnectProperties \<Rightarrow> bool" where
  "ConnectProperties_fits p \<longleftrightarrow> ConnectProperties_ok p \<and>
     length (ConnectProperties_wire p) < 268435455"

lemma ConnectProperties_length_wire [wire]:
  "ConnectProperties_fits p \<Longrightarrow> ConnectProperties_bytes_length p = Inr (length (ConnectProperties_wire p))"
  by (rule connprop_codec.length_wire) (auto simp: ConnectProperties_fits_def)

lemma ConnectProperties_fits_length: "ConnectProperties_fits p \<Longrightarrow> length (ConnectProperties_wire p) < 268435455"
  by (simp add: ConnectProperties_fits_def)

lemma ConnectProperties_encode_block:
  "ConnectProperties_fits p \<Longrightarrow>
   block [let_ok (ConnectProperties_bytes_length p) write_remaining_length, ConnectProperties_encode p]
   = put_slice (props_wire (ConnectProperties_wire p))"
  by (rule connprop_codec.encode_block) (auto simp: ConnectProperties_fits_def)

lemma ConnectProperties_decode_wire [wire]:
  "ConnectProperties_fits p \<Longrightarrow> ConnectProperties_decode (ConnectProperties_wire p) = Inr p"
  by (simp add: ConnectProperties_decode_def ConnectProperties_fits_def connprop_codec.decode_wire)

lemma ConnectProperties_decode_wf: "ConnectProperties_decode data = Inr p \<Longrightarrow> ConnectProperties_ok p"
  unfolding ConnectProperties_decode_def by (rule connprop_codec.decode_wf)

subsection \<open>LastWill and Connect\<close>

record LastWill =
  last_will_topic :: string
  last_will_payload :: bytes
  last_will_qos :: Qos
  last_will_retain :: bool
  last_will_properties :: WillProperties

record Connect =
  connect_level :: ProtocolLevel
  connect_keep_alive :: u16
  connect_clean_start :: bool
  connect_client_id :: string
  connect_last_will :: "LastWill option"
  connect_login :: "Login option"
  connect_properties :: ConnectProperties

abbreviation (input) CF_USERNAME :: u8 where "CF_USERNAME \<equiv> 0b10000000"
abbreviation (input) CF_PASSWORD :: u8 where "CF_PASSWORD \<equiv> 0b01000000"
abbreviation (input) CF_WILL_RETAIN :: u8 where "CF_WILL_RETAIN \<equiv> 0b00100000"
abbreviation (input) CF_WILL_QOS :: u8 where "CF_WILL_QOS \<equiv> 0b00011000"
abbreviation (input) CF_WILL :: u8 where "CF_WILL \<equiv> 0b00000100"
abbreviation (input) CF_CLEAN_START :: u8 where "CF_CLEAN_START \<equiv> 0b00000010"
abbreviation (input) QOS_SHIFT :: nat where "QOS_SHIFT \<equiv> 3"

definition Connect_variable_header_length :: "Connect \<Rightarrow> ProtocolLevel \<Rightarrow> EncodeError + nat" where
  "Connect_variable_header_length c level =
     (let len = 2 + 4 + 1 + 1 + 2 in
      if level = V5 then
        and_then (ConnectProperties_bytes_length (connect_properties c)) (\<lambda>properties_len.
        and_then (props_size properties_len) (\<lambda>n. Inr (len + n)))
      else Inr len)"

text \<open>
  The length prefix of the will properties is estimated from the length of the CONNECT
  properties, as in the source.
\<close>

definition Connect_will_length :: "Connect \<Rightarrow> LastWill \<Rightarrow> ProtocolLevel \<Rightarrow> EncodeError + nat" where
  "Connect_will_length c last_will level =
     and_then
       (if level = V5 then
          and_then (ConnectProperties_bytes_length (connect_properties c)) (\<lambda>properties_len.
          and_then (bytes_remaining_length properties_len) (\<lambda>k.
          and_then (WillProperties_bytes_length (last_will_properties last_will)) (\<lambda>n.
          Inr (k + n))))
        else Inr 0)
       (\<lambda>len. Inr (len + (2 + length (last_will_topic last_will))
                   + (2 + length (last_will_payload last_will))))"

definition Login_length :: "Login \<Rightarrow> nat" where
  "Login_length login =
     (if username login \<noteq> [] then 2 + length (username login) else 0)
   + (if password login \<noteq> [] then 2 + length (password login) else 0)"

definition Connect_payload_length :: "Connect \<Rightarrow> ProtocolLevel \<Rightarrow> EncodeError + nat" where
  "Connect_payload_length c level =
     and_then
       (case connect_last_will c of
          Some last_will \<Rightarrow> Connect_will_length c last_will level
        | None \<Rightarrow> Inr 0)
       (\<lambda>will_len. Inr (2 + length (connect_client_id c) + will_len
          + (case connect_login c of Some login \<Rightarrow> Login_length login | None \<Rightarrow> 0)))"

definition LastWill_decode :: "ProtocolLevel \<Rightarrow> Qos \<Rightarrow> bool \<Rightarrow> LastWill reader" where
  "LastWill_decode level will_qos will_retain data =
     and_then (read_remaining_length data) (\<lambda>(will_properties_len, data).
     and_then (ensure (will_properties_len \<le> length data) DecodeError.MalformedPacket) (\<lambda>_.
     and_then
       (if level = V5 then
          and_then (WillProperties_decode (take will_properties_len data)) (\<lambda>properties.
          Inr (properties, drop will_properties_len data))
        else Inr (WillProperties_default, data)) (\<lambda>(properties, data).
     and_then (read_string data) (\<lambda>(topic, data).
     and_then (read_binary data) (\<lambda>(payload, data).
     Inr (\<lparr>last_will_topic = topic, last_will_payload = payload, last_will_qos = will_qos,
           last_will_retain = will_retain, last_will_properties = properties\<rparr>, data))))))"

text \<open>\<open>if flag { Some(data.read_string()?) } else { None }\<close>.\<close>

definition read_string_if :: "bool \<Rightarrow> string option reader" where
  "read_string_if flag data =
     (if flag then and_then (read_string data) (\<lambda>(s, data). Inr (Some s, data))
      else Inr (None, data))"

definition Login_decode :: "u8 \<Rightarrow> Login option reader" where
  "Login_decode connect_flags data =
     and_then (read_string_if (connect_flags AND CF_USERNAME > 0) data) (\<lambda>(username, data).
     and_then (read_string_if (connect_flags AND CF_PASSWORD > 0) data) (\<lambda>(password, data).
     Inr (map_option (\<lambda>username. \<lparr>username = username,
            password = (case password of Some p \<Rightarrow> p | None \<Rightarrow> [])\<rparr>) username, data)))"

text \<open>Everything behind the keep alive field: properties, client id, last will and login.\<close>

definition Connect_decode_payload ::
  "ProtocolLevel \<Rightarrow> u8 \<Rightarrow> Qos \<Rightarrow> bool \<Rightarrow> u16 \<Rightarrow> bytes \<Rightarrow> DecodeError + Connect" where
  "Connect_decode_payload level connect_flags will_qos will_retain keep_alive data =
     and_then
       (if level = V5 then
          read_properties ConnectProperties_decode data
        else Inr (ConnectProperties_default, data)) (\<lambda>(properties, data).
     and_then (read_string data) (\<lambda>(client_id, data).
     and_then
       (if connect_flags AND CF_WILL > 0 then
          and_then (LastWill_decode level will_qos will_retain data) (\<lambda>(w, data). Inr (Some w, data))
        else Inr (None, data)) (\<lambda>(last_will, data).
     and_then (Login_decode connect_flags data) (\<lambda>(login, data).
     Inr \<lparr>connect_level = level, connect_keep_alive = keep_alive,
          connect_clean_start = (connect_flags AND CF_CLEAN_START > 0),
          connect_client_id = client_id, connect_last_will = last_will,
          connect_login = login, connect_properties = properties\<rparr>))))"

definition Connect_decode :: "bytes \<Rightarrow> ProtocolLevel \<Rightarrow> DecodeError + Connect" where
  "Connect_decode data level0 =
     and_then (read_string data) (\<lambda>(protocol, data).
     and_then (ensure (protocol = ''MQTT'') (InvalidProtocol protocol)) (\<lambda>_.
     and_then (read_u8 data) (\<lambda>(n_level, data).
     and_then (ok_or (UnsupportedProtocolLevel n_level) (ProtocolLevel_try_from n_level)) (\<lambda>level.
     and_then (read_u8 data) (\<lambda>(connect_flags, data).
     and_then (ensure (connect_flags AND CF_WILL = 0 \<longrightarrow> connect_flags AND CF_WILL_QOS = 0)
        InvalidConnectFlags) (\<lambda>_.
     and_then (ensure (connect_flags AND CF_WILL = 0 \<longrightarrow> connect_flags AND CF_WILL_RETAIN = 0)
        InvalidConnectFlags) (\<lambda>_.
     let will_retain = connect_flags AND CF_WILL_RETAIN > 0;
         n_qos = drop_bit QOS_SHIFT (connect_flags AND CF_WILL_QOS) in
     and_then (ok_or (InvalidQOS n_qos) (Qos_try_from n_qos)) (\<lambda>will_qos.
     and_then (read_u16 data) (\<lambda>(keep_alive, data).
     Connect_decode_payload level connect_flags will_qos will_retain keep_alive data)))))))))"

text \<open>The connect flags the encoder computes.\<close>

definition Connect_flags :: "Connect \<Rightarrow> u8" where
  "Connect_flags c =
     (if connect_clean_start c then CF_CLEAN_START else 0) OR
     (case connect_last_will c of
        Some last_will \<Rightarrow>
          CF_WILL OR push_bit QOS_SHIFT (Qos_u8 (last_will_qos last_will)) OR
          (if last_will_retain last_will then CF_WILL_RETAIN else 0)
      | None \<Rightarrow> 0) OR
     (case connect_login c of
        Some login \<Rightarrow>
          (if username login \<noteq> [] then CF_USERNAME else 0) OR
          (if password login \<noteq> [] then CF_PASSWORD else 0)
      | None \<Rightarrow> 0)"

definition Connect_size :: "ProtocolLevel \<Rightarrow> Connect \<Rightarrow> EncodeError + nat" where
  "Connect_size level c =
     and_then (Connect_variable_header_length c level) (\<lambda>a.
     and_then (Connect_payload_length c level) (\<lambda>b. Inr (a + b)))"

definition LastWill_encode :: "ProtocolLevel \<Rightarrow> LastWill \<Rightarrow> writer" where
  "LastWill_encode level last_will = block [
     if_true (level = V5) (block [
       let_ok (WillProperties_bytes_length (last_will_properties last_will)) write_remaining_length,
       WillProperties_encode (last_will_properties last_will)]),
     write_string (last_will_topic last_will),
     write_binary (last_will_payload last_will)]"

definition Login_encode :: "Login \<Rightarrow> writer" where
  "Login_encode login = block [
     if_true (username login \<noteq> []) (write_string (username login)),
     if_true (password login \<noteq> []) (write_string (password login))]"

definition Connect_encode_body :: "ProtocolLevel \<Rightarrow> Connect \<Rightarrow> writer" where
  "Connect_encode_body level c = block [
     write_string ''MQTT'',
     put_u8 (ProtocolLevel_u8 level),
     put_u8 (Connect_flags c),
     put_u16 (connect_keep_alive c),
     if_true (level = V5) (block [
       let_ok (ConnectProperties_bytes_length (connect_properties c)) write_remaining_length,
       ConnectProperties_encode (connect_properties c)]),
     write_string (connect_client_id c),
     if_some (connect_last_will c) (LastWill_encode level),
     if_some (connect_login c) Login_encode]"

definition Connect_encode :: "Connect \<Rightarrow> ProtocolLevel \<Rightarrow> nat \<Rightarrow> writer" where
  "Connect_encode c level max_size = block [
     put_u8 (push_bit 4 CONNECT),
     let_ok (Connect_size level c) (\<lambda>size. block [
       ensure_w (size < max_size) EncodeError.PacketTooLarge,
       write_remaining_length size,
       Connect_encode_body level c])]"

subsection \<open>The wire format of CONNECT\<close>

definition LastWill_wire :: "LastWill \<Rightarrow> bytes" where
  "LastWill_wire w =
     props_wire (WillProperties_wire (last_will_properties w))
   @ str_wire (last_will_topic w) @ bin_wire (last_will_payload w)"

definition Login_wire :: "Login \<Rightarrow> bytes" where
  "Login_wire login =
     str_wire (username login) @ (if password login \<noteq> [] then str_wire (password login) else [])"

definition Connect_body :: "ProtocolLevel \<Rightarrow> Connect \<Rightarrow> bytes" where
  "Connect_body level c =
     str_wire ''MQTT'' @ [ProtocolLevel_u8 level, Connect_flags c] @ be16 (connect_keep_alive c)
   @ (if level = V5 then props_wire (ConnectProperties_wire (connect_properties c)) else [])
   @ str_wire (connect_client_id c)
   @ (case connect_last_will c of Some w \<Rightarrow> LastWill_wire w | None \<Rightarrow> [])
   @ (case connect_login c of Some l \<Rightarrow> Login_wire l | None \<Rightarrow> [])"

text \<open>
  The CONNECT packets that survive the wire: in this decoder there is no place for a last will
  at level 4; a login has a user name; and the properties and will properties are at most
  268435454 bytes long. Level 4 has no place for properties.
\<close>

definition LastWill_ok :: "LastWill \<Rightarrow> bool" where
  "LastWill_ok w \<longleftrightarrow> str_ok (last_will_topic w) \<and> bin_ok (last_will_payload w) \<and>
     WillProperties_fits (last_will_properties w)"

definition Login_ok :: "Login \<Rightarrow> bool" where
  "Login_ok l \<longleftrightarrow> username l \<noteq> [] \<and> str_ok (username l) \<and> str_ok (password l)"

definition Connect_ok :: "ProtocolLevel \<Rightarrow> Connect \<Rightarrow> bool" where
  "Connect_ok level c \<longleftrightarrow>
     connect_level c = level \<and> str_ok (connect_client_id c) \<and>
     (level = V5 \<longrightarrow> ConnectProperties_fits (connect_properties c)) \<and>
     (level = V4 \<longrightarrow> connect_last_will c = None) \<and>
     opt_ok LastWill_ok (connect_last_will c) \<and> opt_ok Login_ok (connect_login c)"

definition Connect_norm :: "ProtocolLevel \<Rightarrow> Connect \<Rightarrow> Connect" where
  "Connect_norm level c =
     (case level of V4 \<Rightarrow> c\<lparr>connect_properties := ConnectProperties_default\<rparr> | V5 \<Rightarrow> c)"

lemma str_ok_MQTT: "str_ok ''MQTT''"
  by (simp add: str_ok_def valid_str_def as_bytes_def byte_of_char_def)

lemma str_ok_Nil [simp]: "str_ok []"
  by (simp add: str_ok_def valid_str_def as_bytes_def)

lemma LastWill_encode_wire:
  "LastWill_ok w \<Longrightarrow> LastWill_encode V5 w = put_slice (LastWill_wire w)"
  using WillProperties_encode_block [of "last_will_properties w"]
  by (simp add: LastWill_encode_def LastWill_ok_def LastWill_wire_def wire)

lemma Login_encode_wire:
  "Login_ok l \<Longrightarrow> Login_encode l = put_slice (Login_wire l)"
  by (cases "password l = []") (simp_all add: Login_encode_def Login_ok_def Login_wire_def wire)

lemma Connect_encode_body_wire:
  assumes ok: "Connect_ok level c"
  shows "Connect_encode_body level c = put_slice (Connect_body level c)"
proof -
  have will: "if_some (connect_last_will c) (LastWill_encode level)
     = put_slice (case connect_last_will c of Some w \<Rightarrow> LastWill_wire w | None \<Rightarrow> [])"
    using ok by (cases "connect_last_will c"; cases level)
      (auto simp: Connect_ok_def LastWill_encode_wire wire)
  have login: "if_some (connect_login c) Login_encode
     = put_slice (case connect_login c of Some l \<Rightarrow> Login_wire l | None \<Rightarrow> [])"
    using ok by (cases "connect_login c") (auto simp: Connect_ok_def Login_encode_wire wire)
  show ?thesis
  proof (cases level)
    case V4
    with ok will login show ?thesis
      by (simp add: Connect_encode_body_def Connect_body_def wire str_ok_MQTT Connect_ok_def)
  next
    case V5
    with ok ConnectProperties_encode_block [of "connect_properties c"] will login show ?thesis
      by (simp add: Connect_encode_body_def Connect_body_def wire str_ok_MQTT Connect_ok_def)
  qed
qed

text \<open>What the decoder reads back from the flags.\<close>

lemma Connect_flags_bits:
  assumes "opt_ok Login_ok (connect_login c)"
  shows "Connect_flags c AND CF_CLEAN_START > 0 \<longleftrightarrow> connect_clean_start c"
    and "Connect_flags c AND CF_WILL > 0 \<longleftrightarrow> connect_last_will c \<noteq> None"
    and "Connect_flags c AND CF_WILL = 0 \<longleftrightarrow> connect_last_will c = None"
    and "connect_last_will c = None \<Longrightarrow> Connect_flags c AND CF_WILL_QOS = 0"
    and "connect_last_will c = None \<Longrightarrow> Connect_flags c AND CF_WILL_RETAIN = 0"
    and "connect_last_will c = Some w \<Longrightarrow>
      Connect_flags c AND CF_WILL_RETAIN > 0 \<longleftrightarrow> last_will_retain w"
    and "connect_last_will c = Some w \<Longrightarrow>
      drop_bit QOS_SHIFT (Connect_flags c AND CF_WILL_QOS) = Qos_u8 (last_will_qos w)"
    and "connect_login c = None \<Longrightarrow> \<not> Connect_flags c AND CF_USERNAME > 0"
    and "connect_login c = None \<Longrightarrow> \<not> Connect_flags c AND CF_PASSWORD > 0"
    and "connect_login c = Some l \<Longrightarrow> Connect_flags c AND CF_USERNAME > 0"
    and "connect_login c = Some l \<Longrightarrow> Connect_flags c AND CF_PASSWORD > 0 \<longleftrightarrow> password l \<noteq> []"
  using assms
  by (cases "connect_last_will c"; cases "connect_login c"; cases "connect_clean_start c";
      cases "last_will_qos (the (connect_last_will c))"; cases "last_will_retain (the (connect_last_will c))";
      cases "password (the (connect_login c)) = []";
      simp add: Connect_flags_def Login_ok_def)+

lemma LastWill_decode_wire:
  assumes "LastWill_ok w"
  shows "LastWill_decode V5 (last_will_qos w) (last_will_retain w) (LastWill_wire w @ rest)
    = Inr (w, rest)"
proof -
  let ?p = "WillProperties_wire (last_will_properties w)"
  have len: "read_remaining_length (props_wire ?p @ tl) = Inr (length ?p, ?p @ tl)" for tl
    using assms WillProperties_fits_length [of "last_will_properties w"]
    by (simp add: props_wire_def wire LastWill_ok_def)
  from assms show ?thesis
    by (simp add: LastWill_decode_def LastWill_wire_def len wire LastWill_ok_def)
qed

lemma Login_decode_wire:
  assumes "Login_ok l" "flags AND CF_USERNAME > 0"
    and "flags AND CF_PASSWORD > 0 \<longleftrightarrow> password l \<noteq> []"
  shows "Login_decode flags (Login_wire l) = Inr (Some l, [])"
proof -
  have str: "read_string (str_wire s) = Inr (s, [])" if "str_ok s" for s
    using read_string_wire [OF that, of "[]"] by simp
  from assms show ?thesis
    by (cases "password l = []")
      (simp_all add: Login_decode_def Login_wire_def read_string_if_def Login_ok_def wire str)
qed

lemma Connect_decode_wire:
  assumes ok: "Connect_ok level c"
  shows "Connect_decode (Connect_body level c) l0 = Inr (Connect_norm level c)"
proof -
  let ?fl = "Connect_flags c"
  let ?will = "case connect_last_will c of Some w \<Rightarrow> LastWill_wire w | None \<Rightarrow> []"
  let ?login = "case connect_login c of Some l \<Rightarrow> Login_wire l | None \<Rightarrow> []"
  have login_ok: "opt_ok Login_ok (connect_login c)" using ok by (simp add: Connect_ok_def)
  note bits = Connect_flags_bits [OF login_ok]
  define q r where "q = (case connect_last_will c of Some w \<Rightarrow> last_will_qos w | None \<Rightarrow> AtMostOnce)"
    and "r = (case connect_last_will c of Some w \<Rightarrow> last_will_retain w | None \<Rightarrow> False)"
  have qos: "Qos_try_from (drop_bit QOS_SHIFT (?fl AND CF_WILL_QOS)) = Some q"
    using bits(4,7) Qos_roundtrip by (cases "connect_last_will c") (auto simp: q_def Qos_try_from_def
        try_from_primitive_def)
  have retain: "?fl AND CF_WILL_RETAIN > 0 \<longleftrightarrow> r"
    using bits(5,6) by (cases "connect_last_will c") (auto simp: r_def)
  have login: "Login_decode ?fl ?login = Inr (connect_login c, [])"
    using login_ok bits(8-11) Login_decode_wire [of _ ?fl]
    by (cases "connect_login c") (auto simp: Login_decode_def read_string_if_def)
  have will: "(if ?fl AND CF_WILL > 0
      then and_then (LastWill_decode level q r (?will @ ?login)) (\<lambda>(w, data). Inr (Some w, data))
      else Inr (None, ?will @ ?login)) = Inr (connect_last_will c, ?login)"
    using ok bits(2) LastWill_decode_wire
    by (cases "connect_last_will c"; cases level) (auto simp: Connect_ok_def q_def r_def)
  have props: "(if level = V5 then read_properties ConnectProperties_decode ((if level = V5
        then props_wire (ConnectProperties_wire (connect_properties c)) else []) @ rest)
      else Inr (ConnectProperties_default, (if level = V5
        then props_wire (ConnectProperties_wire (connect_properties c)) else []) @ rest))
     = Inr (connect_properties (Connect_norm level c), rest)" for rest
    using ok ConnectProperties_fits_length [of "connect_properties c"]
    by (cases level) (simp_all add: Connect_ok_def Connect_norm_def wire)
  have norm: "Connect_norm level c = c\<lparr>connect_properties := connect_properties (Connect_norm level c)\<rparr>"
    by (cases level) (simp_all add: Connect_norm_def)
  have payload: "Connect_decode_payload level ?fl q r (connect_keep_alive c)
      ((if level = V5 then props_wire (ConnectProperties_wire (connect_properties c)) else [])
       @ str_wire (connect_client_id c) @ ?will @ ?login) = Inr (Connect_norm level c)"
    unfolding Connect_decode_payload_def
    using ok by (subst norm) (simp add: props will login bits(1) wire Connect_ok_def)
  show ?thesis
    using bits(3,4,5) qos retain payload
    by (simp add: Connect_decode_def Connect_body_def wire str_ok_MQTT Let_def split del: if_split)
qed

text \<open>What the decoder guarantees of its results.\<close>

definition Connect_wf :: "Connect \<Rightarrow> bool" where
  "Connect_wf c \<longleftrightarrow> str_ok (connect_client_id c) \<and> ConnectProperties_ok (connect_properties c) \<and>
     opt_ok (\<lambda>w. str_ok (last_will_topic w) \<and> bin_ok (last_will_payload w) \<and>
       WillProperties_ok (last_will_properties w)) (connect_last_will c) \<and>
     opt_ok (\<lambda>l. str_ok (username l) \<and> str_ok (password l)) (connect_login c)"

lemma LastWill_decode_wf:
  assumes "LastWill_decode level q r data = Inr (w, data')"
  shows "str_ok (last_will_topic w) \<and> bin_ok (last_will_payload w) \<and>
    WillProperties_ok (last_will_properties w)"
  using assms WillProperties_decode_wf will_codec.wf_initial
  by (auto simp: LastWill_decode_def and_then_Inr_iff split: if_splits
      dest: read_string_ok read_binary_ok)

lemma Login_decode_wf:
  assumes "Login_decode flags data = Inr (login, data')"
  shows "opt_ok (\<lambda>l. str_ok (username l) \<and> str_ok (password l)) login"
proof -
  have "opt_ok str_ok s" if "read_string_if flag data = Inr (s, data')" for flag data s data'
    using that by (auto simp: read_string_if_def and_then_Inr_iff split: if_splits dest: read_string_ok)
  with assms show ?thesis
    by (fastforce simp: Login_decode_def and_then_Inr_iff opt_ok_def split: option.splits)
qed

lemma Connect_decode_payload_wf:
  assumes "Connect_decode_payload level flags q r ka data = Inr c"
  shows "Connect_wf c"
proof -
  from assms obtain p d1 s d2 w d3 l d4
    where p: "(if level = V5 then read_properties ConnectProperties_decode data
        else Inr (ConnectProperties_default, data)) = Inr (p, d1)"
      and s: "read_string d1 = Inr (s, d2)"
      and w: "(if flags AND CF_WILL > 0
        then and_then (LastWill_decode level q r d2) (\<lambda>(w, data). Inr (Some w, data))
        else Inr (None, d2)) = Inr (w, d3)"
      and l: "Login_decode flags d3 = Inr (l, d4)"
      and c: "connect_client_id c = s" "connect_last_will c = w" "connect_login c = l"
        "connect_properties c = p"
    by (auto simp: Connect_decode_payload_def and_then_Inr_iff)
  have "ConnectProperties_ok p"
    using p ConnectProperties_decode_wf connprop_codec.wf_initial
    by (auto split: if_splits elim!: read_properties_ok)
  moreover have "opt_ok (\<lambda>w. str_ok (last_will_topic w) \<and> bin_ok (last_will_payload w) \<and>
       WillProperties_ok (last_will_properties w)) w"
    using w by (auto simp: and_then_Inr_iff split: if_splits dest: LastWill_decode_wf)
  ultimately show ?thesis
    using read_string_ok [OF s] Login_decode_wf [OF l] by (simp add: Connect_wf_def c)
qed

lemma Connect_decode_wf: "Connect_decode data level = Inr c \<Longrightarrow> Connect_wf c"
  by (auto simp: Connect_decode_def Let_def and_then_Inr_iff dest: Connect_decode_payload_wf)

text \<open>
  When the announced size is the size of the body: the properties avoid the lengths at which
  \<open>bytes_remaining_length\<close> is wrong, and the will properties have a length prefix as long as
  that of the CONNECT properties, from which it is estimated.
\<close>

definition Connect_exact :: "ProtocolLevel \<Rightarrow> Connect \<Rightarrow> bool" where
  "Connect_exact level c \<longleftrightarrow> (level = V5 \<longrightarrow>
     off_by_one (length (ConnectProperties_wire (connect_properties c))) = 0 \<and>
     opt_ok (\<lambda>w. length (varint (length (WillProperties_wire (last_will_properties w))))
       = length (varint (length (ConnectProperties_wire (connect_properties c)))))
       (connect_last_will c))"

lemma Connect_size_exact:
  assumes "Connect_ok level c" "Connect_exact level c"
  shows "Connect_size level c = Inr (length (Connect_body level c))"
proof -
  have login: "(case connect_login c of Some l \<Rightarrow> Login_length l | None \<Rightarrow> 0)
    = length (case connect_login c of Some l \<Rightarrow> Login_wire l | None \<Rightarrow> [])"
    using assms(1) by (cases "connect_login c")
      (auto simp: Login_length_def Login_wire_def Connect_ok_def Login_ok_def)
  show ?thesis
    using assms ConnectProperties_fits_length [of "connect_properties c"]
      WillProperties_fits_length login
    by (cases level; cases "connect_last_will c")
      (auto simp: Connect_size_def Connect_variable_header_length_def Connect_payload_length_def
        Connect_will_length_def Connect_body_def Connect_ok_def Connect_exact_def LastWill_ok_def
        LastWill_wire_def bytes_remaining_length_eq wire props_wire_def)
qed

interpretation connect: packet_codec "\<lambda>_. push_bit 4 CONNECT" Connect_size Connect_encode
  "\<lambda>data level flag. Connect_decode data level" Connect_body Connect_ok Connect_norm "(<)"
  by unfold_locales
    (simp_all add: Connect_encode_def framed_def Connect_encode_body_wire Connect_decode_wire
      del: push_bit_numeral cong del: let_ok_cong)

end
