(* ===== verification/Message.thy ===== *)
theory Message
  imports Packet_Publish Packet_Connect
begin

text \<open>
  \<open>libs/service/src/message.rs\<close>: the messages the broker stores and delivers. A \<open>SystemTime\<close> is
  a number of nanoseconds; the clock \<open>SystemTime::now()\<close> is an argument of the functions that
  read it.
\<close>

type_synonym system_time = nat

definition from_secs :: "u32 \<Rightarrow> nat" where
  "from_secs secs = unat secs * 10 ^ 9"

definition as_secs :: "nat \<Rightarrow> nat" where
  "as_secs duration = duration div 10 ^ 9"

record Message =
  message_from_client_id :: "string option"
  message_from_uid :: "string option"
  message_created_at :: system_time
  message_topic :: string
  message_qos :: Qos
  message_payload :: bytes
  message_retain :: bool
  message_properties :: PublishProperties

definition Message_new :: "system_time \<Rightarrow> string \<Rightarrow> Qos \<Rightarrow> bytes \<Rightarrow> Message" where
  "Message_new now topic qos payload =
     \<lparr>message_from_client_id = None, message_from_uid = None, message_created_at = now,
      message_topic = topic, message_qos = qos, message_payload = payload,
      message_retain = False, message_properties = PublishProperties_default\<rparr>"

definition Message_with_properties :: "PublishProperties \<Rightarrow> Message \<Rightarrow> Message" where
  "Message_with_properties properties msg = msg\<lparr>message_properties := properties\<rparr>"

definition Message_with_retain :: "bool \<Rightarrow> Message \<Rightarrow> Message" where
  "Message_with_retain retain msg = msg\<lparr>message_retain := retain\<rparr>"

definition Message_with_from_client_id :: "string \<Rightarrow> Message \<Rightarrow> Message" where
  "Message_with_from_client_id client_id msg = msg\<lparr>message_from_client_id := Some client_id\<rparr>"

definition Message_with_from_uid :: "string \<Rightarrow> Message \<Rightarrow> Message" where
  "Message_with_from_uid uid msg = msg\<lparr>message_from_uid := Some uid\<rparr>"

definition Message_is_empty :: "Message \<Rightarrow> bool" where
  "Message_is_empty msg \<longleftrightarrow> message_payload msg = []"

definition Message_is_expired :: "system_time \<Rightarrow> Message \<Rightarrow> bool" where
  "Message_is_expired now msg =
     (case pubprop_message_expiry_interval (message_properties msg) of
        Some message_expiry_interval \<Rightarrow>
          let expired_at = message_created_at msg + from_secs message_expiry_interval
          in expired_at \<le> now
      | None \<Rightarrow> False)"

definition Message_from_last_will :: "system_time \<Rightarrow> LastWill \<Rightarrow> Message" where
  "Message_from_last_will now last_will =
     (let p = last_will_properties last_will;
          properties = PublishProperties_default\<lparr>
            pubprop_payload_format_indicator := will_payload_format_indicator p,
            pubprop_message_expiry_interval := will_message_expiry_interval p,
            pubprop_response_topic := will_response_topic p,
            pubprop_correlation_data := will_correlation_data p,
            pubprop_user_properties := will_user_properties p,
            pubprop_content_type := will_content_type p\<rparr>
      in Message_with_properties properties
         (Message_with_retain (last_will_retain last_will)
         (Message_new now (last_will_topic last_will) (last_will_qos last_will)
            (last_will_payload last_will))))"

definition Message_from_publish :: "system_time \<Rightarrow> Publish \<Rightarrow> Message" where
  "Message_from_publish now publish =
     (let p = publish_properties publish;
          properties = PublishProperties_default\<lparr>
            pubprop_payload_format_indicator := pubprop_payload_format_indicator p,
            pubprop_message_expiry_interval := pubprop_message_expiry_interval p,
            pubprop_response_topic := pubprop_response_topic p,
            pubprop_correlation_data := pubprop_correlation_data p,
            pubprop_user_properties := pubprop_user_properties p,
            pubprop_content_type := pubprop_content_type p\<rparr>
      in Message_with_properties properties
         (Message_with_retain (publish_retain publish)
         (Message_new now (publish_topic publish) (publish_qos publish)
            (publish_payload publish))))"

definition Message_to_publish :: "Message \<Rightarrow> Publish" where
  "Message_to_publish msg =
     \<lparr>publish_dup = False, publish_qos = message_qos msg, publish_retain = message_retain msg,
      publish_topic = message_topic msg, publish_packet_id = None,
      publish_properties = message_properties msg, publish_payload = message_payload msg\<rparr>"

definition Message_to_publish_and_update_expiry_interval ::
  "system_time \<Rightarrow> Message \<Rightarrow> Publish option" where
  "Message_to_publish_and_update_expiry_interval now msg =
     (let publish = Message_to_publish msg in
      case pubprop_message_expiry_interval (publish_properties publish) of
        Some message_expiry_interval \<Rightarrow>
          let expired_at = message_created_at msg + from_secs message_expiry_interval in
          if now \<le> expired_at then
            let duration = expired_at - now in
            Some (publish\<lparr>publish_properties := (publish_properties publish)
              \<lparr>pubprop_message_expiry_interval := Some (word_of_nat (as_secs duration))\<rparr>\<rparr>)
          else None
      | None \<Rightarrow> Some publish)"

subsection \<open>Expiry\<close>

text \<open>When it is sent after \<open>t\<close> nanoseconds, the interval has shrunk by \<open>t\<close>, rounded down.\<close>

lemma expiry_interval_left:
  assumes "created \<le> now" "now \<le> created + from_secs interval"
  shows "unat (word_of_nat (as_secs (created + from_secs interval - now)) :: u32) =
      as_secs (created + from_secs interval - now)"
    and "as_secs (created + from_secs interval - now) \<le> unat interval"
proof -
  have "created + from_secs interval - now \<le> from_secs interval" using assms(1) by simp
  then have "as_secs (created + from_secs interval - now) \<le> as_secs (from_secs interval)"
    by (simp add: as_secs_def div_le_mono)
  then show le: "as_secs (created + from_secs interval - now) \<le> unat interval"
    by (simp add: as_secs_def from_secs_def)
  moreover have "unat interval < 2 ^ 32"
    using unsigned_less [of interval, where ?'a = nat] by simp
  ultimately show "unat (word_of_nat (as_secs (created + from_secs interval - now)) :: u32) =
      as_secs (created + from_secs interval - now)"
    by (simp add: unat_of_nat)
qed

lemma Message_update_expiry:
  assumes "message_created_at msg \<le> now"
    and "pubprop_message_expiry_interval (message_properties msg) = Some interval"
  shows "Message_to_publish_and_update_expiry_interval now msg = None \<longleftrightarrow>
      message_created_at msg + from_secs interval < now"
    and "Message_to_publish_and_update_expiry_interval now msg = Some publish \<Longrightarrow>
      \<exists>left. pubprop_message_expiry_interval (publish_properties publish) = Some left \<and>
        unat left = as_secs (message_created_at msg + from_secs interval - now) \<and> left \<le> interval"
proof -
  show "Message_to_publish_and_update_expiry_interval now msg = None \<longleftrightarrow>
      message_created_at msg + from_secs interval < now"
    using assms(2) by (auto simp: Message_to_publish_and_update_expiry_interval_def
        Message_to_publish_def Let_def)
  assume "Message_to_publish_and_update_expiry_interval now msg = Some publish"
  with assms(2) have le: "now \<le> message_created_at msg + from_secs interval"
    and p: "pubprop_message_expiry_interval (publish_properties publish)
      = Some (word_of_nat (as_secs (message_created_at msg + from_secs interval - now)))"
    by (auto simp: Message_to_publish_and_update_expiry_interval_def Message_to_publish_def Let_def
        split: if_splits)
  show "\<exists>left. pubprop_message_expiry_interval (publish_properties publish) = Some left \<and>
      unat left = as_secs (message_created_at msg + from_secs interval - now) \<and> left \<le> interval"
    using p expiry_interval_left [OF assms(1) le] by (simp add: word_le_nat_alt)
qed

end
