(* ===== verification/Packet_Subscribe.thy ===== *)
theory Packet_Subscribe
  imports Codec_Properties
begin

text \<open>
  \<open>libs/codec/src/subscribe.rs\<close>: the SUBSCRIBE packet and its filters with their options byte.
\<close>

unbundle bit_operations_syntax

subsection \<open>SubscribeProperties\<close>

record SubscribeProperties =
  subprop_id :: "nat option"
  subprop_user_properties :: "(string \<times> string) list"

definition SubscribeProperties_default :: SubscribeProperties where
  "SubscribeProperties_default = \<lparr>subprop_id = None, subprop_user_properties = []\<rparr>"

definition SubscribeProperties_bytes_length :: "SubscribeProperties \<Rightarrow> EncodeError + nat" where
  "SubscribeProperties_bytes_length p = and_then (prop_remaining_length_len (subprop_id p)) (\<lambda>id_len.
   Inr (
     id_len
   + user_properties_len (subprop_user_properties p)))"

definition SubscribeProperties_step :: "u8 \<Rightarrow> SubscribeProperties \<Rightarrow> SubscribeProperties reader" where
  "SubscribeProperties_step flag p data =
    (if flag = SUBSCRIPTION_IDENTIFIER then
       and_then (read_remaining_length data) (\<lambda>(v, data).
       and_then (ok_or DecodeError.MalformedPacket (nonzero v)) (\<lambda>v.
       Inr (p\<lparr>subprop_id := Some v\<rparr>, data)))
     else if flag = USER_PROPERTY then
       and_then (read_string data) (\<lambda>(key, data).
       and_then (read_string data) (\<lambda>(value, data).
       Inr (p\<lparr>subprop_user_properties := subprop_user_properties p @ [(key, value)]\<rparr>, data)))
     else Inl (InvalidSubscribeProperty flag))"

lemma SubscribeProperties_step_shrinks [shrinks]:
  "SubscribeProperties_step flag p data = Inr (p', data') \<Longrightarrow> length data' \<le> length data"
  by (auto simp: SubscribeProperties_step_def and_then_Inr_iff split: if_splits dest!: shrinks)

function SubscribeProperties_loop :: "SubscribeProperties \<Rightarrow> bytes \<Rightarrow> DecodeError + SubscribeProperties" where
  "SubscribeProperties_loop p data =
     (if data = [] then Inr p
      else and_then (read_u8 data) (\<lambda>(flag, data).
           and_then (SubscribeProperties_step flag p data) (\<lambda>(p, data). SubscribeProperties_loop p data)))"
  by pat_completeness auto
termination by (relation "measure (\<lambda>(p, data). length data)") (auto dest!: shrinks)

declare SubscribeProperties_loop.simps [simp del]

definition SubscribeProperties_decode :: "bytes \<Rightarrow> DecodeError + SubscribeProperties" where
  "SubscribeProperties_decode data = SubscribeProperties_loop SubscribeProperties_default data"

definition SubscribeProperties_encode :: "SubscribeProperties \<Rightarrow> writer" where
  "SubscribeProperties_encode p = block [
     write_prop SUBSCRIPTION_IDENTIFIER write_remaining_length (subprop_id p),
     write_user_properties (subprop_user_properties p)]"

text \<open>What the types of the fields guarantee, and the limits of the length prefixes.\<close>

definition SubscribeProperties_ok :: "SubscribeProperties \<Rightarrow> bool" where
  "SubscribeProperties_ok p \<longleftrightarrow>
     opt_ok identifier_ok (subprop_id p) \<and>
     pairs_ok (subprop_user_properties p)"

definition SubscribeProperties_wire :: "SubscribeProperties \<Rightarrow> bytes" where
  "SubscribeProperties_wire p =
     wire_opt SUBSCRIPTION_IDENTIFIER varint (subprop_id p)
   @ users_wire (subprop_user_properties p)"

interpretation subprop_loop: properties_loop SubscribeProperties_step SubscribeProperties_loop
  by unfold_locales (rule SubscribeProperties_loop.simps, rule SubscribeProperties_step_shrinks)

lemma SubscribeProperties_fields:
  shows "subprop_id p = None \<Longrightarrow> opt_ok identifier_ok vn \<Longrightarrow>
    SubscribeProperties_loop p (wire_opt SUBSCRIPTION_IDENTIFIER varint vn @ rest)
    = SubscribeProperties_loop (p\<lparr>subprop_id := vn\<rparr>) rest"
  by (rule subprop_loop.loop_opt; simp add: SubscribeProperties_step_def wire identifier_ok_def)+

lemma SubscribeProperties_users:
  assumes "pairs_ok kvs"
  shows "SubscribeProperties_loop p (users_wire kvs @ rest)
    = SubscribeProperties_loop (p\<lparr>subprop_user_properties := subprop_user_properties p @ kvs\<rparr>) rest"
proof -
  have "fold (\<lambda>kv p. p\<lparr>subprop_user_properties := subprop_user_properties p @ [kv]\<rparr>) kvs p
    = p\<lparr>subprop_user_properties := subprop_user_properties p @ kvs\<rparr>" for kvs and p :: SubscribeProperties
    by (induction kvs arbitrary: p) simp_all
  then show ?thesis
    using assms subprop_loop.loop_users [where kvs = kvs and p = p and rest = rest
        and upd = "\<lambda>kv p. p\<lparr>subprop_user_properties := subprop_user_properties p @ [kv]\<rparr>"]
    by (simp add: SubscribeProperties_step_def wire)
qed

lemmas SubscribeProperties_decode_rules =
  SubscribeProperties_fields SubscribeProperties_users subprop_loop.loop_Nil
  SubscribeProperties_fields [where rest = "[]", simplified]
      SubscribeProperties_users [where rest = "[]", simplified]

interpretation subprop_codec: properties_codec SubscribeProperties_step SubscribeProperties_loop
  SubscribeProperties_default SubscribeProperties_encode SubscribeProperties_bytes_length
  SubscribeProperties_wire SubscribeProperties_ok "\<lambda>p. opt_ok (\<lambda>i. i < 268435455 \<and> off_by_one i = 0) (subprop_id p)"
proof unfold_locales
  fix p q flag data data'
  show "SubscribeProperties_ok p \<Longrightarrow> SubscribeProperties_encode p = put_slice (SubscribeProperties_wire p)"
    by (simp add: SubscribeProperties_encode_def SubscribeProperties_wire_def SubscribeProperties_ok_def wire identifier_writers)
  show "opt_ok (\<lambda>i. i < 268435455 \<and> off_by_one i = 0) (subprop_id p) \<Longrightarrow> SubscribeProperties_bytes_length p = Inr (length (SubscribeProperties_wire p))"
    by (simp add: SubscribeProperties_bytes_length_def SubscribeProperties_wire_def identifier_len_wire [where flag = SUBSCRIPTION_IDENTIFIER])
  show "SubscribeProperties_ok p \<Longrightarrow> SubscribeProperties_loop SubscribeProperties_default (SubscribeProperties_wire p) = Inr p"
    by (simp add: SubscribeProperties_wire_def SubscribeProperties_default_def SubscribeProperties_ok_def SubscribeProperties_decode_rules)
  show "SubscribeProperties_ok SubscribeProperties_default"
    by (simp add: SubscribeProperties_ok_def SubscribeProperties_default_def)
  show "SubscribeProperties_ok p \<Longrightarrow> SubscribeProperties_step flag p data = Inr (q, data') \<Longrightarrow> SubscribeProperties_ok q"
    by (auto simp: SubscribeProperties_ok_def SubscribeProperties_step_def and_then_Inr_iff
        split: if_splits dest!: read_string_ok read_binary_ok read_identifier_ok)
qed

text \<open>The properties a packet can announce and carry.\<close>

definition SubscribeProperties_fits :: "SubscribeProperties \<Rightarrow> bool" where
  "SubscribeProperties_fits p \<longleftrightarrow> SubscribeProperties_ok p \<and>
     opt_ok (\<lambda>i. i < 268435455 \<and> off_by_one i = 0) (subprop_id p) \<and>
     length (SubscribeProperties_wire p) < 268435455"

lemma SubscribeProperties_length_wire [wire]:
  "SubscribeProperties_fits p \<Longrightarrow> SubscribeProperties_bytes_length p = Inr (length (SubscribeProperties_wire p))"
  by (rule subprop_codec.length_wire) (auto simp: SubscribeProperties_fits_def)

lemma SubscribeProperties_fits_length: "SubscribeProperties_fits p \<Longrightarrow> length (SubscribeProperties_wire p) < 268435455"
  by (simp add: SubscribeProperties_fits_def)

lemma SubscribeProperties_encode_block:
  "SubscribeProperties_fits p \<Longrightarrow>
   block [let_ok (SubscribeProperties_bytes_length p) write_remaining_length, SubscribeProperties_encode p]
   = put_slice (props_wire (SubscribeProperties_wire p))"
  by (rule subprop_codec.encode_block) (auto simp: SubscribeProperties_fits_def)

lemma SubscribeProperties_decode_wire [wire]:
  "SubscribeProperties_fits p \<Longrightarrow> SubscribeProperties_decode (SubscribeProperties_wire p) = Inr p"
  by (simp add: SubscribeProperties_decode_def SubscribeProperties_fits_def subprop_codec.decode_wire)

lemma SubscribeProperties_decode_wf: "SubscribeProperties_decode data = Inr p \<Longrightarrow> SubscribeProperties_ok p"
  unfolding SubscribeProperties_decode_def by (rule subprop_codec.decode_wf)

subsection \<open>SubscribeFilter\<close>

datatype RetainHandling =
    OnEverySubscribe
  | OnNewSubscribe
  | Never

fun RetainHandling_u8 :: "RetainHandling \<Rightarrow> u8" where
  "RetainHandling_u8 RetainHandling.OnEverySubscribe = 0"
| "RetainHandling_u8 RetainHandling.OnNewSubscribe = 1"
| "RetainHandling_u8 RetainHandling.Never = 2"

definition RetainHandling_variants :: "RetainHandling list" where
  "RetainHandling_variants = [
     RetainHandling.OnEverySubscribe, RetainHandling.OnNewSubscribe,
     RetainHandling.Never]"

definition RetainHandling_try_from :: "u8 \<Rightarrow> RetainHandling option" where
  "RetainHandling_try_from = try_from_primitive RetainHandling_u8 RetainHandling_variants"

interpretation RetainHandling_enum: primitive_enum RetainHandling_u8 RetainHandling_variants
proof (rule primitive_enumI)
  show "c \<in> set RetainHandling_variants" for c by (cases c) (simp_all add: RetainHandling_variants_def)
qed (simp add: RetainHandling_variants_def)

lemma RetainHandling_roundtrip [wire]: "RetainHandling_try_from (RetainHandling_u8 c) = Some c"
  unfolding RetainHandling_try_from_def by (rule RetainHandling_enum.roundtrip)

record SubscribeFilter =
  filter_path :: string
  filter_qos :: Qos
  filter_no_local :: bool
  filter_retain_as_published :: bool
  filter_retain_handling :: RetainHandling

definition SubscribeFilter_decode :: "bytes \<Rightarrow> ProtocolLevel \<Rightarrow> DecodeError + SubscribeFilter \<times> bytes" where
  "SubscribeFilter_decode data level =
     and_then (read_string data) (\<lambda>(path, data).
     (case level of
        V4 \<Rightarrow>
          and_then (read_u8 data) (\<lambda>(options, data).
          if options AND 0b11111100 > 0 then Inl DecodeError.MalformedPacket
          else
          let n_qos = options AND 0b11 in
          and_then (ok_or (InvalidQOS n_qos) (Qos_try_from n_qos)) (\<lambda>qos.
          Inr (\<lparr>filter_path = path, filter_qos = qos, filter_no_local = False,
                filter_retain_as_published = False,
                filter_retain_handling = OnEverySubscribe\<rparr>, data)))
      | V5 \<Rightarrow>
          and_then (read_u8 data) (\<lambda>(options, data).
          let n_qos = options AND 0b11 in
          and_then (ok_or (InvalidQOS n_qos) (Qos_try_from n_qos)) (\<lambda>qos.
          let no_local = options AND 0b100 > 0;
              retain_as_published = options AND 0b1000 > 0;
              n_retain_handling = drop_bit 4 (options AND 0b110000) in
          and_then (ok_or (InvalidRetainHandling n_retain_handling)
            (RetainHandling_try_from n_retain_handling)) (\<lambda>retain_handling.
          Inr (\<lparr>filter_path = path, filter_qos = qos, filter_no_local = no_local,
                filter_retain_as_published = retain_as_published,
                filter_retain_handling = retain_handling\<rparr>, data))))))"

definition SubscribeFilter_options :: "SubscribeFilter \<Rightarrow> ProtocolLevel \<Rightarrow> u8" where
  "SubscribeFilter_options f level =
     (let flag = 0 OR Qos_u8 (filter_qos f) in
      if level = V5 then
        let flag = (if filter_no_local f then flag OR 0b100 else flag);
            flag = (if filter_retain_as_published f then flag OR 0b1000 else flag)
        in flag OR push_bit 4 (RetainHandling_u8 (filter_retain_handling f))
      else flag)"

definition SubscribeFilter_encode :: "ProtocolLevel \<Rightarrow> SubscribeFilter \<Rightarrow> writer" where
  "SubscribeFilter_encode level f = block [
     write_string (filter_path f),
     put_u8 (SubscribeFilter_options f level)]"

subsection \<open>Subscribe\<close>

record Subscribe =
  subscribe_packet_id :: u16
  subscribe_properties :: SubscribeProperties
  subscribe_filters :: "SubscribeFilter list"

definition Subscribe_variable_header_length :: "Subscribe \<Rightarrow> ProtocolLevel \<Rightarrow> EncodeError + nat" where
  "Subscribe_variable_header_length p level =
     (let len = 2 in
      if level = V5 then
        and_then (SubscribeProperties_bytes_length (subscribe_properties p)) (\<lambda>properties_len.
        and_then (props_size properties_len) (\<lambda>n. Inr (len + n)))
      else Inr len)"

definition Subscribe_payload_length :: "Subscribe \<Rightarrow> ProtocolLevel \<Rightarrow> EncodeError + nat" where
  "Subscribe_payload_length p level = Inr (sum_list (map (\<lambda>filter. 2 + length (filter_path filter) + 1) (subscribe_filters p)))"

definition Subscribe_size :: "ProtocolLevel \<Rightarrow> Subscribe \<Rightarrow> EncodeError + nat" where
  "Subscribe_size level p =
     and_then (Subscribe_variable_header_length p level) (\<lambda>a.
     and_then (Subscribe_payload_length p level) (\<lambda>b. Inr (a + b)))"

definition Subscribe_encode_body :: "ProtocolLevel \<Rightarrow> Subscribe \<Rightarrow> writer" where
  "Subscribe_encode_body level p = block [
     put_u16 (subscribe_packet_id p),
     if_true (level = V5) (block [
       let_ok (SubscribeProperties_bytes_length (subscribe_properties p)) write_remaining_length,
       SubscribeProperties_encode (subscribe_properties p)]),
     for_each (SubscribeFilter_encode level) (subscribe_filters p)]"

definition Subscribe_encode :: "Subscribe \<Rightarrow> ProtocolLevel \<Rightarrow> nat \<Rightarrow> writer" where
  "Subscribe_encode p level max_size = block [
     put_u8 (push_bit 4 SUBSCRIBE OR 0b0010),
     let_ok (Subscribe_size level p) (\<lambda>size. block [
       ensure_w (size < max_size) EncodeError.PacketTooLarge,
       write_remaining_length size,
       Subscribe_encode_body level p])]"

lemma SubscribeFilter_decode_shrinks [shrinks]:
  "SubscribeFilter_decode data level = Inr (f, data') \<Longrightarrow> length data' < length data"
  by (cases level)
    (auto simp: SubscribeFilter_decode_def Let_def and_then_Inr_iff split: if_splits dest!: shrinks)

text \<open>The loop over the filters.\<close>

function Subscribe_filters_loop ::
  "ProtocolLevel \<Rightarrow> SubscribeFilter list \<Rightarrow> bytes \<Rightarrow> DecodeError + SubscribeFilter list" where
  "Subscribe_filters_loop level filters data =
     (if data = [] then Inr filters
      else and_then (SubscribeFilter_decode data level) (\<lambda>(filter, data).
           Subscribe_filters_loop level (filters @ [filter]) data))"
  by pat_completeness auto
termination
  by (relation "measure (\<lambda>(level, filters, data). length data)") (auto dest!: shrinks)

declare Subscribe_filters_loop.simps [simp del]

definition Subscribe_decode :: "bytes \<Rightarrow> ProtocolLevel \<Rightarrow> u8 \<Rightarrow> DecodeError + Subscribe" where
  "Subscribe_decode data level flags =
     and_then (ensure (flags AND 0x0f = 0b0010) DecodeError.MalformedPacket) (\<lambda>_.
     and_then (read_packet_id data) (\<lambda>(packet_id, data).
     and_then
       (if level = V5 then read_properties SubscribeProperties_decode data
        else Inr (SubscribeProperties_default, data)) (\<lambda>(properties, data).
     and_then (Subscribe_filters_loop level [] data) (\<lambda>filters.
     Inr \<lparr>subscribe_packet_id = packet_id, subscribe_properties = properties,
          subscribe_filters = filters\<rparr>))))"

text \<open>The wire format.\<close>

definition SubscribeFilter_wire :: "ProtocolLevel \<Rightarrow> SubscribeFilter \<Rightarrow> bytes" where
  "SubscribeFilter_wire level f = str_wire (filter_path f) @ [SubscribeFilter_options f level]"

definition SubscribeFilter_norm :: "ProtocolLevel \<Rightarrow> SubscribeFilter \<Rightarrow> SubscribeFilter" where
  "SubscribeFilter_norm level f =
     (case level of
        V4 \<Rightarrow> f\<lparr>filter_no_local := False, filter_retain_as_published := False,
                filter_retain_handling := OnEverySubscribe\<rparr>
      | V5 \<Rightarrow> f)"

definition Subscribe_body :: "ProtocolLevel \<Rightarrow> Subscribe \<Rightarrow> bytes" where
  "Subscribe_body level p = be16 (subscribe_packet_id p)
   @ (if level = V5 then props_wire (SubscribeProperties_wire (subscribe_properties p)) else [])
   @ concat (map (SubscribeFilter_wire level) (subscribe_filters p))"

definition Subscribe_ok :: "ProtocolLevel \<Rightarrow> Subscribe \<Rightarrow> bool" where
  "Subscribe_ok level p \<longleftrightarrow> subscribe_packet_id p \<noteq> 0 \<and>
     list_all (\<lambda>f. str_ok (filter_path f)) (subscribe_filters p) \<and>
     (level = V5 \<longrightarrow> SubscribeProperties_fits (subscribe_properties p))"

definition Subscribe_norm :: "ProtocolLevel \<Rightarrow> Subscribe \<Rightarrow> Subscribe" where
  "Subscribe_norm level p =
     (case level of
        V4 \<Rightarrow> p\<lparr>subscribe_properties := SubscribeProperties_default,
                subscribe_filters := map (SubscribeFilter_norm V4) (subscribe_filters p)\<rparr>
      | V5 \<Rightarrow> p)"

definition Subscribe_exact :: "ProtocolLevel \<Rightarrow> Subscribe \<Rightarrow> bool" where
  "Subscribe_exact level p \<longleftrightarrow>
     level = V5 \<longrightarrow> off_by_one (length (SubscribeProperties_wire (subscribe_properties p))) = 0"

lemma SubscribeFilter_decode_wire [wire]:
  assumes "str_ok (filter_path f)"
  shows "SubscribeFilter_decode (SubscribeFilter_wire level f @ rest) level
    = Inr (SubscribeFilter_norm level f, rest)"
proof -
  have options: "SubscribeFilter_options f V4 AND 0b11111100 = 0"
    "SubscribeFilter_options f level AND 0b11 = Qos_u8 (filter_qos f)"
    "SubscribeFilter_options f V5 AND 0b100 > 0 \<longleftrightarrow> filter_no_local f"
    "SubscribeFilter_options f V5 AND 0b1000 > 0 \<longleftrightarrow> filter_retain_as_published f"
    "drop_bit 4 (SubscribeFilter_options f V5 AND 0b110000) = RetainHandling_u8 (filter_retain_handling f)"
    by (cases level; cases "filter_qos f"; cases "filter_no_local f"; cases "filter_retain_as_published f";
        cases "filter_retain_handling f"; simp add: SubscribeFilter_options_def)+
  from assms options show ?thesis
    by (cases level; cases f)
      (simp_all add: SubscribeFilter_decode_def SubscribeFilter_wire_def SubscribeFilter_norm_def
        Let_def wire)
qed

lemma Subscribe_filters_wire:
  "list_all (\<lambda>f. str_ok (filter_path f)) filters \<Longrightarrow>
   Subscribe_filters_loop level acc (concat (map (SubscribeFilter_wire level) filters))
   = Inr (acc @ map (SubscribeFilter_norm level) filters)"
proof (induction filters arbitrary: acc)
  case Nil
  then show ?case by (simp add: Subscribe_filters_loop.simps [of level acc "[]"])
next
  case (Cons f filters)
  moreover have "SubscribeFilter_wire level f \<noteq> []" by (simp add: SubscribeFilter_wire_def)
  ultimately show ?case
    by (simp add: Subscribe_filters_loop.simps [of level acc "SubscribeFilter_wire level f @ _"] wire)
qed

lemma SubscribeFilter_norm_V5: "SubscribeFilter_norm V5 = (\<lambda>f. f)"
  by (simp add: SubscribeFilter_norm_def fun_eq_iff)

lemma Subscribe_filters_wf:
  "Subscribe_filters_loop level acc data = Inr filters \<Longrightarrow>
   list_all (\<lambda>f. str_ok (filter_path f)) acc \<Longrightarrow> list_all (\<lambda>f. str_ok (filter_path f)) filters"
proof (induction level acc data rule: Subscribe_filters_loop.induct)
  case (1 level acc data)
  show ?case
  proof (cases "data = []")
    case True
    with "1.prems" show ?thesis by (simp add: Subscribe_filters_loop.simps [of level acc])
  next
    case False
    with "1.prems" obtain f rest where f: "SubscribeFilter_decode data level = Inr (f, rest)"
      and rest: "Subscribe_filters_loop level (acc @ [f]) rest = Inr filters"
      by (auto simp: Subscribe_filters_loop.simps [of level acc] and_then_Inr_iff)
    from f have "str_ok (filter_path f)"
      by (cases level)
        (auto simp: SubscribeFilter_decode_def Let_def and_then_Inr_iff split: if_splits
          dest: read_string_ok)
    with 1 False f rest show ?thesis by auto
  qed
qed

lemma Subscribe_encode_body_wire:
  assumes "Subscribe_ok level p"
  shows "Subscribe_encode_body level p = put_slice (Subscribe_body level p)"
proof -
  have "for_each (SubscribeFilter_encode level) (subscribe_filters p)
    = put_slice (concat (map (SubscribeFilter_wire level) (subscribe_filters p)))"
    using assms
    by (intro for_each_slice)
      (auto simp: Subscribe_ok_def list_all_iff SubscribeFilter_encode_def SubscribeFilter_wire_def wire)
  with assms show ?thesis
    using SubscribeProperties_encode_block [of "subscribe_properties p"]
    by (cases level) (auto simp: Subscribe_encode_body_def Subscribe_body_def Subscribe_ok_def wire)
qed

lemma Subscribe_decode_wire:
  "Subscribe_ok level p \<Longrightarrow>
   Subscribe_decode (Subscribe_body level p) level (push_bit 4 SUBSCRIBE OR 0b0010)
   = Inr (Subscribe_norm level p)"
  using SubscribeProperties_fits_length [of "subscribe_properties p"]
  by (cases level; cases p)
    (auto simp: Subscribe_decode_def Subscribe_body_def Subscribe_ok_def Subscribe_norm_def
      Subscribe_filters_wire SubscribeFilter_norm_V5 wire)

lemma Subscribe_decode_wf:
  assumes "Subscribe_decode data level flags = Inr p"
  shows "subscribe_packet_id p \<noteq> 0" "SubscribeProperties_ok (subscribe_properties p)"
    "list_all (\<lambda>f. str_ok (filter_path f)) (subscribe_filters p)"
  using assms SubscribeProperties_decode_wf subprop_codec.wf_initial Subscribe_filters_wf
  by (auto simp: Subscribe_decode_def and_then_Inr_iff split: if_splits
      dest: read_packet_id_ok elim!: read_properties_ok)

lemma length_subscribe_filters_wire:
  "length (concat (map (SubscribeFilter_wire level) filters))
   = sum_list (map (\<lambda>filter. 2 + length (filter_path filter) + 1) filters)"
  by (induction filters) (simp_all add: SubscribeFilter_wire_def)

lemma Subscribe_size_eq:
  "Subscribe_ok level p \<Longrightarrow> Subscribe_exact level p \<Longrightarrow> Subscribe_size level p = Inr (length (Subscribe_body level p))"
  using SubscribeProperties_fits_length [of "subscribe_properties p"]
  by (cases level)
    (simp_all add: Subscribe_size_def Subscribe_variable_header_length_def Subscribe_payload_length_def Subscribe_body_def
      Subscribe_ok_def Subscribe_exact_def wire length_subscribe_filters_wire del: length_concat)


interpretation subscribe: packet_codec "\<lambda>_. push_bit 4 SUBSCRIBE OR 0b0010" Subscribe_size Subscribe_encode
  "Subscribe_decode" Subscribe_body Subscribe_ok Subscribe_norm "(<)"
  by unfold_locales
    (simp_all add: Subscribe_encode_def framed_def Subscribe_encode_body_wire Subscribe_decode_wire
      del: push_bit_numeral cong del: let_ok_cong)

end
