(* ===== verification/Trie_Node.thy ===== *)
theory Trie_Node
  imports Filter_Util Message Packet_Subscribe
begin

text \<open>
  The tree of \<open>libs/service/src/trie.rs\<close>: nodes with a child for the segment \<open>#\<close>, one for
  \<open>+\<close> and named children, the subscriptions of the filter that ends at the node, and the retained
  message of the topic that ends there. Hash maps are association lists; what is proved does not
  depend on their order. Paths are lists of segments; they come from \<open>split('/')\<close>, which is
  never empty, so the \<open>unwrap\<close> on the first segment does not fail (the equations for an empty
  path are never reached).

  The children are reached through \<open>child\<close>, \<open>put_child\<close> and \<open>drop_child\<close>, and everything a
  node holds through \<open>entry_at\<close> and \<open>retained_at\<close>: the operations are specified by how they
  change these two.
\<close>

subsection \<open>FilterItem of \<open>storage.rs\<close>, and Node\<close>

record FilterItem =
  item_qos :: Qos
  item_no_local :: bool
  item_retain_as_published :: bool
  item_retain_handling :: RetainHandling
  item_id :: "nat option"

datatype Node = Node
  (hash_child: "Node option")
  (plus_child: "Node option")
  (named_children: "(string \<times> Node) list")
  (node_data: "(string \<times> FilterItem) list")
  (retained_message: "Message option")

definition Node_default :: Node where
  "Node_default = Node None None [] [] None"

definition Node_is_empty :: "Node \<Rightarrow> bool" where
  "Node_is_empty n \<longleftrightarrow> hash_child n = None \<and> plus_child n = None \<and> named_children n = []
     \<and> node_data n = [] \<and> retained_message n = None"

text \<open>Assignments to the fields.\<close>

primrec set_hash_child :: "Node option \<Rightarrow> Node \<Rightarrow> Node" where
  "set_hash_child c (Node h p named d r) = Node c p named d r"

primrec set_plus_child :: "Node option \<Rightarrow> Node \<Rightarrow> Node" where
  "set_plus_child c (Node h p named d r) = Node h c named d r"

primrec set_named_children :: "(string \<times> Node) list \<Rightarrow> Node \<Rightarrow> Node" where
  "set_named_children cs (Node h p named d r) = Node h p cs d r"

primrec set_data :: "(string \<times> FilterItem) list \<Rightarrow> Node \<Rightarrow> Node" where
  "set_data d' (Node h p named d r) = Node h p named d' r"

primrec set_retained :: "Message option \<Rightarrow> Node \<Rightarrow> Node" where
  "set_retained r' (Node h p named d r) = Node h p named d r'"

text \<open>The \<open>match segment\<close> of the walks over the tree.\<close>

definition child :: "string \<Rightarrow> Node \<Rightarrow> Node option" where
  "child segment n =
     (if segment = ''#'' then hash_child n
      else if segment = ''+'' then plus_child n
      else map_of (named_children n) segment)"

definition put_child :: "string \<Rightarrow> Node \<Rightarrow> Node \<Rightarrow> Node" where
  "put_child segment c n =
     (if segment = ''#'' then set_hash_child (Some c) n
      else if segment = ''+'' then set_plus_child (Some c) n
      else set_named_children (AList.update segment c (named_children n)) n)"

definition drop_child :: "string \<Rightarrow> Node \<Rightarrow> Node" where
  "drop_child segment n =
     (if segment = ''#'' then set_hash_child None n
      else if segment = ''+'' then set_plus_child None n
      else set_named_children (AList.delete segment (named_children n)) n)"

definition child_or_default :: "string \<Rightarrow> Node \<Rightarrow> Node" where
  "child_or_default segment n = (case child segment n of Some c \<Rightarrow> c | None \<Rightarrow> Node_default)"

lemma set_simps [simp]:
  "hash_child (set_hash_child c n) = c" "plus_child (set_hash_child c n) = plus_child n"
  "named_children (set_hash_child c n) = named_children n" "node_data (set_hash_child c n) = node_data n"
  "retained_message (set_hash_child c n) = retained_message n"
  "hash_child (set_plus_child c n) = hash_child n" "plus_child (set_plus_child c n) = c"
  "named_children (set_plus_child c n) = named_children n" "node_data (set_plus_child c n) = node_data n"
  "retained_message (set_plus_child c n) = retained_message n"
  "hash_child (set_named_children cs n) = hash_child n" "plus_child (set_named_children cs n) = plus_child n"
  "named_children (set_named_children cs n) = cs" "node_data (set_named_children cs n) = node_data n"
  "retained_message (set_named_children cs n) = retained_message n"
  "hash_child (set_data d n) = hash_child n" "plus_child (set_data d n) = plus_child n"
  "named_children (set_data d n) = named_children n" "node_data (set_data d n) = d"
  "retained_message (set_data d n) = retained_message n"
  "hash_child (set_retained r n) = hash_child n" "plus_child (set_retained r n) = plus_child n"
  "named_children (set_retained r n) = named_children n" "node_data (set_retained r n) = node_data n"
  "retained_message (set_retained r n) = r"
  by (cases n; simp)+

lemma default_simps [simp]:
  "hash_child Node_default = None" "plus_child Node_default = None"
  "named_children Node_default = []" "node_data Node_default = []"
  "retained_message Node_default = None"
  by (simp_all add: Node_default_def)

lemma child_put_child [simp]: "child s (put_child s' c n) = (if s = s' then Some c else child s n)"
  by (simp add: child_def put_child_def update_conv')

lemma child_drop_child [simp]: "child s (drop_child s' n) = (if s = s' then None else child s n)"
  by (simp add: child_def drop_child_def delete_conv')

lemma child_simps [simp]:
  "child s (set_data d n) = child s n" "child s (set_retained r n) = child s n"
  "child s Node_default = None"
  by (simp_all add: child_def)

lemma put_child_simps [simp]:
  "node_data (put_child s c n) = node_data n" "retained_message (put_child s c n) = retained_message n"
  "node_data (drop_child s n) = node_data n" "retained_message (drop_child s n) = retained_message n"
  by (auto simp: put_child_def drop_child_def)

lemma empty_fields:
  assumes "Node_is_empty n"
  shows "child s n = None" "node_data n = []" "retained_message n = None"
  using assms by (auto simp: Node_is_empty_def child_def)

lemma put_child_not_empty [simp]: "\<not> Node_is_empty (put_child s c n)"
  using empty_fields(1) [of "put_child s c n" s] by auto

subsection \<open>Lookup\<close>

fun node_at :: "string list \<Rightarrow> Node \<Rightarrow> Node option" where
  "node_at [] n = Some n"
| "node_at (segment # segments) n =
     (case child segment n of None \<Rightarrow> None | Some c \<Rightarrow> node_at segments c)"

text \<open>What the tree holds at a path: its subscriptions by client, and its retained message.\<close>

definition content_at :: "string list \<Rightarrow> Node \<Rightarrow> (string \<rightharpoonup> FilterItem) \<times> Message option" where
  "content_at segments n =
     (case node_at segments n of
        None \<Rightarrow> (Map.empty, None)
      | Some m \<Rightarrow> (map_of (node_data m), retained_message m))"

definition entry_at :: "string list \<Rightarrow> string \<Rightarrow> Node \<Rightarrow> FilterItem option" where
  "entry_at segments client_id n = fst (content_at segments n) client_id"

definition retained_at :: "string list \<Rightarrow> Node \<Rightarrow> Message option" where
  "retained_at segments n = snd (content_at segments n)"

lemma content_at_simps [simp]:
  "content_at [] n = (map_of (node_data n), retained_message n)"
  "content_at (s # ss) n =
     (case child s n of None \<Rightarrow> (Map.empty, None) | Some c \<Rightarrow> content_at ss c)"
  by (simp_all add: content_at_def split: option.splits)

lemma content_at_empty: "Node_is_empty n \<Longrightarrow> content_at ss n = (Map.empty, None)"
  by (cases ss) (simp_all add: empty_fields)

lemma content_at_put_child:
  "content_at ss (put_child s c n) =
     (case ss of
        [] \<Rightarrow> content_at [] n
      | s' # ss' \<Rightarrow> if s' = s then content_at ss' c else content_at ss n)"
  by (cases ss) simp_all

lemma content_at_drop_child:
  "content_at ss (drop_child s n) =
     (case ss of
        [] \<Rightarrow> content_at [] n
      | s' # ss' \<Rightarrow> if s' = s then (Map.empty, None) else content_at ss n)"
  by (cases ss) simp_all

lemma content_at_set_data:
  "content_at ss (set_data d n) =
     (if ss = [] then (map_of d, retained_message n) else content_at ss n)"
  by (cases ss) simp_all

lemma content_at_set_retained:
  "content_at ss (set_retained r n) =
     (if ss = [] then (map_of (node_data n), r) else content_at ss n)"
  by (cases ss) simp_all

lemma content_at_or_default:
  "content_at ss (child_or_default s n) = content_at (s # ss) n"
proof -
  have "content_at ss Node_default = (Map.empty, None)" by (cases ss) simp_all
  then show ?thesis by (simp add: child_or_default_def split: option.splits)
qed

subsection \<open>Operations on subscriptions\<close>

fun internal_subscribe ::
  "string list \<Rightarrow> Node \<Rightarrow> string \<Rightarrow> FilterItem \<Rightarrow> FilterItem option \<times> Node" where
  "internal_subscribe [] parent_node client_id data = (None, parent_node)"
| "internal_subscribe (segment # segments) parent_node client_id data =
     (let is_end = segments = [];
          node = child_or_default segment parent_node;
          (res, node) =
            (if is_end then
               (map_of (node_data node) client_id,
                set_data (AList.update client_id data (node_data node)) node)
             else internal_subscribe segments node client_id data)
      in (res, put_child segment node parent_node))"

fun internal_unsubscribe :: "string list \<Rightarrow> Node \<Rightarrow> string \<Rightarrow> FilterItem option \<times> Node" where
  "internal_unsubscribe [] parent_node client_id = (None, parent_node)"
| "internal_unsubscribe (segment # segments) parent_node client_id =
     (let is_end = segments = [] in
      case child segment parent_node of
        None \<Rightarrow> (None, parent_node)
      | Some node \<Rightarrow>
          let (res, node) =
            (if is_end then
               (map_of (node_data node) client_id,
                set_data (AList.delete client_id (node_data node)) node)
             else internal_unsubscribe segments node client_id)
          in (res, if Node_is_empty node then drop_child segment parent_node
                   else put_child segment node parent_node))"

text \<open>
  \<open>subscribe\<close> sets the entry of the client at the path, and returns the one that was there.
\<close>

lemma internal_subscribe_at:
  assumes "internal_subscribe segments n client_id data = (res, n')" "segments \<noteq> []"
  shows "res = entry_at segments client_id n \<and>
    content_at ss n' =
      (if ss = segments then apfst (\<lambda>m. m(client_id \<mapsto> data)) (content_at ss n) else content_at ss n)"
  using assms
proof (induction segments n client_id data arbitrary: res n' ss rule: internal_subscribe.induct)
  case (2 segment segments n client_id data)
  define m where "m = child_or_default segment n"
  have m: "content_at ss m = content_at (segment # ss) n" for ss
    by (simp only: m_def content_at_or_default)
  obtain m' where n': "n' = put_child segment m' n"
    and m': "res = entry_at segments client_id m"
      "content_at ss m' = (if ss = segments then apfst (\<lambda>m. m(client_id \<mapsto> data)) (content_at ss m)
         else content_at ss m)" for ss
  proof (cases "segments = []")
    case True
    with "2.prems" show ?thesis
      by (intro that [of "set_data (AList.update client_id data (node_data m)) m"])
        (auto simp: m_def [symmetric] Let_def content_at_set_data entry_at_def update_conv')
  next
    case False
    with "2.prems" "2.IH" [of "segments = []" m] show ?thesis
      by (auto simp: m_def [symmetric] Let_def split: prod.splits intro: that)
  qed
  show ?case
    by (cases ss) (simp_all add: n' content_at_put_child m m' entry_at_def del: content_at_simps(2))
qed simp

text \<open>\<open>unsubscribe\<close> removes the entry and returns it.\<close>

lemma internal_unsubscribe_at:
  assumes "internal_unsubscribe segments n client_id = (res, n')" "segments \<noteq> []"
  shows "res = entry_at segments client_id n \<and>
    content_at ss n' =
      (if ss = segments then apfst (\<lambda>m. m(client_id := None)) (content_at ss n) else content_at ss n)"
  using assms
proof (induction segments n client_id arbitrary: res n' ss rule: internal_unsubscribe.induct)
  case (2 segment segments n client_id)
  show ?case
  proof (cases "child segment n")
    case None
    with "2.prems" show ?thesis by (auto simp: entry_at_def)
  next
    case (Some m)
    obtain m' where n': "n' = (if Node_is_empty m' then drop_child segment n else put_child segment m' n)"
      and m': "res = entry_at segments client_id m"
        "content_at ss m' = (if ss = segments then apfst (\<lambda>m. m(client_id := None)) (content_at ss m)
           else content_at ss m)" for ss
    proof (cases "segments = []")
      case True
      with "2.prems" Some show ?thesis
        by (intro that [of "set_data (AList.delete client_id (node_data m)) m"])
          (auto simp: Let_def content_at_set_data entry_at_def delete_conv' split: if_splits)
    next
      case False
      obtain r m' where u: "internal_unsubscribe segments m client_id = (r, m')" by force
      have "r = entry_at segments client_id m \<and> content_at ss m' =
        (if ss = segments then apfst (\<lambda>m. m(client_id := None)) (content_at ss m) else content_at ss m)" for ss
        using "2.IH" [OF refl Some False u False] .
      with "2.prems" Some False u show ?thesis
        by (intro that [of m']) (auto simp: Let_def)
    qed
    have "content_at ss n' = (case ss of [] \<Rightarrow> content_at [] n
      | s' # ss' \<Rightarrow> if s' = segment then content_at ss' m' else content_at ss n)"
      by (cases "Node_is_empty m'")
        (auto simp: n' content_at_put_child content_at_drop_child content_at_empty split: list.splits)
    with Some m' show ?thesis by (cases ss) (auto simp: entry_at_def)
  qed
qed simp

subsection \<open>Sums over a tree, and its invariant\<close>

definition to_list :: "'a option \<Rightarrow> 'a list" where
  "to_list v = (case v of None \<Rightarrow> [] | Some x \<Rightarrow> [x])"

lemma to_list_simps [simp]: "to_list None = []" "to_list (Some x) = [x]"
  "x \<in> set (to_list v) \<longleftrightarrow> v = Some x"
  by (auto simp: to_list_def split: option.splits)

definition children :: "Node \<Rightarrow> Node list" where
  "children n = to_list (hash_child n) @ to_list (plus_child n) @ map snd (named_children n)"

text \<open>The sum of a weight over all nodes, and a predicate that holds for all nodes.\<close>

primrec node_sum ::
  "((string \<times> FilterItem) list \<Rightarrow> Message option \<Rightarrow> nat) \<Rightarrow> Node \<Rightarrow> nat" where
  "node_sum w (Node h p named d r) = w d r
     + sum_list (to_list (map_option (node_sum w) h)) + sum_list (to_list (map_option (node_sum w) p))
     + sum_list (map snd (map (map_prod (\<lambda>name. name) (node_sum w)) named))"

primrec node_all :: "(Node \<Rightarrow> bool) \<Rightarrow> Node \<Rightarrow> bool" where
  "node_all P (Node h p named d r) \<longleftrightarrow> P (Node h p named d r)
     \<and> list_all (\<lambda>b. b) (to_list (map_option (node_all P) h))
     \<and> list_all (\<lambda>b. b) (to_list (map_option (node_all P) p))
     \<and> list_all (\<lambda>b. b) (map snd (map (map_prod (\<lambda>name. name) (node_all P)) named))"

lemma node_sum_eq:
  "node_sum w n = w (node_data n) (retained_message n) + sum_list (map (node_sum w) (children n))"
  by (cases n; cases "hash_child n"; cases "plus_child n")
    (simp_all add: children_def comp_def case_prod_unfold)

lemma node_all_eq: "node_all P n \<longleftrightarrow> P n \<and> list_all (node_all P) (children n)"
  by (cases n; cases "hash_child n"; cases "plus_child n")
    (simp_all add: children_def comp_def case_prod_unfold list_all_iff)

lemma node_sum_child:
  "c \<in> set (children n) \<Longrightarrow> node_sum w c + w (node_data n) (retained_message n) \<le> node_sum w n"
  unfolding node_sum_eq [of w n] by (simp add: member_le_sum_list)

text \<open>Induction and termination over the children.\<close>

definition node_size :: "Node \<Rightarrow> nat" where
  "node_size = node_sum (\<lambda>d r. 1)"

lemma node_size_child: "c \<in> set (children n) \<Longrightarrow> node_size c < node_size n"
  using node_sum_child [of c n "\<lambda>d r. 1"] by (simp add: node_size_def)

lemma node_induct [case_names node]:
  assumes "\<And>n. (\<And>c. c \<in> set (children n) \<Longrightarrow> P c) \<Longrightarrow> P n"
  shows "P n"
  by (induction n rule: measure_induct_rule [of node_size]) (auto intro: assms node_size_child)

text \<open>How a new or dropped child changes a sum.\<close>

lemma sum_list_update:
  "sum_list (map (\<lambda>(k, v). f v) (AList.update k v al)) + (case map_of al k of None \<Rightarrow> 0 | Some u \<Rightarrow> f u)
   = sum_list (map (\<lambda>(k, v). f v) al) + (f v :: nat)"
  by (induction al) auto

lemma sum_list_delete:
  "distinct (map fst al) \<Longrightarrow>
   sum_list (map (\<lambda>(k, v). f v) (AList.delete k al)) + (case map_of al k of None \<Rightarrow> 0 | Some u \<Rightarrow> f u)
   = (sum_list (map (\<lambda>(k, v). f v) al) :: nat)"
proof (induction al)
  case (Cons kv al)
  obtain k' v where [simp]: "kv = (k', v)" by (cases kv)
  show ?case
  proof (cases "k' = k")
    case True
    with Cons.prems have "AList.delete k al = al" by (auto simp: delete_id)
    with True show ?thesis by simp
  next
    case False
    with Cons show ?thesis by auto
  qed
qed simp

lemma sum_children:
  "sum_list (map f (children n)) =
     (case hash_child n of None \<Rightarrow> 0 | Some c \<Rightarrow> f c) + (case plus_child n of None \<Rightarrow> 0 | Some c \<Rightarrow> f c)
     + sum_list (map (\<lambda>(k, v). f v) (named_children n))" for f :: "Node \<Rightarrow> nat"
  by (simp add: children_def to_list_def comp_def case_prod_unfold split: option.splits)

lemma node_sum_put_child:
  "node_sum w (put_child s c n) + (case child s n of None \<Rightarrow> 0 | Some c \<Rightarrow> node_sum w c)
   = node_sum w n + node_sum w c"
  using sum_list_update [of "node_sum w" s c "named_children n"]
  unfolding node_sum_eq [of w "put_child s c n"] node_sum_eq [of w n] sum_children
  by (simp add: put_child_def child_def)

lemma node_sum_drop_child:
  "distinct (map fst (named_children n)) \<Longrightarrow>
   node_sum w (drop_child s n) + (case child s n of None \<Rightarrow> 0 | Some c \<Rightarrow> node_sum w c) = node_sum w n"
  using sum_list_delete [of "named_children n" "node_sum w" s]
  unfolding node_sum_eq [of w "drop_child s n"] node_sum_eq [of w n] sum_children
  by (simp add: drop_child_def child_def)

lemma node_sum_set_data:
  "node_sum w (set_data d n) + w (node_data n) (retained_message n)
   = node_sum w n + w d (retained_message n)"
  by (simp add: node_sum_eq [of w "set_data d n"] node_sum_eq [of w n] children_def)

lemma node_sum_set_retained:
  "node_sum w (set_retained r n) + w (node_data n) (retained_message n)
   = node_sum w n + w (node_data n) r"
  by (simp add: node_sum_eq [of w "set_retained r n"] node_sum_eq [of w n] children_def)

lemma node_sum_default: "node_sum w Node_default = w [] None"
  by (simp add: node_sum_eq [of w Node_default] children_def)

text \<open>The numbers of subscriptions, of subscriptions of a client, and of retained messages.\<close>

definition subscriptions :: "Node \<Rightarrow> nat" where
  "subscriptions = node_sum (\<lambda>d r. length d)"

definition subscriptions_of :: "string \<Rightarrow> Node \<Rightarrow> nat" where
  "subscriptions_of client_id = node_sum (\<lambda>d r. if map_of d client_id = None then 0 else 1)"

definition retained_messages :: "Node \<Rightarrow> nat" where
  "retained_messages = node_sum (\<lambda>d r. if r = None then 0 else 1)"

text \<open>
  The invariant: keys of the maps are distinct, the wildcards are no names, no child is an empty
  node, and no message is retained below a wildcard.
\<close>

definition names_ok :: "(string \<times> Node) list \<Rightarrow> bool" where
  "names_ok named \<longleftrightarrow> distinct (map fst named) \<and> ''#'' \<notin> set (map fst named) \<and> ''+'' \<notin> set (map fst named)"

definition node_ok :: "Node \<Rightarrow> bool" where
  "node_ok n \<longleftrightarrow> names_ok (named_children n) \<and> distinct (map fst (node_data n)) \<and>
     list_all (\<lambda>c. \<not> Node_is_empty c) (children n) \<and>
     list_all (\<lambda>c. retained_messages c = 0) (to_list (hash_child n) @ to_list (plus_child n))"

definition node_wf :: "Node \<Rightarrow> bool" where
  "node_wf = node_all node_ok"

lemma node_wf_eq: "node_wf n \<longleftrightarrow> node_ok n \<and> list_all node_wf (children n)"
  unfolding node_wf_def by (rule node_all_eq)

lemma child_children:
  assumes "child s n = Some c"
  shows "c \<in> set (children n)"
proof -
  have "c \<in> snd ` set al" if "map_of al s = Some c" for al
    using map_of_SomeD [OF that] by force
  with assms show ?thesis by (auto simp: child_def children_def split: if_splits)
qed

lemma children_child:
  assumes "names_ok (named_children n)" "c \<in> set (children n)"
  shows "\<exists>s. child s n = Some c"
proof -
  consider "hash_child n = Some c" | "plus_child n = Some c"
    | "c \<in> snd ` set (named_children n)"
    using assms(2) by (auto simp: children_def)
  then show ?thesis
  proof cases
    case 3
    then obtain name where "(name, c) \<in> set (named_children n)" by force
    with assms(1) have "map_of (named_children n) name = Some c" "name \<noteq> ''#''" "name \<noteq> ''+''"
      by (force simp: names_ok_def)+
    then have "child name n = Some c" by (simp add: child_def)
    then show ?thesis ..
  qed (auto simp: child_def intro: exI [of _ "''#''"] exI [of _ "''+''"])
qed

text \<open>The invariant, in terms of \<open>child\<close>.\<close>

lemma node_wfI:
  assumes "names_ok (named_children n)" "distinct (map fst (node_data n))"
    and "\<And>s c. child s n = Some c \<Longrightarrow> node_wf c \<and> \<not> Node_is_empty c \<and>
      (s = ''#'' \<or> s = ''+'' \<longrightarrow> retained_messages c = 0)"
  shows "node_wf n"
proof -
  have "hash_child n = child ''#'' n" "plus_child n = child ''+'' n"
    by (simp_all add: child_def)
  with assms children_child [OF assms(1)] show ?thesis
    unfolding node_wf_eq [of n] node_ok_def list_all_iff by fastforce
qed

lemma node_wfD:
  assumes "node_wf n"
  shows "names_ok (named_children n)" "distinct (map fst (node_data n))"
    and "child s n = Some c \<Longrightarrow> node_wf c" "child s n = Some c \<Longrightarrow> \<not> Node_is_empty c"
    and "child s n = Some c \<Longrightarrow> s = ''#'' \<or> s = ''+'' \<Longrightarrow> retained_messages c = 0"
  using assms child_children [of s n c]
  by (auto simp: node_wf_eq [of n] node_ok_def list_all_iff child_def split: if_splits)

lemma names_ok_put_child:
  "names_ok (named_children n) \<Longrightarrow> names_ok (named_children (put_child s c n))"
  by (simp add: put_child_def names_ok_def distinct_update dom_update)

lemma names_ok_drop_child:
  "names_ok (named_children n) \<Longrightarrow> names_ok (named_children (drop_child s n))"
  using dom_delete_subset [of s "named_children n"]
  by (auto simp: drop_child_def names_ok_def distinct_delete)

lemma node_wf_default: "node_wf Node_default"
  by (rule node_wfI) (simp_all add: names_ok_def)

lemma node_wf_put_child:
  assumes "node_wf n" "node_wf c" "\<not> Node_is_empty c"
    and "s = ''#'' \<or> s = ''+'' \<Longrightarrow> retained_messages c = 0"
  shows "node_wf (put_child s c n)"
proof (rule node_wfI)
  show "names_ok (named_children (put_child s c n))"
    using node_wfD(1) [OF assms(1)] by (rule names_ok_put_child)
  show "distinct (map fst (node_data (put_child s c n)))" using node_wfD(2) [OF assms(1)] by simp
  fix s' c' assume "child s' (put_child s c n) = Some c'"
  with assms node_wfD(3-5) [OF assms(1), of s' c']
  show "node_wf c' \<and> \<not> Node_is_empty c' \<and> (s' = ''#'' \<or> s' = ''+'' \<longrightarrow> retained_messages c' = 0)"
    by (simp split: if_splits)
qed

lemma node_wf_drop_child:
  assumes "node_wf n"
  shows "node_wf (drop_child s n)"
proof (rule node_wfI)
  show "names_ok (named_children (drop_child s n))"
    using node_wfD(1) [OF assms] by (rule names_ok_drop_child)
  show "distinct (map fst (node_data (drop_child s n)))" using node_wfD(2) [OF assms] by simp
  fix s' c' assume "child s' (drop_child s n) = Some c'"
  with node_wfD(3-5) [OF assms, of s' c']
  show "node_wf c' \<and> \<not> Node_is_empty c' \<and> (s' = ''#'' \<or> s' = ''+'' \<longrightarrow> retained_messages c' = 0)"
    by (simp split: if_splits)
qed

lemma node_wf_set_data: "node_wf n \<Longrightarrow> distinct (map fst d) \<Longrightarrow> node_wf (set_data d n)"
  by (rule node_wfI) (auto dest: node_wfD)

lemma node_wf_set_retained: "node_wf n \<Longrightarrow> node_wf (set_retained r n)"
  by (rule node_wfI) (auto dest: node_wfD)

lemma node_wf_or_default: "node_wf n \<Longrightarrow> node_wf (child_or_default s n)"
  by (auto simp: child_or_default_def node_wf_default dest: node_wfD split: option.splits)

end
