(* ===== verification/Trie_Match.thy ===== *)
theory Trie_Match
  imports Trie_Node
begin

text \<open>
  Matching: \<open>internal_matches\<close> and \<open>internal_matches_retained_messages\<close> with the specification
  of what a filter matches.
\<close>

subsection \<open>Matching topics\<close>

text \<open>The nodes that \<open>internal_matches\<close> adds to the vector.\<close>

fun internal_matches :: "Node \<Rightarrow> string list \<Rightarrow> Node list" where
  "internal_matches parent_node [] = []"
| "internal_matches parent_node (segment # tail) =
     (let is_end = tail = [] in
      to_list (hash_child parent_node) @
      (if is_end then
         to_list (plus_child parent_node) @ to_list (map_of (named_children parent_node) segment)
       else
         (case plus_child parent_node of Some plus_node \<Rightarrow> internal_matches plus_node tail | None \<Rightarrow> [])
         @ (case map_of (named_children parent_node) segment of
              Some named_node \<Rightarrow> internal_matches named_node tail | None \<Rightarrow> [])))"

text \<open>
  Which filters match a topic: \<open>+\<close> stands for one segment, \<open>#\<close> at the end for at least one.
\<close>

fun filter_matches :: "string list \<Rightarrow> string list \<Rightarrow> bool" where
  "filter_matches (f # fs) (t # ts) \<longleftrightarrow>
     (if f = ''#'' then fs = []
      else (f = ''+'' \<or> f = t) \<and> (fs = [] \<and> ts = [] \<or> filter_matches fs ts))"
| "filter_matches _ _ \<longleftrightarrow> False"

text \<open>The paths of the nodes that match.\<close>

fun matching_paths :: "Node \<Rightarrow> string list \<Rightarrow> string list list" where
  "matching_paths n [] = []"
| "matching_paths n (t # ts) =
     (if child ''#'' n = None then [] else [[''#'']]) @
     concat (map (\<lambda>s. case child s n of
         None \<Rightarrow> []
       | Some c \<Rightarrow> if ts = [] then [[s]] else map ((#) s) (matching_paths c ts))
       (if t = ''+'' \<or> t = ''#'' then [''+''] else [''+'', t]))"

lemma internal_matches_paths:
  "node_wf n \<Longrightarrow> internal_matches n ts = map (\<lambda>p. the (node_at p n)) (matching_paths n ts)"
proof (induction n ts rule: internal_matches.induct)
  case (2 n t ts)
  have hash: "hash_child n = child ''#'' n" and plus: "plus_child n = child ''+'' n"
    by (simp_all add: child_def)
  have named: "map_of (named_children n) t = (if t = ''+'' \<or> t = ''#'' then None else child t n)"
    using node_wfD(1) [OF "2.prems"] by (auto simp: child_def names_ok_def map_of_eq_None_iff)
  have step: "(if ts = [] then to_list (child s n) else
      (case child s n of Some c \<Rightarrow> internal_matches c ts | None \<Rightarrow> []))
    = map (\<lambda>p. the (node_at p n)) (case child s n of
         None \<Rightarrow> []
       | Some c \<Rightarrow> if ts = [] then [[s]] else map ((#) s) (matching_paths c ts))"
    if ih: "\<And>c. ts \<noteq> [] \<Longrightarrow> child s n = Some c \<Longrightarrow>
      internal_matches c ts = map (\<lambda>p. the (node_at p c)) (matching_paths c ts)" for s
    using ih by (cases "child s n") (simp_all add: comp_def)
  have plus_step: "internal_matches c ts = map (\<lambda>p. the (node_at p c)) (matching_paths c ts)"
    if "ts \<noteq> []" "child ''+'' n = Some c" for c
    using "2.IH"(1) [OF refl that(1)] that node_wfD(3) [OF "2.prems" that(2)] by (simp add: plus)
  have named_step: "internal_matches c ts = map (\<lambda>p. the (node_at p c)) (matching_paths c ts)"
    if "ts \<noteq> []" "child t n = Some c" "\<not> (t = ''+'' \<or> t = ''#'')" for c
    using "2.IH"(2) [OF refl that(1)] that node_wfD(3) [OF "2.prems" that(2)] by (simp add: named)
  note steps = step [OF plus_step] step [of t, OF named_step]
  show ?case
    using steps by (cases "child ''#'' n") (auto simp: hash plus named Let_def split: if_splits)
qed simp

definition matching_step :: "Node \<Rightarrow> string list \<Rightarrow> string \<Rightarrow> string list list" where
  "matching_step n ts s =
     (case child s n of
        None \<Rightarrow> []
      | Some c \<Rightarrow> if ts = [] then [[s]] else map ((#) s) (matching_paths c ts))"

lemma matching_step_iff:
  "p \<in> set (matching_step n ts s) \<longleftrightarrow>
     (\<exists>c fs. p = s # fs \<and> child s n = Some c \<and>
       (if ts = [] then fs = [] else fs \<in> set (matching_paths c ts)))"
  by (cases "child s n") (auto simp: matching_step_def)

lemma matching_paths_unfold:
  "matching_paths n (t # ts) = (if child ''#'' n = None then [] else [[''#'']]) @
    concat (map (matching_step n ts) (if t = ''+'' \<or> t = ''#'' then [''+''] else [''+'', t]))"
  by (simp add: matching_step_def)

lemma matching_paths_Cons:
  "p \<in> set (matching_paths n (t # ts)) \<longleftrightarrow>
     (\<exists>f fs c. p = f # fs \<and> child f n = Some c \<and>
       (if f = ''#'' then fs = []
        else (f = ''+'' \<or> f = t) \<and> (if ts = [] then fs = [] else fs \<in> set (matching_paths c ts))))"
proof -
  let ?segments = "if t = ''+'' \<or> t = ''#'' then [''+''] else [''+'', t]"
  have general: "p \<in> set ((if c = None then [] else [x]) @ concat (map f xs)) \<longleftrightarrow>
      c \<noteq> None \<and> p = x \<or> (\<exists>s \<in> set xs. p \<in> set (f s))"
    for c :: "Node option" and x xs and f :: "string \<Rightarrow> string list list"
    by auto
  have "p \<in> set (matching_paths n (t # ts)) \<longleftrightarrow>
    (child ''#'' n \<noteq> None \<and> p = [''#'']) \<or> (\<exists>s \<in> set ?segments. p \<in> set (matching_step n ts s))"
    unfolding matching_paths_unfold by (rule general)
  also have "(\<exists>s \<in> set ?segments. p \<in> set (matching_step n ts s)) \<longleftrightarrow>
    (\<exists>s. s \<noteq> ''#'' \<and> (s = ''+'' \<or> s = t) \<and> p \<in> set (matching_step n ts s))"
  proof -
    have "s \<in> set ?segments \<longleftrightarrow> s \<noteq> ''#'' \<and> (s = ''+'' \<or> s = t)" for s
      by (cases "t = ''+''"; cases "t = ''#''"; cases "s = ''+''")
        (simp_all, blast)
    then show ?thesis by blast
  qed
  finally have iff: "p \<in> set (matching_paths n (t # ts)) \<longleftrightarrow>
    (child ''#'' n \<noteq> None \<and> p = [''#'']) \<or>
    (\<exists>s. s \<noteq> ''#'' \<and> (s = ''+'' \<or> s = t) \<and> p \<in> set (matching_step n ts s))" .
  show ?thesis
  proof (cases p)
    case Nil
    then show ?thesis unfolding iff matching_step_iff by simp
  next
    case (Cons f fs)
    have first: "(\<exists>s. N s \<and> M s \<and> (\<exists>c fs'. f # fs = s # fs' \<and> Q s c fs')) \<longleftrightarrow>
      N f \<and> M f \<and> (\<exists>c fs'. f # fs = f # fs' \<and> Q f c fs')" for N M and Q :: "string \<Rightarrow> Node \<Rightarrow> _"
      by blast
    have "(\<exists>s. s \<noteq> ''#'' \<and> (s = ''+'' \<or> s = t) \<and> p \<in> set (matching_step n ts s)) \<longleftrightarrow>
      f \<noteq> ''#'' \<and> (f = ''+'' \<or> f = t) \<and> f # fs \<in> set (matching_step n ts f)"
      unfolding Cons matching_step_iff by (rule first)
    also have "f # fs \<in> set (matching_step n ts f) \<longleftrightarrow> (\<exists>c. child f n = Some c \<and>
        (if ts = [] then fs = [] else fs \<in> set (matching_paths c ts)))"
      unfolding matching_step_iff by simp
    finally have rest: "(\<exists>s. s \<noteq> ''#'' \<and> (s = ''+'' \<or> s = t) \<and> p \<in> set (matching_step n ts s)) \<longleftrightarrow>
      f \<noteq> ''#'' \<and> (f = ''+'' \<or> f = t) \<and> (\<exists>c. child f n = Some c \<and>
        (if ts = [] then fs = [] else fs \<in> set (matching_paths c ts)))" .
    have step: "p \<in> set (matching_paths n (t # ts)) \<longleftrightarrow>
      (child ''#'' n \<noteq> None \<and> f = ''#'' \<and> fs = []) \<or>
      f \<noteq> ''#'' \<and> (f = ''+'' \<or> f = t) \<and> (\<exists>c. child f n = Some c \<and>
        (if ts = [] then fs = [] else fs \<in> set (matching_paths c ts)))"
      unfolding iff rest unfolding Cons list.inject(1) ..
    show ?thesis
    proof (cases "f = ''#''")
      case True
      then show ?thesis unfolding step unfolding Cons by (cases "child f n") simp_all
    next
      case False
      then show ?thesis unfolding step unfolding Cons by (cases "child f n") simp_all
    qed
  qed
qed

lemma matching_paths_at:
  "p \<in> set (matching_paths n ts) \<longleftrightarrow> filter_matches p ts \<and> node_at p n \<noteq> None"
proof (induction ts arbitrary: n p)
  case Nil
  then show ?case by (cases p) simp_all
next
  case (Cons t ts)
  show ?case
  proof (cases p)
    case (Cons f fs)
    show ?thesis
      unfolding matching_paths_Cons
      using Cons.IH [of fs] by (cases "child f n"; cases ts; cases fs) (auto simp: Cons)
  next
    case Nil
    then show ?thesis by (simp only: matching_paths_Cons) simp
  qed
qed

lemma matching_paths_distinct: "distinct (matching_paths n ts)"
proof (induction ts arbitrary: n)
  case (Cons t ts)
  have "distinct (matching_step n ts s)" for s
    using Cons by (auto simp: matching_step_def distinct_map split: option.splits)
  then show ?case
    by (auto simp del: matching_paths.simps simp: matching_paths_unfold matching_step_iff)
qed simp

end
