(* ===== verification/Trie_Subscriptions.thy ===== *)
theory Trie_Subscriptions
  imports Trie_Node
begin

text \<open>
  The operations of the trie on subscriptions: \<open>internal_subscribe\<close> and \<open>internal_unsubscribe\<close>
  keep the invariant and change the number of subscriptions as their result says.
\<close>

subsection \<open>Subscriptions keep the invariant and the counts\<close>

lemma length_update:
  "length (AList.update k v al) = length al + (if map_of al k = None then 1 else 0)"
  by (induction al) auto

lemma length_delete:
  assumes "distinct (map fst al)"
  shows "length (AList.delete k al) + (if map_of al k = None then 0 else 1) = length al"
proof -
  have "sum_list (map (\<lambda>(k, v). 1) al) = length al" for al :: "('a \<times> 'b) list"
    by (induction al) auto
  with sum_list_delete [OF assms, of "\<lambda>_. 1" k] show ?thesis
    by (cases "map_of al k") simp_all
qed

lemma node_sum_empty: "Node_is_empty n \<Longrightarrow> node_sum w n = w [] None"
  by (simp add: node_sum_eq [of w n] children_def Node_is_empty_def)

text \<open>\<open>data.insert\<close> and \<open>data.remove\<close> at one node.\<close>

lemma insert_entry:
  fixes client_id data
  assumes "node_wf m"
  defines "m' \<equiv> set_data (AList.update client_id data (node_data m)) m"
  shows "node_wf m'" "\<not> Node_is_empty m'" "retained_messages m' = retained_messages m"
    and "subscriptions m' = subscriptions m + (if map_of (node_data m) client_id = None then 1 else 0)"
proof -
  show "node_wf m'"
    unfolding m'_def using assms(1) node_wfD(2) [OF assms(1)]
    by (intro node_wf_set_data distinct_update)
  have "AList.update client_id data (node_data m) \<noteq> []" by (cases "node_data m") simp_all
  then show "\<not> Node_is_empty m'" by (simp add: Node_is_empty_def m'_def)
  show "retained_messages m' = retained_messages m"
    using node_sum_set_data [of "\<lambda>d r. if r = None then 0 else 1" "AList.update client_id data (node_data m)" m]
    unfolding retained_messages_def m'_def by simp
  show "subscriptions m' = subscriptions m + (if map_of (node_data m) client_id = None then 1 else 0)"
    using node_sum_set_data [of "\<lambda>d r. length d" "AList.update client_id data (node_data m)" m]
    unfolding subscriptions_def m'_def length_update by simp
qed

lemma remove_entry_wf:
  fixes client_id
  assumes "node_wf m"
  defines "m' \<equiv> set_data (AList.delete client_id (node_data m)) m"
  shows "node_wf m'" "retained_messages m' = retained_messages m"
    and "subscriptions m' + (if map_of (node_data m) client_id = None then 0 else 1) = subscriptions m"
proof -
  note distinct = node_wfD(2) [OF assms(1)]
  show "node_wf m'"
    unfolding m'_def using assms(1) distinct by (intro node_wf_set_data distinct_delete)
  show "retained_messages m' = retained_messages m"
    using node_sum_set_data [of "\<lambda>d r. if r = None then 0 else 1" "AList.delete client_id (node_data m)" m]
    unfolding retained_messages_def m'_def by simp
  show "subscriptions m' + (if map_of (node_data m) client_id = None then 0 else 1) = subscriptions m"
    using node_sum_set_data [of "\<lambda>d r. length d" "AList.delete client_id (node_data m)" m]
      length_delete [OF distinct, of client_id]
    unfolding subscriptions_def m'_def by simp
qed

text \<open>A node with a changed child: the walks back up the tree.\<close>

definition replace_child :: "string \<Rightarrow> Node \<Rightarrow> Node \<Rightarrow> Node" where
  "replace_child s c n = (if Node_is_empty c then drop_child s n else put_child s c n)"

lemma replace_child_wf:
  assumes "node_wf n" "node_wf c" "child s n = Some c0" "retained_messages c = retained_messages c0"
  shows "node_wf (replace_child s c n)"
proof -
  have "s = ''#'' \<or> s = ''+'' \<Longrightarrow> retained_messages c = 0"
    using assms node_wfD(5) by metis
  with assms show ?thesis by (simp add: replace_child_def node_wf_drop_child node_wf_put_child)
qed

lemma replace_child_sum:
  assumes "node_wf n" "child s n = Some c0" "w [] None = 0"
  shows "node_sum w (replace_child s c n) + node_sum w c0 = node_sum w n + node_sum w c"
proof (cases "Node_is_empty c")
  case True
  with assms node_sum_drop_child [of n w s] node_wfD(1) [OF assms(1)] show ?thesis
    by (simp add: replace_child_def names_ok_def node_sum_empty)
next
  case False
  with assms(2) node_sum_put_child [of w s c n] show ?thesis by (simp add: replace_child_def)
qed

lemma internal_subscribe_wf:
  assumes "internal_subscribe segments n client_id data = (res, n')" "segments \<noteq> []" "node_wf n"
  shows "node_wf n' \<and> \<not> Node_is_empty n' \<and> retained_messages n' = retained_messages n \<and>
    subscriptions n' = subscriptions n + (if res = None then 1 else 0)"
  using assms
proof (induction segments n client_id data arbitrary: res n' rule: internal_subscribe.induct)
  case (2 segment segments n client_id data)
  define m where "m = child_or_default segment n"
  have m: "node_wf m" using "2.prems" by (simp add: m_def node_wf_or_default)
  have child_sum: "node_sum w m =
      (case child segment n of None \<Rightarrow> w [] None | Some c \<Rightarrow> node_sum w c)" for w
    by (simp add: m_def child_or_default_def node_sum_default split: option.splits)
  obtain m' where n': "n' = put_child segment m' n"
    and m': "node_wf m'" "\<not> Node_is_empty m'" "retained_messages m' = retained_messages m"
      "subscriptions m' = subscriptions m + (if res = None then 1 else 0)"
  proof (cases "segments = []")
    case True
    from "2.prems"(1) True have res: "res = map_of (node_data m) client_id"
      and n': "n' = put_child segment (set_data (AList.update client_id data (node_data m)) m) n"
      by (simp_all add: m_def Let_def)
    show ?thesis using insert_entry [OF m] by (intro that [OF n']) (simp_all add: res)
  next
    case False
    obtain r m' where u: "internal_subscribe segments m client_id data = (r, m')" by force
    with "2.prems"(1) False have res: "res = r" and n': "n' = put_child segment m' n"
      by (simp_all add: m_def Let_def)
    show ?thesis
      using "2.IH" [of "segments = []" m r m'] u False m
      by (intro that [OF n']) (simp_all add: m_def res)
  qed
  have no_retained: "retained_messages m' = 0" if "segment = ''#'' \<or> segment = ''+''"
  proof (cases "child segment n")
    case None
    then show ?thesis using m'(3) by (simp add: retained_messages_def child_sum)
  next
    case (Some c)
    with that node_wfD(5) [OF "2.prems"(3) Some] m'(3) show ?thesis
      by (simp add: retained_messages_def child_sum)
  qed
  have "node_wf n'" unfolding n' by (rule node_wf_put_child) (use "2.prems" m' no_retained in auto)
  moreover have "node_sum w n' + node_sum w m = node_sum w n + node_sum w m'" if "w [] None = 0" for w
    using node_sum_put_child [of w segment m' n] that
    by (cases "child segment n") (simp_all add: n' child_sum)
  from this [of "\<lambda>d r. if r = None then 0 else 1"] this [of "\<lambda>d r. length d"] m'
  have "retained_messages n' = retained_messages n"
    "subscriptions n' = subscriptions n + (if res = None then 1 else 0)"
    by (simp_all add: subscriptions_def retained_messages_def)
  ultimately show ?case by (simp add: n')
qed simp

lemma internal_unsubscribe_wf:
  assumes "internal_unsubscribe segments n client_id = (res, n')" "segments \<noteq> []" "node_wf n"
  shows "node_wf n' \<and> retained_messages n' = retained_messages n \<and>
    subscriptions n' + (if res = None then 0 else 1) = subscriptions n"
  using assms
proof (induction segments n client_id arbitrary: res n' rule: internal_unsubscribe.induct)
  case (2 segment segments n client_id)
  show ?case
  proof (cases "child segment n")
    case None
    with "2.prems" show ?thesis by simp
  next
    case (Some m)
    have m: "node_wf m" using node_wfD(3) [OF "2.prems"(3) Some] .
    obtain m' where n': "n' = replace_child segment m' n"
      and m': "node_wf m'" "retained_messages m' = retained_messages m"
        "subscriptions m' + (if res = None then 0 else 1) = subscriptions m"
    proof (cases "segments = []")
      case True
      from "2.prems"(1) Some True
      have res: "res = map_of (node_data m) client_id"
        and n': "n' = replace_child segment (set_data (AList.delete client_id (node_data m)) m) n"
        by (simp_all add: Let_def replace_child_def)
      show ?thesis using remove_entry_wf [OF m] by (intro that [OF n']) (simp_all add: res)
    next
      case False
      obtain r m' where u: "internal_unsubscribe segments m client_id = (r, m')" by force
      from "2.prems"(1) Some False u have res: "res = r" and n': "n' = replace_child segment m' n"
        by (simp_all add: Let_def replace_child_def)
      from "2.IH" [OF refl Some False u False m] show ?thesis
        by (intro that [OF n']) (simp_all add: res)
    qed
    from "2.prems"(3) m'(1) Some m'(2) have "node_wf n'"
      unfolding n' by (rule replace_child_wf)
    moreover have "retained_messages n' = retained_messages n"
      "subscriptions n' + (if res = None then 0 else 1) = subscriptions n"
      using m' replace_child_sum [OF "2.prems"(3) Some, of "\<lambda>d r. if r = None then 0 else 1" m']
        replace_child_sum [OF "2.prems"(3) Some, of "\<lambda>d r. length d" m']
      by (simp_all add: n' subscriptions_def retained_messages_def)
    ultimately show ?thesis by simp
  qed
qed simp

end
