(* ===== verification/Trie_Retained.thy ===== *)
theory Trie_Retained
  imports Trie_Subscriptions
begin

text \<open>
  Retained messages in the trie: \<open>internal_set_retained_message\<close> sets the message of a topic, and
  \<open>internal_matches_retained_messages\<close> enumerates the messages whose topic a filter matches. A
  \<open>#\<close> matches here also the topic it is appended to, and whatever follows it is ignored.
\<close>

subsection \<open>Setting a retained message\<close>

fun internal_set_retained_message ::
  "string list \<Rightarrow> Node \<Rightarrow> Message option \<Rightarrow> Message option \<times> Node" where
  "internal_set_retained_message [] parent_node new_message = (None, parent_node)"
| "internal_set_retained_message (segment # segments) parent_node new_message =
     (let is_end = segments = [];
          is_delete = new_message = None;
          node = (case map_of (named_children parent_node) segment of
                    Some node \<Rightarrow> node | None \<Rightarrow> Node_default);
          (res, node) =
            (if is_end then (retained_message node, set_retained new_message node)
             else internal_set_retained_message segments node new_message);
          parent_node =
            set_named_children (AList.update segment node (named_children parent_node)) parent_node
      in (res,
          if is_delete \<and> Node_is_empty node
          then set_named_children (AList.delete segment (named_children parent_node)) parent_node
          else parent_node))"

text \<open>Topics have no wildcards; on their segments the walk is the one of \<open>child\<close>.\<close>

definition topic_segments :: "string list \<Rightarrow> bool" where
  "topic_segments segments \<longleftrightarrow> ''#'' \<notin> set segments \<and> ''+'' \<notin> set segments"

lemma topic_segments_simps [simp]:
  "topic_segments []" "topic_segments (s # ss) \<longleftrightarrow> s \<noteq> ''#'' \<and> s \<noteq> ''+'' \<and> topic_segments ss"
  by (auto simp: topic_segments_def)

lemma valid_topic_split: "valid_topic topic \<Longrightarrow> topic_segments (split CHR ''/'' topic)"
  using valid_topic_segments [of topic]
  by (auto simp: topic_segments_def list_all_iff contains_wildcard_iff)

text \<open>The last lines of the function: the child is stored, or removed again when it is empty.\<close>

definition finish_set :: "string \<Rightarrow> Message option \<Rightarrow> Node \<Rightarrow> Node \<Rightarrow> Node" where
  "finish_set segment r c n =
     (if r = None \<and> Node_is_empty c then drop_child segment (put_child segment c n)
      else put_child segment c n)"

lemma internal_set_retained_last:
  "segment \<noteq> ''#'' \<Longrightarrow> segment \<noteq> ''+'' \<Longrightarrow>
   internal_set_retained_message [segment] n r =
     (retained_message (child_or_default segment n),
      finish_set segment r (set_retained r (child_or_default segment n)) n)"
  by (cases r)
    (simp_all add: Let_def child_or_default_def child_def finish_set_def put_child_def drop_child_def)

lemma internal_set_retained_more:
  assumes "segment \<noteq> ''#''" "segment \<noteq> ''+''" "segments \<noteq> []"
    and "internal_set_retained_message segments (child_or_default segment n) r = (res, c)"
  shows "internal_set_retained_message (segment # segments) n r = (res, finish_set segment r c n)"
proof -
  have "child_or_default segment n =
    (case map_of (named_children n) segment of Some node \<Rightarrow> node | None \<Rightarrow> Node_default)"
    using assms(1,2) by (simp add: child_or_default_def child_def)
  with assms show ?thesis
    by (simp add: Let_def finish_set_def put_child_def drop_child_def)
qed

lemma content_at_finish_set:
  "content_at ss (finish_set segment r c n) =
     (case ss of [] \<Rightarrow> content_at [] n
      | s # ss' \<Rightarrow> if s = segment then content_at ss' c else content_at ss n)"
  by (auto simp: finish_set_def content_at_put_child content_at_drop_child content_at_empty
      simp del: content_at_simps(2) split: list.splits)

lemma internal_set_retained_at:
  assumes "internal_set_retained_message segments n r = (res, n')"
    and "segments \<noteq> []" "topic_segments segments"
  shows "res = retained_at segments n \<and>
    content_at ss n' = (if ss = segments then apsnd (\<lambda>_. r) (content_at ss n) else content_at ss n)"
  using assms
proof (induction segments arbitrary: n res n' ss)
  case (Cons segment segments)
  define m where "m = child_or_default segment n"
  have m: "content_at ss m = content_at (segment # ss) n" for ss
    by (simp only: m_def content_at_or_default)
  obtain m' where n': "n' = finish_set segment r m' n"
    and m': "res = retained_at segments m"
      "content_at ss m' = (if ss = segments then apsnd (\<lambda>_. r) (content_at ss m) else content_at ss m)" for ss
  proof (cases "segments = []")
    case True
    with Cons.prems have "n' = finish_set segment r (set_retained r m) n" "res = retained_message m"
      by (simp_all add: internal_set_retained_last m_def del: internal_set_retained_message.simps)
    with True show ?thesis
      by (intro that [of "set_retained r m"]) (simp_all add: content_at_set_retained retained_at_def)
  next
    case False
    obtain q m' where u: "internal_set_retained_message segments m r = (q, m')" by force
    with Cons.prems False have res: "res = q" and n': "n' = finish_set segment r m' n"
      using internal_set_retained_more [of segment segments n r q m']
      by (simp_all add: m_def del: internal_set_retained_message.simps)
    from Cons.IH [OF u False] Cons.prems show ?thesis by (intro that [OF n']) (simp_all add: res)
  qed
  show ?case
    unfolding n' content_at_finish_set
    by (cases ss) (simp_all add: m m' retained_at_def del: content_at_simps(2))
qed simp

lemma internal_set_retained_wf:
  assumes "internal_set_retained_message segments n r = (res, n')"
    and "segments \<noteq> []" "topic_segments segments" "node_wf n"
  shows "node_wf n' \<and> subscriptions n' = subscriptions n \<and> (r \<noteq> None \<longrightarrow> \<not> Node_is_empty n') \<and>
    retained_messages n' + (if res = None then 0 else 1)
    = retained_messages n + (if r = None then 0 else 1)"
  using assms
proof (induction segments arbitrary: n res n')
  case (Cons segment segments)
  define m where "m = child_or_default segment n"
  have m: "node_wf m" using Cons.prems by (simp add: m_def node_wf_or_default)
  obtain m' where n': "n' = finish_set segment r m' n"
    and m': "node_wf m'" "subscriptions m' = subscriptions m" "r \<noteq> None \<longrightarrow> \<not> Node_is_empty m'"
      "retained_messages m' + (if res = None then 0 else 1)
       = retained_messages m + (if r = None then 0 else 1)"
  proof (cases "segments = []")
    case True
    with Cons.prems have n': "n' = finish_set segment r (set_retained r m) n"
      and res: "res = retained_message m"
      by (simp_all add: internal_set_retained_last m_def del: internal_set_retained_message.simps)
    show ?thesis
      using m node_sum_set_retained [of "\<lambda>d r. length d" r m]
        node_sum_set_retained [of "\<lambda>d r. if r = None then 0 else 1" r m]
      by (intro that [OF n'])
        (simp_all add: res node_wf_set_retained subscriptions_def retained_messages_def Node_is_empty_def)
  next
    case False
    obtain q m' where u: "internal_set_retained_message segments m r = (q, m')" by force
    with Cons.prems False have res: "res = q" and n': "n' = finish_set segment r m' n"
      using internal_set_retained_more [of segment segments n r q m']
      by (simp_all add: m_def del: internal_set_retained_message.simps)
    from Cons.IH [OF u False] Cons.prems m show ?thesis by (intro that [OF n']) (simp_all add: res)
  qed
  have segment: "segment \<noteq> ''#''" "segment \<noteq> ''+''" using Cons.prems by simp_all
  have child_sum: "node_sum w m =
      (case child segment n of None \<Rightarrow> w [] None | Some c \<Rightarrow> node_sum w c)" for w
    by (simp add: m_def child_or_default_def node_sum_default split: option.splits)
  have put: "node_sum w (put_child segment m' n) + node_sum w m = node_sum w n + node_sum w m'"
    if "w [] None = 0" for w
    using node_sum_put_child [of w segment m' n] that
    by (cases "child segment n") (simp_all add: child_sum)
  have names: "distinct (map fst (named_children (put_child segment m' n)))"
    using node_wfD(1) [OF Cons.prems(4)] names_ok_put_child by (simp add: names_ok_def)
  have sums: "node_sum w n' + node_sum w m = node_sum w n + node_sum w m'" if "w [] None = 0" for w
    using put [of w] node_sum_drop_child [OF names, of w segment] node_sum_empty [of m' w] that
    by (auto simp: n' finish_set_def)
  have "node_wf n'"
  proof (cases "r = None \<and> Node_is_empty m'")
    case True
    have "drop_child segment (put_child segment m' n) = drop_child segment n"
      using segment by (cases n) (simp add: drop_child_def put_child_def delete_update_same)
    with True Cons.prems show ?thesis by (simp add: n' finish_set_def node_wf_drop_child)
  next
    case False
    then have ne: "\<not> Node_is_empty m'" using m'(3) by auto
    from False have "n' = put_child segment m' n" by (auto simp: n' finish_set_def)
    then show ?thesis
      using segment by (auto intro!: node_wf_put_child [OF Cons.prems(4) m'(1) ne])
  qed
  with m' sums [of "\<lambda>d r. if r = None then 0 else 1"] sums [of "\<lambda>d r. length d"] show ?case
    by (auto simp: n' finish_set_def subscriptions_def retained_messages_def)
qed simp

subsection \<open>Matching retained messages\<close>

function internal_matches_retained_messages_all :: "Node \<Rightarrow> Message list" where
  "internal_matches_retained_messages_all parent_node =
     to_list (retained_message parent_node) @
     concat (map (\<lambda>(name, c). internal_matches_retained_messages_all c) (named_children parent_node))"
  by pat_completeness auto
termination
proof (relation "measure node_size")
  fix n x name c
  assume "x \<in> set (named_children n)" "(name, c) = x"
  then have "c \<in> set (children n)" by (force simp: children_def)
  then show "(c, n) \<in> measure node_size" by (simp add: node_size_child)
qed simp

declare internal_matches_retained_messages_all.simps [simp del]

fun internal_matches_retained_messages :: "Node \<Rightarrow> string list \<Rightarrow> Message list" where
  "internal_matches_retained_messages parent_node [] = []"
| "internal_matches_retained_messages parent_node (segment # tail) =
     (let is_end = tail = [] in
      if segment = ''#'' then internal_matches_retained_messages_all parent_node
      else if segment = ''+'' then
        concat (map (\<lambda>(name, c).
          if is_end then to_list (retained_message c)
          else internal_matches_retained_messages c tail) (named_children parent_node))
      else
        (case map_of (named_children parent_node) segment of
           None \<Rightarrow> []
         | Some c \<Rightarrow>
             if is_end then to_list (retained_message c)
             else internal_matches_retained_messages c tail))"

fun retained_matches :: "string list \<Rightarrow> string list \<Rightarrow> bool" where
  "retained_matches [] ts \<longleftrightarrow> False"
| "retained_matches (f # fs) ts \<longleftrightarrow>
     f = ''#'' \<or>
     (case ts of
        [] \<Rightarrow> False
      | t # ts \<Rightarrow> (f = ''+'' \<or> f = t) \<and> (if fs = [] then ts = [] else retained_matches fs ts))"

text \<open>A list holds the values of a partial function, one for each argument.\<close>

definition enumerates :: "('a \<Rightarrow> 'b option) \<Rightarrow> 'b list \<Rightarrow> bool" where
  "enumerates g xs \<longleftrightarrow> (\<exists>ps. distinct ps \<and> set ps = {p. g p \<noteq> None} \<and> xs = map (\<lambda>p. the (g p)) ps)"

lemma enumerates_none [simp]: "enumerates (\<lambda>_. None) []"
  by (simp add: enumerates_def)

lemma enumerates_nil: "enumerates (\<lambda>p. if p = [] then r else None) (to_list r)"
proof (cases r)
  case (Some m)
  then show ?thesis
    unfolding enumerates_def by (intro exI [of _ "[[]]"]) (auto split: if_splits)
qed (simp add: enumerates_def)

lemma enumerates_append:
  assumes "enumerates g xs" "enumerates h ys" "\<And>p. g p = None \<or> h p = None"
  shows "enumerates (\<lambda>p. case g p of None \<Rightarrow> h p | Some x \<Rightarrow> Some x) (xs @ ys)"
proof -
  obtain ps qs where "distinct ps" "set ps = {p. g p \<noteq> None}" "xs = map (\<lambda>p. the (g p)) ps"
    and "distinct qs" "set qs = {p. h p \<noteq> None}" "ys = map (\<lambda>p. the (h p)) qs"
    using assms(1,2) by (auto simp: enumerates_def)
  note ps = this
  have "False" if "p \<in> set ps" "p \<in> set qs" for p
    using that assms(3) [of p] by (auto simp: ps(2,5))
  then have "set ps \<inter> set qs = {}" by blast
  moreover have "map (\<lambda>p. the (case g p of None \<Rightarrow> h p | Some x \<Rightarrow> Some x)) ps = xs"
    unfolding ps by (rule map_cong) (auto simp: ps(2))
  moreover have "map (\<lambda>p. the (case g p of None \<Rightarrow> h p | Some x \<Rightarrow> Some x)) qs = ys"
    unfolding ps
  proof (rule map_cong)
    fix p assume "p \<in> set qs"
    then have "g p = None" using assms(3) [of p] by (auto simp: ps(5))
    then show "the (case g p of None \<Rightarrow> h p | Some x \<Rightarrow> Some x) = the (h p)" by simp
  qed simp
  moreover have "set (ps @ qs) = {p. (case g p of None \<Rightarrow> h p | Some x \<Rightarrow> Some x) \<noteq> None}"
    by (auto simp: ps(2,5) split: option.splits)
  ultimately show ?thesis
    unfolding enumerates_def using ps(1,4) by (intro exI [of _ "ps @ qs"]) simp
qed

lemma enumerates_cons:
  assumes "enumerates g xs"
  shows "enumerates (\<lambda>p. case p of [] \<Rightarrow> None | s' # ss \<Rightarrow> if s' = s then g ss else None) xs"
proof -
  obtain ps where "distinct ps" "set ps = {p. g p \<noteq> None}" "xs = map (\<lambda>p. the (g p)) ps"
    using assms by (auto simp: enumerates_def)
  note ps = this
  let ?h = "\<lambda>p. case p of [] \<Rightarrow> None | s' # ss \<Rightarrow> if s' = s then g ss else None"
  have "p \<in> set (map ((#) s) ps) \<longleftrightarrow> ?h p \<noteq> None" for p
    by (cases p) (auto simp: ps(2))
  moreover have "distinct (map ((#) s) ps)" using ps(1) by (simp add: distinct_map)
  moreover have "xs = map (\<lambda>p. the (?h p)) (map ((#) s) ps)" by (simp add: ps(3) comp_def)
  ultimately show ?thesis unfolding enumerates_def by blast
qed

lemma enumerates_children:
  assumes "distinct (map fst al)" "\<And>s c. (s, c) \<in> set al \<Longrightarrow> enumerates (g c) (F c)"
  shows "enumerates (\<lambda>p. case p of [] \<Rightarrow> None
      | s # ss \<Rightarrow> (case map_of al s of None \<Rightarrow> None | Some c \<Rightarrow> g c ss))
    (concat (map (\<lambda>(s, c). F c) al))"
  using assms
proof (induction al)
  case Nil
  have "(\<lambda>p. case p of [] \<Rightarrow> None
      | s # ss \<Rightarrow> (case map_of [] s of None \<Rightarrow> None | Some c \<Rightarrow> g c ss)) = (\<lambda>_. None)"
    by (auto simp: fun_eq_iff split: list.splits)
  then show ?case by (simp only: enumerates_none list.map concat.simps)
next
  case (Cons sc al)
  obtain s c where [simp]: "sc = (s, c)" by (cases sc)
  have s: "map_of al s = None" using Cons.prems(1) by (simp add: map_of_eq_None_iff)
  let ?first = "\<lambda>p. case p of [] \<Rightarrow> None | s' # ss \<Rightarrow> if s' = s then g c ss else None"
  let ?rest = "\<lambda>p. case p of [] \<Rightarrow> None
      | s # ss \<Rightarrow> (case map_of al s of None \<Rightarrow> None | Some c \<Rightarrow> g c ss)"
  have "enumerates ?first (F c)"
    by (rule enumerates_cons, rule Cons.prems(2) [of s]) simp
  moreover have "enumerates ?rest (concat (map (\<lambda>(s, c). F c) al))"
    using Cons.prems by (intro Cons.IH) auto
  moreover have "?first p = None \<or> ?rest p = None" for p
    using s by (cases p) auto
  ultimately have e: "enumerates (\<lambda>p. case ?first p of None \<Rightarrow> ?rest p | Some x \<Rightarrow> Some x)
      (F c @ concat (map (\<lambda>(s, c). F c) al))"
    by (rule enumerates_append)
  have "(\<lambda>p. case (case p of [] \<Rightarrow> None | s' # ss \<Rightarrow> if s' = s then g c ss else None) of
      None \<Rightarrow> (case p of [] \<Rightarrow> None | s # ss \<Rightarrow> (case map_of al s of None \<Rightarrow> None | Some c \<Rightarrow> g c ss))
    | Some x \<Rightarrow> Some x) = (\<lambda>p. case p of [] \<Rightarrow> None
      | s # ss \<Rightarrow> (case map_of (sc # al) s of None \<Rightarrow> None | Some c \<Rightarrow> g c ss))"
    using s by (auto simp: fun_eq_iff split: list.splits option.splits)
  with e show ?case by simp
qed

text \<open>Below a wildcard nothing is retained, so the named children hold everything.\<close>

lemma retained_messages_0: "retained_messages n = 0 \<Longrightarrow> retained_at ss n = None"
proof (induction ss arbitrary: n)
  case Nil
  then show ?case
    by (auto simp: retained_messages_def retained_at_def node_sum_eq [of _ n] split: if_splits)
next
  case (Cons s ss)
  have "retained_messages c = 0" if "child s n = Some c" for c
    using node_sum_child [OF child_children [OF that], of "\<lambda>d r. if r = None then 0 else 1"] Cons.prems
    by (simp add: retained_messages_def)
  with Cons.IH show ?case by (auto simp: retained_at_def split: option.splits)
qed

lemma retained_at_named:
  assumes "node_wf n"
  shows "retained_at ss n = (case ss of [] \<Rightarrow> retained_message n
    | s # ss \<Rightarrow> (case map_of (named_children n) s of None \<Rightarrow> None | Some c \<Rightarrow> retained_at ss c))"
proof (cases ss)
  case (Cons s ss')
  show ?thesis
  proof (cases "s = ''#'' \<or> s = ''+''")
    case True
    have "map_of (named_children n) s = None"
      using True node_wfD(1) [OF assms] unfolding names_ok_def map_of_eq_None_iff
      by (metis set_map)
    moreover have "retained_at ss' c = None" if "child s n = Some c" for c
      using node_wfD(5) [OF assms that True] by (rule retained_messages_0)
    ultimately show ?thesis by (auto simp: Cons retained_at_def split: option.splits)
  next
    case False
    then show ?thesis by (simp add: Cons retained_at_def child_def split: option.splits)
  qed
qed (simp add: retained_at_def)

lemma named_child_wf: "node_wf n \<Longrightarrow> (s, c) \<in> set (named_children n) \<Longrightarrow> node_wf c"
  by (force simp: node_wf_eq [of n] list_all_iff children_def)

lemma retained_all_enumerates:
  "node_wf n \<Longrightarrow> enumerates (\<lambda>p. retained_at p n) (internal_matches_retained_messages_all n)"
proof (induction n rule: node_induct)
  case (node n)
  have ih: "enumerates (\<lambda>p. retained_at p c) (internal_matches_retained_messages_all c)"
    if "(s, c) \<in> set (named_children n)" for s c
    using node.IH [of c] node.prems named_child_wf [OF _ that] that by (force simp: children_def)
  have "distinct (map fst (named_children n))" using node_wfD(1) [OF node.prems] by (simp add: names_ok_def)
  from enumerates_append [OF enumerates_nil [of "retained_message n"]
      enumerates_children [OF this, of "\<lambda>c p. retained_at p c", OF ih]]
  have "enumerates (\<lambda>p. case (if p = [] then retained_message n else None) of
      None \<Rightarrow> (case p of [] \<Rightarrow> None | s # ss \<Rightarrow>
        (case map_of (named_children n) s of None \<Rightarrow> None | Some c \<Rightarrow> retained_at ss c))
    | Some x \<Rightarrow> Some x) (internal_matches_retained_messages_all n)"
    by (auto simp: internal_matches_retained_messages_all.simps [of n])
  moreover have "(\<lambda>p. case (if p = [] then retained_message n else None) of
      None \<Rightarrow> (case p of [] \<Rightarrow> None | s # ss \<Rightarrow>
        (case map_of (named_children n) s of None \<Rightarrow> None | Some c \<Rightarrow> retained_at ss c))
    | Some x \<Rightarrow> Some x) = (\<lambda>p. retained_at p n)"
    by (auto simp: fun_eq_iff retained_at_named [OF node.prems] split: list.splits option.splits)
  ultimately show ?case by simp
qed

definition matching_retained :: "Node \<Rightarrow> string list \<Rightarrow> string list \<Rightarrow> Message option" where
  "matching_retained n fs p = (if retained_matches fs p then retained_at p n else None)"

lemma internal_matches_retained_enumerates:
  "node_wf n \<Longrightarrow> fs \<noteq> [] \<Longrightarrow>
   enumerates (matching_retained n fs) (internal_matches_retained_messages n fs)"
proof (induction fs arbitrary: n)
  case (Cons f fs)
  define F where "F c = (if fs = [] then to_list (retained_message c)
    else internal_matches_retained_messages c fs)" for c
  define g where "g c p = (if fs = [] then (if p = [] then retained_message c else None)
    else matching_retained c fs p)" for c p
  have step: "enumerates (g c) (F c)" if "node_wf c" for c
    using Cons.IH [OF that] enumerates_nil [of "retained_message c"]
    by (cases "fs = []") (simp_all add: F_def g_def [abs_def])
  have g: "matching_retained n (f # fs) p = (case p of [] \<Rightarrow> None
    | s # ss \<Rightarrow> if f = ''+'' \<or> f = s
        then (case map_of (named_children n) s of None \<Rightarrow> None | Some c \<Rightarrow> g c ss) else None)"
    if "f \<noteq> ''#''" for p
    using that
    by (cases p) (simp_all add: matching_retained_def g_def retained_at_named [OF Cons.prems(1)]
        split: option.splits, auto simp: retained_at_def)
  have names: "distinct (map fst (named_children n))"
    using node_wfD(1) [OF Cons.prems(1)] by (simp add: names_ok_def)
  consider (hash) "f = ''#''" | (plus) "f = ''+''" | (name) "f \<noteq> ''#''" "f \<noteq> ''+''" by blast
  then show ?case
  proof cases
    case hash
    then show ?thesis
      using retained_all_enumerates [OF Cons.prems(1)]
      by (simp add: matching_retained_def [abs_def])
  next
    case plus
    have "matching_retained n (f # fs) = (\<lambda>p. case p of [] \<Rightarrow> None
      | s # ss \<Rightarrow> (case map_of (named_children n) s of None \<Rightarrow> None | Some c \<Rightarrow> g c ss))"
      using g plus by (auto simp: fun_eq_iff split: list.splits)
    moreover have "internal_matches_retained_messages n (f # fs) = concat (map (\<lambda>(s, c). F c) (named_children n))"
      using plus by (simp add: F_def [abs_def])
    ultimately show ?thesis
      using enumerates_children [OF names, of g F] step named_child_wf [OF Cons.prems(1)] by simp
  next
    case name
    show ?thesis
    proof (cases "map_of (named_children n) f")
      case None
      have "matching_retained n (f # fs) = (\<lambda>_. None)"
        using g name None by (auto simp: fun_eq_iff split: list.splits)
      with name None show ?thesis by simp
    next
      case (Some c)
      have "matching_retained n (f # fs) = (\<lambda>p. case p of [] \<Rightarrow> None
        | s # ss \<Rightarrow> if s = f then g c ss else None)"
        using g name Some by (auto simp: fun_eq_iff split: list.splits)
      moreover have "internal_matches_retained_messages n (f # fs) = F c"
        using name Some by (simp add: F_def)
      moreover have "node_wf c" using named_child_wf [OF Cons.prems(1) map_of_SomeD [OF Some]] .
      ultimately show ?thesis using enumerates_cons [OF step] by simp
    qed
  qed
qed simp

end
