(* ===== verification/Trie_Unsubscribe_All.thy ===== *)
theory Trie_Unsubscribe_All
  imports Trie_Subscriptions
begin

text \<open>
  \<open>internal_unsubscribe_all\<close>: the walk that removes all subscriptions of a client from a tree,
  counts them, and prunes the nodes that become empty.
\<close>

text \<open>\<open>if node.data.remove(client_id).is_some() { remove_count += 1; }\<close>\<close>

definition remove_entry :: "string \<Rightarrow> Node \<Rightarrow> nat \<times> Node" where
  "remove_entry client_id n =
     (if map_of (node_data n) client_id \<noteq> None then 1 else 0,
      set_data (AList.delete client_id (node_data n)) n)"

lemma remove_entry_simps [simp]:
  "hash_child (snd (remove_entry client_id n)) = hash_child n"
  "plus_child (snd (remove_entry client_id n)) = plus_child n"
  "named_children (snd (remove_entry client_id n)) = named_children n"
  "node_data (snd (remove_entry client_id n)) = AList.delete client_id (node_data n)"
  "retained_message (snd (remove_entry client_id n)) = retained_message n"
  "node_size (snd (remove_entry client_id n)) = node_size n"
  using node_sum_set_data [of "\<lambda>d r. 1" "AList.delete client_id (node_data n)" n]
  by (simp_all add: remove_entry_def node_size_def)

lemma remove_entry_eqs:
  assumes "(k, n') = remove_entry client_id n"
  shows "hash_child n' = hash_child n" "plus_child n' = plus_child n"
    "named_children n' = named_children n" "node_size n' = node_size n"
  using arg_cong [OF assms, of snd] by simp_all

text \<open>
  The children are first rid of the client's entry, then walked. Removing \<open>remove_named\<close> from
  the named children is the last loop.
\<close>

function internal_unsubscribe_all :: "Node \<Rightarrow> string \<Rightarrow> nat \<times> Node" where
  "internal_unsubscribe_all parent_node client_id =
     (let (count, parent_node) = remove_entry client_id parent_node;
          (hash_count, hash) =
            (case hash_child parent_node of
               None \<Rightarrow> (0, None)
             | Some hash_node \<Rightarrow>
                 let (a, hash_node) = remove_entry client_id hash_node;
                     (b, hash_node) = internal_unsubscribe_all hash_node client_id
                 in (a + b, if Node_is_empty hash_node then None else Some hash_node));
          (plus_count, plus) =
            (case plus_child parent_node of
               None \<Rightarrow> (0, None)
             | Some plus_node \<Rightarrow>
                 let (a, plus_node) = remove_entry client_id plus_node;
                     (b, plus_node) = internal_unsubscribe_all plus_node client_id
                 in (a + b, if Node_is_empty plus_node then None else Some plus_node));
          named = map (\<lambda>(name, node).
            let (a, node) = remove_entry client_id node;
                (b, node) = internal_unsubscribe_all node client_id
            in (name, a + b, node)) (named_children parent_node);
          named_count = sum_list (map (\<lambda>(name, k, node). k) named);
          nodes = map (\<lambda>(name, k, node). (name, node)) named;
          remove_named = map fst (filter (\<lambda>(name, node). Node_is_empty node) nodes)
      in (count + hash_count + plus_count + named_count,
          set_named_children (fold AList.delete remove_named nodes)
            (set_plus_child plus (set_hash_child hash parent_node))))"
  by pat_completeness auto
termination
proof (relation "measure (\<lambda>(n, client_id). node_size n)", goal_cases)
  case (2 n c z k n' hash_node y a node)
  then have "hash_child n = Some hash_node" "node_size node = node_size hash_node"
    using remove_entry_eqs(1) [of k n' c n] remove_entry_eqs(4) [of a node c hash_node] by simp_all
  then show ?case using node_size_child [of hash_node n] by (simp add: children_def)
next
  case (3 n c z k n' y hc h plus_node w a node)
  then have "plus_child n = Some plus_node" "node_size node = node_size plus_node"
    using remove_entry_eqs(2) [of k n' c n] remove_entry_eqs(4) [of a node c plus_node] by simp_all
  then show ?case using node_size_child [of plus_node n] by (simp add: children_def)
next
  case (4 n c z k n' y hc h y' pc p pair name node q a node')
  then have "(name, node) \<in> set (named_children n)" "node_size node' = node_size node"
    using remove_entry_eqs(3) [of k n' c n] remove_entry_eqs(4) [of a node' c node] by simp_all
  then show ?case using node_size_child [of node n] by (force simp: children_def)
qed simp

declare internal_unsubscribe_all.simps [simp del]

subsection \<open>The walk in terms of the children\<close>

text \<open>The tree that is left.\<close>

definition without_client :: "string \<Rightarrow> Node \<Rightarrow> Node" where
  "without_client client_id n = snd (internal_unsubscribe_all n client_id)"

definition pruned :: "Node \<Rightarrow> Node option" where
  "pruned c = (if Node_is_empty c then None else Some c)"

lemma remove_entry_twice:
  "remove_entry client_id (snd (remove_entry client_id n)) = (0, snd (remove_entry client_id n))"
  by (cases n) (simp add: remove_entry_def delete_conv' delete_idem)

lemma walk_after_remove:
  assumes "remove_entry client_id n = (a, m)" "internal_unsubscribe_all m client_id = (b, m')"
  shows "a + b = fst (internal_unsubscribe_all n client_id)" "m' = without_client client_id n"
proof -
  have m: "m = snd (remove_entry client_id n)" using assms(1) by simp
  have "remove_entry client_id m = (0, m)" using remove_entry_twice [of client_id n] m by simp
  then have "fst (internal_unsubscribe_all n client_id) = a + fst (internal_unsubscribe_all m client_id)"
    "snd (internal_unsubscribe_all n client_id) = snd (internal_unsubscribe_all m client_id)"
    unfolding internal_unsubscribe_all.simps [of n] internal_unsubscribe_all.simps [of m] assms(1)
    by (simp_all add: Let_def split: prod.splits)
  with assms(2) show "a + b = fst (internal_unsubscribe_all n client_id)"
    "m' = without_client client_id n"
    by (simp_all add: without_client_def)
qed

lemma walk_child:
  "(let (a, m) = remove_entry client_id c; (b, m) = internal_unsubscribe_all m client_id in f (a + b) m)
   = f (fst (internal_unsubscribe_all c client_id)) (without_client client_id c)"
  using walk_after_remove [of client_id c] by (auto simp: Let_def split: prod.splits)

lemma walk_unfold:
  "internal_unsubscribe_all n client_id =
     (let W = without_client client_id;
          F = \<lambda>c. fst (internal_unsubscribe_all c client_id);
          nodes = map (\<lambda>(name, node). (name, W node)) (named_children n) in
      (fst (remove_entry client_id n) + sum_list (map F (children n)),
       set_named_children (fold AList.delete (map fst (filter (\<lambda>(name, c). Node_is_empty c) nodes)) nodes)
         (set_plus_child (Option.bind (plus_child n) (\<lambda>c. pruned (W c)))
         (set_hash_child (Option.bind (hash_child n) (\<lambda>c. pruned (W c)))
         (snd (remove_entry client_id n))))))"
proof -
  define W where "W = without_client client_id"
  define F where "F c = fst (internal_unsubscribe_all c client_id)" for c
  obtain k n1 where r: "remove_entry client_id n = (k, n1)" by force
  have n1: "hash_child n1 = hash_child n" "plus_child n1 = plus_child n"
    "named_children n1 = named_children n"
    using remove_entry_eqs [OF r [symmetric]] by simp_all
  have named: "map (\<lambda>(name, node).
      let (a, node) = remove_entry client_id node; (b, node) = internal_unsubscribe_all node client_id
      in (name, a + b, node)) al = map (\<lambda>(name, node). (name, F node, W node)) al" for al :: "(string \<times> Node) list"
    by (simp add: case_prod_unfold walk_child [where f = "\<lambda>k m. (_, k, m)", unfolded case_prod_unfold Let_def]
        F_def W_def Let_def)
  show ?thesis
    unfolding internal_unsubscribe_all.simps [of n] r Let_def prod.case n1 named [unfolded Let_def]
      walk_child [where f = "\<lambda>k m. (k, if Node_is_empty m then None else Some m)", unfolded Let_def]
    by (cases "hash_child n"; cases "plus_child n")
      (simp_all add: children_def pruned_def W_def F_def comp_def case_prod_unfold)
qed

lemma fold_delete:
  assumes "distinct (map fst al)"
  shows "fold AList.delete (map fst (filter P al)) al = filter (\<lambda>x. \<not> P x) al"
proof -
  have fold: "fold AList.delete ks al = filter (\<lambda>x. fst x \<notin> set ks) al" for ks and al :: "('a \<times> 'b) list"
    by (induction ks arbitrary: al)
      (simp_all add: AList.delete_eq case_prod_unfold conj_commute eq_commute [of "fst _"])
  have key: "x = y" if "x \<in> set al" "y \<in> set al" "fst x = fst y" for x y
    using that assms unfolding distinct_map by (blast dest: inj_onD)
  have "fst x \<in> set (map fst (filter P al)) \<longleftrightarrow> P x" if x: "x \<in> set al" for x
  proof
    assume "fst x \<in> set (map fst (filter P al))"
    then obtain y where "y \<in> set al" "P y" "fst x = fst y" by auto
    with key [OF x, of y] show "P x" by simp
  next
    assume "P x"
    with x show "fst x \<in> set (map fst (filter P al))" by simp
  qed
  then show ?thesis unfolding fold by (intro filter_cong refl) blast
qed

lemma without_client_fields:
  assumes "names_ok (named_children n)"
  shows "named_children (without_client client_id n) =
      filter (\<lambda>(name, c). \<not> Node_is_empty c)
        (map (\<lambda>(name, c). (name, without_client client_id c)) (named_children n))"
    and "hash_child (without_client client_id n) =
      Option.bind (hash_child n) (\<lambda>c. pruned (without_client client_id c))"
    and "plus_child (without_client client_id n) =
      Option.bind (plus_child n) (\<lambda>c. pruned (without_client client_id c))"
    and "node_data (without_client client_id n) = AList.delete client_id (node_data n)"
    and "retained_message (without_client client_id n) = retained_message n"
proof -
  have distinct: "distinct (map fst (map (\<lambda>(name, c). (name, without_client client_id c)) (named_children n)))"
    using assms by (simp add: names_ok_def comp_def case_prod_unfold)
  show "named_children (without_client client_id n) =
      filter (\<lambda>(name, c). \<not> Node_is_empty c)
        (map (\<lambda>(name, c). (name, without_client client_id c)) (named_children n))"
    using fold_delete [OF distinct, of "\<lambda>(name, c). Node_is_empty c"]
    unfolding without_client_def [of client_id n] walk_unfold [of n]
    by (simp add: Let_def case_prod_unfold)
  show "hash_child (without_client client_id n) =
      Option.bind (hash_child n) (\<lambda>c. pruned (without_client client_id c))"
    "plus_child (without_client client_id n) =
      Option.bind (plus_child n) (\<lambda>c. pruned (without_client client_id c))"
    "node_data (without_client client_id n) = AList.delete client_id (node_data n)"
    "retained_message (without_client client_id n) = retained_message n"
    unfolding without_client_def [of client_id n] walk_unfold [of n] by (simp_all add: Let_def)
qed

lemma without_client_child:
  assumes "names_ok (named_children n)"
  shows "child s (without_client client_id n) =
    Option.bind (child s n) (\<lambda>c. pruned (without_client client_id c))"
proof -
  have "map_of (filter (\<lambda>(name, c). \<not> Q c) (map (\<lambda>(name, c). (name, f c)) al)) s =
      Option.bind (map_of al s) (\<lambda>c. if Q (f c) then None else Some (f c))"
    if "distinct (map fst al)" for Q and f :: "Node \<Rightarrow> Node" and al :: "(string \<times> Node) list"
    using that
  proof (induction al)
    case (Cons x al)
    then have "s = fst x \<Longrightarrow> map_of al s = None" by (auto simp: map_of_eq_None_iff)
    with Cons show ?case by (cases x) (auto simp: split: bind_splits)
  qed simp
  from this [of "named_children n" Node_is_empty "without_client client_id"] assms show ?thesis
    by (simp add: child_def without_client_fields pruned_def [abs_def] names_ok_def)
qed

lemma without_client_at:
  "node_wf n \<Longrightarrow>
   content_at ss (without_client client_id n) = apfst (\<lambda>m. m(client_id := None)) (content_at ss n)"
proof (induction ss arbitrary: n)
  case Nil
  then show ?case by (simp add: without_client_fields node_wfD delete_conv' fun_upd_def)
next
  case (Cons s ss)
  show ?case
  proof (cases "child s n")
    case None
    with Cons.prems show ?thesis by (simp add: without_client_child node_wfD fun_eq_iff)
  next
    case (Some c)
    with Cons.IH [of c] Cons.prems content_at_empty [of "without_client client_id c" ss]
    show ?thesis by (auto simp: without_client_child node_wfD pruned_def dest: node_wfD(3))
  qed
qed

lemma without_client_sum:
  assumes "node_wf n" "w [] None = 0"
  shows "node_sum w (without_client client_id n) = w (AList.delete client_id (node_data n)) (retained_message n)
    + sum_list (map (\<lambda>c. node_sum w (without_client client_id c)) (children n))"
proof -
  have empty: "Node_is_empty c \<Longrightarrow> node_sum w c = 0" for c using assms(2) by (simp add: node_sum_empty)
  have named: "sum_list (map (\<lambda>(k, c). node_sum w c)
      (filter (\<lambda>(k, c). \<not> Node_is_empty c) (map (\<lambda>(k, c). (k, f c)) al)))
    = sum_list (map (\<lambda>(k, c). node_sum w (f c)) al)" for f :: "Node \<Rightarrow> Node" and al :: "(string \<times> Node) list"
    by (induction al) (auto simp: empty)
  note fields = without_client_fields [OF node_wfD(1) [OF assms(1)]]
  show ?thesis
    unfolding node_sum_eq [of w "without_client client_id n"] sum_children fields named
    by (cases "hash_child n"; cases "plus_child n") (simp_all add: pruned_def empty)
qed

lemma walk_count: "fst (internal_unsubscribe_all n client_id) = subscriptions_of client_id n"
proof (induction n rule: node_induct)
  case (node n)
  have "fst (internal_unsubscribe_all n client_id) = fst (remove_entry client_id n)
    + sum_list (map (\<lambda>c. fst (internal_unsubscribe_all c client_id)) (children n))"
    by (subst walk_unfold) (simp add: Let_def)
  also have "\<dots> = fst (remove_entry client_id n) + sum_list (map (subscriptions_of client_id) (children n))"
    using node.IH by (simp cong: map_cong)
  also have "\<dots> = subscriptions_of client_id n"
    by (simp add: subscriptions_of_def node_sum_eq [of _ n] remove_entry_def)
  finally show ?case .
qed

lemma without_client_counts:
  "node_wf n \<Longrightarrow>
   subscriptions (without_client client_id n) + subscriptions_of client_id n = subscriptions n \<and>
   retained_messages (without_client client_id n) = retained_messages n"
proof (induction n rule: node_induct)
  case (node n)
  have wf: "c \<in> set (children n) \<Longrightarrow> node_wf c" for c
    using node.prems by (simp add: node_wf_eq [of n] list_all_iff)
  have sums: "sum_list (map f cs) + sum_list (map g cs) = sum_list (map h cs)"
    if "\<And>c. c \<in> set cs \<Longrightarrow> f c + g c = h c" for f g h :: "Node \<Rightarrow> nat" and cs
    using that by (simp flip: sum_list_addf cong: map_cong)
  have "sum_list (map (\<lambda>c. subscriptions (without_client client_id c)) (children n))
      + sum_list (map (subscriptions_of client_id) (children n)) = sum_list (map subscriptions (children n))"
    using node.IH wf by (intro sums) simp
  moreover have "sum_list (map (\<lambda>c. retained_messages (without_client client_id c)) (children n))
      = sum_list (map retained_messages (children n))"
    using node.IH wf by (simp cong: map_cong)
  ultimately show ?case
    using length_delete [OF node_wfD(2) [OF node.prems], of client_id]
    by (simp add: subscriptions_def subscriptions_of_def retained_messages_def
        without_client_sum [OF node.prems] node_sum_eq [of _ n])
qed

lemma without_client_wf: "node_wf n \<Longrightarrow> node_wf (without_client client_id n)"
proof (induction n rule: node_induct)
  case (node n)
  note fields = without_client_fields [OF node_wfD(1) [OF node.prems]]
  show ?case
  proof (rule node_wfI)
    have "set (map fst (filter Q (map (\<lambda>(k, c). (k, f c)) al))) \<subseteq> set (map fst al)"
      "distinct (map fst al) \<Longrightarrow> distinct (map fst (filter Q (map (\<lambda>(k, c). (k, f c)) al)))"
      for Q and f :: "Node \<Rightarrow> Node" and al :: "(string \<times> Node) list"
      by (force, rule distinct_map_filter) (simp add: comp_def case_prod_unfold)
    from this [where al = "named_children n"] node_wfD(1) [OF node.prems]
    show "names_ok (named_children (without_client client_id n))"
      unfolding fields names_ok_def by blast
    show "distinct (map fst (node_data (without_client client_id n)))"
      using node_wfD(2) [OF node.prems] by (simp add: fields distinct_delete)
    fix s c assume "child s (without_client client_id n) = Some c"
    then obtain c0 where c0: "child s n = Some c0" and c: "c = without_client client_id c0"
      and ne: "\<not> Node_is_empty c"
      by (auto simp: without_client_child node_wfD [OF node.prems] pruned_def bind_eq_Some_conv
          split: if_splits)
    show "node_wf c \<and> \<not> Node_is_empty c \<and> (s = ''#'' \<or> s = ''+'' \<longrightarrow> retained_messages c = 0)"
      using node.IH [OF child_children [OF c0]] node_wfD(3,5) [OF node.prems c0]
        without_client_counts [of c0 client_id] ne
      by (simp add: c)
  qed
qed

end
