(* ===== verification/Trie.thy ===== *)
theory Trie
  imports Trie_Match Trie_Retained Trie_Unsubscribe_All
begin

text \<open>
  The \<open>Trie\<close> of \<open>libs/service/src/trie.rs\<close>: the tree of the plain subscriptions and retained
  messages, one tree for each share group, and the counters. The counters are \<open>usize\<close>, words of
  64 bits, whose subtractions wrap.

  The promise of the trie to its client, the storage, is the locale \<open>subscription_store\<close>: it is
  a map from filters and clients to subscription options. \<open>enumerates\<close> states what matching
  returns: one item for each subscription of the client whose filter matches.
\<close>

subsection \<open>The state and its operations\<close>

record Trie =
  trie_root :: Node
  trie_share_subscriptions :: "(string \<times> Node) list"
  trie_subscribers_count :: u64
  trie_retained_messages_count :: u64
  trie_retained_messages_bytes :: u64

definition Trie_default :: Trie where
  "Trie_default = \<lparr>trie_root = Node_default, trie_share_subscriptions = [],
     trie_subscribers_count = 0, trie_retained_messages_count = 0,
     trie_retained_messages_bytes = 0\<rparr>"

definition share_or_default :: "string \<Rightarrow> Trie \<Rightarrow> Node" where
  "share_or_default name t =
     (case map_of (trie_share_subscriptions t) name of Some node \<Rightarrow> node | None \<Rightarrow> Node_default)"

definition Trie_subscribe :: "Filter \<Rightarrow> string \<Rightarrow> FilterItem \<Rightarrow> Trie \<Rightarrow> FilterItem option \<times> Trie" where
  "Trie_subscribe f client_id data t =
     (let segments = split CHR ''/'' (path f);
          (res, t) =
            (case share_name f of
               Some name \<Rightarrow>
                 let (res, node) = internal_subscribe segments (share_or_default name t) client_id data
                 in (res, t\<lparr>trie_share_subscriptions := AList.update name node (trie_share_subscriptions t)\<rparr>)
             | None \<Rightarrow>
                 let (res, node) = internal_subscribe segments (trie_root t) client_id data
                 in (res, t\<lparr>trie_root := node\<rparr>))
      in (res, if res = None then t\<lparr>trie_subscribers_count := trie_subscribers_count t + 1\<rparr> else t))"

definition Trie_unsubscribe :: "Filter \<Rightarrow> string \<Rightarrow> Trie \<Rightarrow> FilterItem option \<times> Trie" where
  "Trie_unsubscribe f client_id t =
     (let segments = split CHR ''/'' (path f);
          (res, t) =
            (case share_name f of
               Some name \<Rightarrow>
                 let (res, node) = internal_unsubscribe segments (share_or_default name t) client_id
                 in (res, t\<lparr>trie_share_subscriptions := AList.update name node (trie_share_subscriptions t)\<rparr>)
             | None \<Rightarrow>
                 let (res, node) = internal_unsubscribe segments (trie_root t) client_id
                 in (res, t\<lparr>trie_root := node\<rparr>))
      in (res, if res \<noteq> None then t\<lparr>trie_subscribers_count := trie_subscribers_count t - 1\<rparr> else t))"

definition Trie_unsubscribe_all :: "string \<Rightarrow> Trie \<Rightarrow> Trie" where
  "Trie_unsubscribe_all client_id t =
     (let (count, root) = internal_unsubscribe_all (trie_root t) client_id;
          shares = map (\<lambda>(name, node). (name, internal_unsubscribe_all node client_id))
            (trie_share_subscriptions t);
          count = count + sum_list (map (\<lambda>(name, k, node). k) shares)
      in t\<lparr>trie_root := root,
           trie_share_subscriptions := map (\<lambda>(name, k, node). (name, node)) shares,
           trie_subscribers_count := trie_subscribers_count t - word_of_nat count\<rparr>)"

text \<open>\<open>matched.entry(k).or_default().extend(items)\<close>, and the loop that collects matched nodes.\<close>

definition extend_entry :: "string \<Rightarrow> 'a list \<Rightarrow> (string \<times> 'a list) list \<Rightarrow> (string \<times> 'a list) list" where
  "extend_entry k items matched =
     AList.update k ((case map_of matched k of Some xs \<Rightarrow> xs | None \<Rightarrow> []) @ items) matched"

definition collect_items :: "Node list \<Rightarrow> (string \<times> FilterItem list) list" where
  "collect_items nodes =
     fold (\<lambda>(k, item). extend_entry k [item]) (concat (map node_data nodes)) []"

definition Trie_matches :: "string \<Rightarrow> Trie \<Rightarrow> (string \<times> FilterItem list) list" where
  "Trie_matches topic t =
     collect_items (internal_matches (trie_root t) (split CHR ''/'' topic))"

text \<open>
  The subscriber of a share group is chosen by \<open>fastrand::usize(0..len)\<close>; \<open>pick name len\<close> is the
  number drawn for the group.
\<close>

definition share_choice ::
  "(string \<Rightarrow> nat \<Rightarrow> nat) \<Rightarrow> string \<Rightarrow> string \<times> Node \<Rightarrow> (string \<times> FilterItem list) option" where
  "share_choice pick topic share =
     (let (name, node) = share;
          share_matches = collect_items (internal_matches node (split CHR ''/'' topic))
      in if share_matches = [] then None
         else Some (share_matches ! pick name (length share_matches)))"

definition Trie_matches_shared ::
  "(string \<Rightarrow> nat \<Rightarrow> nat) \<Rightarrow> string \<Rightarrow> Trie \<Rightarrow> (string \<times> FilterItem list) list" where
  "Trie_matches_shared pick topic t =
     fold (\<lambda>share matched.
       (case share_choice pick topic share of
          None \<Rightarrow> matched
        | Some (k, items) \<Rightarrow> extend_entry k items matched))
       (trie_share_subscriptions t) []"

definition Trie_matches_retained_messages :: "string \<Rightarrow> Trie \<Rightarrow> Message list" where
  "Trie_matches_retained_messages topic t =
     internal_matches_retained_messages (trie_root t) (split CHR ''/'' topic)"

text \<open>A message replaced by another one changes neither counter.\<close>

definition Trie_set_retained_message :: "string \<Rightarrow> Message option \<Rightarrow> Trie \<Rightarrow> Message option \<times> Trie" where
  "Trie_set_retained_message topic msg t =
     (let segments = split CHR ''/'' topic;
          set_new = msg \<noteq> None;
          msg_size = (case msg of Some m \<Rightarrow> length (message_payload m) | None \<Rightarrow> 0);
          (res, root) = internal_set_retained_message segments (trie_root t) msg;
          t = t\<lparr>trie_root := root\<rparr>
      in (res,
          (case (res, set_new) of
             (None, True) \<Rightarrow>
               t\<lparr>trie_retained_messages_count := trie_retained_messages_count t + 1,
                 trie_retained_messages_bytes := trie_retained_messages_bytes t + word_of_nat msg_size\<rparr>
           | (Some dropped_msg, False) \<Rightarrow>
               t\<lparr>trie_retained_messages_count := trie_retained_messages_count t - 1,
                 trie_retained_messages_bytes :=
                   trie_retained_messages_bytes t - word_of_nat (length (message_payload dropped_msg))\<rparr>
           | _ \<Rightarrow> t)))"

subsection \<open>The abstract state\<close>

definition share_node :: "string option \<Rightarrow> Trie \<Rightarrow> Node option" where
  "share_node name t =
     (case name of None \<Rightarrow> Some (trie_root t) | Some n \<Rightarrow> map_of (trie_share_subscriptions t) n)"

definition Trie_lookup :: "Trie \<Rightarrow> Filter \<Rightarrow> string \<Rightarrow> FilterItem option" where
  "Trie_lookup t f client_id =
     (case share_node (share_name f) t of
        None \<Rightarrow> None
      | Some n \<Rightarrow> entry_at (split CHR ''/'' (path f)) client_id n)"

definition Trie_retained :: "Trie \<Rightarrow> string \<Rightarrow> Message option" where
  "Trie_retained t topic = retained_at (split CHR ''/'' topic) (trie_root t)"

text \<open>The number of subscriptions in all trees.\<close>

definition Trie_subscriptions :: "Trie \<Rightarrow> nat" where
  "Trie_subscriptions t = subscriptions (trie_root t)
     + sum_list (map (\<lambda>(name, n). subscriptions n) (trie_share_subscriptions t))"

definition Trie_inv :: "Trie \<Rightarrow> bool" where
  "Trie_inv t \<longleftrightarrow> node_wf (trie_root t) \<and>
     distinct (map fst (trie_share_subscriptions t)) \<and>
     list_all (\<lambda>(name, n). node_wf n) (trie_share_subscriptions t) \<and>
     trie_subscribers_count t = word_of_nat (Trie_subscriptions t) \<and>
     trie_retained_messages_count t = word_of_nat (retained_messages (trie_root t)) \<and>
     (\<forall>p. retained_at p (trie_root t) \<noteq> None \<longrightarrow> (\<exists>topic. p = split CHR ''/'' topic))"

subsection \<open>What the trie promises\<close>

datatype ('f, 'c, 'i) command =
    SubscribeCmd 'f 'c 'i
  | UnsubscribeCmd 'f 'c
  | UnsubscribeAllCmd 'c

text \<open>The abstract store: a map, and what each command does to it.\<close>

fun map_command ::
  "('f, 'c, 'i) command \<Rightarrow> ('f \<Rightarrow> 'c \<Rightarrow> 'i option) \<Rightarrow> 'f \<Rightarrow> 'c \<Rightarrow> 'i option" where
  "map_command (SubscribeCmd f c i) m = m(f := (m f)(c \<mapsto> i))"
| "map_command (UnsubscribeCmd f c) m = m(f := (m f)(c := None))"
| "map_command (UnsubscribeAllCmd c) m = (\<lambda>f. (m f)(c := None))"

locale subscription_store =
  fixes inv :: "'t \<Rightarrow> bool" and lookup :: "'t \<Rightarrow> 'f \<Rightarrow> 'c \<Rightarrow> 'i option"
    and subscribe :: "'f \<Rightarrow> 'c \<Rightarrow> 'i \<Rightarrow> 't \<Rightarrow> 'i option \<times> 't"
    and unsubscribe :: "'f \<Rightarrow> 'c \<Rightarrow> 't \<Rightarrow> 'i option \<times> 't"
    and unsubscribe_all :: "'c \<Rightarrow> 't \<Rightarrow> 't"
  assumes subscribe_inv: "inv t \<Longrightarrow> inv (snd (subscribe f c i t))"
    and unsubscribe_inv: "inv t \<Longrightarrow> inv (snd (unsubscribe f c t))"
    and unsubscribe_all_inv: "inv t \<Longrightarrow> inv (unsubscribe_all c t)"
    and subscribe_result: "inv t \<Longrightarrow> fst (subscribe f c i t) = lookup t f c"
    and unsubscribe_result: "inv t \<Longrightarrow> fst (unsubscribe f c t) = lookup t f c"
    and subscribe_lookup: "inv t \<Longrightarrow> lookup (snd (subscribe f c i t)) f' c' =
      (if f' = f \<and> c' = c then Some i else lookup t f' c')"
    and unsubscribe_lookup: "inv t \<Longrightarrow> lookup (snd (unsubscribe f c t)) f' c' =
      (if f' = f \<and> c' = c then None else lookup t f' c')"
    and unsubscribe_all_lookup: "inv t \<Longrightarrow> lookup (unsubscribe_all c t) f' c' =
      (if c' = c then None else lookup t f' c')"
begin

text \<open>The state after a sequence of commands is the map after the corresponding updates.\<close>

fun apply_command :: "('f, 'c, 'i) command \<Rightarrow> 't \<Rightarrow> 't" where
  "apply_command (SubscribeCmd f c i) t = snd (subscribe f c i t)"
| "apply_command (UnsubscribeCmd f c) t = snd (unsubscribe f c t)"
| "apply_command (UnsubscribeAllCmd c) t = unsubscribe_all c t"

lemma apply_command_inv: "inv t \<Longrightarrow> inv (apply_command cmd t)"
  by (cases cmd) (simp_all add: subscribe_inv unsubscribe_inv unsubscribe_all_inv)

lemma commands_inv: "inv t \<Longrightarrow> inv (fold apply_command cmds t)"
  by (induction cmds arbitrary: t) (simp_all add: apply_command_inv)

lemma apply_command_refines:
  "inv t \<Longrightarrow> lookup (apply_command cmd t) = map_command cmd (lookup t)"
  by (cases cmd) (auto simp: fun_eq_iff subscribe_lookup unsubscribe_lookup unsubscribe_all_lookup)

lemma commands_refine:
  "inv t \<Longrightarrow> lookup (fold apply_command cmds t) = fold map_command cmds (lookup t)"
  by (induction cmds arbitrary: t) (simp_all add: apply_command_inv apply_command_refines)

lemma commands_other_client:
  assumes "inv t"
    and "\<forall>cmd \<in> set cmds. (case cmd of SubscribeCmd _ c' _ \<Rightarrow> c' \<noteq> c | UnsubscribeCmd _ c' \<Rightarrow> c' \<noteq> c
      | UnsubscribeAllCmd c' \<Rightarrow> c' \<noteq> c)"
  shows "lookup (fold apply_command cmds t) f c = lookup t f c"
  using assms
proof (induction cmds arbitrary: t)
  case (Cons cmd cmds)
  then have "lookup (fold apply_command cmds (apply_command cmd t)) f c = lookup (apply_command cmd t) f c"
    by (intro Cons.IH) (simp_all add: apply_command_inv)
  also have "\<dots> = lookup t f c"
    using Cons.prems
    by (cases cmd) (auto simp: subscribe_lookup unsubscribe_lookup unsubscribe_all_lookup)
  finally show ?case by simp
qed simp

lemma resubscribe:
  assumes "inv t"
  shows "fst (subscribe f c j (snd (subscribe f c i t))) = Some i"
    and "lookup (snd (subscribe f c j (snd (subscribe f c i t)))) = lookup (snd (subscribe f c j t))"
  using assms
  by (simp_all add: subscribe_result subscribe_inv subscribe_lookup fun_eq_iff)

lemma unsubscribe_subscribe:
  assumes "inv t"
  shows "fst (unsubscribe f c (snd (subscribe f c i t))) = Some i"
    and "lookup t f c = None \<Longrightarrow>
      lookup (snd (unsubscribe f c (snd (subscribe f c i t)))) = lookup t"
  using assms
  by (auto simp: unsubscribe_result subscribe_inv subscribe_lookup unsubscribe_lookup fun_eq_iff)

lemma unsubscribe_twice:
  "inv t \<Longrightarrow> fst (unsubscribe f c (snd (unsubscribe f c t))) = None"
  by (simp add: unsubscribe_result unsubscribe_inv unsubscribe_lookup)

end

subsection \<open>The trie keeps the promise\<close>

lemma retained_at_default [simp]: "retained_at p Node_default = None"
  by (cases p) (simp_all add: retained_at_def)

lemma Trie_inv_default: "Trie_inv Trie_default"
  by (auto simp: Trie_inv_def Trie_default_def node_wf_default Trie_subscriptions_def subscriptions_def
      retained_messages_def node_sum_default retained_at_default)

lemma Trie_lookup_default: "Trie_lookup Trie_default = (\<lambda>_ _. None)"
proof -
  have "entry_at p c Node_default = None" for p c
    by (cases p) (simp_all add: entry_at_def)
  then show ?thesis
    by (auto simp: fun_eq_iff Trie_lookup_def share_node_def Trie_default_def split: option.splits)
qed

lemma share_or_default_wf: "Trie_inv t \<Longrightarrow> node_wf (share_or_default name t)"
  by (auto simp: share_or_default_def node_wf_default Trie_inv_def list_all_iff
      split: option.splits dest: map_of_SomeD)

lemma share_or_default_entry:
  "entry_at ss c (share_or_default name t) =
     (case map_of (trie_share_subscriptions t) name of None \<Rightarrow> None | Some n \<Rightarrow> entry_at ss c n)"
proof -
  have "entry_at ss c Node_default = None"
    by (cases ss) (simp_all add: entry_at_def)
  then show ?thesis by (simp add: share_or_default_def split: option.splits)
qed

lemma share_update_subscriptions:
  "sum_list (map (\<lambda>(name, n). subscriptions n) (AList.update name n shares))
     + subscriptions (case map_of shares name of Some node \<Rightarrow> node | None \<Rightarrow> Node_default)
   = sum_list (map (\<lambda>(name, n). subscriptions n) shares) + subscriptions n"
  using sum_list_update [of subscriptions name n shares]
  by (simp add: subscriptions_def node_sum_default split: option.splits)

lemma share_update_wf:
  "list_all (\<lambda>(name, n). node_wf n) shares \<Longrightarrow> node_wf n \<Longrightarrow>
   list_all (\<lambda>(name, n). node_wf n) (AList.update name n shares)"
  by (induction shares) auto

lemma Filter_eq_iff: "(f :: Filter) = g \<longleftrightarrow> share_name f = share_name g \<and> path f = path g"
  by (cases f; cases g) simp

lemma word_of_nat_diff: "b \<le> a \<Longrightarrow> word_of_nat (a - b) = (word_of_nat a - word_of_nat b :: u64)"
  by (simp add: of_nat_diff)

lemma Trie_subscribe_spec:
  assumes "Trie_inv t" "Trie_subscribe f client_id data t = (res, t')"
  shows "res = Trie_lookup t f client_id \<and> Trie_inv t' \<and>
    Trie_lookup t' f' c' = (if f' = f \<and> c' = client_id then Some data else Trie_lookup t f' c') \<and>
    Trie_retained t' = Trie_retained t"
proof (cases "share_name f")
  case None
  obtain r n where s: "internal_subscribe (split CHR ''/'' (path f)) (trie_root t) client_id data = (r, n)"
    by force
  note wf = internal_subscribe_wf [OF s split_not_Nil]
  note at = internal_subscribe_at [OF s split_not_Nil]
  have ret: "retained_at p n = retained_at p (trie_root t)" for p
    using at [of p] by (simp add: retained_at_def)
  from assms(2) None s have "res = r"
    and t': "t' = t\<lparr>trie_root := n, trie_subscribers_count :=
      (if r = None then trie_subscribers_count t + 1 else trie_subscribers_count t)\<rparr>"
    by (auto simp: Trie_subscribe_def Let_def)
  moreover have "Trie_inv t'"
    using assms(1) wf by (simp add: t' Trie_inv_def Trie_subscriptions_def ret)
  moreover have "Trie_lookup t' f' c' = (if f' = f \<and> c' = client_id then Some data else Trie_lookup t f' c')"
    using at [of "split CHR ''/'' (path f')"] None
    by (auto simp: t' Trie_lookup_def share_node_def Filter_eq_iff entry_at_def split: option.splits)
  moreover have "r = Trie_lookup t f client_id"
    using at None by (simp add: Trie_lookup_def share_node_def)
  moreover have "Trie_retained t' = Trie_retained t"
    by (simp add: fun_eq_iff Trie_retained_def t' ret)
  ultimately show ?thesis by simp
next
  case (Some name)
  obtain r n where s: "internal_subscribe (split CHR ''/'' (path f)) (share_or_default name t) client_id data = (r, n)"
    by force
  note wf = internal_subscribe_wf [OF s split_not_Nil share_or_default_wf [OF assms(1)]]
  note at = internal_subscribe_at [OF s split_not_Nil]
  from assms(2) Some s have "res = r"
    and t': "t' = t\<lparr>trie_share_subscriptions := AList.update name n (trie_share_subscriptions t),
      trie_subscribers_count :=
        (if r = None then trie_subscribers_count t + 1 else trie_subscribers_count t)\<rparr>"
    by (auto simp: Trie_subscribe_def Let_def)
  moreover have "Trie_inv t'"
    using assms(1) wf share_update_subscriptions [of name n "trie_share_subscriptions t"]
    by (auto simp: t' Trie_inv_def Trie_subscriptions_def distinct_update share_update_wf
        share_or_default_def add.assoc [symmetric] split: if_splits)
  moreover have "Trie_lookup t' f' c' = (if f' = f \<and> c' = client_id then Some data else Trie_lookup t f' c')"
    using at [of "split CHR ''/'' (path f')"] Some
      share_or_default_entry [of "split CHR ''/'' (path f')" c' name t]
    by (auto simp: t' Trie_lookup_def share_node_def Filter_eq_iff entry_at_def update_conv'
        split: option.splits)
  moreover have "r = Trie_lookup t f client_id"
    using at Some by (simp add: Trie_lookup_def share_node_def share_or_default_entry)
  moreover have "Trie_retained t' = Trie_retained t"
    by (simp add: fun_eq_iff Trie_retained_def t')
  ultimately show ?thesis by simp
qed


lemma Trie_unsubscribe_spec:
  assumes "Trie_inv t" "Trie_unsubscribe f client_id t = (res, t')"
  shows "res = Trie_lookup t f client_id \<and> Trie_inv t' \<and>
    Trie_lookup t' f' c' = (if f' = f \<and> c' = client_id then None else Trie_lookup t f' c') \<and>
    Trie_retained t' = Trie_retained t"
proof (cases "share_name f")
  case None
  obtain r n where s: "internal_unsubscribe (split CHR ''/'' (path f)) (trie_root t) client_id = (r, n)"
    by force
  have wf: "node_wf n" "retained_messages n = retained_messages (trie_root t)"
    "subscriptions (trie_root t) = subscriptions n + (if r = None then 0 else 1)"
    using internal_unsubscribe_wf [OF s split_not_Nil] assms(1) by (simp_all add: Trie_inv_def)
  note at = internal_unsubscribe_at [OF s split_not_Nil]
  have ret: "retained_at p n = retained_at p (trie_root t)" for p
    using at [of p] by (simp add: retained_at_def)
  from assms(2) None s have "res = r"
    and t': "t' = t\<lparr>trie_root := n, trie_subscribers_count :=
      (if r = None then trie_subscribers_count t else trie_subscribers_count t - 1)\<rparr>"
    by (auto simp: Trie_unsubscribe_def Let_def)
  moreover have "Trie_inv t'"
    using assms(1) wf by (auto simp: t' Trie_inv_def Trie_subscriptions_def ret)
  moreover have "Trie_lookup t' f' c' = (if f' = f \<and> c' = client_id then None else Trie_lookup t f' c')"
    using at [of "split CHR ''/'' (path f')"] None
    by (auto simp: t' Trie_lookup_def share_node_def Filter_eq_iff entry_at_def split: option.splits)
  moreover have "r = Trie_lookup t f client_id"
    using at None by (simp add: Trie_lookup_def share_node_def)
  moreover have "Trie_retained t' = Trie_retained t"
    by (simp add: fun_eq_iff Trie_retained_def t' ret)
  ultimately show ?thesis by simp
next
  case (Some name)
  obtain r n where s: "internal_unsubscribe (split CHR ''/'' (path f)) (share_or_default name t) client_id = (r, n)"
    by force
  have wf: "node_wf n" "subscriptions (share_or_default name t) = subscriptions n + (if r = None then 0 else 1)"
    using internal_unsubscribe_wf [OF s split_not_Nil share_or_default_wf [OF assms(1)]] by simp_all
  note at = internal_unsubscribe_at [OF s split_not_Nil]
  from assms(2) Some s have "res = r"
    and t': "t' = t\<lparr>trie_share_subscriptions := AList.update name n (trie_share_subscriptions t),
      trie_subscribers_count :=
        (if r = None then trie_subscribers_count t else trie_subscribers_count t - 1)\<rparr>"
    by (auto simp: Trie_unsubscribe_def Let_def)
  moreover have "Trie_inv t'"
  proof -
    have "Trie_subscriptions t = Trie_subscriptions t' + (if r = None then 0 else 1)"
      using wf(2) share_update_subscriptions [of name n "trie_share_subscriptions t"]
      by (simp add: t' Trie_subscriptions_def share_or_default_def)
    moreover have "trie_subscribers_count t' =
        trie_subscribers_count t - (if r = None then 0 else 1)"
      by (simp add: t')
    ultimately have "trie_subscribers_count t' = word_of_nat (Trie_subscriptions t')"
      using assms(1) by (simp add: Trie_inv_def)
    then show ?thesis using assms(1) wf(1)
      by (simp add: t' Trie_inv_def distinct_update share_update_wf)
  qed
  moreover have "Trie_lookup t' f' c' = (if f' = f \<and> c' = client_id then None else Trie_lookup t f' c')"
    using at [of "split CHR ''/'' (path f')"] Some
      share_or_default_entry [of "split CHR ''/'' (path f')" c' name t]
    by (auto simp: t' Trie_lookup_def share_node_def Filter_eq_iff entry_at_def update_conv'
        split: option.splits)
  moreover have "r = Trie_lookup t f client_id"
    using at Some by (simp add: Trie_lookup_def share_node_def share_or_default_entry)
  moreover have "Trie_retained t' = Trie_retained t"
    by (simp add: fun_eq_iff Trie_retained_def t')
  ultimately show ?thesis by simp
qed

text \<open>The walk over all trees.\<close>

definition Trie_subscriptions_of :: "string \<Rightarrow> Trie \<Rightarrow> nat" where
  "Trie_subscriptions_of client_id t = subscriptions_of client_id (trie_root t)
     + sum_list (map (\<lambda>(name, n). subscriptions_of client_id n) (trie_share_subscriptions t))"

lemma Trie_unsubscribe_all_eq:
  "Trie_unsubscribe_all client_id t =
     t\<lparr>trie_root := without_client client_id (trie_root t),
       trie_share_subscriptions :=
         map (\<lambda>(name, n). (name, without_client client_id n)) (trie_share_subscriptions t),
       trie_subscribers_count :=
         trie_subscribers_count t - word_of_nat (Trie_subscriptions_of client_id t)\<rparr>"
proof -
  have w: "internal_unsubscribe_all n client_id = (subscriptions_of client_id n, without_client client_id n)" for n
    by (simp add: prod_eq_iff walk_count without_client_def)
  show ?thesis
    by (simp add: Trie_unsubscribe_all_def Trie_subscriptions_of_def w comp_def case_prod_unfold)
qed

lemma map_of_map_value: "map_of (map (\<lambda>(k, v). (k, f v)) al) k = map_option f (map_of al k)"
  by (induction al) auto

lemma sum_list_counts:
  assumes "\<And>n. n \<in> snd ` set al \<Longrightarrow> f (g n) + h n = (k n :: nat)"
  shows "sum_list (map (\<lambda>(name, n). f n) (map (\<lambda>(name, n). (name, g n)) al))
    + sum_list (map (\<lambda>(name, n). h n) al) = sum_list (map (\<lambda>(name, n). k n) al)"
  using assms by (induction al) fastforce+

lemma Trie_unsubscribe_all_spec:
  assumes "Trie_inv t"
  shows "Trie_inv (Trie_unsubscribe_all client_id t) \<and>
    Trie_lookup (Trie_unsubscribe_all client_id t) f c =
      (if c = client_id then None else Trie_lookup t f c) \<and>
    Trie_subscriptions (Trie_unsubscribe_all client_id t) + Trie_subscriptions_of client_id t
      = Trie_subscriptions t \<and>
    Trie_retained (Trie_unsubscribe_all client_id t) = Trie_retained t"
proof (intro conjI)
  have wf: "node_wf (trie_root t)" "\<And>n. n \<in> snd ` set (trie_share_subscriptions t) \<Longrightarrow> node_wf n"
    "distinct (map fst (trie_share_subscriptions t))"
    using assms by (auto simp: Trie_inv_def list_all_iff)
  show count: "Trie_subscriptions (Trie_unsubscribe_all client_id t) + Trie_subscriptions_of client_id t
      = Trie_subscriptions t"
    using without_client_counts [OF wf(1), of client_id]
      sum_list_counts [of "trie_share_subscriptions t" subscriptions "without_client client_id"
        "subscriptions_of client_id" subscriptions] without_client_counts wf(2)
    by (simp add: Trie_unsubscribe_all_eq Trie_subscriptions_def Trie_subscriptions_of_def)
  have "word_of_nat (Trie_subscriptions t) - word_of_nat (Trie_subscriptions_of client_id t)
      = (word_of_nat (Trie_subscriptions (Trie_unsubscribe_all client_id t)) :: u64)"
    by (simp flip: count)
  moreover have ret: "retained_at p (without_client client_id (trie_root t)) = retained_at p (trie_root t)" for p
    using without_client_at [OF wf(1), of p client_id] by (simp add: retained_at_def)
  then show "Trie_retained (Trie_unsubscribe_all client_id t) = Trie_retained t"
    by (simp add: fun_eq_iff Trie_retained_def Trie_unsubscribe_all_eq)
  ultimately show "Trie_inv (Trie_unsubscribe_all client_id t)"
    using assms wf without_client_counts [OF wf(1), of client_id]
    by (auto simp: Trie_inv_def Trie_unsubscribe_all_eq without_client_wf list_all_iff comp_def
        case_prod_unfold ret)
  have at: "entry_at ss c (without_client client_id n) = (if c = client_id then None else entry_at ss c n)"
    if "node_wf n" for n ss
    using without_client_at [OF that, of ss client_id] by (simp add: entry_at_def)
  show "Trie_lookup (Trie_unsubscribe_all client_id t) f c =
      (if c = client_id then None else Trie_lookup t f c)"
  proof (cases "share_node (share_name f) t")
    case None
    then show ?thesis
      by (simp add: Trie_lookup_def share_node_def Trie_unsubscribe_all_eq map_of_map_value
          split: option.splits)
  next
    case (Some n)
    then have "node_wf n"
      using wf by (force simp: share_node_def dest!: map_of_SomeD split: option.splits)
    moreover have "share_node (share_name f) (Trie_unsubscribe_all client_id t) =
        Some (without_client client_id n)"
      using Some by (simp add: share_node_def Trie_unsubscribe_all_eq map_of_map_value
          split: option.splits)
    ultimately show ?thesis using Some at by (simp add: Trie_lookup_def)
  qed
qed

interpretation trie: subscription_store Trie_inv Trie_lookup Trie_subscribe Trie_unsubscribe
  Trie_unsubscribe_all
proof unfold_locales
  fix t f c i f' c'
  assume inv: "Trie_inv t"
  show "Trie_inv (snd (Trie_subscribe f c i t))" "fst (Trie_subscribe f c i t) = Trie_lookup t f c"
    "Trie_lookup (snd (Trie_subscribe f c i t)) f' c' =
      (if f' = f \<and> c' = c then Some i else Trie_lookup t f' c')"
    using Trie_subscribe_spec [OF inv, of f c i "fst (Trie_subscribe f c i t)"
      "snd (Trie_subscribe f c i t)"] by simp_all
  show "Trie_inv (snd (Trie_unsubscribe f c t))" "fst (Trie_unsubscribe f c t) = Trie_lookup t f c"
    "Trie_lookup (snd (Trie_unsubscribe f c t)) f' c' =
      (if f' = f \<and> c' = c then None else Trie_lookup t f' c')"
    using Trie_unsubscribe_spec [OF inv, of f c "fst (Trie_unsubscribe f c t)"
      "snd (Trie_unsubscribe f c t)"] by simp_all
  show "Trie_inv (Trie_unsubscribe_all c t)"
    "Trie_lookup (Trie_unsubscribe_all c t) f' c' = (if c' = c then None else Trie_lookup t f' c')"
    using Trie_unsubscribe_all_spec [OF inv] by simp_all
qed

lemma Trie_set_retained_fields:
  assumes "internal_set_retained_message (split CHR ''/'' topic) (trie_root t) msg = (r, n)"
  defines "t' \<equiv> snd (Trie_set_retained_message topic msg t)"
  shows "fst (Trie_set_retained_message topic msg t) = r" "trie_root t' = n"
    "trie_share_subscriptions t' = trie_share_subscriptions t"
    "trie_subscribers_count t' = trie_subscribers_count t"
    "trie_retained_messages_count t' = trie_retained_messages_count t
      + (if msg = None then 0 else 1) - (if r = None then 0 else 1)"
    "trie_retained_messages_bytes t' = trie_retained_messages_bytes t
      + (case (r, msg) of (None, Some m) \<Rightarrow> word_of_nat (length (message_payload m))
         | (Some m, None) \<Rightarrow> - word_of_nat (length (message_payload m)) | _ \<Rightarrow> 0)"
  unfolding t'_def
  by (simp_all add: Trie_set_retained_message_def Let_def assms(1) split: option.split)

lemma Trie_set_retained_spec:
  assumes "Trie_inv t" "topic_segments (split CHR ''/'' topic)"
    "Trie_set_retained_message topic msg t = (res, t')"
  shows "res = Trie_retained t topic \<and> Trie_inv t' \<and>
    Trie_retained t' = (Trie_retained t)(topic := msg) \<and> Trie_lookup t' = Trie_lookup t"
proof -
  obtain r n where s: "internal_set_retained_message (split CHR ''/'' topic) (trie_root t) msg = (r, n)"
    by force
  note at = internal_set_retained_at [OF s split_not_Nil assms(2)]
  have wf: "node_wf n" "subscriptions n = subscriptions (trie_root t)"
    "retained_messages n + (if r = None then 0 else 1)
      = retained_messages (trie_root t) + (if msg = None then 0 else 1)"
    using internal_set_retained_wf [OF s split_not_Nil assms(2)] assms(1) by (auto simp: Trie_inv_def)
  note res = Trie_set_retained_fields [OF s, unfolded assms(3) fst_conv snd_conv]
  have ret: "retained_at p n = (if p = split CHR ''/'' topic then msg else retained_at p (trie_root t))" for p
    using at [of p] by (simp add: retained_at_def)
  have ent: "entry_at p c n = entry_at p c (trie_root t)" for p c
    using at [of p] by (simp add: entry_at_def)
  have "word_of_nat (retained_messages n) + (if r = None then 0 else 1)
      = (word_of_nat (retained_messages (trie_root t)) + (if msg = None then 0 else 1) :: u64)"
    using arg_cong [OF wf(3), of "word_of_nat :: nat \<Rightarrow> u64"] by (cases r; cases msg) (simp_all add: add.commute)
  then have "trie_retained_messages_count t' = word_of_nat (retained_messages n)"
    using assms(1) by (cases r) (auto simp: res Trie_inv_def algebra_simps split: if_splits)
  moreover have "r = Trie_retained t topic"
    using at by (simp add: Trie_retained_def)
  ultimately show ?thesis
    using assms(1) wf
    by (auto simp: Trie_inv_def res ret ent Trie_subscriptions_def Trie_retained_def fun_eq_iff
        Trie_lookup_def share_node_def split: option.splits)
qed

end
