(* ===== verification/Storage.thy ===== *)
theory Storage
  imports Trie Message "HOL-Library.List_Lexorder" "HOL-Library.Char_ord" "HOL-Library.Product_Lexorder"
begin

text \<open>
  \<open>libs/service/src/storage.rs\<close>: the sessions, their message queues, and the timeouts at which a
  disconnected client's will is published and its session removed.

  A \<open>BTreeSet\<close> is a sorted list without duplicates (\<open>insort_insert\<close> and \<open>remove1\<close> are its
  \<open>insert\<close> and \<open>remove\<close>, the head its first element). An \<open>Instant\<close> is a number of nanoseconds. An
  operation reads the clocks once; the readings are arguments. A \<open>Notify\<close> holds at most one
  permit, which \<open>notify_one\<close> stores and \<open>notified\<close> takes. The locks are released between
  operations only, so every operation is one step.
\<close>

subsection \<open>Timeouts\<close>

datatype TimeoutKey = TimeoutKey (key_timeout: nat) (key_client_id: string)

instantiation TimeoutKey :: linorder
begin

definition less_eq_TimeoutKey :: "TimeoutKey \<Rightarrow> TimeoutKey \<Rightarrow> bool" where
  "less_eq_TimeoutKey a b \<longleftrightarrow>
     (if key_timeout a < key_timeout b then True
      else if key_timeout a > key_timeout b then False
      else key_client_id a \<le> key_client_id b)"

definition less_TimeoutKey :: "TimeoutKey \<Rightarrow> TimeoutKey \<Rightarrow> bool" where
  "less_TimeoutKey a b \<longleftrightarrow> a \<le> b \<and> \<not> b \<le> (a :: TimeoutKey)"

instance
proof
  fix a b c :: TimeoutKey
  show "a < b \<longleftrightarrow> a \<le> b \<and> \<not> b \<le> a" by (rule less_TimeoutKey_def)
  show "a \<le> a" by (simp add: less_eq_TimeoutKey_def)
  show "a \<le> b \<Longrightarrow> b \<le> c \<Longrightarrow> a \<le> c"
    by (auto simp: less_eq_TimeoutKey_def split: if_splits)
  show "a \<le> b \<Longrightarrow> b \<le> a \<Longrightarrow> a = b"
    by (cases a; cases b) (auto simp: less_eq_TimeoutKey_def split: if_splits)
  show "a \<le> b \<or> b \<le> a" by (auto simp: less_eq_TimeoutKey_def)
qed

end

type_synonym timeouts = "TimeoutKey list"

subsection \<open>Sessions\<close>

record Session =
  session_queue :: "Message list"
  session_notify :: bool
  session_last_will :: "LastWill option"
  session_inflight_pub_packets :: "Publish list"
  session_last_will_timeout_key :: "TimeoutKey option"
  session_remove_timeout_key :: "TimeoutKey option"

definition Session_new :: "LastWill option \<Rightarrow> Session" where
  "Session_new last_will = \<lparr>session_queue = [], session_notify = False,
     session_last_will = last_will, session_inflight_pub_packets = [],
     session_last_will_timeout_key = None, session_remove_timeout_key = None\<rparr>"

definition Session_add_message :: "system_time \<Rightarrow> Message \<Rightarrow> FilterItem list \<Rightarrow> Session \<Rightarrow> Session" where
  "Session_add_message now msg filter_items s =
     (case filter_items of
        [] \<Rightarrow> s
      | first_item # filter_items \<Rightarrow>
          let (qos, retain_as_published, ids) =
            fold (\<lambda>item (qos, retain_as_published, ids).
                (max qos (item_qos item), retain_as_published \<and> item_retain_as_published item,
                 ids @ to_list (item_id item)))
              filter_items
              (item_qos first_item, item_retain_as_published first_item, to_list (item_id first_item));
            new_msg = Message_with_properties
              ((message_properties msg)\<lparr>pubprop_subscription_identifiers := ids\<rparr>)
              (Message_new now (message_topic msg) (min (message_qos msg) qos) (message_payload msg));
            new_msg = (if retain_as_published then Message_with_retain (message_retain msg) new_msg
              else new_msg)
          in s\<lparr>session_queue := session_queue s @ [new_msg], session_notify := True\<rparr>)"

subsection \<open>The storage\<close>

record Storage =
  storage_sessions :: "(string \<times> Session) list"
  storage_filter_tree :: Trie
  storage_send_last_will_timeout :: timeouts
  storage_remove_timeout :: timeouts
  storage_clients_expired :: u64

definition Storage_default :: Storage where
  "Storage_default = \<lparr>storage_sessions = [], storage_filter_tree = Trie_default,
     storage_send_last_will_timeout = [], storage_remove_timeout = [],
     storage_clients_expired = 0\<rparr>"

text \<open>\<open>if let Some(session) = sessions.get(client_id) { f(session.write()) }\<close>.\<close>

definition modify_session :: "string \<Rightarrow> (Session \<Rightarrow> Session) \<Rightarrow> Storage \<Rightarrow> Storage" where
  "modify_session client_id f st =
     (case map_of (storage_sessions st) client_id of
        None \<Rightarrow> st
      | Some session \<Rightarrow> st\<lparr>storage_sessions := AList.update client_id (f session) (storage_sessions st)\<rparr>)"

definition may_receive :: "Message \<Rightarrow> string \<Rightarrow> FilterItem \<Rightarrow> bool" where
  "may_receive msg client_id filter_item \<longleftrightarrow>
     \<not> item_no_local filter_item \<or> message_from_client_id msg \<noteq> Some client_id"

definition deliver_message ::
  "system_time \<Rightarrow> (string \<Rightarrow> nat \<Rightarrow> nat) \<Rightarrow> Message \<Rightarrow> Storage \<Rightarrow> Storage" where
  "deliver_message now pick msg st =
     (if Message_is_expired now msg then st
      else
        let st = fold (\<lambda>(client_id, filter_items). modify_session client_id
                   (Session_add_message now msg (filter (may_receive msg client_id) filter_items)))
                 (Trie_matches (message_topic msg) (storage_filter_tree st)) st
        in fold (\<lambda>(client_id, filter_items). modify_session client_id
                   (Session_add_message now msg filter_items))
             (Trie_matches_shared pick (message_topic msg) (storage_filter_tree st)) st)"

text \<open>\<open>pick i\<close> are the random choices made for the \<open>i\<close>-th message.\<close>

primrec Storage_deliver ::
  "system_time \<Rightarrow> (nat \<Rightarrow> string \<Rightarrow> nat \<Rightarrow> nat) \<Rightarrow> Message list \<Rightarrow> Storage \<Rightarrow> Storage" where
  "Storage_deliver now pick [] st = st"
| "Storage_deliver now pick (msg # msgs) st =
     Storage_deliver now (\<lambda>i. pick (Suc i)) msgs (deliver_message now (pick 0) msg st)"

definition remove_key :: "TimeoutKey option \<Rightarrow> timeouts \<Rightarrow> timeouts" where
  "remove_key key ks = (case key of None \<Rightarrow> ks | Some k \<Rightarrow> remove1 k ks)"

definition insert_key :: "TimeoutKey option \<Rightarrow> timeouts \<Rightarrow> timeouts" where
  "insert_key key ks = (case key of None \<Rightarrow> ks | Some k \<Rightarrow> insort_insert k ks)"

definition remove_session :: "string \<Rightarrow> Storage \<Rightarrow> Storage" where
  "remove_session client_id st =
     (let st =
        (case map_of (storage_sessions st) client_id of
           None \<Rightarrow> st
         | Some session \<Rightarrow>
             st\<lparr>storage_sessions := AList.delete client_id (storage_sessions st),
               storage_send_last_will_timeout :=
                 remove_key (session_last_will_timeout_key session) (storage_send_last_will_timeout st),
               storage_remove_timeout :=
                 remove_key (session_remove_timeout_key session) (storage_remove_timeout st)\<rparr>)
      in st\<lparr>storage_filter_tree := Trie_unsubscribe_all client_id (storage_filter_tree st)\<rparr>)"

definition Storage_update_retained_message :: "Message \<Rightarrow> Storage \<Rightarrow> Storage" where
  "Storage_update_retained_message msg st =
     st\<lparr>storage_filter_tree :=
       snd (Trie_set_retained_message (message_topic msg)
         (if \<not> Message_is_empty msg then Some msg else None) (storage_filter_tree st))\<rparr>"

text \<open>The result is \<open>session_present\<close>; the \<open>Notify\<close> returned with it is the session's.\<close>

definition Storage_create_session ::
  "string \<Rightarrow> bool \<Rightarrow> LastWill option \<Rightarrow> Storage \<Rightarrow> bool \<times> Storage" where
  "Storage_create_session client_id clean_start last_will st =
     (let (session_present, st) =
        (if \<not> clean_start then
           (case map_of (storage_sessions st) client_id of
              None \<Rightarrow> (False, st)
            | Some session \<Rightarrow>
                (True, st\<lparr>storage_sessions := AList.update client_id
                    (session\<lparr>session_last_will := last_will, session_last_will_timeout_key := None,
                      session_remove_timeout_key := None\<rparr>) (storage_sessions st),
                  storage_send_last_will_timeout :=
                    remove_key (session_last_will_timeout_key session) (storage_send_last_will_timeout st),
                  storage_remove_timeout :=
                    remove_key (session_remove_timeout_key session) (storage_remove_timeout st)\<rparr>))
         else (False, remove_session client_id st))
      in (session_present,
          if session_present then st
          else st\<lparr>storage_sessions :=
            AList.update client_id (Session_new last_will) (storage_sessions st)\<rparr>))"

definition last_will_interval :: "LastWill \<Rightarrow> u32 \<Rightarrow> u32" where
  "last_will_interval last_will session_expiry_interval =
     min (case will_delay_interval (last_will_properties last_will) of Some n \<Rightarrow> n | None \<Rightarrow> 0)
       session_expiry_interval"

definition Storage_disconnect_session :: "nat \<Rightarrow> string \<Rightarrow> u32 \<Rightarrow> Storage \<Rightarrow> Storage" where
  "Storage_disconnect_session now client_id session_expiry_interval st =
     (case map_of (storage_sessions st) client_id of
        None \<Rightarrow> st
      | Some session \<Rightarrow>
          let will_key = map_option (\<lambda>last_will.
                TimeoutKey (now + from_secs (last_will_interval last_will session_expiry_interval)) client_id)
                (session_last_will session);
              key = TimeoutKey (now + from_secs session_expiry_interval) client_id;
              session = (if will_key \<noteq> None
                then session\<lparr>session_last_will_timeout_key := will_key\<rparr> else session)
          in st\<lparr>storage_sessions := AList.update client_id
                 (session\<lparr>session_remove_timeout_key := Some key\<rparr>) (storage_sessions st),
               storage_send_last_will_timeout := insert_key will_key (storage_send_last_will_timeout st),
               storage_remove_timeout := insert_key (Some key) (storage_remove_timeout st)\<rparr>)"

text \<open>The two loops of \<open>update_sessions\<close>: they end because each turn removes the key it has
  looked at.\<close>

function take_last_wills :: "nat \<Rightarrow> (string \<times> LastWill) list \<Rightarrow> Storage \<Rightarrow> (string \<times> LastWill) list \<times> Storage" where
  "take_last_wills now last_wills st =
     (case storage_send_last_will_timeout st of
        [] \<Rightarrow> (last_wills, st)
      | key # _ \<Rightarrow>
          if key_timeout key < now then
            let st = st\<lparr>storage_send_last_will_timeout :=
                  remove1 key (storage_send_last_will_timeout st)\<rparr> in
            (case map_of (storage_sessions st) (key_client_id key) of
               None \<Rightarrow> take_last_wills now last_wills st
             | Some session \<Rightarrow>
                 (case session_last_will session of
                    None \<Rightarrow> take_last_wills now last_wills st
                  | Some last_will \<Rightarrow>
                      take_last_wills now (last_wills @ [(key_client_id key, last_will)])
                        (modify_session (key_client_id key) (\<lambda>s. s\<lparr>session_last_will := None\<rparr>) st)))
          else (last_wills, st))"
  by pat_completeness auto
termination
proof (relation "measure (\<lambda>(now, last_wills, st). length (storage_send_last_will_timeout st))")
qed (auto simp: modify_session_def split: option.splits)

lemma remove1_head_length:
  "length (remove1 key (remove_key k (key # keys))) < length (key # keys)"
proof -
  have "length (remove1 key (remove1 x (key # keys))) < length (key # keys)" for x
    by (cases "x = key") (auto simp: length_remove1)
  then show ?thesis by (auto simp: remove_key_def split: option.split)
qed

lemma remove_session_remove_timeout:
  "storage_remove_timeout (remove_session client_id st) =
     remove_key (Option.bind (map_of (storage_sessions st) client_id) session_remove_timeout_key)
       (storage_remove_timeout st)"
  by (simp add: remove_session_def remove_key_def split: option.split)

function remove_expired_sessions :: "nat \<Rightarrow> Storage \<Rightarrow> Storage" where
  "remove_expired_sessions now st =
     (case storage_remove_timeout st of
        [] \<Rightarrow> st
      | key # _ \<Rightarrow>
          if key_timeout key < now then
            let st = remove_session (key_client_id key) st in
            remove_expired_sessions now (st\<lparr>storage_remove_timeout := remove1 key (storage_remove_timeout st),
              storage_clients_expired := storage_clients_expired st + 1\<rparr>)
          else st)"
  by pat_completeness auto
termination
proof (relation "measure (\<lambda>(now, st). length (storage_remove_timeout st))")
  fix now st key keys x
  assume "storage_remove_timeout st = key # keys" "x = remove_session (key_client_id key) st"
  moreover from this obtain k where "storage_remove_timeout x = remove_key k (key # keys)"
    by (simp add: remove_session_remove_timeout)
  ultimately show "((now, x\<lparr>storage_remove_timeout := remove1 key (storage_remove_timeout x),
        storage_clients_expired := storage_clients_expired x + 1\<rparr>), now, st)
      \<in> measure (\<lambda>(now, st). length (storage_remove_timeout st))"
    using remove1_head_length [of key k keys] by (simp del: length_Cons)
qed simp

declare take_last_wills.simps [simp del] remove_expired_sessions.simps [simp del]

definition Storage_update_sessions ::
  "system_time \<Rightarrow> nat \<Rightarrow> (nat \<Rightarrow> string \<Rightarrow> nat \<Rightarrow> nat) \<Rightarrow> Storage \<Rightarrow> Storage" where
  "Storage_update_sessions time now pick st =
     (let (last_wills, st) = take_last_wills now [] st;
          st = remove_expired_sessions now st
      in Storage_deliver time pick (map (\<lambda>(client_id, last_will). Message_from_last_will time last_will) last_wills) st)"

definition Storage_subscribe :: "system_time \<Rightarrow> string \<Rightarrow> Filter \<Rightarrow> FilterItem \<Rightarrow> Storage \<Rightarrow> Storage" where
  "Storage_subscribe now client_id f filter_item st =
     (let (previous, tree) = Trie_subscribe f client_id filter_item (storage_filter_tree st);
          st = st\<lparr>storage_filter_tree := tree\<rparr>;
          is_new_subscribe = (previous = None);
          publish_retain = (case (item_retain_handling filter_item, is_new_subscribe) of
            (OnEverySubscribe, _) \<Rightarrow> True | (OnNewSubscribe, True) \<Rightarrow> True | _ \<Rightarrow> False)
      in if share_name f = None \<and> publish_retain then
           fold (\<lambda>msg st.
               if Message_is_expired now msg then st
               else if item_no_local filter_item \<and> message_from_client_id msg = Some client_id then st
               else modify_session client_id (Session_add_message now msg [filter_item]) st)
             (Trie_matches_retained_messages (path f) tree) st
         else st)"

definition Storage_unsubscribe :: "string \<Rightarrow> Filter \<Rightarrow> Storage \<Rightarrow> bool \<times> Storage" where
  "Storage_unsubscribe client_id f st =
     (let (res, tree) = Trie_unsubscribe f client_id (storage_filter_tree st)
      in (res \<noteq> None, st\<lparr>storage_filter_tree := tree\<rparr>))"

text \<open>\<open>sessions.get(client_id).unwrap()\<close>: \<open>None\<close> is the panic.\<close>

definition Storage_next_messages :: "string \<Rightarrow> nat option \<Rightarrow> Storage \<Rightarrow> (Message list \<times> Storage) option" where
  "Storage_next_messages client_id limit st =
     (case map_of (storage_sessions st) client_id of
        None \<Rightarrow> None
      | Some session \<Rightarrow>
          let limit = (case limit of Some n \<Rightarrow> n | None \<Rightarrow> usize_max)
          in Some (take limit (session_queue session),
               modify_session client_id (\<lambda>s. s\<lparr>session_queue := drop limit (session_queue s)\<rparr>) st))"

definition Storage_add_inflight_pub_packet :: "string \<Rightarrow> Publish \<Rightarrow> Storage \<Rightarrow> Storage option" where
  "Storage_add_inflight_pub_packet client_id publish st =
     (case map_of (storage_sessions st) client_id of
        None \<Rightarrow> None
      | Some session \<Rightarrow> Some (modify_session client_id (\<lambda>s.
          s\<lparr>session_inflight_pub_packets := session_inflight_pub_packets s @ [publish]\<rparr>) st))"

definition Storage_get_inflight_pub_packets ::
  "string \<Rightarrow> u16 \<Rightarrow> bool \<Rightarrow> Storage \<Rightarrow> (Publish option \<times> Storage) option" where
  "Storage_get_inflight_pub_packets client_id packet_id remove st =
     (case map_of (storage_sessions st) client_id of
        None \<Rightarrow> None
      | Some session \<Rightarrow> Some
          (case session_inflight_pub_packets session of
             publish # _ \<Rightarrow>
               if publish_packet_id publish = Some packet_id then
                 (Some publish,
                  if remove then modify_session client_id (\<lambda>s.
                    s\<lparr>session_inflight_pub_packets := tl (session_inflight_pub_packets s)\<rparr>) st
                  else st)
               else (None, st)
           | [] \<Rightarrow> (None, st)))"

definition Storage_get_all_inflight_pub_packets :: "string \<Rightarrow> Storage \<Rightarrow> Publish list option" where
  "Storage_get_all_inflight_pub_packets client_id st =
     map_option session_inflight_pub_packets (map_of (storage_sessions st) client_id)"

record StorageMetrics =
  stm_session_count :: u64
  stm_inflight_messages_count :: u64
  stm_retained_messages_count :: u64
  stm_messages_count :: u64
  stm_messages_bytes :: u64
  stm_subscriptions_count :: u64
  stm_clients_expired :: u64

definition Storage_metrics :: "Storage \<Rightarrow> StorageMetrics" where
  "Storage_metrics st =
     (let sessions = map snd (storage_sessions st);
          total = (\<lambda>f. sum_list (map (\<lambda>session. word_of_nat (f session)) sessions))
      in \<lparr>stm_session_count = word_of_nat (length sessions),
          stm_inflight_messages_count = total (\<lambda>s. length (session_inflight_pub_packets s)),
          stm_retained_messages_count = trie_retained_messages_count (storage_filter_tree st),
          stm_messages_count = trie_retained_messages_count (storage_filter_tree st)
            + total (\<lambda>s. length (session_queue s)),
          stm_messages_bytes = trie_retained_messages_bytes (storage_filter_tree st)
            + total (\<lambda>s. sum_list (map (\<lambda>msg. length (message_payload msg)) (session_queue s))),
          stm_subscriptions_count = trie_subscribers_count (storage_filter_tree st),
          stm_clients_expired = storage_clients_expired st\<rparr>)"

end
