(* ===== verification/Packet_ConnAck.thy ===== *)
theory Packet_ConnAck
  imports Codec_Properties
begin

text \<open>
  \<open>libs/codec/src/connack.rs\<close>: the CONNACK packet. At level 4 the reason code is one of six
  return codes, to which the reason codes of level 5 are mapped.
\<close>

unbundle bit_operations_syntax

subsection \<open>Reason codes\<close>

datatype ConnectReasonCode =
    Success
  | UnspecifiedError
  | MalformedPacket
  | ProtocolError
  | ImplementationSpecificError
  | UnsupportedProtocolVersion
  | ClientIdentifierNotValid
  | BadUserNamePassword
  | NotAuthorized
  | ServerUnavailable
  | ServerBusy
  | Banned
  | BadAuthenticationMethod
  | TopicNameInvalid
  | PacketTooLarge
  | QuotaExceeded
  | PayloadFormatInvalid
  | RetainNotSupported
  | QoSNotSupported
  | UseAnotherServer
  | ServerMoved
  | ConnectionRateExceeded

fun ConnectReasonCode_u8 :: "ConnectReasonCode \<Rightarrow> u8" where
  "ConnectReasonCode_u8 ConnectReasonCode.Success = 0"
| "ConnectReasonCode_u8 ConnectReasonCode.UnspecifiedError = 128"
| "ConnectReasonCode_u8 ConnectReasonCode.MalformedPacket = 129"
| "ConnectReasonCode_u8 ConnectReasonCode.ProtocolError = 130"
| "ConnectReasonCode_u8 ConnectReasonCode.ImplementationSpecificError = 131"
| "ConnectReasonCode_u8 ConnectReasonCode.UnsupportedProtocolVersion = 132"
| "ConnectReasonCode_u8 ConnectReasonCode.ClientIdentifierNotValid = 133"
| "ConnectReasonCode_u8 ConnectReasonCode.BadUserNamePassword = 134"
| "ConnectReasonCode_u8 ConnectReasonCode.NotAuthorized = 135"
| "ConnectReasonCode_u8 ConnectReasonCode.ServerUnavailable = 136"
| "ConnectReasonCode_u8 ConnectReasonCode.ServerBusy = 137"
| "ConnectReasonCode_u8 ConnectReasonCode.Banned = 138"
| "ConnectReasonCode_u8 ConnectReasonCode.BadAuthenticationMethod = 140"
| "ConnectReasonCode_u8 ConnectReasonCode.TopicNameInvalid = 144"
| "ConnectReasonCode_u8 ConnectReasonCode.PacketTooLarge = 149"
| "ConnectReasonCode_u8 ConnectReasonCode.QuotaExceeded = 151"
| "ConnectReasonCode_u8 ConnectReasonCode.PayloadFormatInvalid = 153"
| "ConnectReasonCode_u8 ConnectReasonCode.RetainNotSupported = 154"
| "ConnectReasonCode_u8 ConnectReasonCode.QoSNotSupported = 155"
| "ConnectReasonCode_u8 ConnectReasonCode.UseAnotherServer = 156"
| "ConnectReasonCode_u8 ConnectReasonCode.ServerMoved = 157"
| "ConnectReasonCode_u8 ConnectReasonCode.ConnectionRateExceeded = 159"

definition ConnectReasonCode_variants :: "ConnectReasonCode list" where
  "ConnectReasonCode_variants = [
     ConnectReasonCode.Success, ConnectReasonCode.UnspecifiedError,
     ConnectReasonCode.MalformedPacket, ConnectReasonCode.ProtocolError,
     ConnectReasonCode.ImplementationSpecificError,
     ConnectReasonCode.UnsupportedProtocolVersion,
     ConnectReasonCode.ClientIdentifierNotValid, ConnectReasonCode.BadUserNamePassword,
     ConnectReasonCode.NotAuthorized, ConnectReasonCode.ServerUnavailable,
     ConnectReasonCode.ServerBusy, ConnectReasonCode.Banned,
     ConnectReasonCode.BadAuthenticationMethod, ConnectReasonCode.TopicNameInvalid,
     ConnectReasonCode.PacketTooLarge, ConnectReasonCode.QuotaExceeded,
     ConnectReasonCode.PayloadFormatInvalid, ConnectReasonCode.RetainNotSupported,
     ConnectReasonCode.QoSNotSupported, ConnectReasonCode.UseAnotherServer,
     ConnectReasonCode.ServerMoved, ConnectReasonCode.ConnectionRateExceeded]"

definition ConnectReasonCode_try_from :: "u8 \<Rightarrow> ConnectReasonCode option" where
  "ConnectReasonCode_try_from = try_from_primitive ConnectReasonCode_u8 ConnectReasonCode_variants"

interpretation ConnectReasonCode_enum: primitive_enum ConnectReasonCode_u8 ConnectReasonCode_variants
proof (rule primitive_enumI)
  show "c \<in> set ConnectReasonCode_variants" for c by (cases c) (simp_all add: ConnectReasonCode_variants_def)
qed (simp add: ConnectReasonCode_variants_def)

lemma ConnectReasonCode_roundtrip [wire]: "ConnectReasonCode_try_from (ConnectReasonCode_u8 c) = Some c"
  unfolding ConnectReasonCode_try_from_def by (rule ConnectReasonCode_enum.roundtrip)

definition ConnectReasonCode_is_success :: "ConnectReasonCode \<Rightarrow> bool" where
  "ConnectReasonCode_is_success c \<longleftrightarrow> ConnectReasonCode_u8 c < 0x80"

datatype ConnectReasonCodeV4 =
    Success
  | RefusedProtocolVersion
  | BadClientId
  | ServiceUnavailable
  | BadUserNamePassword
  | NotAuthorized

fun ConnectReasonCodeV4_u8 :: "ConnectReasonCodeV4 \<Rightarrow> u8" where
  "ConnectReasonCodeV4_u8 ConnectReasonCodeV4.Success = 0"
| "ConnectReasonCodeV4_u8 ConnectReasonCodeV4.RefusedProtocolVersion = 1"
| "ConnectReasonCodeV4_u8 ConnectReasonCodeV4.BadClientId = 2"
| "ConnectReasonCodeV4_u8 ConnectReasonCodeV4.ServiceUnavailable = 3"
| "ConnectReasonCodeV4_u8 ConnectReasonCodeV4.BadUserNamePassword = 4"
| "ConnectReasonCodeV4_u8 ConnectReasonCodeV4.NotAuthorized = 5"

definition ConnectReasonCodeV4_variants :: "ConnectReasonCodeV4 list" where
  "ConnectReasonCodeV4_variants = [
     ConnectReasonCodeV4.Success, ConnectReasonCodeV4.RefusedProtocolVersion,
     ConnectReasonCodeV4.BadClientId, ConnectReasonCodeV4.ServiceUnavailable,
     ConnectReasonCodeV4.BadUserNamePassword, ConnectReasonCodeV4.NotAuthorized]"

definition ConnectReasonCodeV4_try_from :: "u8 \<Rightarrow> ConnectReasonCodeV4 option" where
  "ConnectReasonCodeV4_try_from = try_from_primitive ConnectReasonCodeV4_u8 ConnectReasonCodeV4_variants"

interpretation ConnectReasonCodeV4_enum: primitive_enum ConnectReasonCodeV4_u8 ConnectReasonCodeV4_variants
proof (rule primitive_enumI)
  show "c \<in> set ConnectReasonCodeV4_variants" for c by (cases c) (simp_all add: ConnectReasonCodeV4_variants_def)
qed (simp add: ConnectReasonCodeV4_variants_def)

lemma ConnectReasonCodeV4_roundtrip [wire]: "ConnectReasonCodeV4_try_from (ConnectReasonCodeV4_u8 c) = Some c"
  unfolding ConnectReasonCodeV4_try_from_def by (rule ConnectReasonCodeV4_enum.roundtrip)

text \<open>The two \<open>From\<close> conversions between the reason codes of the levels.\<close>

fun ConnectReasonCode_from_V4 :: "ConnectReasonCodeV4 \<Rightarrow> ConnectReasonCode" where
  "ConnectReasonCode_from_V4 ConnectReasonCodeV4.Success = ConnectReasonCode.Success"
| "ConnectReasonCode_from_V4 ConnectReasonCodeV4.RefusedProtocolVersion =
     ConnectReasonCode.UnsupportedProtocolVersion"
| "ConnectReasonCode_from_V4 ConnectReasonCodeV4.BadClientId = ConnectReasonCode.ClientIdentifierNotValid"
| "ConnectReasonCode_from_V4 ConnectReasonCodeV4.ServiceUnavailable = ConnectReasonCode.ServerUnavailable"
| "ConnectReasonCode_from_V4 ConnectReasonCodeV4.BadUserNamePassword = ConnectReasonCode.BadUserNamePassword"
| "ConnectReasonCode_from_V4 ConnectReasonCodeV4.NotAuthorized = ConnectReasonCode.NotAuthorized"

definition ConnectReasonCode_to_V4 :: "ConnectReasonCode \<Rightarrow> ConnectReasonCodeV4" where
  "ConnectReasonCode_to_V4 reason_code =
     (case reason_code of
        ConnectReasonCode.Success \<Rightarrow> ConnectReasonCodeV4.Success
      | ConnectReasonCode.UnsupportedProtocolVersion \<Rightarrow> ConnectReasonCodeV4.RefusedProtocolVersion
      | ConnectReasonCode.ClientIdentifierNotValid \<Rightarrow> ConnectReasonCodeV4.BadClientId
      | ConnectReasonCode.BadUserNamePassword \<Rightarrow> ConnectReasonCodeV4.BadUserNamePassword
      | ConnectReasonCode.NotAuthorized \<Rightarrow> ConnectReasonCodeV4.NotAuthorized
      | _ \<Rightarrow> ConnectReasonCodeV4.ServiceUnavailable)"

lemma ConnectReasonCode_V4_retract:
  "ConnectReasonCode_to_V4 (ConnectReasonCode_from_V4 c) = c"
  by (cases c) (simp_all add: ConnectReasonCode_to_V4_def)

subsection \<open>ConnAckProperties\<close>

record ConnAckProperties =
  connackprop_session_expiry_interval :: "u32 option"
  connackprop_receive_max :: "u16 option"
  connackprop_maximum_qos :: "Qos option"
  connackprop_retain_available :: "bool option"
  connackprop_max_packet_size :: "u32 option"
  connackprop_assigned_client_identifier :: "string option"
  connackprop_topic_alias_max :: "u16 option"
  connackprop_reason_string :: "string option"
  connackprop_user_properties :: "(string \<times> string) list"
  connackprop_wildcard_subscription_available :: "bool option"
  connackprop_subscription_identifiers_available :: "bool option"
  connackprop_shared_subscription_available :: "bool option"
  connackprop_server_keep_alive :: "u16 option"
  connackprop_response_information :: "string option"
  connackprop_server_reference :: "string option"
  connackprop_authentication_method :: "string option"
  connackprop_authentication_data :: "bytes option"

definition ConnAckProperties_default :: ConnAckProperties where
  "ConnAckProperties_default = \<lparr>connackprop_session_expiry_interval = None, connackprop_receive_max = None,
     connackprop_maximum_qos = None, connackprop_retain_available = None,
     connackprop_max_packet_size = None, connackprop_assigned_client_identifier = None,
     connackprop_topic_alias_max = None, connackprop_reason_string = None,
     connackprop_user_properties = [], connackprop_wildcard_subscription_available = None,
     connackprop_subscription_identifiers_available = None,
     connackprop_shared_subscription_available = None, connackprop_server_keep_alive =
     None, connackprop_response_information = None, connackprop_server_reference = None,
     connackprop_authentication_method = None, connackprop_authentication_data = None\<rparr>"

definition ConnAckProperties_bytes_length :: "ConnAckProperties \<Rightarrow> EncodeError + nat" where
  "ConnAckProperties_bytes_length p = Inr (
     prop_len (connackprop_session_expiry_interval p) 4
   + prop_len (connackprop_receive_max p) 2
   + prop_len (connackprop_maximum_qos p) 1
   + prop_len (connackprop_retain_available p) 1
   + prop_len (connackprop_max_packet_size p) 4
   + prop_data_len (connackprop_assigned_client_identifier p)
   + prop_len (connackprop_topic_alias_max p) 2
   + prop_data_len (connackprop_reason_string p)
   + user_properties_len (connackprop_user_properties p)
   + prop_len (connackprop_wildcard_subscription_available p) 1
   + prop_len (connackprop_subscription_identifiers_available p) 1
   + prop_len (connackprop_shared_subscription_available p) 1
   + prop_len (connackprop_server_keep_alive p) 2
   + prop_data_len (connackprop_response_information p)
   + prop_data_len (connackprop_server_reference p)
   + prop_data_len (connackprop_authentication_method p)
   + prop_data_len (connackprop_authentication_data p))"

definition ConnAckProperties_step :: "u8 \<Rightarrow> ConnAckProperties \<Rightarrow> ConnAckProperties reader" where
  "ConnAckProperties_step flag p data =
    (if flag = SESSION_EXPIRY_INTERVAL then
       and_then (read_u32 data) (\<lambda>(v, data). Inr (p\<lparr>connackprop_session_expiry_interval := Some v\<rparr>, data))
     else if flag = RECEIVE_MAXIMUM then
       and_then (read_u16 data) (\<lambda>(v, data). Inr (p\<lparr>connackprop_receive_max := Some v\<rparr>, data))
     else if flag = MAXIMUM_QOS then
       and_then (read_u8 data) (\<lambda>(n_qos, data).
       and_then (ok_or (InvalidQOS n_qos) (Qos_try_from n_qos)) (\<lambda>v.
       Inr (p\<lparr>connackprop_maximum_qos := Some v\<rparr>, data)))
     else if flag = RETAIN_AVAILABLE then
       and_then (read_bool data) (\<lambda>(v, data). Inr (p\<lparr>connackprop_retain_available := Some v\<rparr>, data))
     else if flag = MAXIMUM_PACKET_SIZE then
       and_then (read_u32 data) (\<lambda>(v, data). Inr (p\<lparr>connackprop_max_packet_size := Some v\<rparr>, data))
     else if flag = ASSIGNED_CLIENT_IDENTIFIER then
       and_then (read_string data) (\<lambda>(v, data). Inr (p\<lparr>connackprop_assigned_client_identifier := Some v\<rparr>, data))
     else if flag = TOPIC_ALIAS_MAXIMUM then
       and_then (read_u16 data) (\<lambda>(v, data). Inr (p\<lparr>connackprop_topic_alias_max := Some v\<rparr>, data))
     else if flag = REASON_STRING then
       and_then (read_string data) (\<lambda>(v, data). Inr (p\<lparr>connackprop_reason_string := Some v\<rparr>, data))
     else if flag = USER_PROPERTY then
       and_then (read_string data) (\<lambda>(key, data).
       and_then (read_string data) (\<lambda>(value, data).
       Inr (p\<lparr>connackprop_user_properties := connackprop_user_properties p @ [(key, value)]\<rparr>, data)))
     else if flag = WILDCARD_SUBSCRIPTION_AVAILABLE then
       and_then (read_bool data) (\<lambda>(v, data). Inr (p\<lparr>connackprop_wildcard_subscription_available := Some v\<rparr>, data))
     else if flag = SUBSCRIPTION_IDENTIFIER_AVAILABLE then
       and_then (read_bool data) (\<lambda>(v, data). Inr (p\<lparr>connackprop_subscription_identifiers_available := Some v\<rparr>, data))
     else if flag = SHARED_SUBSCRIPTION_AVAILABLE then
       and_then (read_bool data) (\<lambda>(v, data). Inr (p\<lparr>connackprop_shared_subscription_available := Some v\<rparr>, data))
     else if flag = SERVER_KEEP_ALIVE then
       and_then (read_u16 data) (\<lambda>(v, data). Inr (p\<lparr>connackprop_server_keep_alive := Some v\<rparr>, data))
     else if flag = RESPONSE_INFORMATION then
       and_then (read_string data) (\<lambda>(v, data). Inr (p\<lparr>connackprop_response_information := Some v\<rparr>, data))
     else if flag = SERVER_REFERENCE then
       and_then (read_string data) (\<lambda>(v, data). Inr (p\<lparr>connackprop_server_reference := Some v\<rparr>, data))
     else if flag = AUTHENTICATION_METHOD then
       and_then (read_string data) (\<lambda>(v, data). Inr (p\<lparr>connackprop_authentication_method := Some v\<rparr>, data))
     else if flag = AUTHENTICATION_DATA then
       and_then (read_binary data) (\<lambda>(v, data). Inr (p\<lparr>connackprop_authentication_data := Some v\<rparr>, data))
     else Inl (InvalidConnAckProperty flag))"

lemma ConnAckProperties_step_shrinks [shrinks]:
  "ConnAckProperties_step flag p data = Inr (p', data') \<Longrightarrow> length data' \<le> length data"
  by (auto simp: ConnAckProperties_step_def and_then_Inr_iff split: if_splits dest!: shrinks)

function ConnAckProperties_loop :: "ConnAckProperties \<Rightarrow> bytes \<Rightarrow> DecodeError + ConnAckProperties" where
  "ConnAckProperties_loop p data =
     (if data = [] then Inr p
      else and_then (read_u8 data) (\<lambda>(flag, data).
           and_then (ConnAckProperties_step flag p data) (\<lambda>(p, data). ConnAckProperties_loop p data)))"
  by pat_completeness auto
termination by (relation "measure (\<lambda>(p, data). length data)") (auto dest!: shrinks)

declare ConnAckProperties_loop.simps [simp del]

definition ConnAckProperties_decode :: "bytes \<Rightarrow> DecodeError + ConnAckProperties" where
  "ConnAckProperties_decode data = ConnAckProperties_loop ConnAckProperties_default data"

definition ConnAckProperties_encode :: "ConnAckProperties \<Rightarrow> writer" where
  "ConnAckProperties_encode p = block [
     write_prop SESSION_EXPIRY_INTERVAL put_u32 (connackprop_session_expiry_interval p),
     write_prop RECEIVE_MAXIMUM put_u16 (connackprop_receive_max p),
     write_prop MAXIMUM_QOS (\<lambda>q. put_u8 (Qos_u8 q)) (connackprop_maximum_qos p),
     write_prop RETAIN_AVAILABLE write_bool (connackprop_retain_available p),
     write_prop MAXIMUM_PACKET_SIZE put_u32 (connackprop_max_packet_size p),
     write_prop ASSIGNED_CLIENT_IDENTIFIER write_string (connackprop_assigned_client_identifier p),
     write_prop TOPIC_ALIAS_MAXIMUM put_u16 (connackprop_topic_alias_max p),
     write_prop REASON_STRING write_string (connackprop_reason_string p),
     write_user_properties (connackprop_user_properties p),
     write_prop WILDCARD_SUBSCRIPTION_AVAILABLE write_bool (connackprop_wildcard_subscription_available p),
     write_prop SUBSCRIPTION_IDENTIFIER_AVAILABLE write_bool (connackprop_subscription_identifiers_available p),
     write_prop SHARED_SUBSCRIPTION_AVAILABLE write_bool (connackprop_shared_subscription_available p),
     write_prop SERVER_KEEP_ALIVE put_u16 (connackprop_server_keep_alive p),
     write_prop RESPONSE_INFORMATION write_string (connackprop_response_information p),
     write_prop SERVER_REFERENCE write_string (connackprop_server_reference p),
     write_prop AUTHENTICATION_METHOD write_string (connackprop_authentication_method p),
     write_prop AUTHENTICATION_DATA write_binary (connackprop_authentication_data p)]"

text \<open>What the types of the fields guarantee, and the limits of the length prefixes.\<close>

definition ConnAckProperties_ok :: "ConnAckProperties \<Rightarrow> bool" where
  "ConnAckProperties_ok p \<longleftrightarrow>
     opt_ok str_ok (connackprop_assigned_client_identifier p) \<and>
     opt_ok str_ok (connackprop_reason_string p) \<and>
     pairs_ok (connackprop_user_properties p) \<and>
     opt_ok str_ok (connackprop_response_information p) \<and>
     opt_ok str_ok (connackprop_server_reference p) \<and>
     opt_ok str_ok (connackprop_authentication_method p) \<and>
     opt_ok bin_ok (connackprop_authentication_data p)"

definition ConnAckProperties_wire :: "ConnAckProperties \<Rightarrow> bytes" where
  "ConnAckProperties_wire p =
     wire_opt SESSION_EXPIRY_INTERVAL be32 (connackprop_session_expiry_interval p)
   @ wire_opt RECEIVE_MAXIMUM be16 (connackprop_receive_max p)
   @ wire_opt MAXIMUM_QOS (\<lambda>q. [Qos_u8 q]) (connackprop_maximum_qos p)
   @ wire_opt RETAIN_AVAILABLE bool_wire (connackprop_retain_available p)
   @ wire_opt MAXIMUM_PACKET_SIZE be32 (connackprop_max_packet_size p)
   @ wire_opt ASSIGNED_CLIENT_IDENTIFIER str_wire (connackprop_assigned_client_identifier p)
   @ wire_opt TOPIC_ALIAS_MAXIMUM be16 (connackprop_topic_alias_max p)
   @ wire_opt REASON_STRING str_wire (connackprop_reason_string p)
   @ users_wire (connackprop_user_properties p)
   @ wire_opt WILDCARD_SUBSCRIPTION_AVAILABLE bool_wire (connackprop_wildcard_subscription_available p)
   @ wire_opt SUBSCRIPTION_IDENTIFIER_AVAILABLE bool_wire (connackprop_subscription_identifiers_available p)
   @ wire_opt SHARED_SUBSCRIPTION_AVAILABLE bool_wire (connackprop_shared_subscription_available p)
   @ wire_opt SERVER_KEEP_ALIVE be16 (connackprop_server_keep_alive p)
   @ wire_opt RESPONSE_INFORMATION str_wire (connackprop_response_information p)
   @ wire_opt SERVER_REFERENCE str_wire (connackprop_server_reference p)
   @ wire_opt AUTHENTICATION_METHOD str_wire (connackprop_authentication_method p)
   @ wire_opt AUTHENTICATION_DATA bin_wire (connackprop_authentication_data p)"

interpretation connackprop_loop: properties_loop ConnAckProperties_step ConnAckProperties_loop
  by unfold_locales (rule ConnAckProperties_loop.simps, rule ConnAckProperties_step_shrinks)

lemma ConnAckProperties_fields:
  shows "connackprop_session_expiry_interval p = None \<Longrightarrow>
    ConnAckProperties_loop p (wire_opt SESSION_EXPIRY_INTERVAL be32 v32 @ rest)
    = ConnAckProperties_loop (p\<lparr>connackprop_session_expiry_interval := v32\<rparr>) rest"
  and "connackprop_receive_max p = None \<Longrightarrow>
    ConnAckProperties_loop p (wire_opt RECEIVE_MAXIMUM be16 v16 @ rest)
    = ConnAckProperties_loop (p\<lparr>connackprop_receive_max := v16\<rparr>) rest"
  and "connackprop_maximum_qos p = None \<Longrightarrow>
    ConnAckProperties_loop p (wire_opt MAXIMUM_QOS (\<lambda>q. [Qos_u8 q]) vq @ rest)
    = ConnAckProperties_loop (p\<lparr>connackprop_maximum_qos := vq\<rparr>) rest"
  and "connackprop_retain_available p = None \<Longrightarrow>
    ConnAckProperties_loop p (wire_opt RETAIN_AVAILABLE bool_wire vb @ rest)
    = ConnAckProperties_loop (p\<lparr>connackprop_retain_available := vb\<rparr>) rest"
  and "connackprop_max_packet_size p = None \<Longrightarrow>
    ConnAckProperties_loop p (wire_opt MAXIMUM_PACKET_SIZE be32 v32 @ rest)
    = ConnAckProperties_loop (p\<lparr>connackprop_max_packet_size := v32\<rparr>) rest"
  and "connackprop_assigned_client_identifier p = None \<Longrightarrow> opt_ok str_ok vs \<Longrightarrow>
    ConnAckProperties_loop p (wire_opt ASSIGNED_CLIENT_IDENTIFIER str_wire vs @ rest)
    = ConnAckProperties_loop (p\<lparr>connackprop_assigned_client_identifier := vs\<rparr>) rest"
  and "connackprop_topic_alias_max p = None \<Longrightarrow>
    ConnAckProperties_loop p (wire_opt TOPIC_ALIAS_MAXIMUM be16 v16 @ rest)
    = ConnAckProperties_loop (p\<lparr>connackprop_topic_alias_max := v16\<rparr>) rest"
  and "connackprop_reason_string p = None \<Longrightarrow> opt_ok str_ok vs \<Longrightarrow>
    ConnAckProperties_loop p (wire_opt REASON_STRING str_wire vs @ rest)
    = ConnAckProperties_loop (p\<lparr>connackprop_reason_string := vs\<rparr>) rest"
  and "connackprop_wildcard_subscription_available p = None \<Longrightarrow>
    ConnAckProperties_loop p (wire_opt WILDCARD_SUBSCRIPTION_AVAILABLE bool_wire vb @ rest)
    = ConnAckProperties_loop (p\<lparr>connackprop_wildcard_subscription_available := vb\<rparr>) rest"
  and "connackprop_subscription_identifiers_available p = None \<Longrightarrow>
    ConnAckProperties_loop p (wire_opt SUBSCRIPTION_IDENTIFIER_AVAILABLE bool_wire vb @ rest)
    = ConnAckProperties_loop (p\<lparr>connackprop_subscription_identifiers_available := vb\<rparr>) rest"
  and "connackprop_shared_subscription_available p = None \<Longrightarrow>
    ConnAckProperties_loop p (wire_opt SHARED_SUBSCRIPTION_AVAILABLE bool_wire vb @ rest)
    = ConnAckProperties_loop (p\<lparr>connackprop_shared_subscription_available := vb\<rparr>) rest"
  and "connackprop_server_keep_alive p = None \<Longrightarrow>
    ConnAckProperties_loop p (wire_opt SERVER_KEEP_ALIVE be16 v16 @ rest)
    = ConnAckProperties_loop (p\<lparr>connackprop_server_keep_alive := v16\<rparr>) rest"
  and "connackprop_response_information p = None \<Longrightarrow> opt_ok str_ok vs \<Longrightarrow>
    ConnAckProperties_loop p (wire_opt RESPONSE_INFORMATION str_wire vs @ rest)
    = ConnAckProperties_loop (p\<lparr>connackprop_response_information := vs\<rparr>) rest"
  and "connackprop_server_reference p = None \<Longrightarrow> opt_ok str_ok vs \<Longrightarrow>
    ConnAckProperties_loop p (wire_opt SERVER_REFERENCE str_wire vs @ rest)
    = ConnAckProperties_loop (p\<lparr>connackprop_server_reference := vs\<rparr>) rest"
  and "connackprop_authentication_method p = None \<Longrightarrow> opt_ok str_ok vs \<Longrightarrow>
    ConnAckProperties_loop p (wire_opt AUTHENTICATION_METHOD str_wire vs @ rest)
    = ConnAckProperties_loop (p\<lparr>connackprop_authentication_method := vs\<rparr>) rest"
  and "connackprop_authentication_data p = None \<Longrightarrow> opt_ok bin_ok vd \<Longrightarrow>
    ConnAckProperties_loop p (wire_opt AUTHENTICATION_DATA bin_wire vd @ rest)
    = ConnAckProperties_loop (p\<lparr>connackprop_authentication_data := vd\<rparr>) rest"
  by (rule connackprop_loop.loop_opt; simp add: ConnAckProperties_step_def wire identifier_ok_def)+

lemma ConnAckProperties_users:
  assumes "pairs_ok kvs"
  shows "ConnAckProperties_loop p (users_wire kvs @ rest)
    = ConnAckProperties_loop (p\<lparr>connackprop_user_properties := connackprop_user_properties p @ kvs\<rparr>) rest"
proof -
  have "fold (\<lambda>kv p. p\<lparr>connackprop_user_properties := connackprop_user_properties p @ [kv]\<rparr>) kvs p
    = p\<lparr>connackprop_user_properties := connackprop_user_properties p @ kvs\<rparr>" for kvs and p :: ConnAckProperties
    by (induction kvs arbitrary: p) simp_all
  then show ?thesis
    using assms connackprop_loop.loop_users [where kvs = kvs and p = p and rest = rest
        and upd = "\<lambda>kv p. p\<lparr>connackprop_user_properties := connackprop_user_properties p @ [kv]\<rparr>"]
    by (simp add: ConnAckProperties_step_def wire)
qed

lemmas ConnAckProperties_decode_rules =
  ConnAckProperties_fields ConnAckProperties_users connackprop_loop.loop_Nil
  ConnAckProperties_fields [where rest = "[]", simplified]
      ConnAckProperties_users [where rest = "[]", simplified]

interpretation connackprop_codec: properties_codec ConnAckProperties_step ConnAckProperties_loop
  ConnAckProperties_default ConnAckProperties_encode ConnAckProperties_bytes_length
  ConnAckProperties_wire ConnAckProperties_ok "\<lambda>_. True"
proof unfold_locales
  fix p q flag data data'
  show "ConnAckProperties_ok p \<Longrightarrow> ConnAckProperties_encode p = put_slice (ConnAckProperties_wire p)"
    by (simp add: ConnAckProperties_encode_def ConnAckProperties_wire_def ConnAckProperties_ok_def wire identifier_writers)
  show "ConnAckProperties_bytes_length p = Inr (length (ConnAckProperties_wire p))"
    by (simp add: ConnAckProperties_bytes_length_def ConnAckProperties_wire_def)
  show "ConnAckProperties_ok p \<Longrightarrow> ConnAckProperties_loop ConnAckProperties_default (ConnAckProperties_wire p) = Inr p"
    by (simp add: ConnAckProperties_wire_def ConnAckProperties_default_def ConnAckProperties_ok_def ConnAckProperties_decode_rules)
  show "ConnAckProperties_ok ConnAckProperties_default"
    by (simp add: ConnAckProperties_ok_def ConnAckProperties_default_def)
  show "ConnAckProperties_ok p \<Longrightarrow> ConnAckProperties_step flag p data = Inr (q, data') \<Longrightarrow> ConnAckProperties_ok q"
    by (auto simp: ConnAckProperties_ok_def ConnAckProperties_step_def and_then_Inr_iff
        split: if_splits dest!: read_string_ok read_binary_ok read_identifier_ok)
qed

text \<open>The properties a packet can announce and carry.\<close>

definition ConnAckProperties_fits :: "ConnAckProperties \<Rightarrow> bool" where
  "ConnAckProperties_fits p \<longleftrightarrow> ConnAckProperties_ok p \<and>
     length (ConnAckProperties_wire p) < 268435455"

lemma ConnAckProperties_length_wire [wire]:
  "ConnAckProperties_fits p \<Longrightarrow> ConnAckProperties_bytes_length p = Inr (length (ConnAckProperties_wire p))"
  by (rule connackprop_codec.length_wire) (auto simp: ConnAckProperties_fits_def)

lemma ConnAckProperties_fits_length: "ConnAckProperties_fits p \<Longrightarrow> length (ConnAckProperties_wire p) < 268435455"
  by (simp add: ConnAckProperties_fits_def)

lemma ConnAckProperties_encode_block:
  "ConnAckProperties_fits p \<Longrightarrow>
   block [let_ok (ConnAckProperties_bytes_length p) write_remaining_length, ConnAckProperties_encode p]
   = put_slice (props_wire (ConnAckProperties_wire p))"
  by (rule connackprop_codec.encode_block) (auto simp: ConnAckProperties_fits_def)

lemma ConnAckProperties_decode_wire [wire]:
  "ConnAckProperties_fits p \<Longrightarrow> ConnAckProperties_decode (ConnAckProperties_wire p) = Inr p"
  by (simp add: ConnAckProperties_decode_def ConnAckProperties_fits_def connackprop_codec.decode_wire)

lemma ConnAckProperties_decode_wf: "ConnAckProperties_decode data = Inr p \<Longrightarrow> ConnAckProperties_ok p"
  unfolding ConnAckProperties_decode_def by (rule connackprop_codec.decode_wf)

subsection \<open>ConnAck\<close>

record ConnAck =
  connack_session_present :: bool
  connack_reason_code :: ConnectReasonCode
  connack_properties :: ConnAckProperties

definition ConnAck_variable_header_length :: "ConnAck \<Rightarrow> ProtocolLevel \<Rightarrow> EncodeError + nat" where
  "ConnAck_variable_header_length p level =
     (let len = 1 + 1 in
      if level = V5 then
        and_then (ConnAckProperties_bytes_length (connack_properties p)) (\<lambda>properties_len.
        and_then (props_size properties_len) (\<lambda>n. Inr (len + n)))
      else Inr len)"

definition ConnAck_payload_length :: "ConnAck \<Rightarrow> ProtocolLevel \<Rightarrow> EncodeError + nat" where
  "ConnAck_payload_length p level = Inr 0"

definition ConnAck_size :: "ProtocolLevel \<Rightarrow> ConnAck \<Rightarrow> EncodeError + nat" where
  "ConnAck_size level p =
     and_then (ConnAck_variable_header_length p level) (\<lambda>a.
     and_then (ConnAck_payload_length p level) (\<lambda>b. Inr (a + b)))"

definition ConnAck_encode_body :: "ProtocolLevel \<Rightarrow> ConnAck \<Rightarrow> writer" where
  "ConnAck_encode_body level p = block [
     put_u8 (if connack_session_present p then 0 OR 0x1 else 0),
     (case level of
        V4 \<Rightarrow> put_u8 (ConnectReasonCodeV4_u8 (ConnectReasonCode_to_V4 (connack_reason_code p)))
      | V5 \<Rightarrow> block [
          put_u8 (ConnectReasonCode_u8 (connack_reason_code p)),
          block [
            let_ok (ConnAckProperties_bytes_length (connack_properties p)) write_remaining_length,
            ConnAckProperties_encode (connack_properties p)]])]"

definition ConnAck_encode :: "ConnAck \<Rightarrow> ProtocolLevel \<Rightarrow> nat \<Rightarrow> writer" where
  "ConnAck_encode p level max_size = block [
     put_u8 (push_bit 4 CONNACK),
     let_ok (ConnAck_size level p) (\<lambda>size. block [
       ensure_w (size < max_size) EncodeError.PacketTooLarge,
       write_remaining_length size,
       ConnAck_encode_body level p])]"

definition ConnAck_decode :: "bytes \<Rightarrow> ProtocolLevel \<Rightarrow> DecodeError + ConnAck" where
  "ConnAck_decode data level =
     and_then (read_u8 data) (\<lambda>(flag, data).
     if flag AND 0b11111110 > 0 then Inl DecodeError.MalformedPacket
     else
     let session_present = flag AND 0x1 > 0 in
     and_then (read_u8 data) (\<lambda>(n_reason_code, data).
     and_then
       (case level of
          V4 \<Rightarrow>
            and_then (ok_or (InvalidConnAckReasonCode n_reason_code)
              (ConnectReasonCodeV4_try_from n_reason_code)) (\<lambda>reason_code.
            Inr (ConnectReasonCode_from_V4 reason_code, ConnAckProperties_default))
        | V5 \<Rightarrow>
            and_then (ok_or (InvalidConnAckReasonCode n_reason_code)
              (ConnectReasonCode_try_from n_reason_code)) (\<lambda>reason_code.
            and_then (read_properties ConnAckProperties_decode data) (\<lambda>(properties, data).
            Inr (reason_code, properties)))) (\<lambda>(reason_code, properties).
     Inr \<lparr>connack_session_present = session_present, connack_reason_code = reason_code,
          connack_properties = properties\<rparr>)))"

text \<open>The wire format.\<close>

definition ConnAck_body :: "ProtocolLevel \<Rightarrow> ConnAck \<Rightarrow> bytes" where
  "ConnAck_body level p = (if connack_session_present p then 1 else 0) #
     (case level of
        V4 \<Rightarrow> [ConnectReasonCodeV4_u8 (ConnectReasonCode_to_V4 (connack_reason_code p))]
      | V5 \<Rightarrow> ConnectReasonCode_u8 (connack_reason_code p)
          # props_wire (ConnAckProperties_wire (connack_properties p)))"

definition ConnAck_ok :: "ProtocolLevel \<Rightarrow> ConnAck \<Rightarrow> bool" where
  "ConnAck_ok level p \<longleftrightarrow> (level = V5 \<longrightarrow> ConnAckProperties_fits (connack_properties p))"

text \<open>A client of level 4 sees the nearest of the six return codes and no properties.\<close>

definition ConnAck_norm :: "ProtocolLevel \<Rightarrow> ConnAck \<Rightarrow> ConnAck" where
  "ConnAck_norm level p =
     (case level of
        V4 \<Rightarrow> p\<lparr>connack_reason_code :=
             ConnectReasonCode_from_V4 (ConnectReasonCode_to_V4 (connack_reason_code p)),
           connack_properties := ConnAckProperties_default\<rparr>
      | V5 \<Rightarrow> p)"

definition ConnAck_exact :: "ProtocolLevel \<Rightarrow> ConnAck \<Rightarrow> bool" where
  "ConnAck_exact level p \<longleftrightarrow>
     level = V5 \<longrightarrow> off_by_one (length (ConnAckProperties_wire (connack_properties p))) = 0"

lemma ConnAck_encode_body_wire:
  "ConnAck_ok level p \<Longrightarrow> ConnAck_encode_body level p = put_slice (ConnAck_body level p)"
  using ConnAckProperties_encode_block [of "connack_properties p"]
  by (cases level) (auto simp: ConnAck_encode_body_def ConnAck_body_def ConnAck_ok_def wire)

lemma ConnAck_decode_wire:
  "ConnAck_ok level p \<Longrightarrow> ConnAck_decode (ConnAck_body level p) level = Inr (ConnAck_norm level p)"
  using ConnAckProperties_fits_length [of "connack_properties p"]
  by (cases level; cases p)
    (auto simp: ConnAck_decode_def ConnAck_body_def ConnAck_ok_def ConnAck_norm_def wire)

lemma ConnAck_size_eq:
  "ConnAck_ok level p \<Longrightarrow> ConnAck_exact level p \<Longrightarrow>
   ConnAck_size level p = Inr (length (ConnAck_body level p))"
  using ConnAckProperties_fits_length [of "connack_properties p"]
  by (cases level)
    (auto simp: ConnAck_size_def ConnAck_variable_header_length_def ConnAck_payload_length_def
      ConnAck_body_def ConnAck_ok_def ConnAck_exact_def wire)

lemma ConnAck_decode_wf:
  "ConnAck_decode data level = Inr p \<Longrightarrow> ConnAckProperties_ok (connack_properties p)"
  using ConnAckProperties_decode_wf connackprop_codec.wf_initial
  by (cases level)
    (auto simp: ConnAck_decode_def Let_def and_then_Inr_iff split: if_splits elim!: read_properties_ok)

interpretation connack: packet_codec "\<lambda>_. push_bit 4 CONNACK" ConnAck_size ConnAck_encode
  "\<lambda>data level flag. ConnAck_decode data level" ConnAck_body ConnAck_ok ConnAck_norm "(<)"
  by unfold_locales
    (simp_all add: ConnAck_encode_def framed_def ConnAck_encode_body_wire ConnAck_decode_wire
      del: push_bit_numeral cong del: let_ok_cong)

end
