(* ===== verification/Packet_PubAck.thy ===== *)
theory Packet_PubAck
  imports Codec_Properties
begin

text \<open>
  \<open>libs/codec/src/puback.rs\<close>: the PUBACK packet.
\<close>

unbundle bit_operations_syntax

subsection \<open>PubAckReasonCode and PubAckProperties\<close>

datatype PubAckReasonCode =
    Success
  | NoMatchingSubscribers
  | UnspecifiedError
  | ImplementationSpecificError
  | NotAuthorized
  | TopicNameInvalid
  | PacketIdentifierInUse
  | QuotaExceeded
  | PayloadFormatInvalid

fun PubAckReasonCode_u8 :: "PubAckReasonCode \<Rightarrow> u8" where
  "PubAckReasonCode_u8 PubAckReasonCode.Success = 0"
| "PubAckReasonCode_u8 PubAckReasonCode.NoMatchingSubscribers = 16"
| "PubAckReasonCode_u8 PubAckReasonCode.UnspecifiedError = 128"
| "PubAckReasonCode_u8 PubAckReasonCode.ImplementationSpecificError = 131"
| "PubAckReasonCode_u8 PubAckReasonCode.NotAuthorized = 135"
| "PubAckReasonCode_u8 PubAckReasonCode.TopicNameInvalid = 144"
| "PubAckReasonCode_u8 PubAckReasonCode.PacketIdentifierInUse = 145"
| "PubAckReasonCode_u8 PubAckReasonCode.QuotaExceeded = 151"
| "PubAckReasonCode_u8 PubAckReasonCode.PayloadFormatInvalid = 153"

definition PubAckReasonCode_variants :: "PubAckReasonCode list" where
  "PubAckReasonCode_variants = [
     PubAckReasonCode.Success, PubAckReasonCode.NoMatchingSubscribers,
     PubAckReasonCode.UnspecifiedError, PubAckReasonCode.ImplementationSpecificError,
     PubAckReasonCode.NotAuthorized, PubAckReasonCode.TopicNameInvalid,
     PubAckReasonCode.PacketIdentifierInUse, PubAckReasonCode.QuotaExceeded,
     PubAckReasonCode.PayloadFormatInvalid]"

definition PubAckReasonCode_try_from :: "u8 \<Rightarrow> PubAckReasonCode option" where
  "PubAckReasonCode_try_from = try_from_primitive PubAckReasonCode_u8 PubAckReasonCode_variants"

interpretation PubAckReasonCode_enum: primitive_enum PubAckReasonCode_u8 PubAckReasonCode_variants
proof (rule primitive_enumI)
  show "c \<in> set PubAckReasonCode_variants" for c by (cases c) (simp_all add: PubAckReasonCode_variants_def)
qed (simp add: PubAckReasonCode_variants_def)

lemma PubAckReasonCode_roundtrip [wire]: "PubAckReasonCode_try_from (PubAckReasonCode_u8 c) = Some c"
  unfolding PubAckReasonCode_try_from_def by (rule PubAckReasonCode_enum.roundtrip)

definition PubAckReasonCode_is_success :: "PubAckReasonCode \<Rightarrow> bool" where
  "PubAckReasonCode_is_success c \<longleftrightarrow> PubAckReasonCode_u8 c < 0x80"

record PubAckProperties =
  pubackprop_reason_string :: "string option"
  pubackprop_user_properties :: "(string \<times> string) list"

definition PubAckProperties_default :: PubAckProperties where
  "PubAckProperties_default = \<lparr>pubackprop_reason_string = None, pubackprop_user_properties = []\<rparr>"

definition PubAckProperties_bytes_length :: "PubAckProperties \<Rightarrow> EncodeError + nat" where
  "PubAckProperties_bytes_length p = Inr (
     prop_data_len (pubackprop_reason_string p)
   + user_properties_len (pubackprop_user_properties p))"

definition PubAckProperties_step :: "u8 \<Rightarrow> PubAckProperties \<Rightarrow> PubAckProperties reader" where
  "PubAckProperties_step flag p data =
    (if flag = REASON_STRING then
       and_then (read_string data) (\<lambda>(v, data). Inr (p\<lparr>pubackprop_reason_string := Some v\<rparr>, data))
     else if flag = USER_PROPERTY then
       and_then (read_string data) (\<lambda>(key, data).
       and_then (read_string data) (\<lambda>(value, data).
       Inr (p\<lparr>pubackprop_user_properties := pubackprop_user_properties p @ [(key, value)]\<rparr>, data)))
     else Inl (InvalidPubAckProperty flag))"

lemma PubAckProperties_step_shrinks [shrinks]:
  "PubAckProperties_step flag p data = Inr (p', data') \<Longrightarrow> length data' \<le> length data"
  by (auto simp: PubAckProperties_step_def and_then_Inr_iff split: if_splits dest!: shrinks)

function PubAckProperties_loop :: "PubAckProperties \<Rightarrow> bytes \<Rightarrow> DecodeError + PubAckProperties" where
  "PubAckProperties_loop p data =
     (if data = [] then Inr p
      else and_then (read_u8 data) (\<lambda>(flag, data).
           and_then (PubAckProperties_step flag p data) (\<lambda>(p, data). PubAckProperties_loop p data)))"
  by pat_completeness auto
termination by (relation "measure (\<lambda>(p, data). length data)") (auto dest!: shrinks)

declare PubAckProperties_loop.simps [simp del]

definition PubAckProperties_decode :: "bytes \<Rightarrow> DecodeError + PubAckProperties" where
  "PubAckProperties_decode data = PubAckProperties_loop PubAckProperties_default data"

definition PubAckProperties_encode :: "PubAckProperties \<Rightarrow> writer" where
  "PubAckProperties_encode p = block [
     write_prop REASON_STRING write_string (pubackprop_reason_string p),
     write_user_properties (pubackprop_user_properties p)]"

text \<open>What the types of the fields guarantee, and the limits of the length prefixes.\<close>

definition PubAckProperties_ok :: "PubAckProperties \<Rightarrow> bool" where
  "PubAckProperties_ok p \<longleftrightarrow>
     opt_ok str_ok (pubackprop_reason_string p) \<and>
     pairs_ok (pubackprop_user_properties p)"

definition PubAckProperties_wire :: "PubAckProperties \<Rightarrow> bytes" where
  "PubAckProperties_wire p =
     wire_opt REASON_STRING str_wire (pubackprop_reason_string p)
   @ users_wire (pubackprop_user_properties p)"

interpretation pubackprop_loop: properties_loop PubAckProperties_step PubAckProperties_loop
  by unfold_locales (rule PubAckProperties_loop.simps, rule PubAckProperties_step_shrinks)

lemma PubAckProperties_fields:
  shows "pubackprop_reason_string p = None \<Longrightarrow> opt_ok str_ok vs \<Longrightarrow>
    PubAckProperties_loop p (wire_opt REASON_STRING str_wire vs @ rest)
    = PubAckProperties_loop (p\<lparr>pubackprop_reason_string := vs\<rparr>) rest"
  by (rule pubackprop_loop.loop_opt; simp add: PubAckProperties_step_def wire identifier_ok_def)+

lemma PubAckProperties_users:
  assumes "pairs_ok kvs"
  shows "PubAckProperties_loop p (users_wire kvs @ rest)
    = PubAckProperties_loop (p\<lparr>pubackprop_user_properties := pubackprop_user_properties p @ kvs\<rparr>) rest"
proof -
  have "fold (\<lambda>kv p. p\<lparr>pubackprop_user_properties := pubackprop_user_properties p @ [kv]\<rparr>) kvs p
    = p\<lparr>pubackprop_user_properties := pubackprop_user_properties p @ kvs\<rparr>" for kvs and p :: PubAckProperties
    by (induction kvs arbitrary: p) simp_all
  then show ?thesis
    using assms pubackprop_loop.loop_users [where kvs = kvs and p = p and rest = rest
        and upd = "\<lambda>kv p. p\<lparr>pubackprop_user_properties := pubackprop_user_properties p @ [kv]\<rparr>"]
    by (simp add: PubAckProperties_step_def wire)
qed

lemmas PubAckProperties_decode_rules =
  PubAckProperties_fields PubAckProperties_users pubackprop_loop.loop_Nil
  PubAckProperties_fields [where rest = "[]", simplified]
      PubAckProperties_users [where rest = "[]", simplified]

interpretation pubackprop_codec: properties_codec PubAckProperties_step PubAckProperties_loop
  PubAckProperties_default PubAckProperties_encode PubAckProperties_bytes_length
  PubAckProperties_wire PubAckProperties_ok "\<lambda>_. True"
proof unfold_locales
  fix p q flag data data'
  show "PubAckProperties_ok p \<Longrightarrow> PubAckProperties_encode p = put_slice (PubAckProperties_wire p)"
    by (simp add: PubAckProperties_encode_def PubAckProperties_wire_def PubAckProperties_ok_def wire identifier_writers)
  show "PubAckProperties_bytes_length p = Inr (length (PubAckProperties_wire p))"
    by (simp add: PubAckProperties_bytes_length_def PubAckProperties_wire_def)
  show "PubAckProperties_ok p \<Longrightarrow> PubAckProperties_loop PubAckProperties_default (PubAckProperties_wire p) = Inr p"
    by (simp add: PubAckProperties_wire_def PubAckProperties_default_def PubAckProperties_ok_def PubAckProperties_decode_rules)
  show "PubAckProperties_ok PubAckProperties_default"
    by (simp add: PubAckProperties_ok_def PubAckProperties_default_def)
  show "PubAckProperties_ok p \<Longrightarrow> PubAckProperties_step flag p data = Inr (q, data') \<Longrightarrow> PubAckProperties_ok q"
    by (auto simp: PubAckProperties_ok_def PubAckProperties_step_def and_then_Inr_iff
        split: if_splits dest!: read_string_ok read_binary_ok read_identifier_ok)
qed

text \<open>The properties a packet can announce and carry.\<close>

definition PubAckProperties_fits :: "PubAckProperties \<Rightarrow> bool" where
  "PubAckProperties_fits p \<longleftrightarrow> PubAckProperties_ok p \<and>
     length (PubAckProperties_wire p) < 268435455"

lemma PubAckProperties_length_wire [wire]:
  "PubAckProperties_fits p \<Longrightarrow> PubAckProperties_bytes_length p = Inr (length (PubAckProperties_wire p))"
  by (rule pubackprop_codec.length_wire) (auto simp: PubAckProperties_fits_def)

lemma PubAckProperties_fits_length: "PubAckProperties_fits p \<Longrightarrow> length (PubAckProperties_wire p) < 268435455"
  by (simp add: PubAckProperties_fits_def)

lemma PubAckProperties_encode_block:
  "PubAckProperties_fits p \<Longrightarrow>
   block [let_ok (PubAckProperties_bytes_length p) write_remaining_length, PubAckProperties_encode p]
   = put_slice (props_wire (PubAckProperties_wire p))"
  by (rule pubackprop_codec.encode_block) (auto simp: PubAckProperties_fits_def)

lemma PubAckProperties_decode_wire [wire]:
  "PubAckProperties_fits p \<Longrightarrow> PubAckProperties_decode (PubAckProperties_wire p) = Inr p"
  by (simp add: PubAckProperties_decode_def PubAckProperties_fits_def pubackprop_codec.decode_wire)

lemma PubAckProperties_decode_wf: "PubAckProperties_decode data = Inr p \<Longrightarrow> PubAckProperties_ok p"
  unfolding PubAckProperties_decode_def by (rule pubackprop_codec.decode_wf)

definition PubAckProperties_is_empty :: "PubAckProperties \<Rightarrow> bool" where
  "PubAckProperties_is_empty p \<longleftrightarrow> pubackprop_reason_string p = None \<and> pubackprop_user_properties p = []"

subsection \<open>PubAck\<close>

record PubAck =
  puback_packet_id :: u16
  puback_reason_code :: PubAckReasonCode
  puback_properties :: PubAckProperties

definition PubAck_variable_header_length :: "PubAck \<Rightarrow> ProtocolLevel \<Rightarrow> EncodeError + nat" where
  "PubAck_variable_header_length p level =
     (case level of
        V4 \<Rightarrow> Inr 2
      | V5 \<Rightarrow>
          if \<not> PubAckProperties_is_empty (puback_properties p) then
            and_then (PubAckProperties_bytes_length (puback_properties p)) (\<lambda>properties_len.
            and_then (props_size properties_len) (\<lambda>n. Inr (2 + 1 + n)))
          else if puback_reason_code p = PubAckReasonCode.Success then Inr 2
          else Inr 3)"

definition PubAck_payload_length :: "PubAck \<Rightarrow> ProtocolLevel \<Rightarrow> EncodeError + nat" where
  "PubAck_payload_length p level = Inr 0"

definition PubAck_size :: "ProtocolLevel \<Rightarrow> PubAck \<Rightarrow> EncodeError + nat" where
  "PubAck_size level p =
     and_then (PubAck_variable_header_length p level) (\<lambda>a.
     and_then (PubAck_payload_length p level) (\<lambda>b. Inr (a + b)))"

definition PubAck_encode_body :: "ProtocolLevel \<Rightarrow> PubAck \<Rightarrow> writer" where
  "PubAck_encode_body level p = block [
     put_u16 (puback_packet_id p),
     if_true (level = V5) (block [
       if_true (puback_reason_code p \<noteq> PubAckReasonCode.Success \<or> \<not> PubAckProperties_is_empty (puback_properties p))
         (put_u8 (PubAckReasonCode_u8 (puback_reason_code p))),
       if_true (\<not> PubAckProperties_is_empty (puback_properties p)) (block [
         let_ok (PubAckProperties_bytes_length (puback_properties p)) write_remaining_length,
         PubAckProperties_encode (puback_properties p)])])]"

definition PubAck_encode :: "PubAck \<Rightarrow> ProtocolLevel \<Rightarrow> nat \<Rightarrow> writer" where
  "PubAck_encode p level max_size = block [
     put_u8 (push_bit 4 PUBACK),
     let_ok (PubAck_size level p) (\<lambda>size. block [
       ensure_w (size < max_size) EncodeError.PacketTooLarge,
       write_remaining_length size,
       PubAck_encode_body level p])]"

text \<open>
  The length of the properties is read and checked, but the properties are decoded from all
  the remaining data, as in the source.
\<close>

definition PubAck_decode :: "bytes \<Rightarrow> ProtocolLevel \<Rightarrow> DecodeError + PubAck" where
  "PubAck_decode data level =
     and_then (read_packet_id data) (\<lambda>(packet_id, data).
     and_then
       (if level = V5 then
          and_then
            (if data \<noteq> [] then
               and_then (read_u8 data) (\<lambda>(n_reason_code, data).
               and_then (ok_or (InvalidPubAckReasonCode n_reason_code) (PubAckReasonCode_try_from n_reason_code))
                 (\<lambda>reason_code. Inr (reason_code, data)))
             else Inr (PubAckReasonCode.Success, data)) (\<lambda>(reason_code, data).
          and_then
            (if data \<noteq> [] then
               and_then (read_remaining_length data) (\<lambda>(properties_len, data).
               and_then (ensure (properties_len \<le> length data) DecodeError.MalformedPacket) (\<lambda>_.
               PubAckProperties_decode data))
             else Inr PubAckProperties_default) (\<lambda>properties.
          Inr (reason_code, properties)))
        else Inr (PubAckReasonCode.Success, PubAckProperties_default)) (\<lambda>(reason_code, properties).
     Inr \<lparr>puback_packet_id = packet_id, puback_reason_code = reason_code,
          puback_properties = properties\<rparr>))"

text \<open>
  The wire format: level 4 carries only the packet identifier, level 5 leaves out a successful
  reason code without properties, and empty properties.
\<close>

definition PubAck_body :: "ProtocolLevel \<Rightarrow> PubAck \<Rightarrow> bytes" where
  "PubAck_body level p = be16 (puback_packet_id p) @
     (if level = V4 then []
      else if \<not> PubAckProperties_is_empty (puback_properties p) then
        PubAckReasonCode_u8 (puback_reason_code p) # props_wire (PubAckProperties_wire (puback_properties p))
      else if puback_reason_code p \<noteq> PubAckReasonCode.Success then [PubAckReasonCode_u8 (puback_reason_code p)]
      else [])"

definition PubAck_ok :: "ProtocolLevel \<Rightarrow> PubAck \<Rightarrow> bool" where
  "PubAck_ok level p \<longleftrightarrow> puback_packet_id p \<noteq> 0 \<and>
     (level = V5 \<longrightarrow> PubAckProperties_fits (puback_properties p))"

definition PubAck_norm :: "ProtocolLevel \<Rightarrow> PubAck \<Rightarrow> PubAck" where
  "PubAck_norm level p =
     (case level of
        V4 \<Rightarrow> p\<lparr>puback_reason_code := PubAckReasonCode.Success, puback_properties := PubAckProperties_default\<rparr>
      | V5 \<Rightarrow> p)"

definition PubAck_exact :: "ProtocolLevel \<Rightarrow> PubAck \<Rightarrow> bool" where
  "PubAck_exact level p \<longleftrightarrow> level = V5 \<longrightarrow> off_by_one (length (PubAckProperties_wire (puback_properties p))) = 0"

lemma PubAckProperties_is_empty_iff: "PubAckProperties_is_empty p \<longleftrightarrow> p = PubAckProperties_default"
  by (cases p) (simp add: PubAckProperties_is_empty_def PubAckProperties_default_def)

lemma PubAck_encode_body_wire:
  "PubAck_ok level p \<Longrightarrow> PubAck_encode_body level p = put_slice (PubAck_body level p)"
  using PubAckProperties_encode_block [of "puback_properties p"]
  by (cases level)
    (auto simp: PubAck_encode_body_def PubAck_body_def PubAck_ok_def wire)

lemma PubAck_decode_wire:
  "PubAck_ok level p \<Longrightarrow> PubAck_decode (PubAck_body level p) level = Inr (PubAck_norm level p)"
  using PubAckProperties_fits_length [of "puback_properties p"]
  by (cases level; cases p)
    (auto simp: PubAck_decode_def PubAck_body_def PubAck_ok_def PubAck_norm_def PubAckProperties_is_empty_iff props_wire_def wire
      varint_not_Nil)

lemma PubAck_size_eq:
  "PubAck_ok level p \<Longrightarrow> PubAck_exact level p \<Longrightarrow> PubAck_size level p = Inr (length (PubAck_body level p))"
  using PubAckProperties_fits_length [of "puback_properties p"]
  by (cases level)
    (auto simp: PubAck_size_def PubAck_variable_header_length_def PubAck_payload_length_def PubAck_body_def
      PubAck_ok_def PubAck_exact_def wire)

lemma PubAck_decode_wf:
  assumes "PubAck_decode data level = Inr p"
  shows "puback_packet_id p \<noteq> 0" "PubAckProperties_ok (puback_properties p)"
    "level = V4 \<Longrightarrow> puback_reason_code p = PubAckReasonCode.Success \<and> puback_properties p = PubAckProperties_default"
  using assms PubAckProperties_decode_wf pubackprop_codec.wf_initial
  by (auto simp: PubAck_decode_def and_then_Inr_iff split: if_splits dest: read_packet_id_ok)

interpretation puback: packet_codec "\<lambda>_. push_bit 4 PUBACK" PubAck_size PubAck_encode
  "\<lambda>data level flag. PubAck_decode data level" PubAck_body PubAck_ok PubAck_norm "(<)"
  by unfold_locales
    (simp_all add: PubAck_encode_def framed_def PubAck_encode_body_wire PubAck_decode_wire
      del: push_bit_numeral cong del: let_ok_cong)

end
