(* ===== verification/Packet_PubRec.thy ===== *)
theory Packet_PubRec
  imports Codec_Properties
begin

text \<open>
  \<open>libs/codec/src/pubrec.rs\<close>: the PUBREC packet.
\<close>

unbundle bit_operations_syntax

subsection \<open>PubRecReasonCode and PubRecProperties\<close>

datatype PubRecReasonCode =
    Success
  | NoMatchingSubscribers
  | UnspecifiedError
  | ImplementationSpecificError
  | NotAuthorized
  | TopicNameInvalid
  | PacketIdentifierInUse
  | QuotaExceeded
  | PayloadFormatInvalid

fun PubRecReasonCode_u8 :: "PubRecReasonCode \<Rightarrow> u8" where
  "PubRecReasonCode_u8 PubRecReasonCode.Success = 0"
| "PubRecReasonCode_u8 PubRecReasonCode.NoMatchingSubscribers = 16"
| "PubRecReasonCode_u8 PubRecReasonCode.UnspecifiedError = 128"
| "PubRecReasonCode_u8 PubRecReasonCode.ImplementationSpecificError = 131"
| "PubRecReasonCode_u8 PubRecReasonCode.NotAuthorized = 135"
| "PubRecReasonCode_u8 PubRecReasonCode.TopicNameInvalid = 144"
| "PubRecReasonCode_u8 PubRecReasonCode.PacketIdentifierInUse = 145"
| "PubRecReasonCode_u8 PubRecReasonCode.QuotaExceeded = 151"
| "PubRecReasonCode_u8 PubRecReasonCode.PayloadFormatInvalid = 153"

definition PubRecReasonCode_variants :: "PubRecReasonCode list" where
  "PubRecReasonCode_variants = [
     PubRecReasonCode.Success, PubRecReasonCode.NoMatchingSubscribers,
     PubRecReasonCode.UnspecifiedError, PubRecReasonCode.ImplementationSpecificError,
     PubRecReasonCode.NotAuthorized, PubRecReasonCode.TopicNameInvalid,
     PubRecReasonCode.PacketIdentifierInUse, PubRecReasonCode.QuotaExceeded,
     PubRecReasonCode.PayloadFormatInvalid]"

definition PubRecReasonCode_try_from :: "u8 \<Rightarrow> PubRecReasonCode option" where
  "PubRecReasonCode_try_from = try_from_primitive PubRecReasonCode_u8 PubRecReasonCode_variants"

interpretation PubRecReasonCode_enum: primitive_enum PubRecReasonCode_u8 PubRecReasonCode_variants
proof (rule primitive_enumI)
  show "c \<in> set PubRecReasonCode_variants" for c by (cases c) (simp_all add: PubRecReasonCode_variants_def)
qed (simp add: PubRecReasonCode_variants_def)

lemma PubRecReasonCode_roundtrip [wire]: "PubRecReasonCode_try_from (PubRecReasonCode_u8 c) = Some c"
  unfolding PubRecReasonCode_try_from_def by (rule PubRecReasonCode_enum.roundtrip)

definition PubRecReasonCode_is_success :: "PubRecReasonCode \<Rightarrow> bool" where
  "PubRecReasonCode_is_success c \<longleftrightarrow> PubRecReasonCode_u8 c < 0x80"

record PubRecProperties =
  pubrecprop_reason_string :: "string option"
  pubrecprop_user_properties :: "(string \<times> string) list"

definition PubRecProperties_default :: PubRecProperties where
  "PubRecProperties_default = \<lparr>pubrecprop_reason_string = None, pubrecprop_user_properties = []\<rparr>"

definition PubRecProperties_bytes_length :: "PubRecProperties \<Rightarrow> EncodeError + nat" where
  "PubRecProperties_bytes_length p = Inr (
     prop_data_len (pubrecprop_reason_string p)
   + user_properties_len (pubrecprop_user_properties p))"

definition PubRecProperties_step :: "u8 \<Rightarrow> PubRecProperties \<Rightarrow> PubRecProperties reader" where
  "PubRecProperties_step flag p data =
    (if flag = REASON_STRING then
       and_then (read_string data) (\<lambda>(v, data). Inr (p\<lparr>pubrecprop_reason_string := Some v\<rparr>, data))
     else if flag = USER_PROPERTY then
       and_then (read_string data) (\<lambda>(key, data).
       and_then (read_string data) (\<lambda>(value, data).
       Inr (p\<lparr>pubrecprop_user_properties := pubrecprop_user_properties p @ [(key, value)]\<rparr>, data)))
     else Inl (InvalidPubRecProperty flag))"

lemma PubRecProperties_step_shrinks [shrinks]:
  "PubRecProperties_step flag p data = Inr (p', data') \<Longrightarrow> length data' \<le> length data"
  by (auto simp: PubRecProperties_step_def and_then_Inr_iff split: if_splits dest!: shrinks)

function PubRecProperties_loop :: "PubRecProperties \<Rightarrow> bytes \<Rightarrow> DecodeError + PubRecProperties" where
  "PubRecProperties_loop p data =
     (if data = [] then Inr p
      else and_then (read_u8 data) (\<lambda>(flag, data).
           and_then (PubRecProperties_step flag p data) (\<lambda>(p, data). PubRecProperties_loop p data)))"
  by pat_completeness auto
termination by (relation "measure (\<lambda>(p, data). length data)") (auto dest!: shrinks)

declare PubRecProperties_loop.simps [simp del]

definition PubRecProperties_decode :: "bytes \<Rightarrow> DecodeError + PubRecProperties" where
  "PubRecProperties_decode data = PubRecProperties_loop PubRecProperties_default data"

definition PubRecProperties_encode :: "PubRecProperties \<Rightarrow> writer" where
  "PubRecProperties_encode p = block [
     write_prop REASON_STRING write_string (pubrecprop_reason_string p),
     write_user_properties (pubrecprop_user_properties p)]"

text \<open>What the types of the fields guarantee, and the limits of the length prefixes.\<close>

definition PubRecProperties_ok :: "PubRecProperties \<Rightarrow> bool" where
  "PubRecProperties_ok p \<longleftrightarrow>
     opt_ok str_ok (pubrecprop_reason_string p) \<and>
     pairs_ok (pubrecprop_user_properties p)"

definition PubRecProperties_wire :: "PubRecProperties \<Rightarrow> bytes" where
  "PubRecProperties_wire p =
     wire_opt REASON_STRING str_wire (pubrecprop_reason_string p)
   @ users_wire (pubrecprop_user_properties p)"

interpretation pubrecprop_loop: properties_loop PubRecProperties_step PubRecProperties_loop
  by unfold_locales (rule PubRecProperties_loop.simps, rule PubRecProperties_step_shrinks)

lemma PubRecProperties_fields:
  shows "pubrecprop_reason_string p = None \<Longrightarrow> opt_ok str_ok vs \<Longrightarrow>
    PubRecProperties_loop p (wire_opt REASON_STRING str_wire vs @ rest)
    = PubRecProperties_loop (p\<lparr>pubrecprop_reason_string := vs\<rparr>) rest"
  by (rule pubrecprop_loop.loop_opt; simp add: PubRecProperties_step_def wire identifier_ok_def)+

lemma PubRecProperties_users:
  assumes "pairs_ok kvs"
  shows "PubRecProperties_loop p (users_wire kvs @ rest)
    = PubRecProperties_loop (p\<lparr>pubrecprop_user_properties := pubrecprop_user_properties p @ kvs\<rparr>) rest"
proof -
  have "fold (\<lambda>kv p. p\<lparr>pubrecprop_user_properties := pubrecprop_user_properties p @ [kv]\<rparr>) kvs p
    = p\<lparr>pubrecprop_user_properties := pubrecprop_user_properties p @ kvs\<rparr>" for kvs and p :: PubRecProperties
    by (induction kvs arbitrary: p) simp_all
  then show ?thesis
    using assms pubrecprop_loop.loop_users [where kvs = kvs and p = p and rest = rest
        and upd = "\<lambda>kv p. p\<lparr>pubrecprop_user_properties := pubrecprop_user_properties p @ [kv]\<rparr>"]
    by (simp add: PubRecProperties_step_def wire)
qed

lemmas PubRecProperties_decode_rules =
  PubRecProperties_fields PubRecProperties_users pubrecprop_loop.loop_Nil
  PubRecProperties_fields [where rest = "[]", simplified]
      PubRecProperties_users [where rest = "[]", simplified]

interpretation pubrecprop_codec: properties_codec PubRecProperties_step PubRecProperties_loop
  PubRecProperties_default PubRecProperties_encode PubRecProperties_bytes_length
  PubRecProperties_wire PubRecProperties_ok "\<lambda>_. True"
proof unfold_locales
  fix p q flag data data'
  show "PubRecProperties_ok p \<Longrightarrow> PubRecProperties_encode p = put_slice (PubRecProperties_wire p)"
    by (simp add: PubRecProperties_encode_def PubRecProperties_wire_def PubRecProperties_ok_def wire identifier_writers)
  show "PubRecProperties_bytes_length p = Inr (length (PubRecProperties_wire p))"
    by (simp add: PubRecProperties_bytes_length_def PubRecProperties_wire_def)
  show "PubRecProperties_ok p \<Longrightarrow> PubRecProperties_loop PubRecProperties_default (PubRecProperties_wire p) = Inr p"
    by (simp add: PubRecProperties_wire_def PubRecProperties_default_def PubRecProperties_ok_def PubRecProperties_decode_rules)
  show "PubRecProperties_ok PubRecProperties_default"
    by (simp add: PubRecProperties_ok_def PubRecProperties_default_def)
  show "PubRecProperties_ok p \<Longrightarrow> PubRecProperties_step flag p data = Inr (q, data') \<Longrightarrow> PubRecProperties_ok q"
    by (auto simp: PubRecProperties_ok_def PubRecProperties_step_def and_then_Inr_iff
        split: if_splits dest!: read_string_ok read_binary_ok read_identifier_ok)
qed

text \<open>The properties a packet can announce and carry.\<close>

definition PubRecProperties_fits :: "PubRecProperties \<Rightarrow> bool" where
  "PubRecProperties_fits p \<longleftrightarrow> PubRecProperties_ok p \<and>
     length (PubRecProperties_wire p) < 268435455"

lemma PubRecProperties_length_wire [wire]:
  "PubRecProperties_fits p \<Longrightarrow> PubRecProperties_bytes_length p = Inr (length (PubRecProperties_wire p))"
  by (rule pubrecprop_codec.length_wire) (auto simp: PubRecProperties_fits_def)

lemma PubRecProperties_fits_length: "PubRecProperties_fits p \<Longrightarrow> length (PubRecProperties_wire p) < 268435455"
  by (simp add: PubRecProperties_fits_def)

lemma PubRecProperties_encode_block:
  "PubRecProperties_fits p \<Longrightarrow>
   block [let_ok (PubRecProperties_bytes_length p) write_remaining_length, PubRecProperties_encode p]
   = put_slice (props_wire (PubRecProperties_wire p))"
  by (rule pubrecprop_codec.encode_block) (auto simp: PubRecProperties_fits_def)

lemma PubRecProperties_decode_wire [wire]:
  "PubRecProperties_fits p \<Longrightarrow> PubRecProperties_decode (PubRecProperties_wire p) = Inr p"
  by (simp add: PubRecProperties_decode_def PubRecProperties_fits_def pubrecprop_codec.decode_wire)

lemma PubRecProperties_decode_wf: "PubRecProperties_decode data = Inr p \<Longrightarrow> PubRecProperties_ok p"
  unfolding PubRecProperties_decode_def by (rule pubrecprop_codec.decode_wf)

definition PubRecProperties_is_empty :: "PubRecProperties \<Rightarrow> bool" where
  "PubRecProperties_is_empty p \<longleftrightarrow> pubrecprop_reason_string p = None \<and> pubrecprop_user_properties p = []"

subsection \<open>PubRec\<close>

record PubRec =
  pubrec_packet_id :: u16
  pubrec_reason_code :: PubRecReasonCode
  pubrec_properties :: PubRecProperties

definition PubRec_variable_header_length :: "PubRec \<Rightarrow> ProtocolLevel \<Rightarrow> EncodeError + nat" where
  "PubRec_variable_header_length p level =
     (case level of
        V4 \<Rightarrow> Inr 2
      | V5 \<Rightarrow>
          if \<not> PubRecProperties_is_empty (pubrec_properties p) then
            and_then (PubRecProperties_bytes_length (pubrec_properties p)) (\<lambda>properties_len.
            and_then (props_size properties_len) (\<lambda>n. Inr (2 + 1 + n)))
          else if pubrec_reason_code p = PubRecReasonCode.Success then Inr 2
          else Inr 3)"

definition PubRec_payload_length :: "PubRec \<Rightarrow> ProtocolLevel \<Rightarrow> EncodeError + nat" where
  "PubRec_payload_length p level = Inr 0"

definition PubRec_size :: "ProtocolLevel \<Rightarrow> PubRec \<Rightarrow> EncodeError + nat" where
  "PubRec_size level p =
     and_then (PubRec_variable_header_length p level) (\<lambda>a.
     and_then (PubRec_payload_length p level) (\<lambda>b. Inr (a + b)))"

definition PubRec_encode_body :: "ProtocolLevel \<Rightarrow> PubRec \<Rightarrow> writer" where
  "PubRec_encode_body level p = block [
     put_u16 (pubrec_packet_id p),
     if_true (level = V5) (block [
       if_true (pubrec_reason_code p \<noteq> PubRecReasonCode.Success \<or> \<not> PubRecProperties_is_empty (pubrec_properties p))
         (put_u8 (PubRecReasonCode_u8 (pubrec_reason_code p))),
       if_true (\<not> PubRecProperties_is_empty (pubrec_properties p)) (block [
         let_ok (PubRecProperties_bytes_length (pubrec_properties p)) write_remaining_length,
         PubRecProperties_encode (pubrec_properties p)])])]"

definition PubRec_encode :: "PubRec \<Rightarrow> ProtocolLevel \<Rightarrow> nat \<Rightarrow> writer" where
  "PubRec_encode p level max_size = block [
     put_u8 (push_bit 4 PUBREC),
     let_ok (PubRec_size level p) (\<lambda>size. block [
       ensure_w (size < max_size) EncodeError.PacketTooLarge,
       write_remaining_length size,
       PubRec_encode_body level p])]"

text \<open>
  The length of the properties is read and checked, but the properties are decoded from all
  the remaining data, as in the source.
\<close>

definition PubRec_decode :: "bytes \<Rightarrow> ProtocolLevel \<Rightarrow> DecodeError + PubRec" where
  "PubRec_decode data level =
     and_then (read_packet_id data) (\<lambda>(packet_id, data).
     and_then
       (if level = V5 then
          and_then
            (if data \<noteq> [] then
               and_then (read_u8 data) (\<lambda>(n_reason_code, data).
               and_then (ok_or (InvalidPubRecReasonCode n_reason_code) (PubRecReasonCode_try_from n_reason_code))
                 (\<lambda>reason_code. Inr (reason_code, data)))
             else Inr (PubRecReasonCode.Success, data)) (\<lambda>(reason_code, data).
          and_then
            (if data \<noteq> [] then
               and_then (read_remaining_length data) (\<lambda>(properties_len, data).
               and_then (ensure (properties_len \<le> length data) DecodeError.MalformedPacket) (\<lambda>_.
               PubRecProperties_decode data))
             else Inr PubRecProperties_default) (\<lambda>properties.
          Inr (reason_code, properties)))
        else Inr (PubRecReasonCode.Success, PubRecProperties_default)) (\<lambda>(reason_code, properties).
     Inr \<lparr>pubrec_packet_id = packet_id, pubrec_reason_code = reason_code,
          pubrec_properties = properties\<rparr>))"

text \<open>
  The wire format: level 4 carries only the packet identifier, level 5 leaves out a successful
  reason code without properties, and empty properties.
\<close>

definition PubRec_body :: "ProtocolLevel \<Rightarrow> PubRec \<Rightarrow> bytes" where
  "PubRec_body level p = be16 (pubrec_packet_id p) @
     (if level = V4 then []
      else if \<not> PubRecProperties_is_empty (pubrec_properties p) then
        PubRecReasonCode_u8 (pubrec_reason_code p) # props_wire (PubRecProperties_wire (pubrec_properties p))
      else if pubrec_reason_code p \<noteq> PubRecReasonCode.Success then [PubRecReasonCode_u8 (pubrec_reason_code p)]
      else [])"

definition PubRec_ok :: "ProtocolLevel \<Rightarrow> PubRec \<Rightarrow> bool" where
  "PubRec_ok level p \<longleftrightarrow> pubrec_packet_id p \<noteq> 0 \<and>
     (level = V5 \<longrightarrow> PubRecProperties_fits (pubrec_properties p))"

definition PubRec_norm :: "ProtocolLevel \<Rightarrow> PubRec \<Rightarrow> PubRec" where
  "PubRec_norm level p =
     (case level of
        V4 \<Rightarrow> p\<lparr>pubrec_reason_code := PubRecReasonCode.Success, pubrec_properties := PubRecProperties_default\<rparr>
      | V5 \<Rightarrow> p)"

definition PubRec_exact :: "ProtocolLevel \<Rightarrow> PubRec \<Rightarrow> bool" where
  "PubRec_exact level p \<longleftrightarrow> level = V5 \<longrightarrow> off_by_one (length (PubRecProperties_wire (pubrec_properties p))) = 0"

lemma PubRecProperties_is_empty_iff: "PubRecProperties_is_empty p \<longleftrightarrow> p = PubRecProperties_default"
  by (cases p) (simp add: PubRecProperties_is_empty_def PubRecProperties_default_def)

lemma PubRec_encode_body_wire:
  "PubRec_ok level p \<Longrightarrow> PubRec_encode_body level p = put_slice (PubRec_body level p)"
  using PubRecProperties_encode_block [of "pubrec_properties p"]
  by (cases level)
    (auto simp: PubRec_encode_body_def PubRec_body_def PubRec_ok_def wire)

lemma PubRec_decode_wire:
  "PubRec_ok level p \<Longrightarrow> PubRec_decode (PubRec_body level p) level = Inr (PubRec_norm level p)"
  using PubRecProperties_fits_length [of "pubrec_properties p"]
  by (cases level; cases p)
    (auto simp: PubRec_decode_def PubRec_body_def PubRec_ok_def PubRec_norm_def PubRecProperties_is_empty_iff props_wire_def wire
      varint_not_Nil)

lemma PubRec_size_eq:
  "PubRec_ok level p \<Longrightarrow> PubRec_exact level p \<Longrightarrow> PubRec_size level p = Inr (length (PubRec_body level p))"
  using PubRecProperties_fits_length [of "pubrec_properties p"]
  by (cases level)
    (auto simp: PubRec_size_def PubRec_variable_header_length_def PubRec_payload_length_def PubRec_body_def
      PubRec_ok_def PubRec_exact_def wire)

lemma PubRec_decode_wf:
  assumes "PubRec_decode data level = Inr p"
  shows "pubrec_packet_id p \<noteq> 0" "PubRecProperties_ok (pubrec_properties p)"
    "level = V4 \<Longrightarrow> pubrec_reason_code p = PubRecReasonCode.Success \<and> pubrec_properties p = PubRecProperties_default"
  using assms PubRecProperties_decode_wf pubrecprop_codec.wf_initial
  by (auto simp: PubRec_decode_def and_then_Inr_iff split: if_splits dest: read_packet_id_ok)

interpretation pubrec: packet_codec "\<lambda>_. push_bit 4 PUBREC" PubRec_size PubRec_encode
  "\<lambda>data level flag. PubRec_decode data level" PubRec_body PubRec_ok PubRec_norm "(<)"
  by unfold_locales
    (simp_all add: PubRec_encode_def framed_def PubRec_encode_body_wire PubRec_decode_wire
      del: push_bit_numeral cong del: let_ok_cong)

end
