(* ===== verification/Packet_PubRel.thy ===== *)
theory Packet_PubRel
  imports Codec_Properties
begin

text \<open>
  \<open>libs/codec/src/pubrel.rs\<close>: the PUBREL packet.
\<close>

unbundle bit_operations_syntax

subsection \<open>PubRelReasonCode and PubRelProperties\<close>

datatype PubRelReasonCode =
    Success
  | PacketIdentifierNotFound

fun PubRelReasonCode_u8 :: "PubRelReasonCode \<Rightarrow> u8" where
  "PubRelReasonCode_u8 PubRelReasonCode.Success = 0"
| "PubRelReasonCode_u8 PubRelReasonCode.PacketIdentifierNotFound = 146"

definition PubRelReasonCode_variants :: "PubRelReasonCode list" where
  "PubRelReasonCode_variants = [
     PubRelReasonCode.Success, PubRelReasonCode.PacketIdentifierNotFound]"

definition PubRelReasonCode_try_from :: "u8 \<Rightarrow> PubRelReasonCode option" where
  "PubRelReasonCode_try_from = try_from_primitive PubRelReasonCode_u8 PubRelReasonCode_variants"

interpretation PubRelReasonCode_enum: primitive_enum PubRelReasonCode_u8 PubRelReasonCode_variants
proof (rule primitive_enumI)
  show "c \<in> set PubRelReasonCode_variants" for c by (cases c) (simp_all add: PubRelReasonCode_variants_def)
qed (simp add: PubRelReasonCode_variants_def)

lemma PubRelReasonCode_roundtrip [wire]: "PubRelReasonCode_try_from (PubRelReasonCode_u8 c) = Some c"
  unfolding PubRelReasonCode_try_from_def by (rule PubRelReasonCode_enum.roundtrip)

definition PubRelReasonCode_is_success :: "PubRelReasonCode \<Rightarrow> bool" where
  "PubRelReasonCode_is_success c \<longleftrightarrow> PubRelReasonCode_u8 c < 0x80"

record PubRelProperties =
  pubrelprop_reason_string :: "string option"
  pubrelprop_user_properties :: "(string \<times> string) list"

definition PubRelProperties_default :: PubRelProperties where
  "PubRelProperties_default = \<lparr>pubrelprop_reason_string = None, pubrelprop_user_properties = []\<rparr>"

definition PubRelProperties_bytes_length :: "PubRelProperties \<Rightarrow> EncodeError + nat" where
  "PubRelProperties_bytes_length p = Inr (
     prop_data_len (pubrelprop_reason_string p)
   + user_properties_len (pubrelprop_user_properties p))"

definition PubRelProperties_step :: "u8 \<Rightarrow> PubRelProperties \<Rightarrow> PubRelProperties reader" where
  "PubRelProperties_step flag p data =
    (if flag = REASON_STRING then
       and_then (read_string data) (\<lambda>(v, data). Inr (p\<lparr>pubrelprop_reason_string := Some v\<rparr>, data))
     else if flag = USER_PROPERTY then
       and_then (read_string data) (\<lambda>(key, data).
       and_then (read_string data) (\<lambda>(value, data).
       Inr (p\<lparr>pubrelprop_user_properties := pubrelprop_user_properties p @ [(key, value)]\<rparr>, data)))
     else Inl (InvalidPubRelProperty flag))"

lemma PubRelProperties_step_shrinks [shrinks]:
  "PubRelProperties_step flag p data = Inr (p', data') \<Longrightarrow> length data' \<le> length data"
  by (auto simp: PubRelProperties_step_def and_then_Inr_iff split: if_splits dest!: shrinks)

function PubRelProperties_loop :: "PubRelProperties \<Rightarrow> bytes \<Rightarrow> DecodeError + PubRelProperties" where
  "PubRelProperties_loop p data =
     (if data = [] then Inr p
      else and_then (read_u8 data) (\<lambda>(flag, data).
           and_then (PubRelProperties_step flag p data) (\<lambda>(p, data). PubRelProperties_loop p data)))"
  by pat_completeness auto
termination by (relation "measure (\<lambda>(p, data). length data)") (auto dest!: shrinks)

declare PubRelProperties_loop.simps [simp del]

definition PubRelProperties_decode :: "bytes \<Rightarrow> DecodeError + PubRelProperties" where
  "PubRelProperties_decode data = PubRelProperties_loop PubRelProperties_default data"

definition PubRelProperties_encode :: "PubRelProperties \<Rightarrow> writer" where
  "PubRelProperties_encode p = block [
     write_prop REASON_STRING write_string (pubrelprop_reason_string p),
     write_user_properties (pubrelprop_user_properties p)]"

text \<open>What the types of the fields guarantee, and the limits of the length prefixes.\<close>

definition PubRelProperties_ok :: "PubRelProperties \<Rightarrow> bool" where
  "PubRelProperties_ok p \<longleftrightarrow>
     opt_ok str_ok (pubrelprop_reason_string p) \<and>
     pairs_ok (pubrelprop_user_properties p)"

definition PubRelProperties_wire :: "PubRelProperties \<Rightarrow> bytes" where
  "PubRelProperties_wire p =
     wire_opt REASON_STRING str_wire (pubrelprop_reason_string p)
   @ users_wire (pubrelprop_user_properties p)"

interpretation pubrelprop_loop: properties_loop PubRelProperties_step PubRelProperties_loop
  by unfold_locales (rule PubRelProperties_loop.simps, rule PubRelProperties_step_shrinks)

lemma PubRelProperties_fields:
  shows "pubrelprop_reason_string p = None \<Longrightarrow> opt_ok str_ok vs \<Longrightarrow>
    PubRelProperties_loop p (wire_opt REASON_STRING str_wire vs @ rest)
    = PubRelProperties_loop (p\<lparr>pubrelprop_reason_string := vs\<rparr>) rest"
  by (rule pubrelprop_loop.loop_opt; simp add: PubRelProperties_step_def wire identifier_ok_def)+

lemma PubRelProperties_users:
  assumes "pairs_ok kvs"
  shows "PubRelProperties_loop p (users_wire kvs @ rest)
    = PubRelProperties_loop (p\<lparr>pubrelprop_user_properties := pubrelprop_user_properties p @ kvs\<rparr>) rest"
proof -
  have "fold (\<lambda>kv p. p\<lparr>pubrelprop_user_properties := pubrelprop_user_properties p @ [kv]\<rparr>) kvs p
    = p\<lparr>pubrelprop_user_properties := pubrelprop_user_properties p @ kvs\<rparr>" for kvs and p :: PubRelProperties
    by (induction kvs arbitrary: p) simp_all
  then show ?thesis
    using assms pubrelprop_loop.loop_users [where kvs = kvs and p = p and rest = rest
        and upd = "\<lambda>kv p. p\<lparr>pubrelprop_user_properties := pubrelprop_user_properties p @ [kv]\<rparr>"]
    by (simp add: PubRelProperties_step_def wire)
qed

lemmas PubRelProperties_decode_rules =
  PubRelProperties_fields PubRelProperties_users pubrelprop_loop.loop_Nil
  PubRelProperties_fields [where rest = "[]", simplified]
      PubRelProperties_users [where rest = "[]", simplified]

interpretation pubrelprop_codec: properties_codec PubRelProperties_step PubRelProperties_loop
  PubRelProperties_default PubRelProperties_encode PubRelProperties_bytes_length
  PubRelProperties_wire PubRelProperties_ok "\<lambda>_. True"
proof unfold_locales
  fix p q flag data data'
  show "PubRelProperties_ok p \<Longrightarrow> PubRelProperties_encode p = put_slice (PubRelProperties_wire p)"
    by (simp add: PubRelProperties_encode_def PubRelProperties_wire_def PubRelProperties_ok_def wire identifier_writers)
  show "PubRelProperties_bytes_length p = Inr (length (PubRelProperties_wire p))"
    by (simp add: PubRelProperties_bytes_length_def PubRelProperties_wire_def)
  show "PubRelProperties_ok p \<Longrightarrow> PubRelProperties_loop PubRelProperties_default (PubRelProperties_wire p) = Inr p"
    by (simp add: PubRelProperties_wire_def PubRelProperties_default_def PubRelProperties_ok_def PubRelProperties_decode_rules)
  show "PubRelProperties_ok PubRelProperties_default"
    by (simp add: PubRelProperties_ok_def PubRelProperties_default_def)
  show "PubRelProperties_ok p \<Longrightarrow> PubRelProperties_step flag p data = Inr (q, data') \<Longrightarrow> PubRelProperties_ok q"
    by (auto simp: PubRelProperties_ok_def PubRelProperties_step_def and_then_Inr_iff
        split: if_splits dest!: read_string_ok read_binary_ok read_identifier_ok)
qed

text \<open>The properties a packet can announce and carry.\<close>

definition PubRelProperties_fits :: "PubRelProperties \<Rightarrow> bool" where
  "PubRelProperties_fits p \<longleftrightarrow> PubRelProperties_ok p \<and>
     length (PubRelProperties_wire p) < 268435455"

lemma PubRelProperties_length_wire [wire]:
  "PubRelProperties_fits p \<Longrightarrow> PubRelProperties_bytes_length p = Inr (length (PubRelProperties_wire p))"
  by (rule pubrelprop_codec.length_wire) (auto simp: PubRelProperties_fits_def)

lemma PubRelProperties_fits_length: "PubRelProperties_fits p \<Longrightarrow> length (PubRelProperties_wire p) < 268435455"
  by (simp add: PubRelProperties_fits_def)

lemma PubRelProperties_encode_block:
  "PubRelProperties_fits p \<Longrightarrow>
   block [let_ok (PubRelProperties_bytes_length p) write_remaining_length, PubRelProperties_encode p]
   = put_slice (props_wire (PubRelProperties_wire p))"
  by (rule pubrelprop_codec.encode_block) (auto simp: PubRelProperties_fits_def)

lemma PubRelProperties_decode_wire [wire]:
  "PubRelProperties_fits p \<Longrightarrow> PubRelProperties_decode (PubRelProperties_wire p) = Inr p"
  by (simp add: PubRelProperties_decode_def PubRelProperties_fits_def pubrelprop_codec.decode_wire)

lemma PubRelProperties_decode_wf: "PubRelProperties_decode data = Inr p \<Longrightarrow> PubRelProperties_ok p"
  unfolding PubRelProperties_decode_def by (rule pubrelprop_codec.decode_wf)

definition PubRelProperties_is_empty :: "PubRelProperties \<Rightarrow> bool" where
  "PubRelProperties_is_empty p \<longleftrightarrow> pubrelprop_reason_string p = None \<and> pubrelprop_user_properties p = []"

subsection \<open>PubRel\<close>

record PubRel =
  pubrel_packet_id :: u16
  pubrel_reason_code :: PubRelReasonCode
  pubrel_properties :: PubRelProperties

definition PubRel_variable_header_length :: "PubRel \<Rightarrow> ProtocolLevel \<Rightarrow> EncodeError + nat" where
  "PubRel_variable_header_length p level =
     (case level of
        V4 \<Rightarrow> Inr 2
      | V5 \<Rightarrow>
          if \<not> PubRelProperties_is_empty (pubrel_properties p) then
            and_then (PubRelProperties_bytes_length (pubrel_properties p)) (\<lambda>properties_len.
            and_then (props_size properties_len) (\<lambda>n. Inr (2 + 1 + n)))
          else if pubrel_reason_code p = PubRelReasonCode.Success then Inr 2
          else Inr 3)"

definition PubRel_payload_length :: "PubRel \<Rightarrow> ProtocolLevel \<Rightarrow> EncodeError + nat" where
  "PubRel_payload_length p level = Inr 0"

definition PubRel_size :: "ProtocolLevel \<Rightarrow> PubRel \<Rightarrow> EncodeError + nat" where
  "PubRel_size level p =
     and_then (PubRel_variable_header_length p level) (\<lambda>a.
     and_then (PubRel_payload_length p level) (\<lambda>b. Inr (a + b)))"

definition PubRel_encode_body :: "ProtocolLevel \<Rightarrow> PubRel \<Rightarrow> writer" where
  "PubRel_encode_body level p = block [
     put_u16 (pubrel_packet_id p),
     if_true (level = V5) (block [
       if_true (pubrel_reason_code p \<noteq> PubRelReasonCode.Success \<or> \<not> PubRelProperties_is_empty (pubrel_properties p))
         (put_u8 (PubRelReasonCode_u8 (pubrel_reason_code p))),
       if_true (\<not> PubRelProperties_is_empty (pubrel_properties p)) (block [
         let_ok (PubRelProperties_bytes_length (pubrel_properties p)) write_remaining_length,
         PubRelProperties_encode (pubrel_properties p)])])]"

definition PubRel_encode :: "PubRel \<Rightarrow> ProtocolLevel \<Rightarrow> nat \<Rightarrow> writer" where
  "PubRel_encode p level max_size = block [
     put_u8 (push_bit 4 PUBREL OR 0b0010),
     let_ok (PubRel_size level p) (\<lambda>size. block [
       ensure_w (size < max_size) EncodeError.PacketTooLarge,
       write_remaining_length size,
       PubRel_encode_body level p])]"

text \<open>
  The length of the properties is read and checked, but the properties are decoded from all
  the remaining data, as in the source.
\<close>

definition PubRel_decode :: "bytes \<Rightarrow> ProtocolLevel \<Rightarrow> u8 \<Rightarrow> DecodeError + PubRel" where
  "PubRel_decode data level flags =
     and_then (ensure (flags AND 0x0f = 0b0010) DecodeError.MalformedPacket) (\<lambda>_.
     and_then (read_packet_id data) (\<lambda>(packet_id, data).
     and_then
       (if level = V5 then
          and_then
            (if data \<noteq> [] then
               and_then (read_u8 data) (\<lambda>(n_reason_code, data).
               and_then (ok_or (InvalidPubRelReasonCode n_reason_code) (PubRelReasonCode_try_from n_reason_code))
                 (\<lambda>reason_code. Inr (reason_code, data)))
             else Inr (PubRelReasonCode.Success, data)) (\<lambda>(reason_code, data).
          and_then
            (if data \<noteq> [] then
               and_then (read_remaining_length data) (\<lambda>(properties_len, data).
               and_then (ensure (properties_len \<le> length data) DecodeError.MalformedPacket) (\<lambda>_.
               PubRelProperties_decode data))
             else Inr PubRelProperties_default) (\<lambda>properties.
          Inr (reason_code, properties)))
        else Inr (PubRelReasonCode.Success, PubRelProperties_default)) (\<lambda>(reason_code, properties).
     Inr \<lparr>pubrel_packet_id = packet_id, pubrel_reason_code = reason_code,
          pubrel_properties = properties\<rparr>)))"

text \<open>
  The wire format: level 4 carries only the packet identifier, level 5 leaves out a successful
  reason code without properties, and empty properties.
\<close>

definition PubRel_body :: "ProtocolLevel \<Rightarrow> PubRel \<Rightarrow> bytes" where
  "PubRel_body level p = be16 (pubrel_packet_id p) @
     (if level = V4 then []
      else if \<not> PubRelProperties_is_empty (pubrel_properties p) then
        PubRelReasonCode_u8 (pubrel_reason_code p) # props_wire (PubRelProperties_wire (pubrel_properties p))
      else if pubrel_reason_code p \<noteq> PubRelReasonCode.Success then [PubRelReasonCode_u8 (pubrel_reason_code p)]
      else [])"

definition PubRel_ok :: "ProtocolLevel \<Rightarrow> PubRel \<Rightarrow> bool" where
  "PubRel_ok level p \<longleftrightarrow> pubrel_packet_id p \<noteq> 0 \<and>
     (level = V5 \<longrightarrow> PubRelProperties_fits (pubrel_properties p))"

definition PubRel_norm :: "ProtocolLevel \<Rightarrow> PubRel \<Rightarrow> PubRel" where
  "PubRel_norm level p =
     (case level of
        V4 \<Rightarrow> p\<lparr>pubrel_reason_code := PubRelReasonCode.Success, pubrel_properties := PubRelProperties_default\<rparr>
      | V5 \<Rightarrow> p)"

definition PubRel_exact :: "ProtocolLevel \<Rightarrow> PubRel \<Rightarrow> bool" where
  "PubRel_exact level p \<longleftrightarrow> level = V5 \<longrightarrow> off_by_one (length (PubRelProperties_wire (pubrel_properties p))) = 0"

lemma PubRelProperties_is_empty_iff: "PubRelProperties_is_empty p \<longleftrightarrow> p = PubRelProperties_default"
  by (cases p) (simp add: PubRelProperties_is_empty_def PubRelProperties_default_def)

lemma PubRel_encode_body_wire:
  "PubRel_ok level p \<Longrightarrow> PubRel_encode_body level p = put_slice (PubRel_body level p)"
  using PubRelProperties_encode_block [of "pubrel_properties p"]
  by (cases level)
    (auto simp: PubRel_encode_body_def PubRel_body_def PubRel_ok_def wire)

lemma PubRel_decode_wire:
  "PubRel_ok level p \<Longrightarrow> PubRel_decode (PubRel_body level p) level (push_bit 4 PUBREL OR 0b0010) = Inr (PubRel_norm level p)"
  using PubRelProperties_fits_length [of "pubrel_properties p"]
  by (cases level; cases p)
    (auto simp: PubRel_decode_def PubRel_body_def PubRel_ok_def PubRel_norm_def PubRelProperties_is_empty_iff props_wire_def wire
      varint_not_Nil)

lemma PubRel_size_eq:
  "PubRel_ok level p \<Longrightarrow> PubRel_exact level p \<Longrightarrow> PubRel_size level p = Inr (length (PubRel_body level p))"
  using PubRelProperties_fits_length [of "pubrel_properties p"]
  by (cases level)
    (auto simp: PubRel_size_def PubRel_variable_header_length_def PubRel_payload_length_def PubRel_body_def
      PubRel_ok_def PubRel_exact_def wire)

lemma PubRel_decode_wf:
  assumes "PubRel_decode data level flags = Inr p"
  shows "pubrel_packet_id p \<noteq> 0" "PubRelProperties_ok (pubrel_properties p)"
    "level = V4 \<Longrightarrow> pubrel_reason_code p = PubRelReasonCode.Success \<and> pubrel_properties p = PubRelProperties_default"
  using assms PubRelProperties_decode_wf pubrelprop_codec.wf_initial
  by (auto simp: PubRel_decode_def and_then_Inr_iff split: if_splits dest: read_packet_id_ok)

interpretation pubrel: packet_codec "\<lambda>_. push_bit 4 PUBREL OR 0b0010" PubRel_size PubRel_encode
  "PubRel_decode" PubRel_body PubRel_ok PubRel_norm "(<)"
  by unfold_locales
    (simp_all add: PubRel_encode_def framed_def PubRel_encode_body_wire PubRel_decode_wire
      del: push_bit_numeral cong del: let_ok_cong)

end
