(* ===== verification/Packet_PubComp.thy ===== *)
theory Packet_PubComp
  imports Codec_Properties
begin

text \<open>
  \<open>libs/codec/src/pubcomp.rs\<close>: the PUBCOMP packet.
\<close>

unbundle bit_operations_syntax

subsection \<open>PubCompReasonCode and PubCompProperties\<close>

datatype PubCompReasonCode =
    Success
  | PacketIdentifierNotFound

fun PubCompReasonCode_u8 :: "PubCompReasonCode \<Rightarrow> u8" where
  "PubCompReasonCode_u8 PubCompReasonCode.Success = 0"
| "PubCompReasonCode_u8 PubCompReasonCode.PacketIdentifierNotFound = 146"

definition PubCompReasonCode_variants :: "PubCompReasonCode list" where
  "PubCompReasonCode_variants = [
     PubCompReasonCode.Success, PubCompReasonCode.PacketIdentifierNotFound]"

definition PubCompReasonCode_try_from :: "u8 \<Rightarrow> PubCompReasonCode option" where
  "PubCompReasonCode_try_from = try_from_primitive PubCompReasonCode_u8 PubCompReasonCode_variants"

interpretation PubCompReasonCode_enum: primitive_enum PubCompReasonCode_u8 PubCompReasonCode_variants
proof (rule primitive_enumI)
  show "c \<in> set PubCompReasonCode_variants" for c by (cases c) (simp_all add: PubCompReasonCode_variants_def)
qed (simp add: PubCompReasonCode_variants_def)

lemma PubCompReasonCode_roundtrip [wire]: "PubCompReasonCode_try_from (PubCompReasonCode_u8 c) = Some c"
  unfolding PubCompReasonCode_try_from_def by (rule PubCompReasonCode_enum.roundtrip)

definition PubCompReasonCode_is_success :: "PubCompReasonCode \<Rightarrow> bool" where
  "PubCompReasonCode_is_success c \<longleftrightarrow> PubCompReasonCode_u8 c < 0x80"

record PubCompProperties =
  pubcompprop_reason_string :: "string option"
  pubcompprop_user_properties :: "(string \<times> string) list"

definition PubCompProperties_default :: PubCompProperties where
  "PubCompProperties_default = \<lparr>pubcompprop_reason_string = None, pubcompprop_user_properties = []\<rparr>"

definition PubCompProperties_bytes_length :: "PubCompProperties \<Rightarrow> EncodeError + nat" where
  "PubCompProperties_bytes_length p = Inr (
     prop_data_len (pubcompprop_reason_string p)
   + user_properties_len (pubcompprop_user_properties p))"

definition PubCompProperties_step :: "u8 \<Rightarrow> PubCompProperties \<Rightarrow> PubCompProperties reader" where
  "PubCompProperties_step flag p data =
    (if flag = REASON_STRING then
       and_then (read_string data) (\<lambda>(v, data). Inr (p\<lparr>pubcompprop_reason_string := Some v\<rparr>, data))
     else if flag = USER_PROPERTY then
       and_then (read_string data) (\<lambda>(key, data).
       and_then (read_string data) (\<lambda>(value, data).
       Inr (p\<lparr>pubcompprop_user_properties := pubcompprop_user_properties p @ [(key, value)]\<rparr>, data)))
     else Inl (InvalidPubCompProperty flag))"

lemma PubCompProperties_step_shrinks [shrinks]:
  "PubCompProperties_step flag p data = Inr (p', data') \<Longrightarrow> length data' \<le> length data"
  by (auto simp: PubCompProperties_step_def and_then_Inr_iff split: if_splits dest!: shrinks)

function PubCompProperties_loop :: "PubCompProperties \<Rightarrow> bytes \<Rightarrow> DecodeError + PubCompProperties" where
  "PubCompProperties_loop p data =
     (if data = [] then Inr p
      else and_then (read_u8 data) (\<lambda>(flag, data).
           and_then (PubCompProperties_step flag p data) (\<lambda>(p, data). PubCompProperties_loop p data)))"
  by pat_completeness auto
termination by (relation "measure (\<lambda>(p, data). length data)") (auto dest!: shrinks)

declare PubCompProperties_loop.simps [simp del]

definition PubCompProperties_decode :: "bytes \<Rightarrow> DecodeError + PubCompProperties" where
  "PubCompProperties_decode data = PubCompProperties_loop PubCompProperties_default data"

definition PubCompProperties_encode :: "PubCompProperties \<Rightarrow> writer" where
  "PubCompProperties_encode p = block [
     write_prop REASON_STRING write_string (pubcompprop_reason_string p),
     write_user_properties (pubcompprop_user_properties p)]"

text \<open>What the types of the fields guarantee, and the limits of the length prefixes.\<close>

definition PubCompProperties_ok :: "PubCompProperties \<Rightarrow> bool" where
  "PubCompProperties_ok p \<longleftrightarrow>
     opt_ok str_ok (pubcompprop_reason_string p) \<and>
     pairs_ok (pubcompprop_user_properties p)"

definition PubCompProperties_wire :: "PubCompProperties \<Rightarrow> bytes" where
  "PubCompProperties_wire p =
     wire_opt REASON_STRING str_wire (pubcompprop_reason_string p)
   @ users_wire (pubcompprop_user_properties p)"

interpretation pubcompprop_loop: properties_loop PubCompProperties_step PubCompProperties_loop
  by unfold_locales (rule PubCompProperties_loop.simps, rule PubCompProperties_step_shrinks)

lemma PubCompProperties_fields:
  shows "pubcompprop_reason_string p = None \<Longrightarrow> opt_ok str_ok vs \<Longrightarrow>
    PubCompProperties_loop p (wire_opt REASON_STRING str_wire vs @ rest)
    = PubCompProperties_loop (p\<lparr>pubcompprop_reason_string := vs\<rparr>) rest"
  by (rule pubcompprop_loop.loop_opt; simp add: PubCompProperties_step_def wire identifier_ok_def)+

lemma PubCompProperties_users:
  assumes "pairs_ok kvs"
  shows "PubCompProperties_loop p (users_wire kvs @ rest)
    = PubCompProperties_loop (p\<lparr>pubcompprop_user_properties := pubcompprop_user_properties p @ kvs\<rparr>) rest"
proof -
  have "fold (\<lambda>kv p. p\<lparr>pubcompprop_user_properties := pubcompprop_user_properties p @ [kv]\<rparr>) kvs p
    = p\<lparr>pubcompprop_user_properties := pubcompprop_user_properties p @ kvs\<rparr>" for kvs and p :: PubCompProperties
    by (induction kvs arbitrary: p) simp_all
  then show ?thesis
    using assms pubcompprop_loop.loop_users [where kvs = kvs and p = p and rest = rest
        and upd = "\<lambda>kv p. p\<lparr>pubcompprop_user_properties := pubcompprop_user_properties p @ [kv]\<rparr>"]
    by (simp add: PubCompProperties_step_def wire)
qed

lemmas PubCompProperties_decode_rules =
  PubCompProperties_fields PubCompProperties_users pubcompprop_loop.loop_Nil
  PubCompProperties_fields [where rest = "[]", simplified]
      PubCompProperties_users [where rest = "[]", simplified]

interpretation pubcompprop_codec: properties_codec PubCompProperties_step PubCompProperties_loop
  PubCompProperties_default PubCompProperties_encode PubCompProperties_bytes_length
  PubCompProperties_wire PubCompProperties_ok "\<lambda>_. True"
proof unfold_locales
  fix p q flag data data'
  show "PubCompProperties_ok p \<Longrightarrow> PubCompProperties_encode p = put_slice (PubCompProperties_wire p)"
    by (simp add: PubCompProperties_encode_def PubCompProperties_wire_def PubCompProperties_ok_def wire identifier_writers)
  show "PubCompProperties_bytes_length p = Inr (length (PubCompProperties_wire p))"
    by (simp add: PubCompProperties_bytes_length_def PubCompProperties_wire_def)
  show "PubCompProperties_ok p \<Longrightarrow> PubCompProperties_loop PubCompProperties_default (PubCompProperties_wire p) = Inr p"
    by (simp add: PubCompProperties_wire_def PubCompProperties_default_def PubCompProperties_ok_def PubCompProperties_decode_rules)
  show "PubCompProperties_ok PubCompProperties_default"
    by (simp add: PubCompProperties_ok_def PubCompProperties_default_def)
  show "PubCompProperties_ok p \<Longrightarrow> PubCompProperties_step flag p data = Inr (q, data') \<Longrightarrow> PubCompProperties_ok q"
    by (auto simp: PubCompProperties_ok_def PubCompProperties_step_def and_then_Inr_iff
        split: if_splits dest!: read_string_ok read_binary_ok read_identifier_ok)
qed

text \<open>The properties a packet can announce and carry.\<close>

definition PubCompProperties_fits :: "PubCompProperties \<Rightarrow> bool" where
  "PubCompProperties_fits p \<longleftrightarrow> PubCompProperties_ok p \<and>
     length (PubCompProperties_wire p) < 268435455"

lemma PubCompProperties_length_wire [wire]:
  "PubCompProperties_fits p \<Longrightarrow> PubCompProperties_bytes_length p = Inr (length (PubCompProperties_wire p))"
  by (rule pubcompprop_codec.length_wire) (auto simp: PubCompProperties_fits_def)

lemma PubCompProperties_fits_length: "PubCompProperties_fits p \<Longrightarrow> length (PubCompProperties_wire p) < 268435455"
  by (simp add: PubCompProperties_fits_def)

lemma PubCompProperties_encode_block:
  "PubCompProperties_fits p \<Longrightarrow>
   block [let_ok (PubCompProperties_bytes_length p) write_remaining_length, PubCompProperties_encode p]
   = put_slice (props_wire (PubCompProperties_wire p))"
  by (rule pubcompprop_codec.encode_block) (auto simp: PubCompProperties_fits_def)

lemma PubCompProperties_decode_wire [wire]:
  "PubCompProperties_fits p \<Longrightarrow> PubCompProperties_decode (PubCompProperties_wire p) = Inr p"
  by (simp add: PubCompProperties_decode_def PubCompProperties_fits_def pubcompprop_codec.decode_wire)

lemma PubCompProperties_decode_wf: "PubCompProperties_decode data = Inr p \<Longrightarrow> PubCompProperties_ok p"
  unfolding PubCompProperties_decode_def by (rule pubcompprop_codec.decode_wf)

definition PubCompProperties_is_empty :: "PubCompProperties \<Rightarrow> bool" where
  "PubCompProperties_is_empty p \<longleftrightarrow> pubcompprop_reason_string p = None \<and> pubcompprop_user_properties p = []"

subsection \<open>PubComp\<close>

record PubComp =
  pubcomp_packet_id :: u16
  pubcomp_reason_code :: PubCompReasonCode
  pubcomp_properties :: PubCompProperties

definition PubComp_variable_header_length :: "PubComp \<Rightarrow> ProtocolLevel \<Rightarrow> EncodeError + nat" where
  "PubComp_variable_header_length p level =
     (case level of
        V4 \<Rightarrow> Inr 2
      | V5 \<Rightarrow>
          if \<not> PubCompProperties_is_empty (pubcomp_properties p) then
            and_then (PubCompProperties_bytes_length (pubcomp_properties p)) (\<lambda>properties_len.
            and_then (props_size properties_len) (\<lambda>n. Inr (2 + 1 + n)))
          else if pubcomp_reason_code p = PubCompReasonCode.Success then Inr 2
          else Inr 3)"

definition PubComp_payload_length :: "PubComp \<Rightarrow> ProtocolLevel \<Rightarrow> EncodeError + nat" where
  "PubComp_payload_length p level = Inr 0"

definition PubComp_size :: "ProtocolLevel \<Rightarrow> PubComp \<Rightarrow> EncodeError + nat" where
  "PubComp_size level p =
     and_then (PubComp_variable_header_length p level) (\<lambda>a.
     and_then (PubComp_payload_length p level) (\<lambda>b. Inr (a + b)))"

definition PubComp_encode_body :: "ProtocolLevel \<Rightarrow> PubComp \<Rightarrow> writer" where
  "PubComp_encode_body level p = block [
     put_u16 (pubcomp_packet_id p),
     if_true (level = V5) (block [
       if_true (pubcomp_reason_code p \<noteq> PubCompReasonCode.Success \<or> \<not> PubCompProperties_is_empty (pubcomp_properties p))
         (put_u8 (PubCompReasonCode_u8 (pubcomp_reason_code p))),
       if_true (\<not> PubCompProperties_is_empty (pubcomp_properties p)) (block [
         let_ok (PubCompProperties_bytes_length (pubcomp_properties p)) write_remaining_length,
         PubCompProperties_encode (pubcomp_properties p)])])]"

definition PubComp_encode :: "PubComp \<Rightarrow> ProtocolLevel \<Rightarrow> nat \<Rightarrow> writer" where
  "PubComp_encode p level max_size = block [
     put_u8 (push_bit 4 PUBCOMP),
     let_ok (PubComp_size level p) (\<lambda>size. block [
       ensure_w (size < max_size) EncodeError.PacketTooLarge,
       write_remaining_length size,
       PubComp_encode_body level p])]"

text \<open>
  The length of the properties is read and checked, but the properties are decoded from all
  the remaining data, as in the source.
\<close>

definition PubComp_decode :: "bytes \<Rightarrow> ProtocolLevel \<Rightarrow> DecodeError + PubComp" where
  "PubComp_decode data level =
     and_then (read_packet_id data) (\<lambda>(packet_id, data).
     and_then
       (if level = V5 then
          and_then
            (if data \<noteq> [] then
               and_then (read_u8 data) (\<lambda>(n_reason_code, data).
               and_then (ok_or (InvalidPubCompReasonCode n_reason_code) (PubCompReasonCode_try_from n_reason_code))
                 (\<lambda>reason_code. Inr (reason_code, data)))
             else Inr (PubCompReasonCode.Success, data)) (\<lambda>(reason_code, data).
          and_then
            (if data \<noteq> [] then
               and_then (read_remaining_length data) (\<lambda>(properties_len, data).
               and_then (ensure (properties_len \<le> length data) DecodeError.MalformedPacket) (\<lambda>_.
               PubCompProperties_decode data))
             else Inr PubCompProperties_default) (\<lambda>properties.
          Inr (reason_code, properties)))
        else Inr (PubCompReasonCode.Success, PubCompProperties_default)) (\<lambda>(reason_code, properties).
     Inr \<lparr>pubcomp_packet_id = packet_id, pubcomp_reason_code = reason_code,
          pubcomp_properties = properties\<rparr>))"

text \<open>
  The wire format: level 4 carries only the packet identifier, level 5 leaves out a successful
  reason code without properties, and empty properties.
\<close>

definition PubComp_body :: "ProtocolLevel \<Rightarrow> PubComp \<Rightarrow> bytes" where
  "PubComp_body level p = be16 (pubcomp_packet_id p) @
     (if level = V4 then []
      else if \<not> PubCompProperties_is_empty (pubcomp_properties p) then
        PubCompReasonCode_u8 (pubcomp_reason_code p) # props_wire (PubCompProperties_wire (pubcomp_properties p))
      else if pubcomp_reason_code p \<noteq> PubCompReasonCode.Success then [PubCompReasonCode_u8 (pubcomp_reason_code p)]
      else [])"

definition PubComp_ok :: "ProtocolLevel \<Rightarrow> PubComp \<Rightarrow> bool" where
  "PubComp_ok level p \<longleftrightarrow> pubcomp_packet_id p \<noteq> 0 \<and>
     (level = V5 \<longrightarrow> PubCompProperties_fits (pubcomp_properties p))"

definition PubComp_norm :: "ProtocolLevel \<Rightarrow> PubComp \<Rightarrow> PubComp" where
  "PubComp_norm level p =
     (case level of
        V4 \<Rightarrow> p\<lparr>pubcomp_reason_code := PubCompReasonCode.Success, pubcomp_properties := PubCompProperties_default\<rparr>
      | V5 \<Rightarrow> p)"

definition PubComp_exact :: "ProtocolLevel \<Rightarrow> PubComp \<Rightarrow> bool" where
  "PubComp_exact level p \<longleftrightarrow> level = V5 \<longrightarrow> off_by_one (length (PubCompProperties_wire (pubcomp_properties p))) = 0"

lemma PubCompProperties_is_empty_iff: "PubCompProperties_is_empty p \<longleftrightarrow> p = PubCompProperties_default"
  by (cases p) (simp add: PubCompProperties_is_empty_def PubCompProperties_default_def)

lemma PubComp_encode_body_wire:
  "PubComp_ok level p \<Longrightarrow> PubComp_encode_body level p = put_slice (PubComp_body level p)"
  using PubCompProperties_encode_block [of "pubcomp_properties p"]
  by (cases level)
    (auto simp: PubComp_encode_body_def PubComp_body_def PubComp_ok_def wire)

lemma PubComp_decode_wire:
  "PubComp_ok level p \<Longrightarrow> PubComp_decode (PubComp_body level p) level = Inr (PubComp_norm level p)"
  using PubCompProperties_fits_length [of "pubcomp_properties p"]
  by (cases level; cases p)
    (auto simp: PubComp_decode_def PubComp_body_def PubComp_ok_def PubComp_norm_def PubCompProperties_is_empty_iff props_wire_def wire
      varint_not_Nil)

lemma PubComp_size_eq:
  "PubComp_ok level p \<Longrightarrow> PubComp_exact level p \<Longrightarrow> PubComp_size level p = Inr (length (PubComp_body level p))"
  using PubCompProperties_fits_length [of "pubcomp_properties p"]
  by (cases level)
    (auto simp: PubComp_size_def PubComp_variable_header_length_def PubComp_payload_length_def PubComp_body_def
      PubComp_ok_def PubComp_exact_def wire)

lemma PubComp_decode_wf:
  assumes "PubComp_decode data level = Inr p"
  shows "pubcomp_packet_id p \<noteq> 0" "PubCompProperties_ok (pubcomp_properties p)"
    "level = V4 \<Longrightarrow> pubcomp_reason_code p = PubCompReasonCode.Success \<and> pubcomp_properties p = PubCompProperties_default"
  using assms PubCompProperties_decode_wf pubcompprop_codec.wf_initial
  by (auto simp: PubComp_decode_def and_then_Inr_iff split: if_splits dest: read_packet_id_ok)

interpretation pubcomp: packet_codec "\<lambda>_. push_bit 4 PUBCOMP" PubComp_size PubComp_encode
  "\<lambda>data level flag. PubComp_decode data level" PubComp_body PubComp_ok PubComp_norm "(<)"
  by unfold_locales
    (simp_all add: PubComp_encode_def framed_def PubComp_encode_body_wire PubComp_decode_wire
      del: push_bit_numeral cong del: let_ok_cong)

end
