(* ===== verification/Packet_SubAck.thy ===== *)
theory Packet_SubAck
  imports Codec_Properties
begin

text \<open>
  \<open>libs/codec/src/suback.rs\<close>: the SUBACK packet. At level 4 every failure is the return code 128.
\<close>

unbundle bit_operations_syntax

subsection \<open>SubAckProperties\<close>

record SubAckProperties =
  subackprop_reason_string :: "string option"
  subackprop_user_properties :: "(string \<times> string) list"

definition SubAckProperties_default :: SubAckProperties where
  "SubAckProperties_default = \<lparr>subackprop_reason_string = None, subackprop_user_properties = []\<rparr>"

definition SubAckProperties_bytes_length :: "SubAckProperties \<Rightarrow> EncodeError + nat" where
  "SubAckProperties_bytes_length p = Inr (
     prop_data_len (subackprop_reason_string p)
   + user_properties_len (subackprop_user_properties p))"

definition SubAckProperties_step :: "u8 \<Rightarrow> SubAckProperties \<Rightarrow> SubAckProperties reader" where
  "SubAckProperties_step flag p data =
    (if flag = REASON_STRING then
       and_then (read_string data) (\<lambda>(v, data). Inr (p\<lparr>subackprop_reason_string := Some v\<rparr>, data))
     else if flag = USER_PROPERTY then
       and_then (read_string data) (\<lambda>(key, data).
       and_then (read_string data) (\<lambda>(value, data).
       Inr (p\<lparr>subackprop_user_properties := subackprop_user_properties p @ [(key, value)]\<rparr>, data)))
     else Inl (InvalidConnAckProperty flag))"

lemma SubAckProperties_step_shrinks [shrinks]:
  "SubAckProperties_step flag p data = Inr (p', data') \<Longrightarrow> length data' \<le> length data"
  by (auto simp: SubAckProperties_step_def and_then_Inr_iff split: if_splits dest!: shrinks)

function SubAckProperties_loop :: "SubAckProperties \<Rightarrow> bytes \<Rightarrow> DecodeError + SubAckProperties" where
  "SubAckProperties_loop p data =
     (if data = [] then Inr p
      else and_then (read_u8 data) (\<lambda>(flag, data).
           and_then (SubAckProperties_step flag p data) (\<lambda>(p, data). SubAckProperties_loop p data)))"
  by pat_completeness auto
termination by (relation "measure (\<lambda>(p, data). length data)") (auto dest!: shrinks)

declare SubAckProperties_loop.simps [simp del]

definition SubAckProperties_decode :: "bytes \<Rightarrow> DecodeError + SubAckProperties" where
  "SubAckProperties_decode data = SubAckProperties_loop SubAckProperties_default data"

definition SubAckProperties_encode :: "SubAckProperties \<Rightarrow> writer" where
  "SubAckProperties_encode p = block [
     write_prop REASON_STRING write_string (subackprop_reason_string p),
     write_user_properties (subackprop_user_properties p)]"

text \<open>What the types of the fields guarantee, and the limits of the length prefixes.\<close>

definition SubAckProperties_ok :: "SubAckProperties \<Rightarrow> bool" where
  "SubAckProperties_ok p \<longleftrightarrow>
     opt_ok str_ok (subackprop_reason_string p) \<and>
     pairs_ok (subackprop_user_properties p)"

definition SubAckProperties_wire :: "SubAckProperties \<Rightarrow> bytes" where
  "SubAckProperties_wire p =
     wire_opt REASON_STRING str_wire (subackprop_reason_string p)
   @ users_wire (subackprop_user_properties p)"

interpretation subackprop_loop: properties_loop SubAckProperties_step SubAckProperties_loop
  by unfold_locales (rule SubAckProperties_loop.simps, rule SubAckProperties_step_shrinks)

lemma SubAckProperties_fields:
  shows "subackprop_reason_string p = None \<Longrightarrow> opt_ok str_ok vs \<Longrightarrow>
    SubAckProperties_loop p (wire_opt REASON_STRING str_wire vs @ rest)
    = SubAckProperties_loop (p\<lparr>subackprop_reason_string := vs\<rparr>) rest"
  by (rule subackprop_loop.loop_opt; simp add: SubAckProperties_step_def wire identifier_ok_def)+

lemma SubAckProperties_users:
  assumes "pairs_ok kvs"
  shows "SubAckProperties_loop p (users_wire kvs @ rest)
    = SubAckProperties_loop (p\<lparr>subackprop_user_properties := subackprop_user_properties p @ kvs\<rparr>) rest"
proof -
  have "fold (\<lambda>kv p. p\<lparr>subackprop_user_properties := subackprop_user_properties p @ [kv]\<rparr>) kvs p
    = p\<lparr>subackprop_user_properties := subackprop_user_properties p @ kvs\<rparr>" for kvs and p :: SubAckProperties
    by (induction kvs arbitrary: p) simp_all
  then show ?thesis
    using assms subackprop_loop.loop_users [where kvs = kvs and p = p and rest = rest
        and upd = "\<lambda>kv p. p\<lparr>subackprop_user_properties := subackprop_user_properties p @ [kv]\<rparr>"]
    by (simp add: SubAckProperties_step_def wire)
qed

lemmas SubAckProperties_decode_rules =
  SubAckProperties_fields SubAckProperties_users subackprop_loop.loop_Nil
  SubAckProperties_fields [where rest = "[]", simplified]
      SubAckProperties_users [where rest = "[]", simplified]

interpretation subackprop_codec: properties_codec SubAckProperties_step SubAckProperties_loop
  SubAckProperties_default SubAckProperties_encode SubAckProperties_bytes_length
  SubAckProperties_wire SubAckProperties_ok "\<lambda>_. True"
proof unfold_locales
  fix p q flag data data'
  show "SubAckProperties_ok p \<Longrightarrow> SubAckProperties_encode p = put_slice (SubAckProperties_wire p)"
    by (simp add: SubAckProperties_encode_def SubAckProperties_wire_def SubAckProperties_ok_def wire identifier_writers)
  show "SubAckProperties_bytes_length p = Inr (length (SubAckProperties_wire p))"
    by (simp add: SubAckProperties_bytes_length_def SubAckProperties_wire_def)
  show "SubAckProperties_ok p \<Longrightarrow> SubAckProperties_loop SubAckProperties_default (SubAckProperties_wire p) = Inr p"
    by (simp add: SubAckProperties_wire_def SubAckProperties_default_def SubAckProperties_ok_def SubAckProperties_decode_rules)
  show "SubAckProperties_ok SubAckProperties_default"
    by (simp add: SubAckProperties_ok_def SubAckProperties_default_def)
  show "SubAckProperties_ok p \<Longrightarrow> SubAckProperties_step flag p data = Inr (q, data') \<Longrightarrow> SubAckProperties_ok q"
    by (auto simp: SubAckProperties_ok_def SubAckProperties_step_def and_then_Inr_iff
        split: if_splits dest!: read_string_ok read_binary_ok read_identifier_ok)
qed

text \<open>The properties a packet can announce and carry.\<close>

definition SubAckProperties_fits :: "SubAckProperties \<Rightarrow> bool" where
  "SubAckProperties_fits p \<longleftrightarrow> SubAckProperties_ok p \<and>
     length (SubAckProperties_wire p) < 268435455"

lemma SubAckProperties_length_wire [wire]:
  "SubAckProperties_fits p \<Longrightarrow> SubAckProperties_bytes_length p = Inr (length (SubAckProperties_wire p))"
  by (rule subackprop_codec.length_wire) (auto simp: SubAckProperties_fits_def)

lemma SubAckProperties_fits_length: "SubAckProperties_fits p \<Longrightarrow> length (SubAckProperties_wire p) < 268435455"
  by (simp add: SubAckProperties_fits_def)

lemma SubAckProperties_encode_block:
  "SubAckProperties_fits p \<Longrightarrow>
   block [let_ok (SubAckProperties_bytes_length p) write_remaining_length, SubAckProperties_encode p]
   = put_slice (props_wire (SubAckProperties_wire p))"
  by (rule subackprop_codec.encode_block) (auto simp: SubAckProperties_fits_def)

lemma SubAckProperties_decode_wire [wire]:
  "SubAckProperties_fits p \<Longrightarrow> SubAckProperties_decode (SubAckProperties_wire p) = Inr p"
  by (simp add: SubAckProperties_decode_def SubAckProperties_fits_def subackprop_codec.decode_wire)

lemma SubAckProperties_decode_wf: "SubAckProperties_decode data = Inr p \<Longrightarrow> SubAckProperties_ok p"
  unfolding SubAckProperties_decode_def by (rule subackprop_codec.decode_wf)

subsection \<open>Reason codes\<close>

datatype SubscribeReasonCode =
    QoS0
  | QoS1
  | QoS2
  | Unspecified
  | ImplementationSpecific
  | NotAuthorized
  | TopicFilterInvalid
  | PkidInUse
  | QuotaExceeded
  | SharedSubscriptionsNotSupported
  | SubscriptionIdNotSupported
  | WildcardSubscriptionsNotSupported

fun SubscribeReasonCode_u8 :: "SubscribeReasonCode \<Rightarrow> u8" where
  "SubscribeReasonCode_u8 SubscribeReasonCode.QoS0 = 0"
| "SubscribeReasonCode_u8 SubscribeReasonCode.QoS1 = 1"
| "SubscribeReasonCode_u8 SubscribeReasonCode.QoS2 = 2"
| "SubscribeReasonCode_u8 SubscribeReasonCode.Unspecified = 128"
| "SubscribeReasonCode_u8 SubscribeReasonCode.ImplementationSpecific = 131"
| "SubscribeReasonCode_u8 SubscribeReasonCode.NotAuthorized = 135"
| "SubscribeReasonCode_u8 SubscribeReasonCode.TopicFilterInvalid = 143"
| "SubscribeReasonCode_u8 SubscribeReasonCode.PkidInUse = 145"
| "SubscribeReasonCode_u8 SubscribeReasonCode.QuotaExceeded = 151"
| "SubscribeReasonCode_u8 SubscribeReasonCode.SharedSubscriptionsNotSupported = 158"
| "SubscribeReasonCode_u8 SubscribeReasonCode.SubscriptionIdNotSupported = 161"
| "SubscribeReasonCode_u8 SubscribeReasonCode.WildcardSubscriptionsNotSupported = 162"

definition SubscribeReasonCode_variants :: "SubscribeReasonCode list" where
  "SubscribeReasonCode_variants = [
     SubscribeReasonCode.QoS0, SubscribeReasonCode.QoS1, SubscribeReasonCode.QoS2,
     SubscribeReasonCode.Unspecified, SubscribeReasonCode.ImplementationSpecific,
     SubscribeReasonCode.NotAuthorized, SubscribeReasonCode.TopicFilterInvalid,
     SubscribeReasonCode.PkidInUse, SubscribeReasonCode.QuotaExceeded,
     SubscribeReasonCode.SharedSubscriptionsNotSupported,
     SubscribeReasonCode.SubscriptionIdNotSupported,
     SubscribeReasonCode.WildcardSubscriptionsNotSupported]"

definition SubscribeReasonCode_try_from :: "u8 \<Rightarrow> SubscribeReasonCode option" where
  "SubscribeReasonCode_try_from = try_from_primitive SubscribeReasonCode_u8 SubscribeReasonCode_variants"

interpretation SubscribeReasonCode_enum: primitive_enum SubscribeReasonCode_u8 SubscribeReasonCode_variants
proof (rule primitive_enumI)
  show "c \<in> set SubscribeReasonCode_variants" for c by (cases c) (simp_all add: SubscribeReasonCode_variants_def)
qed (simp add: SubscribeReasonCode_variants_def)

lemma SubscribeReasonCode_roundtrip [wire]: "SubscribeReasonCode_try_from (SubscribeReasonCode_u8 c) = Some c"
  unfolding SubscribeReasonCode_try_from_def by (rule SubscribeReasonCode_enum.roundtrip)

definition SubscribeReasonCode_is_success :: "SubscribeReasonCode \<Rightarrow> bool" where
  "SubscribeReasonCode_is_success c \<longleftrightarrow> SubscribeReasonCode_u8 c < 0x80"

fun SubscribeReasonCode_qos :: "SubscribeReasonCode \<Rightarrow> Qos option" where
  "SubscribeReasonCode_qos SubscribeReasonCode.QoS0 = Some AtMostOnce"
| "SubscribeReasonCode_qos SubscribeReasonCode.QoS1 = Some AtLeastOnce"
| "SubscribeReasonCode_qos SubscribeReasonCode.QoS2 = Some ExactlyOnce"
| "SubscribeReasonCode_qos _ = None"

datatype SubscribeReasonCodeV4 =
    QoS0
  | QoS1
  | QoS2
  | Failure

fun SubscribeReasonCodeV4_u8 :: "SubscribeReasonCodeV4 \<Rightarrow> u8" where
  "SubscribeReasonCodeV4_u8 SubscribeReasonCodeV4.QoS0 = 0"
| "SubscribeReasonCodeV4_u8 SubscribeReasonCodeV4.QoS1 = 1"
| "SubscribeReasonCodeV4_u8 SubscribeReasonCodeV4.QoS2 = 2"
| "SubscribeReasonCodeV4_u8 SubscribeReasonCodeV4.Failure = 128"

definition SubscribeReasonCodeV4_variants :: "SubscribeReasonCodeV4 list" where
  "SubscribeReasonCodeV4_variants = [
     SubscribeReasonCodeV4.QoS0, SubscribeReasonCodeV4.QoS1, SubscribeReasonCodeV4.QoS2,
     SubscribeReasonCodeV4.Failure]"

definition SubscribeReasonCodeV4_try_from :: "u8 \<Rightarrow> SubscribeReasonCodeV4 option" where
  "SubscribeReasonCodeV4_try_from = try_from_primitive SubscribeReasonCodeV4_u8 SubscribeReasonCodeV4_variants"

interpretation SubscribeReasonCodeV4_enum: primitive_enum SubscribeReasonCodeV4_u8 SubscribeReasonCodeV4_variants
proof (rule primitive_enumI)
  show "c \<in> set SubscribeReasonCodeV4_variants" for c by (cases c) (simp_all add: SubscribeReasonCodeV4_variants_def)
qed (simp add: SubscribeReasonCodeV4_variants_def)

lemma SubscribeReasonCodeV4_roundtrip [wire]: "SubscribeReasonCodeV4_try_from (SubscribeReasonCodeV4_u8 c) = Some c"
  unfolding SubscribeReasonCodeV4_try_from_def by (rule SubscribeReasonCodeV4_enum.roundtrip)

fun SubscribeReasonCode_from_V4 :: "SubscribeReasonCodeV4 \<Rightarrow> SubscribeReasonCode" where
  "SubscribeReasonCode_from_V4 SubscribeReasonCodeV4.QoS0 = SubscribeReasonCode.QoS0"
| "SubscribeReasonCode_from_V4 SubscribeReasonCodeV4.QoS1 = SubscribeReasonCode.QoS1"
| "SubscribeReasonCode_from_V4 SubscribeReasonCodeV4.QoS2 = SubscribeReasonCode.QoS2"
| "SubscribeReasonCode_from_V4 SubscribeReasonCodeV4.Failure = SubscribeReasonCode.Unspecified"

definition SubscribeReasonCode_to_V4 :: "SubscribeReasonCode \<Rightarrow> SubscribeReasonCodeV4" where
  "SubscribeReasonCode_to_V4 reason_code =
     (case reason_code of
        SubscribeReasonCode.QoS0 \<Rightarrow> SubscribeReasonCodeV4.QoS0
      | SubscribeReasonCode.QoS1 \<Rightarrow> SubscribeReasonCodeV4.QoS1
      | SubscribeReasonCode.QoS2 \<Rightarrow> SubscribeReasonCodeV4.QoS2
      | _ \<Rightarrow> SubscribeReasonCodeV4.Failure)"

subsection \<open>SubAck\<close>

record SubAck =
  suback_packet_id :: u16
  suback_reason_codes :: "SubscribeReasonCode list"
  suback_properties :: SubAckProperties

definition SubAck_variable_header_length :: "SubAck \<Rightarrow> ProtocolLevel \<Rightarrow> EncodeError + nat" where
  "SubAck_variable_header_length p level =
     (let len = 2 in
      if level = V5 then
        and_then (SubAckProperties_bytes_length (suback_properties p)) (\<lambda>properties_len.
        and_then (props_size properties_len) (\<lambda>n. Inr (len + n)))
      else Inr len)"

definition SubAck_payload_length :: "SubAck \<Rightarrow> ProtocolLevel \<Rightarrow> EncodeError + nat" where
  "SubAck_payload_length p level = Inr (length (suback_reason_codes p))"

definition SubAck_size :: "ProtocolLevel \<Rightarrow> SubAck \<Rightarrow> EncodeError + nat" where
  "SubAck_size level p =
     and_then (SubAck_variable_header_length p level) (\<lambda>a.
     and_then (SubAck_payload_length p level) (\<lambda>b. Inr (a + b)))"

definition SubAck_encode_body :: "ProtocolLevel \<Rightarrow> SubAck \<Rightarrow> writer" where
  "SubAck_encode_body level p = block [
     put_u16 (suback_packet_id p),
     if_true (level = V5) (block [
       let_ok (SubAckProperties_bytes_length (suback_properties p)) write_remaining_length,
       SubAckProperties_encode (suback_properties p)]),
     for_each (\<lambda>code.
       (case level of
          V4 \<Rightarrow> put_u8 (SubscribeReasonCodeV4_u8 (SubscribeReasonCode_to_V4 code))
        | V5 \<Rightarrow> put_u8 (SubscribeReasonCode_u8 code))) (suback_reason_codes p)]"

definition SubAck_encode :: "SubAck \<Rightarrow> ProtocolLevel \<Rightarrow> nat \<Rightarrow> writer" where
  "SubAck_encode p level max_size = block [
     put_u8 (push_bit 4 SUBACK),
     let_ok (SubAck_size level p) (\<lambda>size. block [
       ensure_w (size < max_size) EncodeError.PacketTooLarge,
       write_remaining_length size,
       SubAck_encode_body level p])]"

text \<open>The loop over the reason codes.\<close>

fun SubAck_reason_codes_loop ::
  "ProtocolLevel \<Rightarrow> SubscribeReasonCode list \<Rightarrow> bytes \<Rightarrow> DecodeError + SubscribeReasonCode list" where
  "SubAck_reason_codes_loop level reason_codes [] = Inr reason_codes"
| "SubAck_reason_codes_loop level reason_codes (n_reason_code # data) =
     (case level of
        V4 \<Rightarrow>
          and_then (ok_or (InvalidSubAckReasonCode n_reason_code)
            (SubscribeReasonCodeV4_try_from n_reason_code)) (\<lambda>code.
          SubAck_reason_codes_loop level (reason_codes @ [SubscribeReasonCode_from_V4 code]) data)
      | V5 \<Rightarrow>
          and_then (ok_or (InvalidSubAckReasonCode n_reason_code)
            (SubscribeReasonCode_try_from n_reason_code)) (\<lambda>code.
          SubAck_reason_codes_loop level (reason_codes @ [code]) data))"

definition SubAck_decode :: "bytes \<Rightarrow> ProtocolLevel \<Rightarrow> DecodeError + SubAck" where
  "SubAck_decode data level =
     and_then (read_packet_id data) (\<lambda>(packet_id, data).
     and_then
       (if level = V5 then read_properties SubAckProperties_decode data
        else Inr (SubAckProperties_default, data)) (\<lambda>(properties, data).
     and_then (SubAck_reason_codes_loop level [] data) (\<lambda>reason_codes.
     Inr \<lparr>suback_packet_id = packet_id, suback_reason_codes = reason_codes,
          suback_properties = properties\<rparr>)))"

text \<open>The wire format.\<close>

definition SubAck_code_wire :: "ProtocolLevel \<Rightarrow> SubscribeReasonCode \<Rightarrow> u8" where
  "SubAck_code_wire level code =
     (case level of V4 \<Rightarrow> SubscribeReasonCodeV4_u8 (SubscribeReasonCode_to_V4 code)
      | V5 \<Rightarrow> SubscribeReasonCode_u8 code)"

definition SubAck_code_norm :: "ProtocolLevel \<Rightarrow> SubscribeReasonCode \<Rightarrow> SubscribeReasonCode" where
  "SubAck_code_norm level code =
     (case level of V4 \<Rightarrow> SubscribeReasonCode_from_V4 (SubscribeReasonCode_to_V4 code) | V5 \<Rightarrow> code)"

definition SubAck_body :: "ProtocolLevel \<Rightarrow> SubAck \<Rightarrow> bytes" where
  "SubAck_body level p = be16 (suback_packet_id p)
   @ (if level = V5 then props_wire (SubAckProperties_wire (suback_properties p)) else [])
   @ map (SubAck_code_wire level) (suback_reason_codes p)"

definition SubAck_ok :: "ProtocolLevel \<Rightarrow> SubAck \<Rightarrow> bool" where
  "SubAck_ok level p \<longleftrightarrow> suback_packet_id p \<noteq> 0 \<and>
     (level = V5 \<longrightarrow> SubAckProperties_fits (suback_properties p))"

definition SubAck_norm :: "ProtocolLevel \<Rightarrow> SubAck \<Rightarrow> SubAck" where
  "SubAck_norm level p =
     (case level of
        V4 \<Rightarrow> p\<lparr>suback_reason_codes := map (SubAck_code_norm V4) (suback_reason_codes p),
                suback_properties := SubAckProperties_default\<rparr>
      | V5 \<Rightarrow> p)"

definition SubAck_exact :: "ProtocolLevel \<Rightarrow> SubAck \<Rightarrow> bool" where
  "SubAck_exact level p \<longleftrightarrow>
     level = V5 \<longrightarrow> off_by_one (length (SubAckProperties_wire (suback_properties p))) = 0"

lemma SubAck_codes_wire:
  "SubAck_reason_codes_loop level acc (map (SubAck_code_wire level) codes)
   = Inr (acc @ map (SubAck_code_norm level) codes)"
  by (induction codes arbitrary: acc; cases level)
    (simp_all add: SubAck_code_wire_def SubAck_code_norm_def wire)

lemma SubAck_code_norm_V5: "SubAck_code_norm V5 = (\<lambda>code. code)"
  by (simp add: SubAck_code_norm_def fun_eq_iff)

lemma SubAck_codes_slice:
  "for_each (\<lambda>code.
       (case level of
          V4 \<Rightarrow> put_u8 (SubscribeReasonCodeV4_u8 (SubscribeReasonCode_to_V4 code))
        | V5 \<Rightarrow> put_u8 (SubscribeReasonCode_u8 code))) codes
   = put_slice (map (SubAck_code_wire level) codes)"
  using for_each_slice [where xs = codes and g = "\<lambda>code. [SubAck_code_wire level code]"]
  by (cases level) (simp_all add: SubAck_code_wire_def [abs_def] put_u8_def)

lemma SubAck_encode_body_wire:
  "SubAck_ok level p \<Longrightarrow> SubAck_encode_body level p = put_slice (SubAck_body level p)"
  unfolding SubAck_encode_body_def SubAck_codes_slice
  using SubAckProperties_encode_block [of "suback_properties p"]
  by (cases level) (auto simp: SubAck_body_def SubAck_ok_def wire)

lemma SubAck_decode_wire:
  "SubAck_ok level p \<Longrightarrow> SubAck_decode (SubAck_body level p) level = Inr (SubAck_norm level p)"
  using SubAckProperties_fits_length [of "suback_properties p"]
  by (cases level; cases p)
    (auto simp: SubAck_decode_def SubAck_body_def SubAck_ok_def SubAck_norm_def SubAck_codes_wire
      SubAck_code_norm_V5 wire)

lemma SubAck_decode_wf:
  assumes "SubAck_decode data level = Inr p"
  shows "suback_packet_id p \<noteq> 0" "SubAckProperties_ok (suback_properties p)"
  using assms SubAckProperties_decode_wf subackprop_codec.wf_initial
  by (auto simp: SubAck_decode_def and_then_Inr_iff split: if_splits
      dest: read_packet_id_ok elim!: read_properties_ok)

lemma SubAck_size_eq:
  "SubAck_ok level p \<Longrightarrow> SubAck_exact level p \<Longrightarrow> SubAck_size level p = Inr (length (SubAck_body level p))"
  using SubAckProperties_fits_length [of "suback_properties p"]
  by (cases level)
    (simp_all add: SubAck_size_def SubAck_variable_header_length_def SubAck_payload_length_def SubAck_body_def
      SubAck_ok_def SubAck_exact_def wire )


interpretation suback: packet_codec "\<lambda>_. push_bit 4 SUBACK" SubAck_size SubAck_encode
  "\<lambda>data level flag. SubAck_decode data level" SubAck_body SubAck_ok SubAck_norm "(<)"
  by unfold_locales
    (simp_all add: SubAck_encode_def framed_def SubAck_encode_body_wire SubAck_decode_wire
      del: push_bit_numeral cong del: let_ok_cong)

end
