(* ===== verification/Packet_Unsubscribe.thy ===== *)
theory Packet_Unsubscribe
  imports Codec_Properties
begin

text \<open>
  \<open>libs/codec/src/unsubscribe.rs\<close>: the UNSUBSCRIBE packet.
\<close>

unbundle bit_operations_syntax

subsection \<open>UnsubscribeProperties\<close>

record UnsubscribeProperties =
  unsubprop_user_properties :: "(string \<times> string) list"

definition UnsubscribeProperties_default :: UnsubscribeProperties where
  "UnsubscribeProperties_default = \<lparr>unsubprop_user_properties = []\<rparr>"

definition UnsubscribeProperties_bytes_length :: "UnsubscribeProperties \<Rightarrow> EncodeError + nat" where
  "UnsubscribeProperties_bytes_length p = Inr (
     user_properties_len (unsubprop_user_properties p))"

definition UnsubscribeProperties_step :: "u8 \<Rightarrow> UnsubscribeProperties \<Rightarrow> UnsubscribeProperties reader" where
  "UnsubscribeProperties_step flag p data =
    (if flag = USER_PROPERTY then
       and_then (read_string data) (\<lambda>(key, data).
       and_then (read_string data) (\<lambda>(value, data).
       Inr (p\<lparr>unsubprop_user_properties := unsubprop_user_properties p @ [(key, value)]\<rparr>, data)))
     else Inl (InvalidUnsubscribeProperty flag))"

lemma UnsubscribeProperties_step_shrinks [shrinks]:
  "UnsubscribeProperties_step flag p data = Inr (p', data') \<Longrightarrow> length data' \<le> length data"
  by (auto simp: UnsubscribeProperties_step_def and_then_Inr_iff split: if_splits dest!: shrinks)

function UnsubscribeProperties_loop :: "UnsubscribeProperties \<Rightarrow> bytes \<Rightarrow> DecodeError + UnsubscribeProperties" where
  "UnsubscribeProperties_loop p data =
     (if data = [] then Inr p
      else and_then (read_u8 data) (\<lambda>(flag, data).
           and_then (UnsubscribeProperties_step flag p data) (\<lambda>(p, data). UnsubscribeProperties_loop p data)))"
  by pat_completeness auto
termination by (relation "measure (\<lambda>(p, data). length data)") (auto dest!: shrinks)

declare UnsubscribeProperties_loop.simps [simp del]

definition UnsubscribeProperties_decode :: "bytes \<Rightarrow> DecodeError + UnsubscribeProperties" where
  "UnsubscribeProperties_decode data = UnsubscribeProperties_loop UnsubscribeProperties_default data"

definition UnsubscribeProperties_encode :: "UnsubscribeProperties \<Rightarrow> writer" where
  "UnsubscribeProperties_encode p = block [
     write_user_properties (unsubprop_user_properties p)]"

text \<open>What the types of the fields guarantee, and the limits of the length prefixes.\<close>

definition UnsubscribeProperties_ok :: "UnsubscribeProperties \<Rightarrow> bool" where
  "UnsubscribeProperties_ok p \<longleftrightarrow>
     pairs_ok (unsubprop_user_properties p)"

definition UnsubscribeProperties_wire :: "UnsubscribeProperties \<Rightarrow> bytes" where
  "UnsubscribeProperties_wire p =
     users_wire (unsubprop_user_properties p)"

interpretation unsubprop_loop: properties_loop UnsubscribeProperties_step UnsubscribeProperties_loop
  by unfold_locales (rule UnsubscribeProperties_loop.simps, rule UnsubscribeProperties_step_shrinks)

lemma UnsubscribeProperties_users:
  assumes "pairs_ok kvs"
  shows "UnsubscribeProperties_loop p (users_wire kvs @ rest)
    = UnsubscribeProperties_loop (p\<lparr>unsubprop_user_properties := unsubprop_user_properties p @ kvs\<rparr>) rest"
proof -
  have "fold (\<lambda>kv p. p\<lparr>unsubprop_user_properties := unsubprop_user_properties p @ [kv]\<rparr>) kvs p
    = p\<lparr>unsubprop_user_properties := unsubprop_user_properties p @ kvs\<rparr>" for kvs and p :: UnsubscribeProperties
    by (induction kvs arbitrary: p) simp_all
  then show ?thesis
    using assms unsubprop_loop.loop_users [where kvs = kvs and p = p and rest = rest
        and upd = "\<lambda>kv p. p\<lparr>unsubprop_user_properties := unsubprop_user_properties p @ [kv]\<rparr>"]
    by (simp add: UnsubscribeProperties_step_def wire)
qed

lemmas UnsubscribeProperties_decode_rules =
  UnsubscribeProperties_users unsubprop_loop.loop_Nil
  UnsubscribeProperties_users [where rest = "[]", simplified]

interpretation unsubprop_codec: properties_codec UnsubscribeProperties_step UnsubscribeProperties_loop
  UnsubscribeProperties_default UnsubscribeProperties_encode UnsubscribeProperties_bytes_length
  UnsubscribeProperties_wire UnsubscribeProperties_ok "\<lambda>_. True"
proof unfold_locales
  fix p q flag data data'
  show "UnsubscribeProperties_ok p \<Longrightarrow> UnsubscribeProperties_encode p = put_slice (UnsubscribeProperties_wire p)"
    by (simp add: UnsubscribeProperties_encode_def UnsubscribeProperties_wire_def UnsubscribeProperties_ok_def wire identifier_writers)
  show "UnsubscribeProperties_bytes_length p = Inr (length (UnsubscribeProperties_wire p))"
    by (simp add: UnsubscribeProperties_bytes_length_def UnsubscribeProperties_wire_def)
  show "UnsubscribeProperties_ok p \<Longrightarrow> UnsubscribeProperties_loop UnsubscribeProperties_default (UnsubscribeProperties_wire p) = Inr p"
    by (simp add: UnsubscribeProperties_wire_def UnsubscribeProperties_default_def UnsubscribeProperties_ok_def UnsubscribeProperties_decode_rules)
  show "UnsubscribeProperties_ok UnsubscribeProperties_default"
    by (simp add: UnsubscribeProperties_ok_def UnsubscribeProperties_default_def)
  show "UnsubscribeProperties_ok p \<Longrightarrow> UnsubscribeProperties_step flag p data = Inr (q, data') \<Longrightarrow> UnsubscribeProperties_ok q"
    by (auto simp: UnsubscribeProperties_ok_def UnsubscribeProperties_step_def and_then_Inr_iff
        split: if_splits dest!: read_string_ok read_binary_ok read_identifier_ok)
qed

text \<open>The properties a packet can announce and carry.\<close>

definition UnsubscribeProperties_fits :: "UnsubscribeProperties \<Rightarrow> bool" where
  "UnsubscribeProperties_fits p \<longleftrightarrow> UnsubscribeProperties_ok p \<and>
     length (UnsubscribeProperties_wire p) < 268435455"

lemma UnsubscribeProperties_length_wire [wire]:
  "UnsubscribeProperties_fits p \<Longrightarrow> UnsubscribeProperties_bytes_length p = Inr (length (UnsubscribeProperties_wire p))"
  by (rule unsubprop_codec.length_wire) (auto simp: UnsubscribeProperties_fits_def)

lemma UnsubscribeProperties_fits_length: "UnsubscribeProperties_fits p \<Longrightarrow> length (UnsubscribeProperties_wire p) < 268435455"
  by (simp add: UnsubscribeProperties_fits_def)

lemma UnsubscribeProperties_encode_block:
  "UnsubscribeProperties_fits p \<Longrightarrow>
   block [let_ok (UnsubscribeProperties_bytes_length p) write_remaining_length, UnsubscribeProperties_encode p]
   = put_slice (props_wire (UnsubscribeProperties_wire p))"
  by (rule unsubprop_codec.encode_block) (auto simp: UnsubscribeProperties_fits_def)

lemma UnsubscribeProperties_decode_wire [wire]:
  "UnsubscribeProperties_fits p \<Longrightarrow> UnsubscribeProperties_decode (UnsubscribeProperties_wire p) = Inr p"
  by (simp add: UnsubscribeProperties_decode_def UnsubscribeProperties_fits_def unsubprop_codec.decode_wire)

lemma UnsubscribeProperties_decode_wf: "UnsubscribeProperties_decode data = Inr p \<Longrightarrow> UnsubscribeProperties_ok p"
  unfolding UnsubscribeProperties_decode_def by (rule unsubprop_codec.decode_wf)

subsection \<open>Unsubscribe\<close>

record Unsubscribe =
  unsubscribe_packet_id :: u16
  unsubscribe_filters :: "string list"
  unsubscribe_properties :: UnsubscribeProperties

definition Unsubscribe_variable_header_length :: "Unsubscribe \<Rightarrow> ProtocolLevel \<Rightarrow> EncodeError + nat" where
  "Unsubscribe_variable_header_length p level =
     (let len = 2 in
      if level = V5 then
        and_then (UnsubscribeProperties_bytes_length (unsubscribe_properties p)) (\<lambda>properties_len.
        and_then (props_size properties_len) (\<lambda>n. Inr (len + n)))
      else Inr len)"

definition Unsubscribe_payload_length :: "Unsubscribe \<Rightarrow> ProtocolLevel \<Rightarrow> EncodeError + nat" where
  "Unsubscribe_payload_length p level = Inr (sum_list (map (\<lambda>filter. 2 + length filter) (unsubscribe_filters p)))"

definition Unsubscribe_size :: "ProtocolLevel \<Rightarrow> Unsubscribe \<Rightarrow> EncodeError + nat" where
  "Unsubscribe_size level p =
     and_then (Unsubscribe_variable_header_length p level) (\<lambda>a.
     and_then (Unsubscribe_payload_length p level) (\<lambda>b. Inr (a + b)))"

text \<open>The loop over the filters.\<close>

function Unsubscribe_filters_loop :: "string list \<Rightarrow> bytes \<Rightarrow> DecodeError + string list" where
  "Unsubscribe_filters_loop filters data =
     (if data = [] then Inr filters
      else and_then (read_string data) (\<lambda>(path, data).
           Unsubscribe_filters_loop (filters @ [path]) data))"
  by pat_completeness auto
termination by (relation "measure (\<lambda>(filters, data). length data)") (auto dest!: shrinks)

declare Unsubscribe_filters_loop.simps [simp del]

definition Unsubscribe_decode :: "bytes \<Rightarrow> ProtocolLevel \<Rightarrow> u8 \<Rightarrow> DecodeError + Unsubscribe" where
  "Unsubscribe_decode data level flags =
     (if flags AND 0x0f \<noteq> 0b0010 then Inl DecodeError.MalformedPacket
      else
     and_then (read_packet_id data) (\<lambda>(packet_id, data).
     and_then
       (if level = V5 then read_properties UnsubscribeProperties_decode data
        else Inr (UnsubscribeProperties_default, data)) (\<lambda>(properties, data).
     and_then (Unsubscribe_filters_loop [] data) (\<lambda>filters.
     Inr \<lparr>unsubscribe_packet_id = packet_id, unsubscribe_filters = filters,
          unsubscribe_properties = properties\<rparr>))))"

definition Unsubscribe_encode_body :: "ProtocolLevel \<Rightarrow> Unsubscribe \<Rightarrow> writer" where
  "Unsubscribe_encode_body level p = block [
     put_u16 (unsubscribe_packet_id p),
     if_true (level = V5) (block [
       let_ok (UnsubscribeProperties_bytes_length (unsubscribe_properties p)) write_remaining_length,
       UnsubscribeProperties_encode (unsubscribe_properties p)]),
     for_each write_string (unsubscribe_filters p)]"

definition Unsubscribe_encode :: "Unsubscribe \<Rightarrow> ProtocolLevel \<Rightarrow> nat \<Rightarrow> writer" where
  "Unsubscribe_encode p level max_size = block [
     put_u8 (push_bit 4 UNSUBSCRIBE OR 0b0010),
     let_ok (Unsubscribe_size level p) (\<lambda>size. block [
       ensure_w (size < max_size) EncodeError.PacketTooLarge,
       write_remaining_length size,
       Unsubscribe_encode_body level p])]"

text \<open>The wire format.\<close>

definition Unsubscribe_body :: "ProtocolLevel \<Rightarrow> Unsubscribe \<Rightarrow> bytes" where
  "Unsubscribe_body level p = be16 (unsubscribe_packet_id p)
   @ (if level = V5 then props_wire (UnsubscribeProperties_wire (unsubscribe_properties p)) else [])
   @ concat (map str_wire (unsubscribe_filters p))"

definition Unsubscribe_ok :: "ProtocolLevel \<Rightarrow> Unsubscribe \<Rightarrow> bool" where
  "Unsubscribe_ok level p \<longleftrightarrow> unsubscribe_packet_id p \<noteq> 0 \<and>
     list_all str_ok (unsubscribe_filters p) \<and>
     (level = V5 \<longrightarrow> UnsubscribeProperties_fits (unsubscribe_properties p))"

definition Unsubscribe_norm :: "ProtocolLevel \<Rightarrow> Unsubscribe \<Rightarrow> Unsubscribe" where
  "Unsubscribe_norm level p =
     (case level of
        V4 \<Rightarrow> p\<lparr>unsubscribe_properties := UnsubscribeProperties_default\<rparr> | V5 \<Rightarrow> p)"

definition Unsubscribe_exact :: "ProtocolLevel \<Rightarrow> Unsubscribe \<Rightarrow> bool" where
  "Unsubscribe_exact level p \<longleftrightarrow>
     level = V5 \<longrightarrow> off_by_one (length (UnsubscribeProperties_wire (unsubscribe_properties p))) = 0"

lemma Unsubscribe_filters_wire:
  "list_all str_ok filters \<Longrightarrow>
   Unsubscribe_filters_loop acc (concat (map str_wire filters)) = Inr (acc @ filters)"
proof (induction filters arbitrary: acc)
  case Nil
  then show ?case by (simp add: Unsubscribe_filters_loop.simps [of acc "[]"])
next
  case (Cons s filters)
  then show ?case
    by (simp add: Unsubscribe_filters_loop.simps [of acc "str_wire s @ _"] wire)
qed

lemma Unsubscribe_filters_wf:
  "Unsubscribe_filters_loop acc data = Inr filters \<Longrightarrow> list_all str_ok acc \<Longrightarrow> list_all str_ok filters"
proof (induction acc data rule: Unsubscribe_filters_loop.induct)
  case (1 acc data)
  show ?case
  proof (cases "data = []")
    case True
    with "1.prems" show ?thesis by (simp add: Unsubscribe_filters_loop.simps [of acc])
  next
    case False
    with "1.prems" obtain path rest where "read_string data = Inr (path, rest)"
      "Unsubscribe_filters_loop (acc @ [path]) rest = Inr filters"
      by (auto simp: Unsubscribe_filters_loop.simps [of acc] and_then_Inr_iff)
    with 1 False show ?thesis by (auto dest: read_string_ok)
  qed
qed

lemma Unsubscribe_encode_body_wire:
  "Unsubscribe_ok level p \<Longrightarrow> Unsubscribe_encode_body level p = put_slice (Unsubscribe_body level p)"
  using UnsubscribeProperties_encode_block [of "unsubscribe_properties p"]
    for_each_slice [of "unsubscribe_filters p" write_string str_wire]
  by (cases level)
    (auto simp: Unsubscribe_encode_body_def Unsubscribe_body_def Unsubscribe_ok_def wire list_all_iff)

lemma Unsubscribe_decode_wire:
  "Unsubscribe_ok level p \<Longrightarrow>
   Unsubscribe_decode (Unsubscribe_body level p) level (push_bit 4 UNSUBSCRIBE OR 0b0010)
   = Inr (Unsubscribe_norm level p)"
  using UnsubscribeProperties_fits_length [of "unsubscribe_properties p"]
  by (cases level; cases p)
    (auto simp: Unsubscribe_decode_def Unsubscribe_body_def Unsubscribe_ok_def Unsubscribe_norm_def
      Unsubscribe_filters_wire wire)

lemma Unsubscribe_decode_wf:
  assumes "Unsubscribe_decode data level flags = Inr p"
  shows "unsubscribe_packet_id p \<noteq> 0" "UnsubscribeProperties_ok (unsubscribe_properties p)"
    "list_all str_ok (unsubscribe_filters p)"
  using assms UnsubscribeProperties_decode_wf unsubprop_codec.wf_initial Unsubscribe_filters_wf
  by (auto simp: Unsubscribe_decode_def and_then_Inr_iff split: if_splits
      dest: read_packet_id_ok elim!: read_properties_ok)

lemma length_filters_wire:
  "length (concat (map str_wire filters)) = sum_list (map (\<lambda>filter. 2 + length filter) filters)"
  by (simp add: length_concat comp_def)

lemma Unsubscribe_size_eq:
  "Unsubscribe_ok level p \<Longrightarrow> Unsubscribe_exact level p \<Longrightarrow> Unsubscribe_size level p = Inr (length (Unsubscribe_body level p))"
  using UnsubscribeProperties_fits_length [of "unsubscribe_properties p"]
  by (cases level)
    (simp_all add: Unsubscribe_size_def Unsubscribe_variable_header_length_def Unsubscribe_payload_length_def Unsubscribe_body_def
      Unsubscribe_ok_def Unsubscribe_exact_def wire length_filters_wire del: length_concat)


interpretation unsubscribe: packet_codec "\<lambda>_. push_bit 4 UNSUBSCRIBE OR 0b0010" Unsubscribe_size Unsubscribe_encode
  "Unsubscribe_decode" Unsubscribe_body Unsubscribe_ok Unsubscribe_norm "(<)"
  by unfold_locales
    (simp_all add: Unsubscribe_encode_def framed_def Unsubscribe_encode_body_wire Unsubscribe_decode_wire
      del: push_bit_numeral cong del: let_ok_cong)

end
