(* ===== verification/Packet_UnsubAck.thy ===== *)
theory Packet_UnsubAck
  imports Codec_Properties
begin

text \<open>
  \<open>libs/codec/src/unsuback.rs\<close>: the UNSUBACK packet, which has reason codes only at level 5.
\<close>

unbundle bit_operations_syntax

subsection \<open>UnsubAckReasonCode and UnsubAckProperties\<close>

datatype UnsubAckReasonCode =
    Success
  | NoSubscriptionExisted
  | UnspecifiedError
  | ImplementationSpecificError
  | NotAuthorized
  | TopicFilterInvalid
  | PacketIdentifierInUse

fun UnsubAckReasonCode_u8 :: "UnsubAckReasonCode \<Rightarrow> u8" where
  "UnsubAckReasonCode_u8 UnsubAckReasonCode.Success = 0x00"
| "UnsubAckReasonCode_u8 UnsubAckReasonCode.NoSubscriptionExisted = 0x11"
| "UnsubAckReasonCode_u8 UnsubAckReasonCode.UnspecifiedError = 0x80"
| "UnsubAckReasonCode_u8 UnsubAckReasonCode.ImplementationSpecificError = 0x83"
| "UnsubAckReasonCode_u8 UnsubAckReasonCode.NotAuthorized = 0x87"
| "UnsubAckReasonCode_u8 UnsubAckReasonCode.TopicFilterInvalid = 0x8F"
| "UnsubAckReasonCode_u8 UnsubAckReasonCode.PacketIdentifierInUse = 0x91"

definition UnsubAckReasonCode_variants :: "UnsubAckReasonCode list" where
  "UnsubAckReasonCode_variants = [
     UnsubAckReasonCode.Success, UnsubAckReasonCode.NoSubscriptionExisted,
     UnsubAckReasonCode.UnspecifiedError,
     UnsubAckReasonCode.ImplementationSpecificError, UnsubAckReasonCode.NotAuthorized,
     UnsubAckReasonCode.TopicFilterInvalid, UnsubAckReasonCode.PacketIdentifierInUse]"

definition UnsubAckReasonCode_try_from :: "u8 \<Rightarrow> UnsubAckReasonCode option" where
  "UnsubAckReasonCode_try_from = try_from_primitive UnsubAckReasonCode_u8 UnsubAckReasonCode_variants"

interpretation UnsubAckReasonCode_enum: primitive_enum UnsubAckReasonCode_u8 UnsubAckReasonCode_variants
proof (rule primitive_enumI)
  show "c \<in> set UnsubAckReasonCode_variants" for c by (cases c) (simp_all add: UnsubAckReasonCode_variants_def)
qed (simp add: UnsubAckReasonCode_variants_def)

lemma UnsubAckReasonCode_roundtrip [wire]: "UnsubAckReasonCode_try_from (UnsubAckReasonCode_u8 c) = Some c"
  unfolding UnsubAckReasonCode_try_from_def by (rule UnsubAckReasonCode_enum.roundtrip)

definition UnsubAckReasonCode_is_success :: "UnsubAckReasonCode \<Rightarrow> bool" where
  "UnsubAckReasonCode_is_success c \<longleftrightarrow> UnsubAckReasonCode_u8 c < 0x80"

record UnsubAckProperties =
  unsubackprop_reason_string :: "string option"
  unsubackprop_user_properties :: "(string \<times> string) list"

definition UnsubAckProperties_default :: UnsubAckProperties where
  "UnsubAckProperties_default = \<lparr>unsubackprop_reason_string = None, unsubackprop_user_properties = []\<rparr>"

definition UnsubAckProperties_bytes_length :: "UnsubAckProperties \<Rightarrow> EncodeError + nat" where
  "UnsubAckProperties_bytes_length p = Inr (
     prop_data_len (unsubackprop_reason_string p)
   + user_properties_len (unsubackprop_user_properties p))"

definition UnsubAckProperties_step :: "u8 \<Rightarrow> UnsubAckProperties \<Rightarrow> UnsubAckProperties reader" where
  "UnsubAckProperties_step flag p data =
    (if flag = REASON_STRING then
       and_then (read_string data) (\<lambda>(v, data). Inr (p\<lparr>unsubackprop_reason_string := Some v\<rparr>, data))
     else if flag = USER_PROPERTY then
       and_then (read_string data) (\<lambda>(key, data).
       and_then (read_string data) (\<lambda>(value, data).
       Inr (p\<lparr>unsubackprop_user_properties := unsubackprop_user_properties p @ [(key, value)]\<rparr>, data)))
     else Inl (InvalidUnsubAckProperty flag))"

lemma UnsubAckProperties_step_shrinks [shrinks]:
  "UnsubAckProperties_step flag p data = Inr (p', data') \<Longrightarrow> length data' \<le> length data"
  by (auto simp: UnsubAckProperties_step_def and_then_Inr_iff split: if_splits dest!: shrinks)

function UnsubAckProperties_loop :: "UnsubAckProperties \<Rightarrow> bytes \<Rightarrow> DecodeError + UnsubAckProperties" where
  "UnsubAckProperties_loop p data =
     (if data = [] then Inr p
      else and_then (read_u8 data) (\<lambda>(flag, data).
           and_then (UnsubAckProperties_step flag p data) (\<lambda>(p, data). UnsubAckProperties_loop p data)))"
  by pat_completeness auto
termination by (relation "measure (\<lambda>(p, data). length data)") (auto dest!: shrinks)

declare UnsubAckProperties_loop.simps [simp del]

definition UnsubAckProperties_decode :: "bytes \<Rightarrow> DecodeError + UnsubAckProperties" where
  "UnsubAckProperties_decode data = UnsubAckProperties_loop UnsubAckProperties_default data"

definition UnsubAckProperties_encode :: "UnsubAckProperties \<Rightarrow> writer" where
  "UnsubAckProperties_encode p = block [
     write_prop REASON_STRING write_string (unsubackprop_reason_string p),
     write_user_properties (unsubackprop_user_properties p)]"

text \<open>What the types of the fields guarantee, and the limits of the length prefixes.\<close>

definition UnsubAckProperties_ok :: "UnsubAckProperties \<Rightarrow> bool" where
  "UnsubAckProperties_ok p \<longleftrightarrow>
     opt_ok str_ok (unsubackprop_reason_string p) \<and>
     pairs_ok (unsubackprop_user_properties p)"

definition UnsubAckProperties_wire :: "UnsubAckProperties \<Rightarrow> bytes" where
  "UnsubAckProperties_wire p =
     wire_opt REASON_STRING str_wire (unsubackprop_reason_string p)
   @ users_wire (unsubackprop_user_properties p)"

interpretation unsubackprop_loop: properties_loop UnsubAckProperties_step UnsubAckProperties_loop
  by unfold_locales (rule UnsubAckProperties_loop.simps, rule UnsubAckProperties_step_shrinks)

lemma UnsubAckProperties_fields:
  shows "unsubackprop_reason_string p = None \<Longrightarrow> opt_ok str_ok vs \<Longrightarrow>
    UnsubAckProperties_loop p (wire_opt REASON_STRING str_wire vs @ rest)
    = UnsubAckProperties_loop (p\<lparr>unsubackprop_reason_string := vs\<rparr>) rest"
  by (rule unsubackprop_loop.loop_opt; simp add: UnsubAckProperties_step_def wire identifier_ok_def)+

lemma UnsubAckProperties_users:
  assumes "pairs_ok kvs"
  shows "UnsubAckProperties_loop p (users_wire kvs @ rest)
    = UnsubAckProperties_loop (p\<lparr>unsubackprop_user_properties := unsubackprop_user_properties p @ kvs\<rparr>) rest"
proof -
  have "fold (\<lambda>kv p. p\<lparr>unsubackprop_user_properties := unsubackprop_user_properties p @ [kv]\<rparr>) kvs p
    = p\<lparr>unsubackprop_user_properties := unsubackprop_user_properties p @ kvs\<rparr>" for kvs and p :: UnsubAckProperties
    by (induction kvs arbitrary: p) simp_all
  then show ?thesis
    using assms unsubackprop_loop.loop_users [where kvs = kvs and p = p and rest = rest
        and upd = "\<lambda>kv p. p\<lparr>unsubackprop_user_properties := unsubackprop_user_properties p @ [kv]\<rparr>"]
    by (simp add: UnsubAckProperties_step_def wire)
qed

lemmas UnsubAckProperties_decode_rules =
  UnsubAckProperties_fields UnsubAckProperties_users unsubackprop_loop.loop_Nil
  UnsubAckProperties_fields [where rest = "[]", simplified]
      UnsubAckProperties_users [where rest = "[]", simplified]

interpretation unsubackprop_codec: properties_codec UnsubAckProperties_step UnsubAckProperties_loop
  UnsubAckProperties_default UnsubAckProperties_encode UnsubAckProperties_bytes_length
  UnsubAckProperties_wire UnsubAckProperties_ok "\<lambda>_. True"
proof unfold_locales
  fix p q flag data data'
  show "UnsubAckProperties_ok p \<Longrightarrow> UnsubAckProperties_encode p = put_slice (UnsubAckProperties_wire p)"
    by (simp add: UnsubAckProperties_encode_def UnsubAckProperties_wire_def UnsubAckProperties_ok_def wire identifier_writers)
  show "UnsubAckProperties_bytes_length p = Inr (length (UnsubAckProperties_wire p))"
    by (simp add: UnsubAckProperties_bytes_length_def UnsubAckProperties_wire_def)
  show "UnsubAckProperties_ok p \<Longrightarrow> UnsubAckProperties_loop UnsubAckProperties_default (UnsubAckProperties_wire p) = Inr p"
    by (simp add: UnsubAckProperties_wire_def UnsubAckProperties_default_def UnsubAckProperties_ok_def UnsubAckProperties_decode_rules)
  show "UnsubAckProperties_ok UnsubAckProperties_default"
    by (simp add: UnsubAckProperties_ok_def UnsubAckProperties_default_def)
  show "UnsubAckProperties_ok p \<Longrightarrow> UnsubAckProperties_step flag p data = Inr (q, data') \<Longrightarrow> UnsubAckProperties_ok q"
    by (auto simp: UnsubAckProperties_ok_def UnsubAckProperties_step_def and_then_Inr_iff
        split: if_splits dest!: read_string_ok read_binary_ok read_identifier_ok)
qed

text \<open>The properties a packet can announce and carry.\<close>

definition UnsubAckProperties_fits :: "UnsubAckProperties \<Rightarrow> bool" where
  "UnsubAckProperties_fits p \<longleftrightarrow> UnsubAckProperties_ok p \<and>
     length (UnsubAckProperties_wire p) < 268435455"

lemma UnsubAckProperties_length_wire [wire]:
  "UnsubAckProperties_fits p \<Longrightarrow> UnsubAckProperties_bytes_length p = Inr (length (UnsubAckProperties_wire p))"
  by (rule unsubackprop_codec.length_wire) (auto simp: UnsubAckProperties_fits_def)

lemma UnsubAckProperties_fits_length: "UnsubAckProperties_fits p \<Longrightarrow> length (UnsubAckProperties_wire p) < 268435455"
  by (simp add: UnsubAckProperties_fits_def)

lemma UnsubAckProperties_encode_block:
  "UnsubAckProperties_fits p \<Longrightarrow>
   block [let_ok (UnsubAckProperties_bytes_length p) write_remaining_length, UnsubAckProperties_encode p]
   = put_slice (props_wire (UnsubAckProperties_wire p))"
  by (rule unsubackprop_codec.encode_block) (auto simp: UnsubAckProperties_fits_def)

lemma UnsubAckProperties_decode_wire [wire]:
  "UnsubAckProperties_fits p \<Longrightarrow> UnsubAckProperties_decode (UnsubAckProperties_wire p) = Inr p"
  by (simp add: UnsubAckProperties_decode_def UnsubAckProperties_fits_def unsubackprop_codec.decode_wire)

lemma UnsubAckProperties_decode_wf: "UnsubAckProperties_decode data = Inr p \<Longrightarrow> UnsubAckProperties_ok p"
  unfolding UnsubAckProperties_decode_def by (rule unsubackprop_codec.decode_wf)

subsection \<open>UnsubAck\<close>

record UnsubAck =
  unsuback_packet_id :: u16
  unsuback_reason_codes :: "UnsubAckReasonCode list"
  unsuback_properties :: UnsubAckProperties

definition UnsubAck_variable_header_length :: "UnsubAck \<Rightarrow> ProtocolLevel \<Rightarrow> EncodeError + nat" where
  "UnsubAck_variable_header_length p level =
     (let len = 2 in
      if level = V5 then
        and_then (UnsubAckProperties_bytes_length (unsuback_properties p)) (\<lambda>properties_len.
        and_then (props_size properties_len) (\<lambda>n. Inr (len + n)))
      else Inr len)"

definition UnsubAck_payload_length :: "UnsubAck \<Rightarrow> ProtocolLevel \<Rightarrow> EncodeError + nat" where
  "UnsubAck_payload_length p level = 
     (let len = 0 in if level = V5 then Inr (len + length (unsuback_reason_codes p)) else Inr len)"

definition UnsubAck_size :: "ProtocolLevel \<Rightarrow> UnsubAck \<Rightarrow> EncodeError + nat" where
  "UnsubAck_size level p =
     and_then (UnsubAck_variable_header_length p level) (\<lambda>a.
     and_then (UnsubAck_payload_length p level) (\<lambda>b. Inr (a + b)))"

definition UnsubAck_encode_body :: "ProtocolLevel \<Rightarrow> UnsubAck \<Rightarrow> writer" where
  "UnsubAck_encode_body level p = block [
     put_u16 (unsuback_packet_id p),
     if_true (level = V5) (block [
       block [
         let_ok (UnsubAckProperties_bytes_length (unsuback_properties p)) write_remaining_length,
         UnsubAckProperties_encode (unsuback_properties p)],
       for_each (\<lambda>code. put_u8 (UnsubAckReasonCode_u8 code)) (unsuback_reason_codes p)])]"

definition UnsubAck_encode :: "UnsubAck \<Rightarrow> ProtocolLevel \<Rightarrow> nat \<Rightarrow> writer" where
  "UnsubAck_encode p level max_size = block [
     put_u8 (push_bit 4 UNSUBACK),
     let_ok (UnsubAck_size level p) (\<lambda>size. block [
       ensure_w (size < max_size) EncodeError.PacketTooLarge,
       write_remaining_length size,
       UnsubAck_encode_body level p])]"

fun UnsubAck_reason_codes_loop ::
  "UnsubAckReasonCode list \<Rightarrow> bytes \<Rightarrow> DecodeError + UnsubAckReasonCode list" where
  "UnsubAck_reason_codes_loop reason_codes [] = Inr reason_codes"
| "UnsubAck_reason_codes_loop reason_codes (n_reason_code # data) =
     and_then (ok_or (InvalidUnsubAckReasonCode n_reason_code)
       (UnsubAckReasonCode_try_from n_reason_code)) (\<lambda>code.
     UnsubAck_reason_codes_loop (reason_codes @ [code]) data)"

definition UnsubAck_decode :: "bytes \<Rightarrow> ProtocolLevel \<Rightarrow> DecodeError + UnsubAck" where
  "UnsubAck_decode data level =
     and_then (read_packet_id data) (\<lambda>(packet_id, data).
     and_then
       (if level = V5 then
          and_then (read_properties UnsubAckProperties_decode data) (\<lambda>(properties, data).
          and_then (UnsubAck_reason_codes_loop [] data) (\<lambda>reason_codes.
          Inr (properties, reason_codes)))
        else Inr (UnsubAckProperties_default, [])) (\<lambda>(properties, reason_codes).
     Inr \<lparr>unsuback_packet_id = packet_id, unsuback_reason_codes = reason_codes,
          unsuback_properties = properties\<rparr>))"

text \<open>The wire format.\<close>

definition UnsubAck_body :: "ProtocolLevel \<Rightarrow> UnsubAck \<Rightarrow> bytes" where
  "UnsubAck_body level p = be16 (unsuback_packet_id p)
   @ (if level = V5 then props_wire (UnsubAckProperties_wire (unsuback_properties p))
        @ map UnsubAckReasonCode_u8 (unsuback_reason_codes p)
      else [])"

definition UnsubAck_ok :: "ProtocolLevel \<Rightarrow> UnsubAck \<Rightarrow> bool" where
  "UnsubAck_ok level p \<longleftrightarrow> unsuback_packet_id p \<noteq> 0 \<and>
     (level = V5 \<longrightarrow> UnsubAckProperties_fits (unsuback_properties p))"

definition UnsubAck_norm :: "ProtocolLevel \<Rightarrow> UnsubAck \<Rightarrow> UnsubAck" where
  "UnsubAck_norm level p =
     (case level of
        V4 \<Rightarrow> p\<lparr>unsuback_reason_codes := [], unsuback_properties := UnsubAckProperties_default\<rparr>
      | V5 \<Rightarrow> p)"

definition UnsubAck_exact :: "ProtocolLevel \<Rightarrow> UnsubAck \<Rightarrow> bool" where
  "UnsubAck_exact level p \<longleftrightarrow>
     level = V5 \<longrightarrow> off_by_one (length (UnsubAckProperties_wire (unsuback_properties p))) = 0"

lemma UnsubAck_codes_wire:
  "UnsubAck_reason_codes_loop acc (map UnsubAckReasonCode_u8 codes) = Inr (acc @ codes)"
  by (induction codes arbitrary: acc) (simp_all add: wire)

lemma UnsubAck_codes_slice:
  "for_each (\<lambda>code. put_u8 (UnsubAckReasonCode_u8 code)) codes
   = put_slice (map UnsubAckReasonCode_u8 codes)"
  using for_each_slice [where xs = codes and g = "\<lambda>code. [UnsubAckReasonCode_u8 code]"]
  by (simp add: put_u8_def)

lemma UnsubAck_encode_body_wire:
  "UnsubAck_ok level p \<Longrightarrow> UnsubAck_encode_body level p = put_slice (UnsubAck_body level p)"
  unfolding UnsubAck_encode_body_def UnsubAck_codes_slice
  using UnsubAckProperties_encode_block [of "unsuback_properties p"]
  by (cases level) (auto simp: UnsubAck_body_def UnsubAck_ok_def wire)

lemma UnsubAck_decode_wire:
  "UnsubAck_ok level p \<Longrightarrow> UnsubAck_decode (UnsubAck_body level p) level = Inr (UnsubAck_norm level p)"
  using UnsubAckProperties_fits_length [of "unsuback_properties p"]
  by (cases level; cases p)
    (auto simp: UnsubAck_decode_def UnsubAck_body_def UnsubAck_ok_def UnsubAck_norm_def
      UnsubAck_codes_wire wire)

lemma UnsubAck_decode_wf:
  assumes "UnsubAck_decode data level = Inr p"
  shows "unsuback_packet_id p \<noteq> 0" "UnsubAckProperties_ok (unsuback_properties p)"
  using assms UnsubAckProperties_decode_wf unsubackprop_codec.wf_initial
  by (auto simp: UnsubAck_decode_def and_then_Inr_iff split: if_splits
      dest: read_packet_id_ok elim!: read_properties_ok)

lemma UnsubAck_size_eq:
  "UnsubAck_ok level p \<Longrightarrow> UnsubAck_exact level p \<Longrightarrow> UnsubAck_size level p = Inr (length (UnsubAck_body level p))"
  using UnsubAckProperties_fits_length [of "unsuback_properties p"]
  by (cases level)
    (simp_all add: UnsubAck_size_def UnsubAck_variable_header_length_def UnsubAck_payload_length_def UnsubAck_body_def
      UnsubAck_ok_def UnsubAck_exact_def wire )


interpretation unsuback: packet_codec "\<lambda>_. push_bit 4 UNSUBACK" UnsubAck_size UnsubAck_encode
  "\<lambda>data level flag. UnsubAck_decode data level" UnsubAck_body UnsubAck_ok UnsubAck_norm "(<)"
  by unfold_locales
    (simp_all add: UnsubAck_encode_def framed_def UnsubAck_encode_body_wire UnsubAck_decode_wire
      del: push_bit_numeral cong del: let_ok_cong)

end
