(* ===== verification/Packet_Disconnect.thy ===== *)
theory Packet_Disconnect
  imports Codec_Properties
begin

text \<open>
  \<open>libs/codec/src/disconnect.rs\<close>: the DISCONNECT packet, which is empty at level 4.
\<close>

unbundle bit_operations_syntax

subsection \<open>DisconnectReasonCode and DisconnectProperties\<close>

datatype DisconnectReasonCode =
    NormalDisconnection
  | DisconnectWithWillMessage
  | UnspecifiedError
  | MalformedPacket
  | ProtocolError
  | ImplementationSpecificError
  | NotAuthorized
  | ServerBusy
  | ServerShuttingDown
  | KeepAliveTimeout
  | SessionTakenOver
  | TopicFilterInvalid
  | TopicNameInvalid
  | ReceiveMaximumExceeded
  | TopicAliasInvalid
  | PacketTooLarge
  | MessageRateTooHigh
  | QuotaExceeded
  | AdministrativeAction
  | PayloadFormatInvalid
  | RetainNotSupported
  | QoSNotSupported
  | UseAnotherServer
  | ServerMoved
  | SharedSubscriptionNotSupported
  | ConnectionRateExceeded
  | MaximumConnectTime
  | SubscriptionIdentifiersNotSupported
  | WildcardSubscriptionsNotSupported

fun DisconnectReasonCode_u8 :: "DisconnectReasonCode \<Rightarrow> u8" where
  "DisconnectReasonCode_u8 DisconnectReasonCode.NormalDisconnection = 0x00"
| "DisconnectReasonCode_u8 DisconnectReasonCode.DisconnectWithWillMessage = 0x04"
| "DisconnectReasonCode_u8 DisconnectReasonCode.UnspecifiedError = 0x80"
| "DisconnectReasonCode_u8 DisconnectReasonCode.MalformedPacket = 0x81"
| "DisconnectReasonCode_u8 DisconnectReasonCode.ProtocolError = 0x82"
| "DisconnectReasonCode_u8 DisconnectReasonCode.ImplementationSpecificError = 0x83"
| "DisconnectReasonCode_u8 DisconnectReasonCode.NotAuthorized = 0x87"
| "DisconnectReasonCode_u8 DisconnectReasonCode.ServerBusy = 0x89"
| "DisconnectReasonCode_u8 DisconnectReasonCode.ServerShuttingDown = 0x8B"
| "DisconnectReasonCode_u8 DisconnectReasonCode.KeepAliveTimeout = 0x8D"
| "DisconnectReasonCode_u8 DisconnectReasonCode.SessionTakenOver = 0x8E"
| "DisconnectReasonCode_u8 DisconnectReasonCode.TopicFilterInvalid = 0x8F"
| "DisconnectReasonCode_u8 DisconnectReasonCode.TopicNameInvalid = 0x90"
| "DisconnectReasonCode_u8 DisconnectReasonCode.ReceiveMaximumExceeded = 0x93"
| "DisconnectReasonCode_u8 DisconnectReasonCode.TopicAliasInvalid = 0x94"
| "DisconnectReasonCode_u8 DisconnectReasonCode.PacketTooLarge = 0x95"
| "DisconnectReasonCode_u8 DisconnectReasonCode.MessageRateTooHigh = 0x96"
| "DisconnectReasonCode_u8 DisconnectReasonCode.QuotaExceeded = 0x97"
| "DisconnectReasonCode_u8 DisconnectReasonCode.AdministrativeAction = 0x98"
| "DisconnectReasonCode_u8 DisconnectReasonCode.PayloadFormatInvalid = 0x99"
| "DisconnectReasonCode_u8 DisconnectReasonCode.RetainNotSupported = 0x9A"
| "DisconnectReasonCode_u8 DisconnectReasonCode.QoSNotSupported = 0x9B"
| "DisconnectReasonCode_u8 DisconnectReasonCode.UseAnotherServer = 0x9C"
| "DisconnectReasonCode_u8 DisconnectReasonCode.ServerMoved = 0x9D"
| "DisconnectReasonCode_u8 DisconnectReasonCode.SharedSubscriptionNotSupported = 0x9E"
| "DisconnectReasonCode_u8 DisconnectReasonCode.ConnectionRateExceeded = 0x9F"
| "DisconnectReasonCode_u8 DisconnectReasonCode.MaximumConnectTime = 0xA0"
| "DisconnectReasonCode_u8 DisconnectReasonCode.SubscriptionIdentifiersNotSupported = 0xA1"
| "DisconnectReasonCode_u8 DisconnectReasonCode.WildcardSubscriptionsNotSupported = 0xA2"

definition DisconnectReasonCode_variants :: "DisconnectReasonCode list" where
  "DisconnectReasonCode_variants = [
     DisconnectReasonCode.NormalDisconnection,
     DisconnectReasonCode.DisconnectWithWillMessage,
     DisconnectReasonCode.UnspecifiedError, DisconnectReasonCode.MalformedPacket,
     DisconnectReasonCode.ProtocolError,
     DisconnectReasonCode.ImplementationSpecificError,
     DisconnectReasonCode.NotAuthorized, DisconnectReasonCode.ServerBusy,
     DisconnectReasonCode.ServerShuttingDown, DisconnectReasonCode.KeepAliveTimeout,
     DisconnectReasonCode.SessionTakenOver, DisconnectReasonCode.TopicFilterInvalid,
     DisconnectReasonCode.TopicNameInvalid, DisconnectReasonCode.ReceiveMaximumExceeded,
     DisconnectReasonCode.TopicAliasInvalid, DisconnectReasonCode.PacketTooLarge,
     DisconnectReasonCode.MessageRateTooHigh, DisconnectReasonCode.QuotaExceeded,
     DisconnectReasonCode.AdministrativeAction,
     DisconnectReasonCode.PayloadFormatInvalid, DisconnectReasonCode.RetainNotSupported,
     DisconnectReasonCode.QoSNotSupported, DisconnectReasonCode.UseAnotherServer,
     DisconnectReasonCode.ServerMoved,
     DisconnectReasonCode.SharedSubscriptionNotSupported,
     DisconnectReasonCode.ConnectionRateExceeded,
     DisconnectReasonCode.MaximumConnectTime,
     DisconnectReasonCode.SubscriptionIdentifiersNotSupported,
     DisconnectReasonCode.WildcardSubscriptionsNotSupported]"

definition DisconnectReasonCode_try_from :: "u8 \<Rightarrow> DisconnectReasonCode option" where
  "DisconnectReasonCode_try_from = try_from_primitive DisconnectReasonCode_u8 DisconnectReasonCode_variants"

interpretation DisconnectReasonCode_enum: primitive_enum DisconnectReasonCode_u8 DisconnectReasonCode_variants
proof (rule primitive_enumI)
  show "c \<in> set DisconnectReasonCode_variants" for c by (cases c) (simp_all add: DisconnectReasonCode_variants_def)
qed (simp add: DisconnectReasonCode_variants_def)

lemma DisconnectReasonCode_roundtrip [wire]: "DisconnectReasonCode_try_from (DisconnectReasonCode_u8 c) = Some c"
  unfolding DisconnectReasonCode_try_from_def by (rule DisconnectReasonCode_enum.roundtrip)

definition DisconnectReasonCode_is_success :: "DisconnectReasonCode \<Rightarrow> bool" where
  "DisconnectReasonCode_is_success c \<longleftrightarrow> DisconnectReasonCode_u8 c < 0x80"

record DisconnectProperties =
  disconnectprop_session_expiry_interval :: "u32 option"
  disconnectprop_reason_string :: "string option"
  disconnectprop_user_properties :: "(string \<times> string) list"
  disconnectprop_server_reference :: "string option"

definition DisconnectProperties_default :: DisconnectProperties where
  "DisconnectProperties_default = \<lparr>disconnectprop_session_expiry_interval = None, disconnectprop_reason_string = None,
     disconnectprop_user_properties = [], disconnectprop_server_reference = None\<rparr>"

definition DisconnectProperties_bytes_length :: "DisconnectProperties \<Rightarrow> EncodeError + nat" where
  "DisconnectProperties_bytes_length p = Inr (
     prop_len (disconnectprop_session_expiry_interval p) 4
   + prop_data_len (disconnectprop_reason_string p)
   + user_properties_len (disconnectprop_user_properties p)
   + prop_data_len (disconnectprop_server_reference p))"

definition DisconnectProperties_step :: "u8 \<Rightarrow> DisconnectProperties \<Rightarrow> DisconnectProperties reader" where
  "DisconnectProperties_step flag p data =
    (if flag = SESSION_EXPIRY_INTERVAL then
       and_then (read_u32 data) (\<lambda>(v, data). Inr (p\<lparr>disconnectprop_session_expiry_interval := Some v\<rparr>, data))
     else if flag = REASON_STRING then
       and_then (read_string data) (\<lambda>(v, data). Inr (p\<lparr>disconnectprop_reason_string := Some v\<rparr>, data))
     else if flag = USER_PROPERTY then
       and_then (read_string data) (\<lambda>(key, data).
       and_then (read_string data) (\<lambda>(value, data).
       Inr (p\<lparr>disconnectprop_user_properties := disconnectprop_user_properties p @ [(key, value)]\<rparr>, data)))
     else if flag = SERVER_REFERENCE then
       and_then (read_string data) (\<lambda>(v, data). Inr (p\<lparr>disconnectprop_server_reference := Some v\<rparr>, data))
     else Inl (InvalidDisconnectProperty flag))"

lemma DisconnectProperties_step_shrinks [shrinks]:
  "DisconnectProperties_step flag p data = Inr (p', data') \<Longrightarrow> length data' \<le> length data"
  by (auto simp: DisconnectProperties_step_def and_then_Inr_iff split: if_splits dest!: shrinks)

function DisconnectProperties_loop :: "DisconnectProperties \<Rightarrow> bytes \<Rightarrow> DecodeError + DisconnectProperties" where
  "DisconnectProperties_loop p data =
     (if data = [] then Inr p
      else and_then (read_u8 data) (\<lambda>(flag, data).
           and_then (DisconnectProperties_step flag p data) (\<lambda>(p, data). DisconnectProperties_loop p data)))"
  by pat_completeness auto
termination by (relation "measure (\<lambda>(p, data). length data)") (auto dest!: shrinks)

declare DisconnectProperties_loop.simps [simp del]

definition DisconnectProperties_decode :: "bytes \<Rightarrow> DecodeError + DisconnectProperties" where
  "DisconnectProperties_decode data = DisconnectProperties_loop DisconnectProperties_default data"

definition DisconnectProperties_encode :: "DisconnectProperties \<Rightarrow> writer" where
  "DisconnectProperties_encode p = block [
     write_prop SESSION_EXPIRY_INTERVAL put_u32 (disconnectprop_session_expiry_interval p),
     write_prop REASON_STRING write_string (disconnectprop_reason_string p),
     write_user_properties (disconnectprop_user_properties p),
     write_prop SERVER_REFERENCE write_string (disconnectprop_server_reference p)]"

text \<open>What the types of the fields guarantee, and the limits of the length prefixes.\<close>

definition DisconnectProperties_ok :: "DisconnectProperties \<Rightarrow> bool" where
  "DisconnectProperties_ok p \<longleftrightarrow>
     opt_ok str_ok (disconnectprop_reason_string p) \<and>
     pairs_ok (disconnectprop_user_properties p) \<and>
     opt_ok str_ok (disconnectprop_server_reference p)"

definition DisconnectProperties_wire :: "DisconnectProperties \<Rightarrow> bytes" where
  "DisconnectProperties_wire p =
     wire_opt SESSION_EXPIRY_INTERVAL be32 (disconnectprop_session_expiry_interval p)
   @ wire_opt REASON_STRING str_wire (disconnectprop_reason_string p)
   @ users_wire (disconnectprop_user_properties p)
   @ wire_opt SERVER_REFERENCE str_wire (disconnectprop_server_reference p)"

interpretation disconnectprop_loop: properties_loop DisconnectProperties_step DisconnectProperties_loop
  by unfold_locales (rule DisconnectProperties_loop.simps, rule DisconnectProperties_step_shrinks)

lemma DisconnectProperties_fields:
  shows "disconnectprop_session_expiry_interval p = None \<Longrightarrow>
    DisconnectProperties_loop p (wire_opt SESSION_EXPIRY_INTERVAL be32 v32 @ rest)
    = DisconnectProperties_loop (p\<lparr>disconnectprop_session_expiry_interval := v32\<rparr>) rest"
  and "disconnectprop_reason_string p = None \<Longrightarrow> opt_ok str_ok vs \<Longrightarrow>
    DisconnectProperties_loop p (wire_opt REASON_STRING str_wire vs @ rest)
    = DisconnectProperties_loop (p\<lparr>disconnectprop_reason_string := vs\<rparr>) rest"
  and "disconnectprop_server_reference p = None \<Longrightarrow> opt_ok str_ok vs \<Longrightarrow>
    DisconnectProperties_loop p (wire_opt SERVER_REFERENCE str_wire vs @ rest)
    = DisconnectProperties_loop (p\<lparr>disconnectprop_server_reference := vs\<rparr>) rest"
  by (rule disconnectprop_loop.loop_opt; simp add: DisconnectProperties_step_def wire identifier_ok_def)+

lemma DisconnectProperties_users:
  assumes "pairs_ok kvs"
  shows "DisconnectProperties_loop p (users_wire kvs @ rest)
    = DisconnectProperties_loop (p\<lparr>disconnectprop_user_properties := disconnectprop_user_properties p @ kvs\<rparr>) rest"
proof -
  have "fold (\<lambda>kv p. p\<lparr>disconnectprop_user_properties := disconnectprop_user_properties p @ [kv]\<rparr>) kvs p
    = p\<lparr>disconnectprop_user_properties := disconnectprop_user_properties p @ kvs\<rparr>" for kvs and p :: DisconnectProperties
    by (induction kvs arbitrary: p) simp_all
  then show ?thesis
    using assms disconnectprop_loop.loop_users [where kvs = kvs and p = p and rest = rest
        and upd = "\<lambda>kv p. p\<lparr>disconnectprop_user_properties := disconnectprop_user_properties p @ [kv]\<rparr>"]
    by (simp add: DisconnectProperties_step_def wire)
qed

lemmas DisconnectProperties_decode_rules =
  DisconnectProperties_fields DisconnectProperties_users disconnectprop_loop.loop_Nil
  DisconnectProperties_fields [where rest = "[]", simplified]
      DisconnectProperties_users [where rest = "[]", simplified]

interpretation disconnectprop_codec: properties_codec DisconnectProperties_step DisconnectProperties_loop
  DisconnectProperties_default DisconnectProperties_encode DisconnectProperties_bytes_length
  DisconnectProperties_wire DisconnectProperties_ok "\<lambda>_. True"
proof unfold_locales
  fix p q flag data data'
  show "DisconnectProperties_ok p \<Longrightarrow> DisconnectProperties_encode p = put_slice (DisconnectProperties_wire p)"
    by (simp add: DisconnectProperties_encode_def DisconnectProperties_wire_def DisconnectProperties_ok_def wire identifier_writers)
  show "DisconnectProperties_bytes_length p = Inr (length (DisconnectProperties_wire p))"
    by (simp add: DisconnectProperties_bytes_length_def DisconnectProperties_wire_def)
  show "DisconnectProperties_ok p \<Longrightarrow> DisconnectProperties_loop DisconnectProperties_default (DisconnectProperties_wire p) = Inr p"
    by (simp add: DisconnectProperties_wire_def DisconnectProperties_default_def DisconnectProperties_ok_def DisconnectProperties_decode_rules)
  show "DisconnectProperties_ok DisconnectProperties_default"
    by (simp add: DisconnectProperties_ok_def DisconnectProperties_default_def)
  show "DisconnectProperties_ok p \<Longrightarrow> DisconnectProperties_step flag p data = Inr (q, data') \<Longrightarrow> DisconnectProperties_ok q"
    by (auto simp: DisconnectProperties_ok_def DisconnectProperties_step_def and_then_Inr_iff
        split: if_splits dest!: read_string_ok read_binary_ok read_identifier_ok)
qed

text \<open>The properties a packet can announce and carry.\<close>

definition DisconnectProperties_fits :: "DisconnectProperties \<Rightarrow> bool" where
  "DisconnectProperties_fits p \<longleftrightarrow> DisconnectProperties_ok p \<and>
     length (DisconnectProperties_wire p) < 268435455"

lemma DisconnectProperties_length_wire [wire]:
  "DisconnectProperties_fits p \<Longrightarrow> DisconnectProperties_bytes_length p = Inr (length (DisconnectProperties_wire p))"
  by (rule disconnectprop_codec.length_wire) (auto simp: DisconnectProperties_fits_def)

lemma DisconnectProperties_fits_length: "DisconnectProperties_fits p \<Longrightarrow> length (DisconnectProperties_wire p) < 268435455"
  by (simp add: DisconnectProperties_fits_def)

lemma DisconnectProperties_encode_block:
  "DisconnectProperties_fits p \<Longrightarrow>
   block [let_ok (DisconnectProperties_bytes_length p) write_remaining_length, DisconnectProperties_encode p]
   = put_slice (props_wire (DisconnectProperties_wire p))"
  by (rule disconnectprop_codec.encode_block) (auto simp: DisconnectProperties_fits_def)

lemma DisconnectProperties_decode_wire [wire]:
  "DisconnectProperties_fits p \<Longrightarrow> DisconnectProperties_decode (DisconnectProperties_wire p) = Inr p"
  by (simp add: DisconnectProperties_decode_def DisconnectProperties_fits_def disconnectprop_codec.decode_wire)

lemma DisconnectProperties_decode_wf: "DisconnectProperties_decode data = Inr p \<Longrightarrow> DisconnectProperties_ok p"
  unfolding DisconnectProperties_decode_def by (rule disconnectprop_codec.decode_wf)

definition DisconnectProperties_is_empty :: "DisconnectProperties \<Rightarrow> bool" where
  "DisconnectProperties_is_empty p \<longleftrightarrow> disconnectprop_session_expiry_interval p = None
     \<and> disconnectprop_reason_string p = None
     \<and> disconnectprop_user_properties p = []
     \<and> disconnectprop_server_reference p = None"

subsection \<open>Disconnect\<close>

record Disconnect =
  disconnect_reason_code :: DisconnectReasonCode
  disconnect_properties :: DisconnectProperties

definition Disconnect_new :: "DisconnectReasonCode \<Rightarrow> Disconnect" where
  "Disconnect_new reason_code =
     \<lparr>disconnect_reason_code = reason_code, disconnect_properties = DisconnectProperties_default\<rparr>"

definition Disconnect_variable_header_length :: "Disconnect \<Rightarrow> ProtocolLevel \<Rightarrow> EncodeError + nat" where
  "Disconnect_variable_header_length p level =
     (case level of
        V4 \<Rightarrow> Inr 0
      | V5 \<Rightarrow>
          if \<not> DisconnectProperties_is_empty (disconnect_properties p) then
            and_then (DisconnectProperties_bytes_length (disconnect_properties p)) (\<lambda>properties_len.
            and_then (props_size properties_len) (\<lambda>n. Inr (1 + n)))
          else if disconnect_reason_code p = DisconnectReasonCode.NormalDisconnection then Inr 0
          else Inr 1)"

definition Disconnect_payload_length :: "Disconnect \<Rightarrow> ProtocolLevel \<Rightarrow> EncodeError + nat" where
  "Disconnect_payload_length p level = Inr 0"

definition Disconnect_size :: "ProtocolLevel \<Rightarrow> Disconnect \<Rightarrow> EncodeError + nat" where
  "Disconnect_size level p =
     and_then (Disconnect_variable_header_length p level) (\<lambda>a.
     and_then (Disconnect_payload_length p level) (\<lambda>b. Inr (a + b)))"

definition Disconnect_decode :: "bytes \<Rightarrow> ProtocolLevel \<Rightarrow> DecodeError + Disconnect" where
  "Disconnect_decode data level =
     (case level of
        V4 \<Rightarrow>
          if data \<noteq> [] then Inl DecodeError.MalformedPacket
          else Inr \<lparr>disconnect_reason_code = DisconnectReasonCode.NormalDisconnection,
                    disconnect_properties = DisconnectProperties_default\<rparr>
      | V5 \<Rightarrow>
          if data = [] then
            Inr \<lparr>disconnect_reason_code = DisconnectReasonCode.NormalDisconnection,
                 disconnect_properties = DisconnectProperties_default\<rparr>
          else
            and_then (read_u8 data) (\<lambda>(code, data).
            and_then (ok_or (InvalidDisconnectReasonCode code) (DisconnectReasonCode_try_from code))
              (\<lambda>reason_code.
            and_then
              (if data \<noteq> [] then
                 and_then (read_properties DisconnectProperties_decode data) (\<lambda>(properties, data).
                 Inr properties)
               else Inr DisconnectProperties_default) (\<lambda>properties.
            Inr \<lparr>disconnect_reason_code = reason_code, disconnect_properties = properties\<rparr>))))"

definition Disconnect_encode_body :: "ProtocolLevel \<Rightarrow> Disconnect \<Rightarrow> writer" where
  "Disconnect_encode_body level p =
     if_true (level = V5) (block [
       if_true (disconnect_reason_code p \<noteq> DisconnectReasonCode.NormalDisconnection
           \<or> \<not> DisconnectProperties_is_empty (disconnect_properties p))
         (put_u8 (DisconnectReasonCode_u8 (disconnect_reason_code p))),
       if_true (\<not> DisconnectProperties_is_empty (disconnect_properties p)) (block [
         let_ok (DisconnectProperties_bytes_length (disconnect_properties p)) write_remaining_length,
         DisconnectProperties_encode (disconnect_properties p)])])"

definition Disconnect_encode :: "Disconnect \<Rightarrow> ProtocolLevel \<Rightarrow> nat \<Rightarrow> writer" where
  "Disconnect_encode p level max_size = block [
     put_u8 (push_bit 4 DISCONNECT),
     let_ok (Disconnect_size level p) (\<lambda>size. block [
       ensure_w (size < max_size) EncodeError.PacketTooLarge,
       write_remaining_length size,
       Disconnect_encode_body level p])]"

text \<open>The wire format.\<close>

definition Disconnect_body :: "ProtocolLevel \<Rightarrow> Disconnect \<Rightarrow> bytes" where
  "Disconnect_body level p =
     (if level = V4 then []
      else if \<not> DisconnectProperties_is_empty (disconnect_properties p) then
        DisconnectReasonCode_u8 (disconnect_reason_code p)
        # props_wire (DisconnectProperties_wire (disconnect_properties p))
      else if disconnect_reason_code p \<noteq> DisconnectReasonCode.NormalDisconnection
      then [DisconnectReasonCode_u8 (disconnect_reason_code p)]
      else [])"

definition Disconnect_ok :: "ProtocolLevel \<Rightarrow> Disconnect \<Rightarrow> bool" where
  "Disconnect_ok level p \<longleftrightarrow>
     (level = V5 \<longrightarrow> DisconnectProperties_fits (disconnect_properties p))"

definition Disconnect_norm :: "ProtocolLevel \<Rightarrow> Disconnect \<Rightarrow> Disconnect" where
  "Disconnect_norm level p =
     (case level of
        V4 \<Rightarrow> Disconnect_new DisconnectReasonCode.NormalDisconnection
      | V5 \<Rightarrow> p)"

definition Disconnect_exact :: "ProtocolLevel \<Rightarrow> Disconnect \<Rightarrow> bool" where
  "Disconnect_exact level p \<longleftrightarrow>
     level = V5 \<longrightarrow> off_by_one (length (DisconnectProperties_wire (disconnect_properties p))) = 0"

lemma DisconnectProperties_is_empty_iff:
  "DisconnectProperties_is_empty p \<longleftrightarrow> p = DisconnectProperties_default"
  by (cases p) (auto simp: DisconnectProperties_is_empty_def DisconnectProperties_default_def)

lemma Disconnect_encode_body_wire:
  "Disconnect_ok level p \<Longrightarrow> Disconnect_encode_body level p = put_slice (Disconnect_body level p)"
  using DisconnectProperties_encode_block [of "disconnect_properties p"]
  by (cases level) (auto simp: Disconnect_encode_body_def Disconnect_body_def Disconnect_ok_def wire)

lemma Disconnect_decode_wire:
  "Disconnect_ok level p \<Longrightarrow>
   Disconnect_decode (Disconnect_body level p) level = Inr (Disconnect_norm level p)"
  using DisconnectProperties_fits_length [of "disconnect_properties p"]
  by (cases level; cases p)
    (auto simp: Disconnect_decode_def Disconnect_body_def Disconnect_ok_def Disconnect_norm_def
      Disconnect_new_def DisconnectProperties_is_empty_iff wire, simp_all add: props_wire_def)

lemma Disconnect_size_eq:
  "Disconnect_ok level p \<Longrightarrow> Disconnect_exact level p \<Longrightarrow>
   Disconnect_size level p = Inr (length (Disconnect_body level p))"
  using DisconnectProperties_fits_length [of "disconnect_properties p"]
  by (cases level)
    (auto simp: Disconnect_size_def Disconnect_variable_header_length_def Disconnect_payload_length_def
      Disconnect_body_def Disconnect_ok_def Disconnect_exact_def wire)

lemma Disconnect_decode_wf:
  "Disconnect_decode data level = Inr p \<Longrightarrow> DisconnectProperties_ok (disconnect_properties p)"
  using DisconnectProperties_decode_wf disconnectprop_codec.wf_initial
  by (cases level)
    (auto simp: Disconnect_decode_def and_then_Inr_iff split: if_splits elim!: read_properties_ok)

interpretation disconnect: packet_codec "\<lambda>_. push_bit 4 DISCONNECT" Disconnect_size Disconnect_encode
  "\<lambda>data level flag. Disconnect_decode data level" Disconnect_body Disconnect_ok Disconnect_norm "(<)"
  by unfold_locales
    (simp_all add: Disconnect_encode_def framed_def Disconnect_encode_body_wire Disconnect_decode_wire
      del: push_bit_numeral cong del: let_ok_cong)

end
