(* ===== verification/Packet.thy ===== *)
theory Packet
  imports Packet_Connect Packet_ConnAck Packet_Publish Packet_PubAck Packet_PubRec Packet_PubRel
    Packet_PubComp Packet_Subscribe Packet_SubAck Packet_Unsubscribe Packet_UnsubAck Packet_Disconnect
begin

text \<open>
  \<open>libs/codec/src/packet.rs\<close>: the sum of the packet types and the dispatch of \<open>encode\<close> and
  \<open>decode\<close> on the packet type in the fixed header. The specification functions (\<open>Packet_header\<close>,
  \<open>Packet_body\<close>, \<open>Packet_size\<close>, ...) collect those of the packet theories.
\<close>

unbundle bit_operations_syntax

subsection \<open>The packet type and its dispatch\<close>

datatype Packet =
    Connect Connect
  | ConnAck ConnAck
  | Publish Publish
  | PubAck PubAck
  | PubRec PubRec
  | PubRel PubRel
  | PubComp PubComp
  | Subscribe Subscribe
  | SubAck SubAck
  | Unsubscribe Unsubscribe
  | UnsubAck UnsubAck
  | PingReq
  | PingResp
  | Disconnect Disconnect

definition Packet_decode :: "bytes \<Rightarrow> u8 \<Rightarrow> ProtocolLevel \<Rightarrow> DecodeError + Packet" where
  "Packet_decode data flag level =
     (let ty = drop_bit 4 (flag AND 0xf0) in
      if ty = RESERVED then Inl ReservedPacketType
      else if ty = CONNECT then and_then (Connect_decode data level) (\<lambda>p. Inr (Packet.Connect p))
      else if ty = CONNACK then and_then (ConnAck_decode data level) (\<lambda>p. Inr (Packet.ConnAck p))
      else if ty = PUBLISH then and_then (Publish_decode data level flag) (\<lambda>p. Inr (Packet.Publish p))
      else if ty = PUBACK then and_then (PubAck_decode data level) (\<lambda>p. Inr (Packet.PubAck p))
      else if ty = PUBREC then and_then (PubRec_decode data level) (\<lambda>p. Inr (Packet.PubRec p))
      else if ty = PUBREL then and_then (PubRel_decode data level flag) (\<lambda>p. Inr (Packet.PubRel p))
      else if ty = PUBCOMP then and_then (PubComp_decode data level) (\<lambda>p. Inr (Packet.PubComp p))
      else if ty = SUBSCRIBE then and_then (Subscribe_decode data level flag) (\<lambda>p. Inr (Packet.Subscribe p))
      else if ty = SUBACK then and_then (SubAck_decode data level) (\<lambda>p. Inr (Packet.SubAck p))
      else if ty = UNSUBSCRIBE then and_then (Unsubscribe_decode data level flag) (\<lambda>p. Inr (Packet.Unsubscribe p))
      else if ty = UNSUBACK then and_then (UnsubAck_decode data level) (\<lambda>p. Inr (Packet.UnsubAck p))
      else if ty = PINGREQ then Inr Packet.PingReq
      else if ty = PINGRESP then Inr Packet.PingResp
      else if ty = DISCONNECT then and_then (Disconnect_decode data level) (\<lambda>p. Inr (Packet.Disconnect p))
      else Inl (UnknownPacketType ty))"

definition Packet_encode :: "Packet \<Rightarrow> ProtocolLevel \<Rightarrow> nat \<Rightarrow> writer" where
  "Packet_encode packet level max_size =
     (case packet of
        Packet.Connect x \<Rightarrow> Connect_encode x level max_size
      | Packet.ConnAck x \<Rightarrow> ConnAck_encode x level max_size
      | Packet.Publish x \<Rightarrow> Publish_encode x level max_size
      | Packet.PubAck x \<Rightarrow> PubAck_encode x level max_size
      | Packet.PubRec x \<Rightarrow> PubRec_encode x level max_size
      | Packet.PubRel x \<Rightarrow> PubRel_encode x level max_size
      | Packet.PubComp x \<Rightarrow> PubComp_encode x level max_size
      | Packet.Subscribe x \<Rightarrow> Subscribe_encode x level max_size
      | Packet.SubAck x \<Rightarrow> SubAck_encode x level max_size
      | Packet.Unsubscribe x \<Rightarrow> Unsubscribe_encode x level max_size
      | Packet.UnsubAck x \<Rightarrow> UnsubAck_encode x level max_size
      | Packet.PingReq \<Rightarrow> put_slice [push_bit 4 PINGREQ, 0]
      | Packet.PingResp \<Rightarrow> put_slice [push_bit 4 PINGRESP, 0]
      | Packet.Disconnect x \<Rightarrow> Disconnect_encode x level max_size)"

subsection \<open>The specification of the wire format\<close>

definition Packet_header :: "Packet \<Rightarrow> u8" where
  "Packet_header packet =
     (case packet of
        Packet.Connect x \<Rightarrow> push_bit 4 CONNECT
      | Packet.ConnAck x \<Rightarrow> push_bit 4 CONNACK
      | Packet.Publish x \<Rightarrow> Publish_header x
      | Packet.PubAck x \<Rightarrow> push_bit 4 PUBACK
      | Packet.PubRec x \<Rightarrow> push_bit 4 PUBREC
      | Packet.PubRel x \<Rightarrow> push_bit 4 PUBREL OR 0b0010
      | Packet.PubComp x \<Rightarrow> push_bit 4 PUBCOMP
      | Packet.Subscribe x \<Rightarrow> push_bit 4 SUBSCRIBE OR 0b0010
      | Packet.SubAck x \<Rightarrow> push_bit 4 SUBACK
      | Packet.Unsubscribe x \<Rightarrow> push_bit 4 UNSUBSCRIBE OR 0b0010
      | Packet.UnsubAck x \<Rightarrow> push_bit 4 UNSUBACK
      | Packet.PingReq \<Rightarrow> push_bit 4 PINGREQ
      | Packet.PingResp \<Rightarrow> push_bit 4 PINGRESP
      | Packet.Disconnect x \<Rightarrow> push_bit 4 DISCONNECT)"

definition Packet_body :: "ProtocolLevel \<Rightarrow> Packet \<Rightarrow> bytes" where
  "Packet_body level packet =
     (case packet of
        Packet.Connect x \<Rightarrow> Connect_body level x
      | Packet.ConnAck x \<Rightarrow> ConnAck_body level x
      | Packet.Publish x \<Rightarrow> Publish_body level x
      | Packet.PubAck x \<Rightarrow> PubAck_body level x
      | Packet.PubRec x \<Rightarrow> PubRec_body level x
      | Packet.PubRel x \<Rightarrow> PubRel_body level x
      | Packet.PubComp x \<Rightarrow> PubComp_body level x
      | Packet.Subscribe x \<Rightarrow> Subscribe_body level x
      | Packet.SubAck x \<Rightarrow> SubAck_body level x
      | Packet.Unsubscribe x \<Rightarrow> Unsubscribe_body level x
      | Packet.UnsubAck x \<Rightarrow> UnsubAck_body level x
      | Packet.PingReq \<Rightarrow> []
      | Packet.PingResp \<Rightarrow> []
      | Packet.Disconnect x \<Rightarrow> Disconnect_body level x)"

definition Packet_size :: "ProtocolLevel \<Rightarrow> Packet \<Rightarrow> EncodeError + nat" where
  "Packet_size level packet =
     (case packet of
        Packet.Connect x \<Rightarrow> Connect_size level x
      | Packet.ConnAck x \<Rightarrow> ConnAck_size level x
      | Packet.Publish x \<Rightarrow> Publish_size level x
      | Packet.PubAck x \<Rightarrow> PubAck_size level x
      | Packet.PubRec x \<Rightarrow> PubRec_size level x
      | Packet.PubRel x \<Rightarrow> PubRel_size level x
      | Packet.PubComp x \<Rightarrow> PubComp_size level x
      | Packet.Subscribe x \<Rightarrow> Subscribe_size level x
      | Packet.SubAck x \<Rightarrow> SubAck_size level x
      | Packet.Unsubscribe x \<Rightarrow> Unsubscribe_size level x
      | Packet.UnsubAck x \<Rightarrow> UnsubAck_size level x
      | Packet.PingReq \<Rightarrow> Inr 0
      | Packet.PingResp \<Rightarrow> Inr 0
      | Packet.Disconnect x \<Rightarrow> Disconnect_size level x)"

text \<open>The fixed header, its remaining length, and the body.\<close>

definition Packet_wire :: "ProtocolLevel \<Rightarrow> Packet \<Rightarrow> bytes" where
  "Packet_wire level packet =
     Packet_header packet # varint (length (Packet_body level packet)) @ Packet_body level packet"

text \<open>
  What the fields of a packet must satisfy to be representable; \<open>Packet_exact\<close> excludes the
  property blocks whose length the encoder announces wrongly.
\<close>

definition Packet_ok :: "ProtocolLevel \<Rightarrow> Packet \<Rightarrow> bool" where
  "Packet_ok level packet =
     (case packet of
        Packet.Connect x \<Rightarrow> Connect_ok level x
      | Packet.ConnAck x \<Rightarrow> ConnAck_ok level x
      | Packet.Publish x \<Rightarrow> Publish_ok level x
      | Packet.PubAck x \<Rightarrow> PubAck_ok level x
      | Packet.PubRec x \<Rightarrow> PubRec_ok level x
      | Packet.PubRel x \<Rightarrow> PubRel_ok level x
      | Packet.PubComp x \<Rightarrow> PubComp_ok level x
      | Packet.Subscribe x \<Rightarrow> Subscribe_ok level x
      | Packet.SubAck x \<Rightarrow> SubAck_ok level x
      | Packet.Unsubscribe x \<Rightarrow> Unsubscribe_ok level x
      | Packet.UnsubAck x \<Rightarrow> UnsubAck_ok level x
      | Packet.PingReq \<Rightarrow> True
      | Packet.PingResp \<Rightarrow> True
      | Packet.Disconnect x \<Rightarrow> Disconnect_ok level x)"

definition Packet_exact :: "ProtocolLevel \<Rightarrow> Packet \<Rightarrow> bool" where
  "Packet_exact level packet =
     (case packet of
        Packet.Connect x \<Rightarrow> Connect_exact level x
      | Packet.ConnAck x \<Rightarrow> ConnAck_exact level x
      | Packet.Publish x \<Rightarrow> Publish_exact level x
      | Packet.PubAck x \<Rightarrow> PubAck_exact level x
      | Packet.PubRec x \<Rightarrow> PubRec_exact level x
      | Packet.PubRel x \<Rightarrow> PubRel_exact level x
      | Packet.PubComp x \<Rightarrow> PubComp_exact level x
      | Packet.Subscribe x \<Rightarrow> Subscribe_exact level x
      | Packet.SubAck x \<Rightarrow> SubAck_exact level x
      | Packet.Unsubscribe x \<Rightarrow> Unsubscribe_exact level x
      | Packet.UnsubAck x \<Rightarrow> UnsubAck_exact level x
      | Packet.PingReq \<Rightarrow> True
      | Packet.PingResp \<Rightarrow> True
      | Packet.Disconnect x \<Rightarrow> Disconnect_exact level x)"

text \<open>The packet as a peer of the given level decodes it.\<close>

definition Packet_norm :: "ProtocolLevel \<Rightarrow> Packet \<Rightarrow> Packet" where
  "Packet_norm level packet =
     (case packet of
        Packet.Connect x \<Rightarrow> Packet.Connect (Connect_norm level x)
      | Packet.ConnAck x \<Rightarrow> Packet.ConnAck (ConnAck_norm level x)
      | Packet.Publish x \<Rightarrow> Packet.Publish (Publish_norm level x)
      | Packet.PubAck x \<Rightarrow> Packet.PubAck (PubAck_norm level x)
      | Packet.PubRec x \<Rightarrow> Packet.PubRec (PubRec_norm level x)
      | Packet.PubRel x \<Rightarrow> Packet.PubRel (PubRel_norm level x)
      | Packet.PubComp x \<Rightarrow> Packet.PubComp (PubComp_norm level x)
      | Packet.Subscribe x \<Rightarrow> Packet.Subscribe (Subscribe_norm level x)
      | Packet.SubAck x \<Rightarrow> Packet.SubAck (SubAck_norm level x)
      | Packet.Unsubscribe x \<Rightarrow> Packet.Unsubscribe (Unsubscribe_norm level x)
      | Packet.UnsubAck x \<Rightarrow> Packet.UnsubAck (UnsubAck_norm level x)
      | Packet.PingReq \<Rightarrow> Packet.PingReq
      | Packet.PingResp \<Rightarrow> Packet.PingResp
      | Packet.Disconnect x \<Rightarrow> Packet.Disconnect (Disconnect_norm level x))"

text \<open>
  \<open>max_size\<close> bounds the remaining length: inclusively for PUBLISH, exclusively for the others,
  and not at all for the two pings.
\<close>

definition Packet_limit :: "Packet \<Rightarrow> nat \<Rightarrow> nat \<Rightarrow> bool" where
  "Packet_limit packet n max_size =
     (case packet of
        Publish _ \<Rightarrow> n \<le> max_size
      | PingReq \<Rightarrow> True
      | PingResp \<Rightarrow> True
      | _ \<Rightarrow> n < max_size)"

text \<open>What the decoder guarantees of a packet.\<close>

definition Packet_wf :: "Packet \<Rightarrow> bool" where
  "Packet_wf packet =
     (case packet of
        Packet.Connect x \<Rightarrow> Connect_wf x
      | Packet.ConnAck x \<Rightarrow> ConnAckProperties_ok (connack_properties x)
      | Packet.Publish x \<Rightarrow> str_ok (publish_topic x) \<and> (publish_packet_id x = None \<longleftrightarrow> publish_qos x = AtMostOnce) \<and>
          opt_ok (\<lambda>n. n \<noteq> 0) (publish_packet_id x) \<and> PublishProperties_ok (publish_properties x)
      | Packet.PubAck x \<Rightarrow> puback_packet_id x \<noteq> 0 \<and> PubAckProperties_ok (puback_properties x)
      | Packet.PubRec x \<Rightarrow> pubrec_packet_id x \<noteq> 0 \<and> PubRecProperties_ok (pubrec_properties x)
      | Packet.PubRel x \<Rightarrow> pubrel_packet_id x \<noteq> 0 \<and> PubRelProperties_ok (pubrel_properties x)
      | Packet.PubComp x \<Rightarrow> pubcomp_packet_id x \<noteq> 0 \<and> PubCompProperties_ok (pubcomp_properties x)
      | Packet.Subscribe x \<Rightarrow> subscribe_packet_id x \<noteq> 0 \<and> SubscribeProperties_ok (subscribe_properties x) \<and>
          list_all (\<lambda>f. str_ok (filter_path f)) (subscribe_filters x)
      | Packet.SubAck x \<Rightarrow> suback_packet_id x \<noteq> 0 \<and> SubAckProperties_ok (suback_properties x)
      | Packet.Unsubscribe x \<Rightarrow> unsubscribe_packet_id x \<noteq> 0 \<and> UnsubscribeProperties_ok (unsubscribe_properties x) \<and>
          list_all str_ok (unsubscribe_filters x)
      | Packet.UnsubAck x \<Rightarrow> unsuback_packet_id x \<noteq> 0 \<and> UnsubAckProperties_ok (unsuback_properties x)
      | Packet.PingReq \<Rightarrow> True
      | Packet.PingResp \<Rightarrow> True
      | Packet.Disconnect x \<Rightarrow> DisconnectProperties_ok (disconnect_properties x))"

subsection \<open>Encoding and decoding\<close>

lemmas packet_spec_defs = Packet_header_def Packet_body_def Packet_size_def Packet_ok_def
  Packet_exact_def Packet_norm_def Packet_limit_def

lemmas packet_size_eqs =
  Connect_size_exact ConnAck_size_eq Publish_size_eq PubAck_size_eq
  PubRec_size_eq PubRel_size_eq PubComp_size_eq Subscribe_size_eq
  SubAck_size_eq Unsubscribe_size_eq UnsubAck_size_eq Disconnect_size_eq

lemmas packet_encode_framed =
  connect.encode_framed connack.encode_framed publish.encode_framed puback.encode_framed
  pubrec.encode_framed pubrel.encode_framed pubcomp.encode_framed subscribe.encode_framed
  suback.encode_framed unsubscribe.encode_framed unsuback.encode_framed disconnect.encode_framed

lemmas packet_decode_body =
  connect.decode_body connack.decode_body publish.decode_body puback.decode_body
  pubrec.decode_body pubrel.decode_body pubcomp.decode_body subscribe.decode_body
  suback.decode_body unsubscribe.decode_body unsuback.decode_body disconnect.decode_body

text \<open>Outside the off-by-one lengths the announced size is the length of the body.\<close>

lemma Packet_size_exact:
  "Packet_ok level packet \<Longrightarrow> Packet_exact level packet \<Longrightarrow>
   Packet_size level packet = Inr (length (Packet_body level packet))"
  by (cases packet) (simp_all add: packet_spec_defs packet_size_eqs)

text \<open>Every encoder but those of the pings is the framed writer of its packet.\<close>

lemma Packet_encode_framed:
  "Packet_ok level packet \<Longrightarrow> packet \<noteq> PingReq \<Longrightarrow> packet \<noteq> PingResp \<Longrightarrow>
   Packet_encode packet level max_size
   = framed (Packet_header packet) (Packet_size level packet)
       (\<lambda>n. Packet_limit packet n max_size) (Packet_body level packet)"
  by (cases packet)
    (simp_all add: Packet_encode_def packet_spec_defs packet_encode_framed del: push_bit_numeral)

lemma Packet_encode_wire:
  assumes "Packet_ok level packet" "Packet_exact level packet"
    and "Packet_limit packet (length (Packet_body level packet)) max_size"
    and "length (Packet_body level packet) \<le> 268435455"
  shows "Packet_encode packet level max_size = put_slice (Packet_wire level packet)"
proof (cases "packet = PingReq \<or> packet = PingResp")
  case True
  then show ?thesis
    by (auto simp: Packet_encode_def Packet_wire_def Packet_header_def Packet_body_def
        varint.simps [of 0])
next
  case False
  with assms show ?thesis
    by (simp add: Packet_encode_framed Packet_size_exact framed_ok Packet_wire_def)
qed

lemma Packet_type_of_header:
  "drop_bit 4 (Packet_header packet AND 0xf0) =
     (case packet of
        Packet.Connect _ \<Rightarrow> CONNECT
      | Packet.ConnAck _ \<Rightarrow> CONNACK
      | Packet.Publish _ \<Rightarrow> PUBLISH
      | Packet.PubAck _ \<Rightarrow> PUBACK
      | Packet.PubRec _ \<Rightarrow> PUBREC
      | Packet.PubRel _ \<Rightarrow> PUBREL
      | Packet.PubComp _ \<Rightarrow> PUBCOMP
      | Packet.Subscribe _ \<Rightarrow> SUBSCRIBE
      | Packet.SubAck _ \<Rightarrow> SUBACK
      | Packet.Unsubscribe _ \<Rightarrow> UNSUBSCRIBE
      | Packet.UnsubAck _ \<Rightarrow> UNSUBACK
      | Packet.PingReq \<Rightarrow> PINGREQ
      | Packet.PingResp \<Rightarrow> PINGRESP
      | Packet.Disconnect _ \<Rightarrow> DISCONNECT)"
proof -
  have "drop_bit 4 (h AND 0xf0) = drop_bit 4 h" for h :: u8
  proof -
    have "drop_bit 4 (h AND 0xf0) = drop_bit 4 h AND mask 4"
      by (simp add: drop_bit_and mask_eq_exp_minus_1)
    also have "\<dots> = drop_bit 4 (take_bit 8 h)"
      by (simp add: take_bit_drop_bit flip: take_bit_eq_mask)
    also have "take_bit 8 h = h"
      using take_bit_length_eq [of h] by simp
    finally show ?thesis .
  qed
  then show ?thesis
    using Publish_header_bits(4)
    by (cases packet) (simp_all add: Packet_header_def)
qed

lemma Packet_decode_wire:
  "Packet_ok level packet \<Longrightarrow>
   Packet_decode (Packet_body level packet) (Packet_header packet) level
   = Inr (Packet_norm level packet)"
  unfolding Packet_decode_def Packet_type_of_header Let_def
  by (cases packet)
    (simp_all add: Packet_header_def Packet_body_def Packet_ok_def Packet_norm_def packet_decode_body
      del: push_bit_numeral or_numerals)

lemmas packet_decode_wf =
  Connect_decode_wf ConnAck_decode_wf Publish_decode_wf PubAck_decode_wf
  PubRec_decode_wf PubRel_decode_wf PubComp_decode_wf Subscribe_decode_wf
  SubAck_decode_wf Unsubscribe_decode_wf UnsubAck_decode_wf Disconnect_decode_wf

lemma Packet_decode_wf:
  assumes "Packet_decode data flag level = Inr packet"
  shows "Packet_wf packet"
  using assms unfolding Packet_decode_def Let_def
  by (auto simp: and_then_Inr_iff Packet_wf_def packet_decode_wf split: if_splits)

text \<open>A failing encoder leaves exactly the header byte in the buffer.\<close>

lemma Packet_encode_residue:
  assumes "Packet_ok level packet" "Packet_encode packet level max_size buf = (Inl e, buf')"
  shows "buf' = buf @ [Packet_header packet]"
proof -
  have "packet \<noteq> PingReq" "packet \<noteq> PingResp"
    using assms(2) by (auto simp: Packet_encode_def put_slice_apply)
  with assms show ?thesis
    by (auto simp: Packet_encode_framed framed_apply split: sum.splits if_splits)
qed

end
