(* ===== verification/Codec.thy ===== *)
theory Codec
  imports Packet
begin

text \<open>
  \<open>libs/codec/src/codec.rs\<close>: the framing of packets on a connection. The \<open>AsyncRead\<close> and
  \<open>AsyncWrite\<close> of the connection are not part of the repository: they are the parameters
  \<open>read\<close> and \<open>write_all\<close> of the operations, functions on a state of theirs. A \<open>read\<close> returns
  the bytes it got, none at the end of the stream.

  The specification side is \<open>next_packet\<close>, which takes the next packet off the whole remaining
  byte stream, without buffers and decoder states.
\<close>

unbundle bit_operations_syntax

subsection \<open>The codec and its operations\<close>

datatype DecoderState = Flag | Length u8 | Body u8 nat

record Codec =
  codec_level :: ProtocolLevel
  codec_input_max_size :: nat
  codec_output_max_size :: nat
  codec_read_buf :: bytes
  codec_write_buf :: bytes
  codec_decoder_state :: DecoderState

definition Codec_new :: Codec where
  "Codec_new = \<lparr>codec_level = V4, codec_input_max_size = usize_max,
     codec_output_max_size = usize_max, codec_read_buf = [], codec_write_buf = [],
     codec_decoder_state = Flag\<rparr>"

definition Codec_set_input_max_size :: "nat \<Rightarrow> Codec \<Rightarrow> Codec" where
  "Codec_set_input_max_size n c = c\<lparr>codec_input_max_size := n\<rparr>"

definition Codec_set_output_max_size :: "nat \<Rightarrow> Codec \<Rightarrow> Codec" where
  "Codec_set_output_max_size n c = c\<lparr>codec_output_max_size := n\<rparr>"

text \<open>
  The loop of \<open>get_remaining_length\<close>: the length and the number of its bytes, or None if the
  buffer ends before it.
\<close>

function get_remaining_length_loop ::
  "bytes \<Rightarrow> nat \<Rightarrow> nat \<Rightarrow> nat \<Rightarrow> nat \<Rightarrow> DecodeError + (nat \<times> nat) option" where
  "get_remaining_length_loop data i n shift bytes =
     (if i \<ge> length data then Inr None
      else
        let byte = data ! i; bytes = bytes + 1;
            n = n + push_bit shift (unat (byte AND 0x7f)) in
        if byte AND 0x80 = 0 then Inr (Some (n, bytes))
        else and_then (ensure (shift + 7 \<le> 21) DecodeError.MalformedPacket) (\<lambda>_.
          get_remaining_length_loop data (i + 1) n (shift + 7) bytes))"
  by pat_completeness auto
termination by (relation "measure (\<lambda>(data, i, n, shift, bytes). length data - i)") auto

declare get_remaining_length_loop.simps [simp del]

definition get_remaining_length :: "bytes \<Rightarrow> DecodeError + (nat \<times> nat) option" where
  "get_remaining_length data = get_remaining_length_loop data 0 0 0 0"

text \<open>
  One turn of the \<open>loop\<close> of \<open>decode\<close> up to the \<open>read\<close>: it continues with another state,
  returns, or falls through to the \<open>read\<close>.
\<close>

datatype turn =
    Continue Codec
  | Return "DecodeError + (Packet \<times> nat) option" Codec
  | Await

definition Codec_turn :: "Codec \<Rightarrow> turn" where
  "Codec_turn c =
     (case codec_decoder_state c of
        Flag \<Rightarrow>
          (case codec_read_buf c of
             [] \<Rightarrow> Await
           | flag # buf \<Rightarrow> Continue (c\<lparr>codec_decoder_state := Length flag, codec_read_buf := buf\<rparr>))
      | Length flag \<Rightarrow>
          (case get_remaining_length (codec_read_buf c) of
             Inl e \<Rightarrow> Return (Inl e) c
           | Inr None \<Rightarrow> Await
           | Inr (Some (packet_size, len_size)) \<Rightarrow>
               if packet_size > codec_input_max_size c then Return (Inl DecodeError.PacketTooLarge) c
               else Continue (c\<lparr>codec_read_buf := drop len_size (codec_read_buf c),
                 codec_decoder_state := Body flag packet_size\<rparr>))
      | Body flag packet_size \<Rightarrow>
          if packet_size \<le> length (codec_read_buf c) then
            let data = take packet_size (codec_read_buf c);
                c = c\<lparr>codec_read_buf := drop packet_size (codec_read_buf c),
                  codec_decoder_state := Flag\<rparr> in
            (case Packet_decode data flag (codec_level c) of
               Inl e \<Rightarrow> Return (Inl e) c
             | Inr packet \<Rightarrow>
                 Return (Inr (Some (packet, packet_size)))
                   (case packet of Connect connect \<Rightarrow> c\<lparr>codec_level := connect_level connect\<rparr>
                    | _ \<Rightarrow> c))
          else Await)"

text \<open>The end of the stream, which is an error inside a packet.\<close>

definition Codec_eof :: "Codec \<Rightarrow> DecodeError + (Packet \<times> nat) option" where
  "Codec_eof c =
     (case codec_decoder_state c of
        Flag \<Rightarrow> Inr None
      | _ \<Rightarrow> Inl (DecodeIo UnexpectedEof))"

text \<open>
  For the termination of \<open>decode\<close>: every turn moves the decoder state on, and every \<open>read\<close>
  brings the bytes that the state waits for nearer, whatever the reader does.
\<close>

definition decoder_rank :: "Codec \<Rightarrow> nat" where
  "decoder_rank c = (case codec_decoder_state c of Flag \<Rightarrow> 2 | Length _ \<Rightarrow> 1 | Body _ _ \<Rightarrow> 0)"

definition awaited :: "Codec \<Rightarrow> nat" where
  "awaited c =
     (case codec_decoder_state c of
        Flag \<Rightarrow> 1
      | Length _ \<Rightarrow> 4
      | Body _ packet_size \<Rightarrow> packet_size) - length (codec_read_buf c)"

lemma get_remaining_length_loop_read:
  assumes "k \<le> 3" "k \<le> length data"
  shows "get_remaining_length_loop data k n (7 * k) k =
    (case read_remaining_length_loop n (7 * k) (drop k data) of
       Inr (m, rest) \<Rightarrow> Inr (Some (m, length data - length rest))
     | Inl _ \<Rightarrow> if length data < 4 then Inr None else Inl DecodeError.MalformedPacket)"
  using assms
proof (induction "4 - k" arbitrary: k n rule: less_induct)
  case less
  note unfolded = get_remaining_length_loop.simps [of data k n "7 * k" k]
    read_remaining_length_loop.simps [of n "7 * k" "data ! k # drop (Suc k) data"]
  show ?case
  proof (cases "k < length data")
    case False
    with less.prems have k: "length data = k" by simp
    with less.prems show ?thesis
      by (simp add: unfolded(1) read_remaining_length_loop.simps [of n "7 * k" "[]"])
  next
    case True
    then have d: "drop k data = data ! k # drop (Suc k) data" by (simp add: Cons_nth_drop_Suc)
    define m where "m = n + push_bit (7 * k) (unat (data ! k AND 127))"
    consider (last) "data ! k AND 128 = 0" | (four) "data ! k AND 128 \<noteq> 0" "k = 3"
      | (more) "data ! k AND 128 \<noteq> 0" "k < 3"
      using less.prems by linarith
    then show ?thesis
    proof cases
      case last
      with d True show ?thesis by (simp add: unfolded Let_def)
    next
      case four
      with d True unfolded show ?thesis by (simp add: Let_def)
    next
      case more
      have "get_remaining_length_loop data (Suc k) m (7 * Suc k) (Suc k) =
        (case read_remaining_length_loop m (7 * Suc k) (drop (Suc k) data) of
           Inr (m, rest) \<Rightarrow> Inr (Some (m, length data - length rest))
         | Inl _ \<Rightarrow> if length data < 4 then Inr None else Inl DecodeError.MalformedPacket)"
        using less.hyps [of "Suc k"] more True by simp
      with d more True show ?thesis
        by (simp add: unfolded Let_def m_def add.commute)
    qed
  qed
qed

lemma get_remaining_length_eq:
  "get_remaining_length data =
    (case read_remaining_length data of
       Inr (m, rest) \<Rightarrow> Inr (Some (m, length data - length rest))
     | Inl _ \<Rightarrow> if length data < 4 then Inr None else Inl DecodeError.MalformedPacket)"
  using get_remaining_length_loop_read [of 0 data 0]
  by (simp add: get_remaining_length_def read_remaining_length_def)

lemma Codec_turn_rank: "Codec_turn c = Continue c' \<Longrightarrow> decoder_rank c' < decoder_rank c"
  by (auto simp: Codec_turn_def decoder_rank_def Let_def
      split: DecoderState.splits list.splits sum.splits option.splits if_splits)

lemma Codec_turn_awaited: "Codec_turn c = Await \<Longrightarrow> 0 < awaited c"
  by (auto simp: Codec_turn_def awaited_def Let_def get_remaining_length_eq
      split: DecoderState.splits list.splits sum.splits option.splits if_splits)

function Codec_decode ::
  "('r \<Rightarrow> (io_error + bytes) \<times> 'r) \<Rightarrow> 'r \<Rightarrow> Codec
   \<Rightarrow> (DecodeError + (Packet \<times> nat) option) \<times> 'r \<times> Codec" where
  "Codec_decode read r c =
     (case Codec_turn c of
        Continue c \<Rightarrow> Codec_decode read r c
      | Return result c \<Rightarrow> (result, r, c)
      | Await \<Rightarrow>
          (case read r of
             (Inl e, r) \<Rightarrow> (Inl (DecodeIo e), r, c)
           | (Inr data, r) \<Rightarrow>
               if data = [] then (Codec_eof c, r, c)
               else Codec_decode read r (c\<lparr>codec_read_buf := codec_read_buf c @ data\<rparr>)))"
  by pat_completeness auto
termination
proof (relation "measures [\<lambda>(read, r, c). decoder_rank c, \<lambda>(read, r, c). awaited c]")
  fix read :: "'r \<Rightarrow> (io_error + bytes) \<times> 'r" and r r' :: 'r and c :: Codec
    and o1 :: "io_error + bytes" and data :: bytes
  assume await: "Codec_turn c = Await" and data: "data \<noteq> []"
  define c' where "c' = c\<lparr>codec_read_buf := codec_read_buf c @ data\<rparr>"
  have "awaited c' < awaited c"
    using Codec_turn_awaited [OF await] data
    by (auto simp: awaited_def c'_def Suc_le_eq split: DecoderState.splits intro!: diff_less_mono2)
  moreover have "decoder_rank c' = decoder_rank c" by (simp add: decoder_rank_def c'_def)
  ultimately show "((read, r', c\<lparr>codec_read_buf := codec_read_buf c @ data\<rparr>), read, r, c)
    \<in> measures [\<lambda>(read, r, c). decoder_rank c, \<lambda>(read, r, c). awaited c]"
    by (simp flip: c'_def)
qed (auto dest: Codec_turn_rank)

declare Codec_decode.simps [simp del]

definition Codec_encode ::
  "('w \<Rightarrow> bytes \<Rightarrow> (io_error + unit) \<times> 'w) \<Rightarrow> Packet \<Rightarrow> 'w \<Rightarrow> Codec
   \<Rightarrow> (EncodeError + nat) \<times> 'w \<times> Codec" where
  "Codec_encode write_all packet w c =
     (let c = (case packet of Connect connect \<Rightarrow> c\<lparr>codec_level := connect_level connect\<rparr> | _ \<Rightarrow> c) in
      (case Packet_encode packet (codec_level c) (codec_output_max_size c) (codec_write_buf c) of
         (Inl e, buf) \<Rightarrow> (Inl e, w, c\<lparr>codec_write_buf := buf\<rparr>)
       | (Inr _, buf) \<Rightarrow>
           (case write_all w buf of
              (Inl e, w) \<Rightarrow> (Inl (EncodeIo e), w, c\<lparr>codec_write_buf := buf\<rparr>)
            | (Inr _, w) \<Rightarrow> (Inr (length buf), w, c\<lparr>codec_write_buf := []\<rparr>))))"

end
