(* ===== verification/Packet_Id_Allocator.thy ===== *)
theory Packet_Id_Allocator
  imports Prelude
begin

text \<open>
  \<open>libs/codec/src/packet_id_allocator.rs\<close>: the packet identifiers a connection hands out. The
  allocator is its next identifier; \<open>take\<close> returns it and moves on, from 65535 back to 1.
\<close>

type_synonym PacketIdAllocator = u16

definition PacketIdAllocator_default :: PacketIdAllocator where
  "PacketIdAllocator_default = 1"

definition PacketIdAllocator_take :: "PacketIdAllocator \<Rightarrow> u16 \<times> PacketIdAllocator" where
  "PacketIdAllocator_take a = (a, if a = 0xffff then 1 else a + 1)"

definition PacketIdAllocator_reset :: "PacketIdAllocator \<Rightarrow> PacketIdAllocator" where
  "PacketIdAllocator_reset a = PacketIdAllocator_default"

text \<open>The identifiers of \<open>n\<close> calls of \<open>take\<close>, with the allocator after them.\<close>

primrec PacketIdAllocator_takes :: "nat \<Rightarrow> PacketIdAllocator \<Rightarrow> u16 list \<times> PacketIdAllocator" where
  "PacketIdAllocator_takes 0 a = ([], a)"
| "PacketIdAllocator_takes (Suc n) a =
     (let (i, a) = PacketIdAllocator_take a; (is, a) = PacketIdAllocator_takes n a in (i # is, a))"

text \<open>\<open>k\<close> takes behind the first identifier comes \<open>k mod 65535 + 1\<close>.\<close>

definition nth_packet_id :: "nat \<Rightarrow> u16" where
  "nth_packet_id k = word_of_nat (k mod 65535 + 1)"

lemma unat_nth_packet_id: "unat (nth_packet_id k) = k mod 65535 + 1"
proof -
  have "k mod 65535 + 1 < 65536" using mod_less_divisor [of 65535 k] by simp
  then show ?thesis unfolding nth_packet_id_def by (subst unat_of_nat) simp
qed

lemma nth_packet_id_nonzero: "nth_packet_id k \<noteq> 0"
  using unat_nth_packet_id [of k] by auto

lemma nth_packet_id_Suc:
  "nth_packet_id (Suc k) = (if nth_packet_id k = 0xffff then 1 else nth_packet_id k + 1)"
proof -
  have max: "nth_packet_id k = 0xffff \<longleftrightarrow> k mod 65535 = 65534"
    using unat_nth_packet_id [of k] by (auto simp: word_unat_eq_iff)
  have "k mod 65535 \<noteq> 65534 \<Longrightarrow> Suc k mod 65535 = Suc (k mod 65535)"
    by (simp add: mod_Suc)
  moreover have "k mod 65535 = 65534 \<Longrightarrow> Suc k mod 65535 = 0"
    by (simp add: mod_Suc)
  ultimately show ?thesis
    unfolding max by (auto simp: nth_packet_id_def)
qed

lemma PacketIdAllocator_takes_nth:
  "PacketIdAllocator_takes n (nth_packet_id k)
   = (map nth_packet_id [k..<k + n], nth_packet_id (k + n))"
  by (induction n arbitrary: k)
    (simp_all add: PacketIdAllocator_take_def upt_conv_Cons flip: nth_packet_id_Suc del: upt_Suc)

lemma PacketIdAllocator_default_nth: "PacketIdAllocator_default = nth_packet_id 0"
  by (simp add: PacketIdAllocator_default_def nth_packet_id_def)

end
