(* ===== verification/Service_State.thy ===== *)
theory Service_State
  imports Storage Codec Packet_Id_Allocator Filter_Util
begin

text \<open>
  \<open>libs/service/src/error.rs\<close>, \<open>config.rs\<close>, \<open>plugin.rs\<close> and \<open>state.rs\<close>: the errors that end a
  connection, the configuration, the plugins and the state that all connections share.

  Plugins and the regular expressions of the topic rewrites are code outside the repository: they
  are functions in the state. The notifications that plugins receive are kept in a log. A channel
  to a connection is the queue of the controls sent to it, under the number of the connection.
\<close>

subsection \<open>error.rs\<close>

datatype Error =
    SessionTakenOver
  | InternalError string
  | ServerDisconnect "Disconnect option"
  | EncodePacket EncodeError
  | ClientDisconnect Disconnect
  | Io io_error

definition Error_server_disconnect :: "DisconnectReasonCode \<Rightarrow> Error" where
  "Error_server_disconnect reason_code = ServerDisconnect (Some (Disconnect_new reason_code))"

text \<open>\<open>Error::internal_error\<close> calls itself, not the constructor of the same name.\<close>

partial_function (option) Error_internal_error :: "string \<Rightarrow> Error option" where
  "Error_internal_error err = Error_internal_error err"

lemma Error_internal_error_None: "Error_internal_error err = None"
proof (cases "Error_internal_error err")
  case (Some e)
  then have False by (rule Error_internal_error.raw_induct [rotated]) blast
  then show ?thesis ..
qed

subsection \<open>config.rs\<close>

record RewriteConfig =
  rewrite_pattern :: string
  rewrite_write :: string

record ServiceConfig =
  config_metrics_update_interval :: u64
  config_max_keep_alive :: u16
  config_max_session_expiry_interval :: u32
  config_receive_max :: u16
  config_max_packet_size :: u32
  config_max_topic_alias :: u16
  config_maximum_qos :: Qos
  config_retain_available :: bool
  config_wildcard_subscription_available :: bool
  config_subscriptions :: "SubscribeFilter list"
  config_rewrites :: "RewriteConfig list"

definition ServiceConfig_default :: ServiceConfig where
  "ServiceConfig_default = \<lparr>config_metrics_update_interval = 5, config_max_keep_alive = 30,
     config_max_session_expiry_interval = 60, config_receive_max = 32,
     config_max_packet_size = u32_max, config_max_topic_alias = 32, config_maximum_qos = ExactlyOnce,
     config_retain_available = True, config_wildcard_subscription_available = True,
     config_subscriptions = [], config_rewrites = []\<rparr>"

subsection \<open>plugin.rs\<close>

datatype Action = PublishAction | SubscribeAction

record RemoteAddr =
  remote_protocol :: string
  remote_address :: "string option"

text \<open>The notifications, with the arguments they are called with.\<close>

datatype plugin_call =
    OnClientConnected RemoteAddr string "string option" u16 ProtocolLevel
  | OnClientDisconnected string "string option"
  | OnSessionSubscribed string "string option" string Qos
  | OnSessionUnsubscribed string "string option" string
  | OnMessagePublish string "string option" string Qos bool bytes
  | OnMessageDelivered string "string option" "string option" "string option" string Qos bool bytes

record Plugin =
  plugin_name :: string
  plugin_auth :: "string \<Rightarrow> string \<Rightarrow> string + string option"
  plugin_check_acl :: "RemoteAddr \<Rightarrow> string option \<Rightarrow> Action \<Rightarrow> string \<Rightarrow> string + bool"

text \<open>The default methods of the trait.\<close>

definition Plugin_default :: "string \<Rightarrow> Plugin" where
  "Plugin_default name = \<lparr>plugin_name = name, plugin_auth = (\<lambda>_ _. Inr None),
     plugin_check_acl = (\<lambda>_ _ _ _. Inr True)\<rparr>"

subsection \<open>state.rs\<close>

record ServiceMetrics =
  metric_bytes_received :: u64
  metric_bytes_sent :: u64
  metric_pub_bytes_received :: u64
  metric_pub_bytes_sent :: u64
  metric_msgs_received :: u64
  metric_msgs_sent :: u64
  metric_pub_msgs_received :: u64
  metric_pub_msgs_sent :: u64
  metric_msgs_dropped :: u64
  metric_socket_connections :: u64
  metric_connection_count :: u64

definition ServiceMetrics_default :: ServiceMetrics where
  "ServiceMetrics_default = \<lparr>metric_bytes_received = 0, metric_bytes_sent = 0,
     metric_pub_bytes_received = 0, metric_pub_bytes_sent = 0, metric_msgs_received = 0,
     metric_msgs_sent = 0, metric_pub_msgs_received = 0, metric_pub_msgs_sent = 0,
     metric_msgs_dropped = 0, metric_socket_connections = 0, metric_connection_count = 0\<rparr>"

text \<open>\<open>fetch_add\<close> and \<open>fetch_sub\<close> wrap around.\<close>

definition inc_bytes_received :: "nat \<Rightarrow> ServiceMetrics \<Rightarrow> ServiceMetrics" where
  "inc_bytes_received n m = m\<lparr>metric_bytes_received := metric_bytes_received m + word_of_nat n\<rparr>"

definition inc_bytes_sent :: "nat \<Rightarrow> ServiceMetrics \<Rightarrow> ServiceMetrics" where
  "inc_bytes_sent n m = m\<lparr>metric_bytes_sent := metric_bytes_sent m + word_of_nat n\<rparr>"

definition inc_pub_bytes_received :: "nat \<Rightarrow> ServiceMetrics \<Rightarrow> ServiceMetrics" where
  "inc_pub_bytes_received n m = m\<lparr>metric_pub_bytes_received := metric_pub_bytes_received m + word_of_nat n\<rparr>"

definition inc_pub_bytes_sent :: "nat \<Rightarrow> ServiceMetrics \<Rightarrow> ServiceMetrics" where
  "inc_pub_bytes_sent n m = m\<lparr>metric_pub_bytes_sent := metric_pub_bytes_sent m + word_of_nat n\<rparr>"

definition inc_msgs_received :: "nat \<Rightarrow> ServiceMetrics \<Rightarrow> ServiceMetrics" where
  "inc_msgs_received n m = m\<lparr>metric_msgs_received := metric_msgs_received m + word_of_nat n\<rparr>"

definition inc_msgs_sent :: "nat \<Rightarrow> ServiceMetrics \<Rightarrow> ServiceMetrics" where
  "inc_msgs_sent n m = m\<lparr>metric_msgs_sent := metric_msgs_sent m + word_of_nat n\<rparr>"

definition inc_pub_msgs_received :: "nat \<Rightarrow> ServiceMetrics \<Rightarrow> ServiceMetrics" where
  "inc_pub_msgs_received n m = m\<lparr>metric_pub_msgs_received := metric_pub_msgs_received m + word_of_nat n\<rparr>"

definition inc_pub_msgs_sent :: "nat \<Rightarrow> ServiceMetrics \<Rightarrow> ServiceMetrics" where
  "inc_pub_msgs_sent n m = m\<lparr>metric_pub_msgs_sent := metric_pub_msgs_sent m + word_of_nat n\<rparr>"

definition inc_msg_dropped :: "nat \<Rightarrow> ServiceMetrics \<Rightarrow> ServiceMetrics" where
  "inc_msg_dropped n m = m\<lparr>metric_msgs_dropped := metric_msgs_dropped m + word_of_nat n\<rparr>"

definition inc_socket_connections :: "nat \<Rightarrow> ServiceMetrics \<Rightarrow> ServiceMetrics" where
  "inc_socket_connections n m = m\<lparr>metric_socket_connections := metric_socket_connections m + word_of_nat n\<rparr>"

definition dec_socket_connections :: "nat \<Rightarrow> ServiceMetrics \<Rightarrow> ServiceMetrics" where
  "dec_socket_connections n m = m\<lparr>metric_socket_connections := metric_socket_connections m - word_of_nat n\<rparr>"

definition inc_connection_count :: "nat \<Rightarrow> ServiceMetrics \<Rightarrow> ServiceMetrics" where
  "inc_connection_count n m = m\<lparr>metric_connection_count := metric_connection_count m + word_of_nat n\<rparr>"

definition dec_connection_count :: "nat \<Rightarrow> ServiceMetrics \<Rightarrow> ServiceMetrics" where
  "dec_connection_count n m = m\<lparr>metric_connection_count := metric_connection_count m - word_of_nat n\<rparr>"

datatype Control = TakenOver

record ServiceState =
  state_config :: ServiceConfig
  state_connections :: "(string \<times> nat) list"
  state_controls :: "(nat \<times> Control) list"
  state_storage :: Storage
  state_service_metrics :: ServiceMetrics
  state_plugins :: "Plugin list"
  state_rewrites :: "(string \<Rightarrow> string option) list"
  state_plugin_calls :: "(string \<times> plugin_call) list"

definition ServiceState_new ::
  "ServiceConfig \<Rightarrow> Plugin list \<Rightarrow> (string \<Rightarrow> string option) list \<Rightarrow> ServiceState" where
  "ServiceState_new config plugins rewrites = \<lparr>state_config = config, state_connections = [],
     state_controls = [], state_storage = Storage_default,
     state_service_metrics = ServiceMetrics_default, state_plugins = plugins,
     state_rewrites = rewrites, state_plugin_calls = []\<rparr>"

primrec first_rewrite :: "(string \<Rightarrow> string option) list \<Rightarrow> string \<Rightarrow> string" where
  "first_rewrite [] topic = topic"
| "first_rewrite (rewrite # rewrites) topic =
     (case rewrite topic of Some new_topic \<Rightarrow> new_topic | None \<Rightarrow> first_rewrite rewrites topic)"

definition ServiceState_rewrite :: "string \<Rightarrow> ServiceState \<Rightarrow> string" where
  "ServiceState_rewrite topic state = first_rewrite (state_rewrites state) topic"

text \<open>\<open>for (_, plugin) in &self.state.plugins { plugin.on_...(...).await }\<close>.\<close>

definition call_plugins :: "plugin_call \<Rightarrow> ServiceState \<Rightarrow> ServiceState" where
  "call_plugins call state = state\<lparr>state_plugin_calls :=
     state_plugin_calls state @ map (\<lambda>plugin. (plugin_name plugin, call)) (state_plugins state)\<rparr>"

text \<open>\<open>plugin::auth\<close> of the plugins in turn, until one knows the user.\<close>

primrec auth_plugins :: "Plugin list \<Rightarrow> Login \<Rightarrow> string + string option" where
  "auth_plugins [] login = Inr None"
| "auth_plugins (plugin # plugins) login =
     (case plugin_auth plugin (username login) (password login) of
        Inr (Some uid) \<Rightarrow> Inr (Some uid)
      | Inr None \<Rightarrow> auth_plugins plugins login
      | Inl err \<Rightarrow> Inl err)"

text \<open>\<open>plugin::check_acl\<close> of the plugins in turn, until one forbids the action.\<close>

primrec acl_plugins ::
  "Plugin list \<Rightarrow> RemoteAddr \<Rightarrow> string option \<Rightarrow> Action \<Rightarrow> string \<Rightarrow> string + bool" where
  "acl_plugins [] remote_addr uid action topic = Inr True"
| "acl_plugins (plugin # plugins) remote_addr uid action topic =
     (case plugin_check_acl plugin remote_addr uid action topic of
        Inr False \<Rightarrow> Inr False
      | Inr True \<Rightarrow> acl_plugins plugins remote_addr uid action topic
      | Inl err \<Rightarrow> Inl err)"

end
