(* ===== verification/Metrics.thy ===== *)
theory Metrics
  imports Service_State
begin

text \<open>
  \<open>libs/service/src/metrics.rs\<close> and the part of \<open>state.rs\<close> that keeps the metrics: statistics of the
  counters, and averages of their rates over one, five and fifteen minutes. The arithmetic of
  \<open>f64\<close> is a parameter: the definitions work for any operations, and the theorems say for which they hold.
  Of the three groups of eleven averages, each is a record \<open>Loads\<close>.
\<close>

subsection \<open>Floating-point numbers\<close>

record 'f float_ops =
  f_of_nat :: "nat \<Rightarrow> 'f"
  f_minus_one :: 'f
  f_add :: "'f \<Rightarrow> 'f \<Rightarrow> 'f"
  f_sub :: "'f \<Rightarrow> 'f \<Rightarrow> 'f"
  f_mul :: "'f \<Rightarrow> 'f \<Rightarrow> 'f"
  f_div :: "'f \<Rightarrow> 'f \<Rightarrow> 'f"
  f_exp :: "'f \<Rightarrow> 'f"
  f_show :: "'f \<Rightarrow> string"

subsection \<open>One average\<close>

record 'f LoadCalc =
  load_duration :: 'f
  load_initial :: bool
  load_prev_value :: 'f
  load_value :: 'f

definition LoadCalc_new :: "'f float_ops \<Rightarrow> 'f \<Rightarrow> 'f LoadCalc" where
  "LoadCalc_new ops duration = \<lparr>load_duration = duration, load_initial = True,
     load_prev_value = f_of_nat ops 0, load_value = f_of_nat ops 0\<rparr>"

definition LoadCalc_update :: "'f float_ops \<Rightarrow> u64 \<Rightarrow> 'f \<Rightarrow> 'f LoadCalc \<Rightarrow> 'f LoadCalc" where
  "LoadCalc_update ops interval_seconds value c =
     (let exponent = f_exp ops (f_div ops (f_mul ops (f_minus_one ops) (f_of_nat ops (unat interval_seconds)))
            (load_duration c))
      in if load_initial c then c\<lparr>load_value := value, load_initial := False\<rparr>
         else c\<lparr>load_value := f_add ops value (f_mul ops exponent (f_sub ops (load_value c) value))\<rparr>)"

definition LoadCalc_update_interval :: "'f float_ops \<Rightarrow> u64 \<Rightarrow> 'f \<Rightarrow> 'f LoadCalc \<Rightarrow> 'f LoadCalc" where
  "LoadCalc_update_interval ops interval_seconds value c =
     (let a = f_div ops (load_duration c) (f_of_nat ops (unat interval_seconds));
          c = LoadCalc_update ops interval_seconds (f_mul ops (f_sub ops value (load_prev_value c)) a) c
      in c\<lparr>load_prev_value := value\<rparr>)"

subsection \<open>All the averages\<close>

record 'f Loads =
  loads_msgs_received :: "'f LoadCalc"
  loads_msgs_sent :: "'f LoadCalc"
  loads_msgs_dropped :: "'f LoadCalc"
  loads_pub_msgs_received :: "'f LoadCalc"
  loads_pub_msgs_sent :: "'f LoadCalc"
  loads_pub_bytes_received :: "'f LoadCalc"
  loads_pub_bytes_sent :: "'f LoadCalc"
  loads_bytes_received :: "'f LoadCalc"
  loads_bytes_sent :: "'f LoadCalc"
  loads_sockets :: "'f LoadCalc"
  loads_connections :: "'f LoadCalc"

record 'f MetricsCalc =
  calc_max_clients :: u64
  calc_start_time :: nat
  calc_last_update :: u64
  calc_load1 :: "'f Loads"
  calc_load5 :: "'f Loads"
  calc_load15 :: "'f Loads"

record 'f MetricsLoad =
  load_min1 :: 'f
  load_min5 :: 'f
  load_min15 :: 'f

record 'f Metrics =
  met_uptime :: u64
  met_bytes_received :: u64
  met_bytes_sent :: u64
  met_clients_connected :: u64
  met_clients_expired :: u64
  met_clients_disconnected :: u64
  met_clients_maximum :: u64
  met_clients_total :: u64
  met_messages_inflight :: u64
  met_messages_received :: u64
  met_messages_sent :: u64
  met_publish_messages_dropped :: u64
  met_publish_messages_received :: u64
  met_publish_messages_sent :: u64
  met_publish_bytes_received :: u64
  met_publish_bytes_sent :: u64
  met_retained_messages_count :: u64
  met_store_messages_count :: u64
  met_store_messages_bytes :: u64
  met_subscriptions_count :: u64
  met_load_messages_received :: "'f MetricsLoad"
  met_load_messages_sent :: "'f MetricsLoad"
  met_load_publish_dropped :: "'f MetricsLoad"
  met_load_publish_received :: "'f MetricsLoad"
  met_load_publish_sent :: "'f MetricsLoad"
  met_load_publish_bytes_received :: "'f MetricsLoad"
  met_load_publish_bytes_sent :: "'f MetricsLoad"
  met_load_bytes_received :: "'f MetricsLoad"
  met_load_bytes_sent :: "'f MetricsLoad"
  met_load_sockets :: "'f MetricsLoad"
  met_load_connections :: "'f MetricsLoad"

definition Loads_new :: "'f float_ops \<Rightarrow> nat \<Rightarrow> 'f Loads" where
  "Loads_new ops seconds =
     (let calc = LoadCalc_new ops (f_of_nat ops seconds)
      in \<lparr>loads_msgs_received = calc,
        loads_msgs_sent = calc,
        loads_msgs_dropped = calc,
        loads_pub_msgs_received = calc,
        loads_pub_msgs_sent = calc,
        loads_pub_bytes_received = calc,
        loads_pub_bytes_sent = calc,
        loads_bytes_received = calc,
        loads_bytes_sent = calc,
        loads_sockets = calc,
        loads_connections = calc\<rparr>)"

definition MetricsCalc_new :: "'f float_ops \<Rightarrow> nat \<Rightarrow> 'f MetricsCalc" where
  "MetricsCalc_new ops now = \<lparr>calc_max_clients = 0, calc_start_time = now, calc_last_update = 0,
     calc_load1 = Loads_new ops 60, calc_load5 = Loads_new ops 300, calc_load15 = Loads_new ops 900\<rparr>"

definition Loads_update :: "'f float_ops \<Rightarrow> u64 \<Rightarrow> ServiceMetrics \<Rightarrow> 'f Loads \<Rightarrow> 'f Loads" where
  "Loads_update ops interval_seconds sm loads =
     (let update = (\<lambda>n. LoadCalc_update_interval ops interval_seconds (f_of_nat ops (unat n)))
      in \<lparr>loads_msgs_received = update (metric_msgs_received sm) (loads_msgs_received loads),
        loads_msgs_sent = update (metric_msgs_sent sm) (loads_msgs_sent loads),
        loads_msgs_dropped = update (metric_msgs_dropped sm) (loads_msgs_dropped loads),
        loads_pub_msgs_received = update (metric_pub_msgs_received sm) (loads_pub_msgs_received loads),
        loads_pub_msgs_sent = update (metric_pub_msgs_sent sm) (loads_pub_msgs_sent loads),
        loads_pub_bytes_received = update (metric_pub_bytes_received sm) (loads_pub_bytes_received loads),
        loads_pub_bytes_sent = update (metric_pub_bytes_sent sm) (loads_pub_bytes_sent loads),
        loads_bytes_received = update (metric_bytes_received sm) (loads_bytes_received loads),
        loads_bytes_sent = update (metric_bytes_sent sm) (loads_bytes_sent loads),
        loads_sockets = update (metric_socket_connections sm) (loads_sockets loads),
        loads_connections = update (metric_connection_count sm) (loads_connections loads)\<rparr>)"

definition MetricsLoad_of :: "'f LoadCalc \<Rightarrow> 'f LoadCalc \<Rightarrow> 'f LoadCalc \<Rightarrow> 'f MetricsLoad" where
  "MetricsLoad_of c1 c5 c15 =
     \<lparr>load_min1 = load_value c1, load_min5 = load_value c5, load_min15 = load_value c15\<rparr>"

text \<open>The state that \<open>update\<close> leaves: the maximum, the time and the averages.\<close>

definition MetricsCalc_advance :: "'f float_ops \<Rightarrow> nat \<Rightarrow> ServiceMetrics \<Rightarrow> 'f MetricsCalc \<Rightarrow> 'f MetricsCalc" where
  "MetricsCalc_advance ops now sm c =
     (let uptime = word_of_nat (as_secs (now - calc_start_time c));
          interval_seconds = uptime - calc_last_update c;
          c = c\<lparr>calc_max_clients := max (calc_max_clients c) (metric_connection_count sm),
            calc_last_update := uptime\<rparr>
      in if interval_seconds > 0 then
           c\<lparr>calc_load1 := Loads_update ops interval_seconds sm (calc_load1 c),
             calc_load5 := Loads_update ops interval_seconds sm (calc_load5 c),
             calc_load15 := Loads_update ops interval_seconds sm (calc_load15 c)\<rparr>
         else c)"

text \<open>What it returns.\<close>

definition MetricsCalc_report :: "ServiceMetrics \<Rightarrow> StorageMetrics \<Rightarrow> 'f MetricsCalc \<Rightarrow> 'f Metrics" where
  "MetricsCalc_report sm stm c =
     (let uptime = calc_last_update c;
          load = (\<lambda>f. MetricsLoad_of (f (calc_load1 c)) (f (calc_load5 c)) (f (calc_load15 c)))
      in \<lparr>met_uptime = uptime,
        met_bytes_received = metric_bytes_received sm,
        met_bytes_sent = metric_bytes_sent sm,
        met_clients_connected = metric_connection_count sm,
        met_clients_expired = stm_clients_expired stm,
        met_clients_disconnected = stm_session_count stm - metric_connection_count sm,
        met_clients_maximum = calc_max_clients c,
        met_clients_total = stm_session_count stm,
        met_messages_inflight = stm_inflight_messages_count stm,
        met_messages_received = metric_msgs_received sm,
        met_messages_sent = metric_msgs_sent sm,
        met_publish_messages_dropped = metric_msgs_dropped sm,
        met_publish_messages_received = metric_pub_msgs_received sm,
        met_publish_messages_sent = metric_pub_msgs_sent sm,
        met_publish_bytes_received = metric_pub_bytes_received sm,
        met_publish_bytes_sent = metric_pub_bytes_sent sm,
        met_retained_messages_count = stm_retained_messages_count stm,
        met_store_messages_count = stm_messages_count stm,
        met_store_messages_bytes = stm_messages_bytes stm,
        met_subscriptions_count = stm_subscriptions_count stm,
        met_load_messages_received = load loads_msgs_received,
        met_load_messages_sent = load loads_msgs_sent,
        met_load_publish_dropped = load loads_msgs_dropped,
        met_load_publish_received = load loads_pub_msgs_received,
        met_load_publish_sent = load loads_pub_msgs_sent,
        met_load_publish_bytes_received = load loads_pub_bytes_received,
        met_load_publish_bytes_sent = load loads_pub_bytes_sent,
        met_load_bytes_received = load loads_bytes_received,
        met_load_bytes_sent = load loads_bytes_sent,
        met_load_sockets = load loads_sockets,
        met_load_connections = load loads_connections\<rparr>)"

definition MetricsCalc_update ::
  "'f float_ops \<Rightarrow> nat \<Rightarrow> ServiceMetrics \<Rightarrow> StorageMetrics \<Rightarrow> 'f MetricsCalc \<Rightarrow> 'f Metrics \<times> 'f MetricsCalc" where
  "MetricsCalc_update ops now sm stm c =
     (let c = MetricsCalc_advance ops now sm c in (MetricsCalc_report sm stm c, c))"

subsection \<open>The metrics of the service\<close>

text \<open>The calculation and the last metrics sent on the channel.\<close>

record 'f MetricsState =
  metrics_calc :: "'f MetricsCalc"
  metrics_last :: "'f Metrics"

definition Metrics_default :: "'f float_ops \<Rightarrow> 'f Metrics" where
  "Metrics_default ops =
     (let load = \<lparr>load_min1 = f_of_nat ops 0, load_min5 = f_of_nat ops 0, load_min15 = f_of_nat ops 0\<rparr>
      in \<lparr>met_uptime = 0,
        met_bytes_received = 0,
        met_bytes_sent = 0,
        met_clients_connected = 0,
        met_clients_expired = 0,
        met_clients_disconnected = 0,
        met_clients_maximum = 0,
        met_clients_total = 0,
        met_messages_inflight = 0,
        met_messages_received = 0,
        met_messages_sent = 0,
        met_publish_messages_dropped = 0,
        met_publish_messages_received = 0,
        met_publish_messages_sent = 0,
        met_publish_bytes_received = 0,
        met_publish_bytes_sent = 0,
        met_retained_messages_count = 0,
        met_store_messages_count = 0,
        met_store_messages_bytes = 0,
        met_subscriptions_count = 0,
        met_load_messages_received = load,
        met_load_messages_sent = load,
        met_load_publish_dropped = load,
        met_load_publish_received = load,
        met_load_publish_sent = load,
        met_load_publish_bytes_received = load,
        met_load_publish_bytes_sent = load,
        met_load_bytes_received = load,
        met_load_bytes_sent = load,
        met_load_sockets = load,
        met_load_connections = load\<rparr>)"

definition MetricsState_new :: "'f float_ops \<Rightarrow> nat \<Rightarrow> 'f MetricsState" where
  "MetricsState_new ops now = \<lparr>metrics_calc = MetricsCalc_new ops now, metrics_last = Metrics_default ops\<rparr>"

definition ServiceState_update_metrics ::
  "'f float_ops \<Rightarrow> nat \<Rightarrow> ServiceState \<Rightarrow> 'f MetricsState \<Rightarrow> 'f MetricsState" where
  "ServiceState_update_metrics ops now state ms =
     (let (metrics, calc) = MetricsCalc_update ops now (state_service_metrics state)
            (Storage_metrics (state_storage state)) (metrics_calc ms)
      in \<lparr>metrics_calc = calc, metrics_last = metrics\<rparr>)"

definition ServiceState_metrics :: "'f MetricsState \<Rightarrow> 'f Metrics" where
  "ServiceState_metrics ms = metrics_last ms"

end
