(* ===== verification/Sys_Topics.thy ===== *)
theory Sys_Topics
  imports Metrics
begin

text \<open>
  \<open>libs/service/src/sys_topics.rs\<close>: the metrics are delivered as messages to topics under \<open>$SYS\<close>.
  Each delivery reads the clock; here all of them do so at the same time.
\<close>

text \<open>\<open>to_string\<close> of an unsigned integer.\<close>

fun show_nat :: "nat \<Rightarrow> string" where
  "show_nat n = (if n < 10 then [char_of (48 + n)] else show_nat (n div 10) @ [char_of (48 + n mod 10)])"

declare show_nat.simps [simp del]

definition show_u64 :: "u64 \<Rightarrow> string" where
  "show_u64 n = show_nat (unat n)"

text \<open>Reading a number back.\<close>

definition read_nat :: "string \<Rightarrow> nat" where
  "read_nat s = fold (\<lambda>c n. 10 * n + (of_char c - 48)) s 0"

lemma read_show_nat: "read_nat (show_nat n) = n"
proof (induction n rule: show_nat.induct)
  case (1 n)
  have digit: "of_char (char_of (48 + k) :: char) = 48 + k" if "k < 10" for k :: nat
    using that by simp
  show ?case
  proof (cases "n < 10")
    case True
    then show ?thesis by (simp add: show_nat.simps [of n] read_nat_def digit)
  next
    case False
    with 1 have "fold (\<lambda>c n. 10 * n + (of_char c - 48)) (show_nat (n div 10)) 0 = n div 10"
      by (simp add: read_nat_def)
    with False show ?thesis
      using digit [of "n mod 10"] by (simp add: show_nat.simps [of n] read_nat_def)
  qed
qed

text \<open>The topics and payloads, in the order in which they are sent: the counts first, then the load averages.\<close>

definition sys_counts :: "'f Metrics \<Rightarrow> (string \<times> string) list" where
  "sys_counts m = [
     (''$SYS/broker/uptime'', show_u64 (met_uptime m) @ '' seconds''),
     (''$SYS/broker/bytes/received'', show_u64 (met_bytes_received m)),
     (''$SYS/broker/bytes/sent'', show_u64 (met_bytes_sent m)),
     (''$SYS/broker/clients/connected'', show_u64 (met_clients_connected m)),
     (''$SYS/broker/clients/expired'', show_u64 (met_clients_expired m)),
     (''$SYS/broker/clients/disconnected'', show_u64 (met_clients_disconnected m)),
     (''$SYS/broker/clients/disconnected'', show_u64 (met_clients_disconnected m)),
     (''$SYS/broker/clients/maximum'', show_u64 (met_clients_maximum m)),
     (''$SYS/broker/clients/total'', show_u64 (met_clients_total m)),
     (''$SYS/broker/messages/inflight'', show_u64 (met_messages_inflight m)),
     (''$SYS/broker/messages/received'', show_u64 (met_messages_received m)),
     (''$SYS/broker/messages/sent'', show_u64 (met_messages_sent m)),
     (''$SYS/broker/publish/messages/dropped'', show_u64 (met_publish_messages_dropped m)),
     (''$SYS/broker/publish/messages/received'', show_u64 (met_publish_messages_received m)),
     (''$SYS/broker/publish/messages/sent'', show_u64 (met_publish_messages_sent m)),
     (''$SYS/broker/publish/bytes/received'', show_u64 (met_publish_bytes_received m)),
     (''$SYS/broker/publish/bytes/sent'', show_u64 (met_publish_bytes_sent m)),
     (''$SYS/broker/retained messages/count'', show_u64 (met_retained_messages_count m)),
     (''$SYS/broker/store/messages/count'', show_u64 (met_store_messages_count m)),
     (''$SYS/broker/store/messages/bytes'', show_u64 (met_store_messages_bytes m)),
     (''$SYS/broker/subscriptions/count'', show_u64 (met_subscriptions_count m))]"

definition sys_loads :: "'f float_ops \<Rightarrow> 'f Metrics \<Rightarrow> (string \<times> string) list" where
  "sys_loads ops m = [
     (''$SYS/broker/load/messages/received/1min'', f_show ops (load_min1 (met_load_messages_received m))),
     (''$SYS/broker/load/messages/sent/1min'', f_show ops (load_min1 (met_load_messages_sent m))),
     (''$SYS/broker/load/publish/dropped/1min'', f_show ops (load_min1 (met_load_publish_dropped m))),
     (''$SYS/broker/load/publish/received/1min'', f_show ops (load_min1 (met_load_publish_received m))),
     (''$SYS/broker/load/publish/sent/1min'', f_show ops (load_min1 (met_load_publish_sent m))),
     (''$SYS/broker/load/bytes/received/1min'', f_show ops (load_min1 (met_load_bytes_received m))),
     (''$SYS/broker/load/bytes/sent/1min'', f_show ops (load_min1 (met_load_bytes_sent m))),
     (''$SYS/broker/load/sockets/1min'', f_show ops (load_min1 (met_load_sockets m))),
     (''$SYS/broker/load/connections/1min'', f_show ops (load_min1 (met_load_connections m))),
     (''$SYS/broker/load/messages/received/5min'', f_show ops (load_min5 (met_load_messages_received m))),
     (''$SYS/broker/load/messages/sent/5min'', f_show ops (load_min5 (met_load_messages_sent m))),
     (''$SYS/broker/load/publish/dropped/5min'', f_show ops (load_min5 (met_load_publish_dropped m))),
     (''$SYS/broker/load/publish/received/5min'', f_show ops (load_min5 (met_load_publish_received m))),
     (''$SYS/broker/load/publish/sent/5min'', f_show ops (load_min5 (met_load_publish_sent m))),
     (''$SYS/broker/load/bytes/received/5min'', f_show ops (load_min5 (met_load_bytes_received m))),
     (''$SYS/broker/load/bytes/sent/5min'', f_show ops (load_min5 (met_load_bytes_sent m))),
     (''$SYS/broker/load/sockets/5min'', f_show ops (load_min5 (met_load_sockets m))),
     (''$SYS/broker/load/connections/5min'', f_show ops (load_min5 (met_load_connections m))),
     (''$SYS/broker/load/messages/received/15min'', f_show ops (load_min15 (met_load_messages_received m))),
     (''$SYS/broker/load/messages/sent/15min'', f_show ops (load_min15 (met_load_messages_sent m))),
     (''$SYS/broker/load/publish/dropped/15min'', f_show ops (load_min15 (met_load_publish_dropped m))),
     (''$SYS/broker/load/publish/received/15min'', f_show ops (load_min15 (met_load_publish_received m))),
     (''$SYS/broker/load/publish/sent/15min'', f_show ops (load_min15 (met_load_publish_sent m))),
     (''$SYS/broker/load/bytes/received/15min'', f_show ops (load_min15 (met_load_bytes_received m))),
     (''$SYS/broker/load/bytes/sent/15min'', f_show ops (load_min15 (met_load_bytes_sent m))),
     (''$SYS/broker/load/sockets/15min'', f_show ops (load_min15 (met_load_sockets m))),
     (''$SYS/broker/load/connections/15min'', f_show ops (load_min15 (met_load_connections m)))]"

definition sys_topics :: "'f float_ops \<Rightarrow> 'f Metrics \<Rightarrow> (string \<times> string) list" where
  "sys_topics ops m = sys_counts m @ sys_loads ops m"

definition sys_message :: "system_time \<Rightarrow> string \<times> string \<Rightarrow> Message" where
  "sys_message now entry =
     Message_with_retain True (Message_new now (fst entry) AtMostOnce (as_bytes (snd entry)))"

definition update_sys_topics ::
  "'f float_ops \<Rightarrow> system_time \<Rightarrow> (nat \<Rightarrow> string \<Rightarrow> nat \<Rightarrow> nat) \<Rightarrow> 'f MetricsState \<Rightarrow> ServiceState \<Rightarrow> ServiceState" where
  "update_sys_topics ops now pick ms state =
     (let metrics = ServiceState_metrics ms
      in state\<lparr>state_storage :=
        Storage_deliver now pick (map (sys_message now) (sys_topics ops metrics)) (state_storage state)\<rparr>)"

end
