(* ===== verification/Metrics_Theorems.thy ===== *)
theory Metrics_Theorems
  imports Complex_Main Metrics
begin

text \<open>
  The correctness properties of \<open>libs/service/src/metrics.rs\<close>: the averages, in exact arithmetic, and
  the maximum of the connection counts.
\<close>

subsection \<open>Averages\<close>

text \<open>The real numbers as an instance of the arithmetic.\<close>

definition real_ops :: "(real \<Rightarrow> string) \<Rightarrow> real float_ops" where
  "real_ops to_string = \<lparr>f_of_nat = real, f_minus_one = - 1, f_add = (+), f_sub = (-), f_mul = (*),
     f_div = (/), f_exp = exp, f_show = to_string\<rparr>"

definition load_updates :: "(real \<Rightarrow> string) \<Rightarrow> (u64 \<times> real) list \<Rightarrow> real LoadCalc \<Rightarrow> real LoadCalc" where
  "load_updates to_string = fold (\<lambda>(interval, value). LoadCalc_update_interval (real_ops to_string) interval value)"

text \<open>The increase of a counter per \<open>duration\<close>, for each sample.\<close>

primrec load_rates :: "real \<Rightarrow> real \<Rightarrow> (u64 \<times> real) list \<Rightarrow> real list" where
  "load_rates duration prev [] = []"
| "load_rates duration prev (sample # samples) =
     (snd sample - prev) * (duration / real (unat (fst sample))) # load_rates duration (snd sample) samples"

lemma load_update_value:
  "load_value (LoadCalc_update_interval (real_ops to_string) i v c) =
     (let rate = (v - load_prev_value c) * (load_duration c / real (unat i))
      in if load_initial c then rate
         else rate + exp (- real (unat i) / load_duration c) * (load_value c - rate))"
  "load_prev_value (LoadCalc_update_interval (real_ops to_string) i v c) = v"
  "load_duration (LoadCalc_update_interval (real_ops to_string) i v c) = load_duration c"
  "\<not> load_initial (LoadCalc_update_interval (real_ops to_string) i v c)"
  by (simp_all add: LoadCalc_update_interval_def LoadCalc_update_def real_ops_def Let_def)

lemma mix_bounds:
  fixes x y e :: real
  assumes "lo \<le> x" "x \<le> hi" "lo \<le> y" "y \<le> hi" "0 \<le> e" "e \<le> 1"
  shows "lo \<le> x + e * (y - x) \<and> x + e * (y - x) \<le> hi"
proof -
  have mix: "x + e * (y - x) = (1 - e) * x + e * y" by (simp add: algebra_simps)
  have "(1 - e) * lo + e * lo \<le> (1 - e) * x + e * y" "(1 - e) * x + e * y \<le> (1 - e) * hi + e * hi"
    using assms by (intro add_mono mult_left_mono; simp)+
  then show ?thesis unfolding mix by (simp add: algebra_simps)
qed

lemma load_updates_bounds:
  assumes "load_duration c > 0"
    and "\<forall>rate \<in> set (load_rates (load_duration c) (load_prev_value c) samples). lo \<le> rate \<and> rate \<le> hi"
    and "load_initial c \<longrightarrow> samples \<noteq> []" "\<not> load_initial c \<longrightarrow> lo \<le> load_value c \<and> load_value c \<le> hi"
  shows "lo \<le> load_value (load_updates to_string samples c) \<and> load_value (load_updates to_string samples c) \<le> hi"
  using assms
proof (induction samples arbitrary: c)
  case (Cons sample samples)
  let ?i = "fst sample" and ?v = "snd sample"
  let ?c = "LoadCalc_update_interval (real_ops to_string) ?i ?v c"
  let ?rate = "(?v - load_prev_value c) * (load_duration c / real (unat ?i))"
  have "- real (unat ?i) / load_duration c \<le> 0"
    by (rule divide_nonpos_pos [OF _ Cons.prems(1)]) (simp only: neg_le_0_iff_le of_nat_0_le_iff)
  then have "exp (- real (unat ?i) / load_duration c) \<le> 1" by (simp only: exp_le_one_iff)
  then have "lo \<le> load_value ?c \<and> load_value ?c \<le> hi"
    using Cons.prems mix_bounds [of lo ?rate hi "load_value c" "exp (- real (unat ?i) / load_duration c)"]
    by (simp add: load_update_value Let_def)
  then show ?case
    using Cons.IH [of ?c] Cons.prems by (simp add: load_updates_def load_update_value case_prod_unfold)
qed (simp add: load_updates_def)

text \<open>In exact arithmetic an average lies between the least and the greatest rate that has been
  measured, so that it is never negative for a counter that does not decrease: the first sample is taken as
  it is, and each further one is weighted by a factor between zero and one. (The code skips an interval of zero
  seconds, for which division by zero is zero here.)\<close>

theorem load_average_bounded:
  assumes "0 < duration" "samples \<noteq> []"
  shows "load_value (load_updates to_string samples (LoadCalc_new (real_ops to_string) duration)) \<in>
    {Min (set (load_rates duration 0 samples)) .. Max (set (load_rates duration 0 samples))}"
proof -
  let ?c = "LoadCalc_new (real_ops to_string) duration"
  have "load_duration ?c = duration" "load_prev_value ?c = 0" "load_initial ?c"
    by (simp_all add: LoadCalc_new_def real_ops_def)
  with load_updates_bounds [of ?c samples "Min (set (load_rates duration 0 samples))"
      "Max (set (load_rates duration 0 samples))" to_string] assms
  show ?thesis by simp
qed

lemma load_average_bounded_witness:
  "load_value (load_updates (\<lambda>_. []) [(5, 10), (5, 10)] (LoadCalc_new (real_ops (\<lambda>_. [])) 60)) \<in> {0 .. 120}"
  using load_average_bounded [of 60 "[(5, 10), (5, 10)]" "\<lambda>_. []"] by simp

subsection \<open>Counts\<close>

text \<open>The calculation after a sequence of updates.\<close>

definition calc_updates ::
  "'f float_ops \<Rightarrow> (nat \<times> ServiceMetrics \<times> StorageMetrics) list \<Rightarrow> 'f MetricsCalc \<Rightarrow> 'f MetricsCalc" where
  "calc_updates ops = fold (\<lambda>(now, sm, stm) c. snd (MetricsCalc_update ops now sm stm c))"

lemma calc_updates_max:
  "calc_max_clients (calc_updates ops samples c) =
    Max (insert (calc_max_clients c) (set (map (\<lambda>(now, sm, stm). metric_connection_count sm) samples)))"
proof (induction samples arbitrary: c)
  case (Cons sample samples)
  have "calc_max_clients (snd (MetricsCalc_update ops now sm stm c)) =
    max (calc_max_clients c) (metric_connection_count sm)" for now sm stm
    by (simp add: MetricsCalc_update_def MetricsCalc_advance_def Let_def)
  then show ?case using Cons.IH
    by (cases sample) (simp add: calc_updates_def max.assoc insert_commute, cases samples; simp add: max.assoc)
qed (simp add: calc_updates_def)

text \<open>The maximum number of clients that is reported is the greatest number of connections of all the
  updates so far, and the numbers of connected and of disconnected clients add up to the number of
  sessions modulo 2^64: with more connections than sessions, which a failed login leads to, the
  number of disconnected clients wraps around.\<close>

theorem clients_maximum_exact:
  assumes "MetricsCalc_update ops now sm stm (calc_updates ops samples (MetricsCalc_new ops start)) = (metrics, c)"
  shows "met_clients_maximum metrics =
      Max (insert (metric_connection_count sm) (set (map (\<lambda>(now, sm, stm). metric_connection_count sm) samples))) \<and>
    met_clients_connected metrics + met_clients_disconnected metrics = met_clients_total metrics"
proof -
  have "met_clients_maximum metrics = calc_max_clients (calc_updates ops (samples @ [(now, sm, stm)]) (MetricsCalc_new ops start))"
    using assms by (auto simp: MetricsCalc_update_def MetricsCalc_report_def Let_def calc_updates_def)
  also have "\<dots> = Max (insert (metric_connection_count sm) (set (map (\<lambda>(now, sm, stm). metric_connection_count sm) samples)))"
    unfolding calc_updates_max by (simp add: MetricsCalc_new_def)
  finally show ?thesis
    using assms by (auto simp: MetricsCalc_update_def MetricsCalc_report_def Let_def)
qed

lemma clients_maximum_exact_witness:
  "met_clients_maximum (fst (MetricsCalc_update (real_ops (\<lambda>_. [])) 2000 ServiceMetrics_default (Storage_metrics Storage_default)
    (calc_updates (real_ops (\<lambda>_. []))
      [(1000, ServiceMetrics_default\<lparr>metric_connection_count := 7\<rparr>, Storage_metrics Storage_default)]
      (MetricsCalc_new (real_ops (\<lambda>_. [])) 0)))) = 7"
  using clients_maximum_exact [OF surjective_pairing, of "real_ops (\<lambda>_. [])" 2000 ServiceMetrics_default
      "Storage_metrics Storage_default"
      "[(1000, ServiceMetrics_default\<lparr>metric_connection_count := 7\<rparr>, Storage_metrics Storage_default)]" 0]
  by (simp add: ServiceMetrics_default_def)

end
