(* ===== verification/Trie_Matching.thy ===== *)
theory Trie_Matching
  imports Trie
begin

text \<open>
  What the matching operations of \<open>Trie\<close> return, in terms of the abstract state: \<open>Trie_matches\<close>
  gives each client the options of exactly its matching plain subscriptions, one item for each;
  \<open>Trie_matches_shared\<close> chooses one client of each share group that has a matching one; and
  \<open>Trie_matches_retained_messages\<close> gives each matching retained message once.
\<close>

subsection \<open>Maps of lists\<close>

definition items_of :: "string \<Rightarrow> (string \<times> 'a list) list \<Rightarrow> 'a list" where
  "items_of k matched = (case map_of matched k of None \<Rightarrow> [] | Some xs \<Rightarrow> xs)"

definition groups_ok :: "(string \<times> 'a list) list \<Rightarrow> bool" where
  "groups_ok matched \<longleftrightarrow> distinct (map fst matched) \<and> list_all (\<lambda>(k, xs). xs \<noteq> []) matched"

lemma items_of_extend_entry [simp]:
  "items_of k' (extend_entry k items matched) =
     (if k' = k then items_of k matched @ items else items_of k' matched)"
  by (simp add: items_of_def extend_entry_def update_conv')

lemma groups_ok_extend_entry:
  assumes "groups_ok matched" "items \<noteq> []"
  shows "groups_ok (extend_entry k items matched)"
proof -
  have "list_all (\<lambda>(k, xs). xs \<noteq> []) al \<Longrightarrow> xs \<noteq> [] \<Longrightarrow>
      list_all (\<lambda>(k, xs). xs \<noteq> []) (AList.update k xs al)" for xs :: "'a list" and al
    by (induction al) auto
  then show ?thesis
    using assms by (simp add: groups_ok_def extend_entry_def distinct_update)
qed

lemma groups_ok_Nil [simp]: "groups_ok []" and items_of_Nil [simp]: "items_of k [] = []"
  by (simp_all add: groups_ok_def items_of_def)

lemma items_of_iff:
  assumes "groups_ok matched"
  shows "(k, xs) \<in> set matched \<longleftrightarrow> xs \<noteq> [] \<and> items_of k matched = xs"
proof -
  have "(k, xs) \<in> set matched \<longleftrightarrow> map_of matched k = Some xs"
    using assms by (simp add: groups_ok_def)
  moreover have "map_of matched k \<noteq> Some []"
    using assms by (auto simp: groups_ok_def list_all_iff dest: map_of_SomeD)
  ultimately show ?thesis
    by (auto simp: items_of_def split: option.splits)
qed

lemma fold_extend_items:
  "items_of c (fold (\<lambda>(k, item). extend_entry k [item]) ps matched) =
     items_of c matched @ map snd (filter (\<lambda>(k, item). k = c) ps)"
  by (induction ps arbitrary: matched) auto

lemma fold_extend_ok:
  "groups_ok matched \<Longrightarrow> groups_ok (fold (\<lambda>(k, item). extend_entry k [item]) ps matched)"
  by (induction ps arbitrary: matched) (auto simp: groups_ok_extend_entry)

lemma filter_key:
  "distinct (map fst al) \<Longrightarrow> map snd (filter (\<lambda>(k, v). k = c) al) = to_list (map_of al c)"
proof (induction al)
  case (Cons p al)
  have "filter (\<lambda>(k, v). k = c) al = []" if "fst p = c"
  proof -
    have "c \<notin> fst ` set al"
      using Cons.prems that by simp
    then have "\<forall>q \<in> set al. fst q \<noteq> c"
      by blast
    then show ?thesis by (simp add: filter_empty_conv case_prod_beta)
  qed
  then show ?case
    using Cons by (cases p) (auto simp: to_list_def)
qed (simp add: to_list_def)

lemma collect_items_ok: "groups_ok (collect_items nodes)"
  by (simp add: collect_items_def fold_extend_ok)

lemma collect_items_of:
  assumes "\<And>n. n \<in> set nodes \<Longrightarrow> distinct (map fst (node_data n))"
  shows "items_of c (collect_items nodes) = concat (map (\<lambda>n. to_list (map_of (node_data n) c)) nodes)"
  using assms
  by (simp add: collect_items_def fold_extend_items filter_concat map_concat comp_def filter_key
      cong: map_cong)

subsection \<open>The subscriptions that match\<close>

lemma enumerates_filter:
  assumes "distinct ps" "\<And>p. g p \<noteq> None \<Longrightarrow> p \<in> set ps"
  shows "enumerates g (concat (map (\<lambda>p. to_list (g p)) ps))"
proof -
  have "concat (map (\<lambda>p. to_list (g p)) qs) = map (\<lambda>p. the (g p)) (filter (\<lambda>p. g p \<noteq> None) qs)" for qs
    by (induction qs) (auto simp: to_list_def split: option.splits)
  moreover have "set (filter (\<lambda>p. g p \<noteq> None) ps) = {p. g p \<noteq> None}"
    using assms(2) by auto
  ultimately show ?thesis
    unfolding enumerates_def using assms(1) distinct_filter by metis
qed

lemma node_at_wf: "node_wf n \<Longrightarrow> node_at p n = Some m \<Longrightarrow> node_wf m"
  by (induction p arbitrary: n) (auto split: option.splits dest: node_wfD(3))

definition matching_item :: "Node \<Rightarrow> string list \<Rightarrow> string \<Rightarrow> string list \<Rightarrow> FilterItem option" where
  "matching_item n ts c p = (if filter_matches p ts then entry_at p c n else None)"

lemma collect_matches:
  assumes "node_wf n"
  shows "enumerates (matching_item n ts c) (items_of c (collect_items (internal_matches n ts)))"
proof -
  have data: "distinct (map fst (node_data m))" if "m \<in> set (internal_matches n ts)" for m
  proof -
    from that obtain p where "p \<in> set (matching_paths n ts)" "m = the (node_at p n)"
      by (auto simp: internal_matches_paths [OF assms])
    then have "node_wf m"
      using node_at_wf [OF assms] by (auto simp: matching_paths_at)
    then show ?thesis by (rule node_wfD(2))
  qed
  have "to_list (map_of (node_data (the (node_at p n))) c) = to_list (matching_item n ts c p)"
    if "p \<in> set (matching_paths n ts)" for p
    using that by (auto simp: matching_paths_at matching_item_def entry_at_def content_at_def)
  then have "items_of c (collect_items (internal_matches n ts)) =
      concat (map (\<lambda>p. to_list (matching_item n ts c p)) (matching_paths n ts))"
    using collect_items_of [OF data, of "internal_matches n ts" c]
    by (simp add: internal_matches_paths [OF assms] comp_def cong: map_cong)
  moreover have "p \<in> set (matching_paths n ts)" if "matching_item n ts c p \<noteq> None" for p
    using that by (auto simp: matching_paths_at matching_item_def entry_at_def content_at_def
        split: if_splits option.splits)
  ultimately show ?thesis
    using enumerates_filter [OF matching_paths_distinct] by metis
qed

text \<open>Segment lists without the separator are the splits of strings.\<close>

lemma split_append: "c \<notin> set s \<Longrightarrow> split c (s @ c # t) = s # split c t"
  by (induction s) auto

lemma split_free: "c \<notin> set s \<Longrightarrow> split c s = [s]"
  by (induction s) auto

lemma split_join: "segs \<noteq> [] \<Longrightarrow> \<forall>seg \<in> set segs. c \<notin> set seg \<Longrightarrow> split c (join_segments c segs) = segs"
proof (induction segs rule: induct_list012)
  case (2 x)
  then show ?case by (simp add: split_free)
next
  case (3 x y zs)
  then show ?case by (simp add: split_append del: join_segments_simps(1))
qed simp

lemma enumerates_inj:
  assumes "enumerates g xs" "\<And>p. g p \<noteq> None \<Longrightarrow> \<exists>s. p = f s" "inj f"
  shows "enumerates (\<lambda>s. g (f s)) xs"
proof -
  from assms(1) obtain ps where ps: "distinct ps" "set ps = {p. g p \<noteq> None}" "xs = map (\<lambda>p. the (g p)) ps"
    by (auto simp: enumerates_def)
  have f: "f (inv f p) = p" if "p \<in> set ps" for p
    using assms(2) [of p] that ps(2) by (auto simp: f_inv_into_f)
  have "distinct (map (inv f) ps)"
    using ps(1) f by (auto simp: distinct_map intro!: inj_onI) metis
  moreover have "set (map (inv f) ps) = {s. g (f s) \<noteq> None}"
    using ps(2) f assms(3) by (force simp: image_iff)
  moreover have "xs = map (\<lambda>s. the (g (f s))) (map (inv f) ps)"
    using ps(3) f by simp
  ultimately show ?thesis by (auto simp: enumerates_def)
qed

lemma filter_matches_segments:
  "filter_matches fs ts \<Longrightarrow> seg \<in> set fs \<Longrightarrow> seg = ''#'' \<or> seg = ''+'' \<or> seg \<in> set ts"
  by (induction fs ts rule: filter_matches.induct) (auto split: if_splits)

lemma filter_matches_split:
  assumes "filter_matches fs (split CHR ''/'' topic)"
  shows "\<exists>s. fs = split CHR ''/'' s"
proof -
  have "fs \<noteq> []" using assms by (cases fs) auto
  moreover have "\<forall>seg \<in> set fs. CHR ''/'' \<notin> set seg"
  proof
    fix seg
    assume "seg \<in> set fs"
    with assms consider "seg = ''#''" | "seg = ''+''" | "seg \<in> set (split CHR ''/'' topic)"
      using filter_matches_segments by blast
    then show "CHR ''/'' \<notin> set seg"
      by cases (auto dest: split_segment)
  qed
  ultimately show ?thesis by (metis split_join)
qed

text \<open>A topic filter and a topic name, as strings.\<close>

definition topic_matches :: "string \<Rightarrow> string \<Rightarrow> bool" where
  "topic_matches flt topic \<longleftrightarrow> filter_matches (split CHR ''/'' flt) (split CHR ''/'' topic)"

lemma inj_split: "inj (split c)"
  by (rule injI) simp

lemma collect_matches_strings:
  assumes "node_wf n"
  shows "enumerates
    (\<lambda>flt. if topic_matches flt topic then entry_at (split CHR ''/'' flt) c n else None)
    (items_of c (collect_items (internal_matches n (split CHR ''/'' topic))))"
proof -
  have "\<exists>s. p = split CHR ''/'' s" if "matching_item n (split CHR ''/'' topic) c p \<noteq> None" for p
    using that filter_matches_split by (auto simp: matching_item_def split: if_splits)
  from enumerates_inj [OF collect_matches [OF assms, of "split CHR ''/'' topic" c] this inj_split]
  show ?thesis by (simp add: matching_item_def topic_matches_def)
qed

lemma Trie_matches_enumerates:
  assumes "Trie_inv t"
  shows "groups_ok (Trie_matches topic t) \<and>
    enumerates (\<lambda>flt. if topic_matches flt topic
        then Trie_lookup t \<lparr>share_name = None, path = flt\<rparr> c else None)
      (items_of c (Trie_matches topic t))"
proof -
  have "Trie_lookup t \<lparr>share_name = None, path = flt\<rparr> c = entry_at (split CHR ''/'' flt) c (trie_root t)"
    for flt by (simp add: Trie_lookup_def share_node_def)
  then show ?thesis
    using assms collect_matches_strings [of "trie_root t" topic c]
    by (simp add: Trie_matches_def collect_items_ok Trie_inv_def cong: if_cong)
qed

subsection \<open>Share groups\<close>

text \<open>
  The group's candidates: the clients with a matching subscription of the group. A group
  contributes the matching options of one of them, whatever index is drawn.
\<close>

definition group_matches :: "Trie \<Rightarrow> string \<Rightarrow> string \<Rightarrow> string \<Rightarrow> string \<Rightarrow> FilterItem option" where
  "group_matches t topic name c flt =
     (if topic_matches flt topic then Trie_lookup t \<lparr>share_name = Some name, path = flt\<rparr> c else None)"

lemma share_choice_enumerates:
  assumes "Trie_inv t" "(name, n) \<in> set (trie_share_subscriptions t)"
    and "\<And>k. 0 < k \<Longrightarrow> pick name k < k"
  shows "case share_choice pick topic (name, n) of
      None \<Rightarrow> \<forall>c flt. group_matches t topic name c flt = None
    | Some (c, items) \<Rightarrow> items \<noteq> [] \<and> enumerates (group_matches t topic name c) items"
proof -
  define groups where "groups = collect_items (internal_matches n (split CHR ''/'' topic))"
  have n: "map_of (trie_share_subscriptions t) name = Some n" "node_wf n"
    using assms(1,2) by (auto simp: Trie_inv_def list_all_iff)
  have "Trie_lookup t \<lparr>share_name = Some name, path = flt\<rparr> c = entry_at (split CHR ''/'' flt) c n" for flt c
    by (simp add: Trie_lookup_def share_node_def n)
  then have enum: "enumerates (group_matches t topic name c) (items_of c groups)" for c
    using collect_matches_strings [OF n(2), of topic c]
    by (simp add: groups_def group_matches_def [abs_def] cong: if_cong)
  have ok: "groups_ok groups" by (simp add: groups_def collect_items_ok)
  show ?thesis
  proof (cases "groups = []")
    case True
    then have "enumerates (group_matches t topic name c) []" for c
      using enum [of c] by simp
    then show ?thesis
      using True by (auto simp: share_choice_def groups_def enumerates_def)
  next
    case False
    obtain c items where pick: "groups ! pick name (length groups) = (c, items)" by force
    have "(c, items) \<in> set groups"
      using assms(3) [of "length groups"] False nth_mem [of "pick name (length groups)" groups] pick by simp
    then show ?thesis
      using items_of_iff [OF ok, of c items] enum [of c] False pick
      by (simp add: share_choice_def groups_def)
  qed
qed

definition share_choices ::
  "(string \<Rightarrow> nat \<Rightarrow> nat) \<Rightarrow> string \<Rightarrow> Trie \<Rightarrow> (string \<times> string \<times> FilterItem list) list" where
  "share_choices pick topic t =
     concat (map (\<lambda>share. map (\<lambda>choice. (fst share, choice)) (to_list (share_choice pick topic share)))
       (trie_share_subscriptions t))"

lemma fold_choices:
  "items_of c (fold (\<lambda>share matched. case f share of None \<Rightarrow> matched
       | Some (k, items) \<Rightarrow> extend_entry k items matched) shares matched)
   = items_of c matched @ concat (map (\<lambda>share. case f share of None \<Rightarrow> []
       | Some (k, items) \<Rightarrow> if k = c then items else []) shares)"
  by (induction shares arbitrary: matched) (auto split: option.splits)

lemma Trie_matches_shared_items:
  "items_of c (Trie_matches_shared pick topic t) =
     concat (map (\<lambda>(name, k, items). if k = c then items else []) (share_choices pick topic t))"
proof -
  have "concat (map (\<lambda>(name, k, items). if k = c then items else [])
      (concat (map (\<lambda>share. map (\<lambda>choice. (fst share, choice)) (to_list (f share))) shares)))
    = concat (map (\<lambda>share. case f share of None \<Rightarrow> []
       | Some (k, items) \<Rightarrow> if k = c then items else []) shares)"
    for f :: "string \<times> Node \<Rightarrow> (string \<times> FilterItem list) option" and shares
    by (induction shares) (auto simp: to_list_def split: option.splits)
  then show ?thesis
    by (simp add: Trie_matches_shared_def fold_choices share_choices_def)
qed

lemma share_choices_distinct:
  assumes "Trie_inv t"
  shows "distinct (map fst (share_choices pick topic t))"
proof -
  have "map fst (concat (map (\<lambda>share. map (\<lambda>choice. (fst share, choice)) (to_list (f share))) shares))
    = map fst (filter (\<lambda>share. f share \<noteq> None) shares)"
    for f :: "string \<times> Node \<Rightarrow> (string \<times> FilterItem list) option" and shares
    by (induction shares) (auto simp: to_list_def split: option.splits)
  then show ?thesis
    using assms by (simp add: share_choices_def Trie_inv_def distinct_map_filter)
qed

lemma share_choices_iff:
  "distinct (map fst (trie_share_subscriptions t)) \<Longrightarrow>
   (name, k, items) \<in> set (share_choices pick topic t) \<longleftrightarrow>
     (\<exists>n. (name, n) \<in> set (trie_share_subscriptions t) \<and>
        share_choice pick topic (name, n) = Some (k, items))"
  by (force simp: share_choices_def)

text \<open>Every group with a matching subscription is chosen from, once, and no other group.\<close>

lemma share_choices_spec:
  assumes "Trie_inv t" "\<And>name k. 0 < k \<Longrightarrow> pick name k < k"
  shows "(\<exists>k items. (name, k, items) \<in> set (share_choices pick topic t)) \<longleftrightarrow>
      (\<exists>c flt. group_matches t topic name c flt \<noteq> None)"
    and "(name, k, items) \<in> set (share_choices pick topic t) \<Longrightarrow>
      items \<noteq> [] \<and> enumerates (group_matches t topic name k) items"
proof -
  have d: "distinct (map fst (trie_share_subscriptions t))"
    using assms(1) by (simp add: Trie_inv_def)
  have choice: "case share_choice pick topic (name, n) of
      None \<Rightarrow> \<forall>c flt. group_matches t topic name c flt = None
    | Some (c, items) \<Rightarrow> items \<noteq> [] \<and> enumerates (group_matches t topic name c) items"
    if "(name, n) \<in> set (trie_share_subscriptions t)" for n
    by (rule share_choice_enumerates [OF assms(1) that]) (rule assms(2))
  show chosen: "items \<noteq> [] \<and> enumerates (group_matches t topic name k) items"
    if "(name, k, items) \<in> set (share_choices pick topic t)" for k items
    using that choice by (fastforce simp: share_choices_iff [OF d])
  show "(\<exists>k items. (name, k, items) \<in> set (share_choices pick topic t)) \<longleftrightarrow>
      (\<exists>c flt. group_matches t topic name c flt \<noteq> None)"
  proof
    assume "\<exists>k items. (name, k, items) \<in> set (share_choices pick topic t)"
    with chosen obtain k items where "items \<noteq> []" "enumerates (group_matches t topic name k) items"
      by blast
    then show "\<exists>c flt. group_matches t topic name c flt \<noteq> None"
      by (force simp: enumerates_def)
  next
    assume "\<exists>c flt. group_matches t topic name c flt \<noteq> None"
    then obtain c flt where some: "group_matches t topic name c flt \<noteq> None" by blast
    then obtain n where n: "(name, n) \<in> set (trie_share_subscriptions t)"
      by (auto simp: group_matches_def Trie_lookup_def share_node_def dest: map_of_SomeD
          split: if_splits option.splits)
    with some choice [OF n]
    show "\<exists>k items. (name, k, items) \<in> set (share_choices pick topic t)"
      by (fastforce simp: share_choices_iff [OF d] split: option.splits)
  qed
qed

subsection \<open>Retained messages\<close>

definition retained_topic_matches :: "string \<Rightarrow> string \<Rightarrow> bool" where
  "retained_topic_matches flt topic \<longleftrightarrow>
     retained_matches (split CHR ''/'' flt) (split CHR ''/'' topic)"

lemma Trie_matches_retained_enumerates:
  assumes "Trie_inv t"
  shows "enumerates (\<lambda>topic. if retained_topic_matches flt topic then Trie_retained t topic else None)
    (Trie_matches_retained_messages flt t)"
proof -
  have str: "\<exists>s. p = split CHR ''/'' s"
    if "matching_retained (trie_root t) (split CHR ''/'' flt) p \<noteq> None" for p
    using that assms by (auto simp: matching_retained_def Trie_inv_def split: if_splits)
  have "enumerates (matching_retained (trie_root t) (split CHR ''/'' flt))
      (internal_matches_retained_messages (trie_root t) (split CHR ''/'' flt))"
    using assms by (intro internal_matches_retained_enumerates) (simp_all add: Trie_inv_def)
  from enumerates_inj [OF this str inj_split] show ?thesis
    by (simp add: Trie_matches_retained_messages_def retained_topic_matches_def Trie_retained_def
        matching_retained_def cong: if_cong)
qed

end
