(* ===== verification/Storage_Delivery.thy ===== *)
theory Storage_Delivery
  imports Storage Trie_Matching
begin

text \<open>
  What delivery does to the queues of the storage: each client's session gets one copy of a message
  for its plain subscriptions, and one for each share group that has chosen it.
\<close>

subsection \<open>Updates of single sessions\<close>

abbreviation session_of :: "Storage \<Rightarrow> string \<Rightarrow> Session option" where
  "session_of st client_id \<equiv> map_of (storage_sessions st) client_id"

lemma session_of_modify [simp]:
  "session_of (modify_session c f st) c' =
     (if c' = c then map_option f (session_of st c) else session_of st c')"
  by (simp add: modify_session_def update_conv' split: option.split)

lemma modify_session_fields [simp]:
  "storage_filter_tree (modify_session c f st) = storage_filter_tree st"
  "storage_send_last_will_timeout (modify_session c f st) = storage_send_last_will_timeout st"
  "storage_remove_timeout (modify_session c f st) = storage_remove_timeout st"
  "storage_clients_expired (modify_session c f st) = storage_clients_expired st"
  by (simp_all add: modify_session_def split: option.split)

lemma update_same_keys: "map_of al k = Some v \<Longrightarrow> map fst (AList.update k w al) = map fst al"
  by (induction al) auto

lemma modify_session_keys [simp]:
  "map fst (storage_sessions (modify_session c f st)) = map fst (storage_sessions st)"
  by (auto simp: modify_session_def update_same_keys split: option.split)

text \<open>A fold of such updates touches only sessions that are there, and nothing else.\<close>

definition same_frame :: "Storage \<Rightarrow> Storage \<Rightarrow> bool" where
  "same_frame st st' \<longleftrightarrow>
     storage_filter_tree st' = storage_filter_tree st \<and>
     storage_send_last_will_timeout st' = storage_send_last_will_timeout st \<and>
     storage_remove_timeout st' = storage_remove_timeout st \<and>
     storage_clients_expired st' = storage_clients_expired st \<and>
     map fst (storage_sessions st') = map fst (storage_sessions st)"

lemma same_frame_refl [simp]: "same_frame st st"
  by (simp add: same_frame_def)

lemma same_frame_trans: "same_frame a b \<Longrightarrow> same_frame b c \<Longrightarrow> same_frame a c"
  by (simp add: same_frame_def)

lemma same_frame_modify [simp]: "same_frame st (modify_session c f st)"
  by (simp add: same_frame_def)

lemma same_frame_fold:
  "(\<And>x st. x \<in> set xs \<Longrightarrow> same_frame st (f x st)) \<Longrightarrow> same_frame st (fold f xs st)"
  by (induction xs arbitrary: st) (auto intro: same_frame_trans)

lemma same_frameD:
  assumes "same_frame st st'"
  shows "storage_filter_tree st' = storage_filter_tree st"
    "storage_send_last_will_timeout st' = storage_send_last_will_timeout st"
    "storage_remove_timeout st' = storage_remove_timeout st"
    "storage_clients_expired st' = storage_clients_expired st"
    "map fst (storage_sessions st') = map fst (storage_sessions st)"
    "session_of st' c = None \<longleftrightarrow> session_of st c = None"
proof -
  show keys: "map fst (storage_sessions st') = map fst (storage_sessions st)"
    using assms by (simp add: same_frame_def)
  have "fst ` set (storage_sessions st') = fst ` set (storage_sessions st)"
    using arg_cong [OF keys, of set] by simp
  then show "session_of st' c = None \<longleftrightarrow> session_of st c = None"
    by (simp add: map_of_eq_None_iff)
qed (use assms in \<open>simp_all add: same_frame_def\<close>)

lemma fold_modify_sessions:
  assumes "distinct (map fst groups)"
  shows "session_of (fold (\<lambda>(c, items). modify_session c (F c items)) groups st) c =
    map_option (case map_of groups c of None \<Rightarrow> id | Some items \<Rightarrow> F c items) (session_of st c)"
  using assms
proof (induction groups arbitrary: st)
  case (Cons g groups)
  then have "map_of groups (fst g) = None"
    by (simp add: map_of_eq_None_iff)
  with Cons show ?case
    by (cases g) (auto simp: option.map_comp comp_def option.map_id)
qed (simp add: option.map_id)

subsection \<open>Messages added to a session\<close>

lemma add_message_Nil [simp]: "Session_add_message now msg [] = id"
  by (simp add: Session_add_message_def fun_eq_iff)

text \<open>The copy that is queued for the options \<open>items\<close>.\<close>

definition message_copy :: "system_time \<Rightarrow> Message \<Rightarrow> FilterItem list \<Rightarrow> Message" where
  "message_copy now msg items = msg\<lparr>
     message_from_client_id := None, message_from_uid := None, message_created_at := now,
     message_qos := min (message_qos msg) (Max (item_qos ` set items)),
     message_retain := (message_retain msg \<and> list_all item_retain_as_published items),
     message_properties := (message_properties msg)
       \<lparr>pubprop_subscription_identifiers := concat (map (\<lambda>item. to_list (item_id item)) items)\<rparr>\<rparr>"

lemma add_message_fold:
  "fold (\<lambda>item (qos, retain_as_published, ids).
      (max qos (item_qos item), retain_as_published \<and> item_retain_as_published item, ids @ to_list (item_id item)))
     items (q, r, ids) =
   (Max (insert q (item_qos ` set items)), r \<and> list_all item_retain_as_published items,
    ids @ concat (map (\<lambda>item. to_list (item_id item)) items))"
proof (induction items arbitrary: q r ids)
  case (Cons item items)
  have "Max (insert (max q (item_qos item)) (item_qos ` set items)) =
      Max (insert q (insert (item_qos item) (item_qos ` set items)))"
    by (cases "item_qos ` set items = {}") (simp_all add: max.assoc)
  with Cons show ?case by (auto simp: max.commute)
qed simp

lemma Session_add_message_copy:
  assumes "items \<noteq> []"
  shows "Session_add_message now msg items s =
    s\<lparr>session_queue := session_queue s @ [message_copy now msg items], session_notify := True\<rparr>"
proof -
  from assms obtain first rest where "items = first # rest" by (cases items) auto
  then show ?thesis
    by (cases msg) (simp add: Session_add_message_def add_message_fold message_copy_def Message_new_def
      Message_with_properties_def Message_with_retain_def Let_def)
qed

text \<open>What a client's session receives of a message.\<close>

definition plain_copies :: "system_time \<Rightarrow> Message \<Rightarrow> string \<Rightarrow> Trie \<Rightarrow> Message list" where
  "plain_copies now msg client_id tree =
     (let items = filter (may_receive msg client_id) (items_of client_id (Trie_matches (message_topic msg) tree))
      in if items = [] then [] else [message_copy now msg items])"

definition shared_copies ::
  "system_time \<Rightarrow> (string \<Rightarrow> nat \<Rightarrow> nat) \<Rightarrow> Message \<Rightarrow> string \<Rightarrow> Trie \<Rightarrow> Message list" where
  "shared_copies now pick msg client_id tree =
     (let items = items_of client_id (Trie_matches_shared pick (message_topic msg) tree)
      in if items = [] then [] else [message_copy now msg items])"

definition queue_messages :: "Message list \<Rightarrow> Session \<Rightarrow> Session" where
  "queue_messages msgs s =
     s\<lparr>session_queue := session_queue s @ msgs, session_notify := (session_notify s \<or> msgs \<noteq> [])\<rparr>"

lemma queue_messages_simps [simp]:
  "session_queue (queue_messages msgs s) = session_queue s @ msgs"
  "session_last_will (queue_messages msgs s) = session_last_will s"
  "session_inflight_pub_packets (queue_messages msgs s) = session_inflight_pub_packets s"
  "session_last_will_timeout_key (queue_messages msgs s) = session_last_will_timeout_key s"
  "session_remove_timeout_key (queue_messages msgs s) = session_remove_timeout_key s"
  "queue_messages [] = (\<lambda>s. s)"
  "queue_messages ms' (queue_messages ms s) = queue_messages (ms @ ms') s"
  by (auto simp: queue_messages_def fun_eq_iff)

lemma Session_add_message_queue:
  "Session_add_message now msg items s =
     queue_messages (if items = [] then [] else [message_copy now msg items]) s"
  by (cases "items = []") (simp_all add: Session_add_message_copy queue_messages_def)

lemma Trie_matches_shared_ok:
  assumes "\<And>name n c items. share_choice pick topic (name, n) = Some (c, items) \<Longrightarrow> items \<noteq> []"
  shows "groups_ok (Trie_matches_shared pick topic t)"
proof -
  have "groups_ok (fold (\<lambda>share matched. case share_choice pick topic share of None \<Rightarrow> matched
      | Some (k, items) \<Rightarrow> extend_entry k items matched) shares matched)" if "groups_ok matched" for shares matched
    using that
  proof (induction shares arbitrary: matched)
    case (Cons share shares)
    then show ?case
      using assms [of "fst share" "snd share"]
      by (auto intro!: Cons.IH groups_ok_extend_entry split: option.split)
  qed simp
  then show ?thesis by (simp add: Trie_matches_shared_def)
qed

lemma share_choice_not_empty:
  assumes "\<And>k. 0 < k \<Longrightarrow> pick name k < k" "share_choice pick topic (name, n) = Some (c, items)"
  shows "items \<noteq> []"
proof -
  define groups where "groups = collect_items (internal_matches n (split CHR ''/'' topic))"
  have "groups \<noteq> []" "groups ! pick name (length groups) = (c, items)"
    using assms(2) by (auto simp: share_choice_def groups_def Let_def split: if_splits)
  then have "(c, items) \<in> set groups"
    using assms(1) [of "length groups"] by (metis length_greater_0_conv nth_mem)
  then show ?thesis
    using collect_items_ok [of "internal_matches n (split CHR ''/'' topic)"]
    by (auto simp: groups_def groups_ok_def list_all_iff)
qed

lemma deliver_fold:
  assumes "groups_ok groups"
  shows "session_of (fold (\<lambda>(c, items). modify_session c (Session_add_message now msg (filter (P c) items))) groups st) c
    = map_option (queue_messages (let items = filter (P c) (items_of c groups)
        in if items = [] then [] else [message_copy now msg items])) (session_of st c)"
proof -
  have *: "(case map_of groups c of None \<Rightarrow> id | Some items \<Rightarrow> Session_add_message now msg (filter (P c) items))
      = Session_add_message now msg (filter (P c) (items_of c groups))"
    by (simp add: items_of_def split: option.split)
  have d: "distinct (map fst groups)" using assms by (simp add: groups_ok_def)
  show ?thesis
    unfolding fold_modify_sessions [OF d] *
    by (auto simp: Let_def Session_add_message_queue cong: option.map_cong)
qed

lemma deliver_message_frame: "same_frame st (deliver_message now pick msg st)"
proof -
  have frame: "same_frame st (fold (\<lambda>(c, items). modify_session c (F c items)) groups st)"
    for F :: "string \<Rightarrow> FilterItem list \<Rightarrow> Session \<Rightarrow> Session" and groups st
    by (rule same_frame_fold) auto
  then show ?thesis
    by (auto simp: deliver_message_def Let_def intro!: same_frame_trans [OF frame frame])
qed

lemma deliver_message_session:
  assumes "\<And>name k. 0 < k \<Longrightarrow> pick name k < k"
  shows "session_of (deliver_message now pick msg st) c =
    map_option (queue_messages (if Message_is_expired now msg then []
      else plain_copies now msg c (storage_filter_tree st) @
        shared_copies now pick msg c (storage_filter_tree st))) (session_of st c)"
proof -
  have shared: "groups_ok (Trie_matches_shared pick (message_topic msg) tree)" for tree
    by (rule Trie_matches_shared_ok) (use assms share_choice_not_empty in blast)
  have plain: "groups_ok (Trie_matches (message_topic msg) tree)" for tree
    by (simp add: Trie_matches_def collect_items_ok)
  define st1 where "st1 = fold (\<lambda>(client_id, filter_items). modify_session client_id
      (Session_add_message now msg (filter (may_receive msg client_id) filter_items)))
      (Trie_matches (message_topic msg) (storage_filter_tree st)) st"
  have "same_frame st st1"
    unfolding st1_def by (rule same_frame_fold) auto
  then have tree: "storage_filter_tree st1 = storage_filter_tree st"
    by (rule same_frameD)
  have s1: "session_of st1 c = map_option (queue_messages (plain_copies now msg c (storage_filter_tree st)))
      (session_of st c)"
    unfolding st1_def plain_copies_def by (rule deliver_fold [OF plain])
  show ?thesis
    using deliver_fold [OF shared, where P = "\<lambda>_ _. True" and st = st1 and c = c] s1
    by (auto simp: deliver_message_def st1_def [symmetric] tree shared_copies_def Let_def
        option.map_comp comp_def option.map_ident split: option.split)
qed

lemma deliver_frame: "same_frame st (Storage_deliver now pick msgs st)"
proof (induction msgs arbitrary: st pick)
  case (Cons msg msgs)
  show ?case
    by (simp add: same_frame_trans [OF deliver_message_frame Cons.IH])
qed simp

text \<open>All copies of a sequence of messages, in order.\<close>

primrec copies ::
  "system_time \<Rightarrow> (nat \<Rightarrow> string \<Rightarrow> nat \<Rightarrow> nat) \<Rightarrow> Message list \<Rightarrow> string \<Rightarrow> Trie \<Rightarrow> Message list" where
  "copies now pick [] c tree = []"
| "copies now pick (msg # msgs) c tree =
     (if Message_is_expired now msg then []
      else plain_copies now msg c tree @ shared_copies now (pick 0) msg c tree)
     @ copies now (\<lambda>i. pick (Suc i)) msgs c tree"

lemma deliver_session:
  assumes "\<And>i name k. 0 < k \<Longrightarrow> pick i name k < k"
  shows "session_of (Storage_deliver now pick msgs st) c =
    map_option (queue_messages (copies now pick msgs c (storage_filter_tree st))) (session_of st c)"
  using assms
proof (induction msgs arbitrary: st pick)
  case (Cons msg msgs)
  have "storage_filter_tree (deliver_message now (pick 0) msg st) = storage_filter_tree st"
    by (rule same_frameD [OF deliver_message_frame])
  with Cons.IH [of "\<lambda>i. pick (Suc i)" "deliver_message now (pick 0) msg st"]
    deliver_message_session [of "pick 0" now msg st c] Cons.prems
  show ?case by (simp add: option.map_comp comp_def)
qed (simp add: option.map_ident)

end
