(* ===== verification/Storage_Sessions.thy ===== *)
theory Storage_Sessions
  imports Storage_Delivery
begin

text \<open>
  The life cycle of sessions. The invariant ties the two timeout sets to the keys the sessions
  remember: a key is in a set exactly for the disconnected session that it belongs to. It holds as
  long as only connected sessions are disconnected, and then \<open>update_sessions\<close> publishes the wills
  and removes the sessions that are due, and no others.
\<close>

subsection \<open>Timeout sets and the sessions' keys\<close>

definition timeouts_match ::
  "(string \<Rightarrow> (TimeoutKey option \<times> TimeoutKey option) option) \<Rightarrow> timeouts \<Rightarrow> timeouts \<Rightarrow> bool" where
  "timeouts_match K W R \<longleftrightarrow> sorted W \<and> distinct W \<and> sorted R \<and> distinct R \<and>
     (\<forall>k \<in> set W. \<exists>r. K (key_client_id k) = Some (Some k, r)) \<and>
     (\<forall>k \<in> set R. \<exists>w. K (key_client_id k) = Some (w, Some k)) \<and>
     (\<forall>c w. K c = Some (w, None) \<longrightarrow> w = None) \<and>
     (\<forall>c w k. K c = Some (w, Some k) \<longrightarrow> key_client_id k = c \<and> k \<in> set R) \<and>
     (\<forall>c k r. K c = Some (Some k, r) \<longrightarrow> key_client_id k = c)"

lemma timeouts_matchI:
  assumes "sorted W" "distinct W" "sorted R" "distinct R"
    and "\<And>k. k \<in> set W \<Longrightarrow> \<exists>r. K (key_client_id k) = Some (Some k, r)"
    and "\<And>k. k \<in> set R \<Longrightarrow> \<exists>w. K (key_client_id k) = Some (w, Some k)"
    and "\<And>c w. K c = Some (w, None) \<Longrightarrow> w = None"
    and "\<And>c w k. K c = Some (w, Some k) \<Longrightarrow> key_client_id k = c \<and> k \<in> set R"
    and "\<And>c k r. K c = Some (Some k, r) \<Longrightarrow> key_client_id k = c"
  shows "timeouts_match K W R"
  unfolding timeouts_match_def using assms by (intro conjI ballI allI impI) simp_all

lemma timeouts_matchD:
  assumes "timeouts_match K W R"
  shows "sorted W" "distinct W" "sorted R" "distinct R"
    and "k \<in> set W \<Longrightarrow> \<exists>r. K (key_client_id k) = Some (Some k, r)"
    and "k \<in> set R \<Longrightarrow> \<exists>w. K (key_client_id k) = Some (w, Some k)"
    and "K c = Some (w, None) \<Longrightarrow> w = None"
    and "K c = Some (w, Some k) \<Longrightarrow> key_client_id k = c"
    and "K c = Some (w, Some k) \<Longrightarrow> k \<in> set R"
    and "K c = Some (Some k, r) \<Longrightarrow> key_client_id k = c"
  using assms unfolding timeouts_match_def by meson+

lemma set_remove_key: "distinct ks \<Longrightarrow> set (remove_key k ks) = set ks - set_option k"
  by (auto simp: remove_key_def split: option.splits)

lemma remove_key_sorted: "sorted ks \<Longrightarrow> sorted (remove_key k ks)" "distinct ks \<Longrightarrow> distinct (remove_key k ks)"
  by (auto simp: remove_key_def sorted_remove1 split: option.splits)

lemma set_insert_key: "set (insert_key k ks) = set ks \<union> set_option k"
  by (auto simp: insert_key_def set_insort_insert split: option.splits)

lemma insert_key_sorted: "sorted ks \<Longrightarrow> sorted (insert_key k ks)" "distinct ks \<Longrightarrow> distinct (insert_key k ks)"
  by (auto simp: insert_key_def sorted_insort_insert distinct_insort_insert split: option.splits)

text \<open>Without the client's own keys, no key of the client is left in the sets.\<close>

lemma timeouts_match_own:
  assumes "timeouts_match K W R" "K c = Some (w, r)"
  shows "k \<in> set W \<Longrightarrow> key_client_id k = c \<longleftrightarrow> w = Some k"
    and "k \<in> set R \<Longrightarrow> key_client_id k = c \<longleftrightarrow> r = Some k"
proof -
  note D = timeouts_matchD [OF assms(1)]
  show "key_client_id k = c \<longleftrightarrow> w = Some k" if "k \<in> set W"
    using D(5) [OF that] D(10) [of c k] assms(2) by (metis option.inject prod.inject)
  show "key_client_id k = c \<longleftrightarrow> r = Some k" if "k \<in> set R"
    using D(6) [OF that] D(8) [of c w k] assms(2) by (metis option.inject prod.inject)
qed

lemma timeouts_match_without:
  assumes "timeouts_match K W R" "K c = Some (w, r)"
  shows "set (remove_key w W) = {k \<in> set W. key_client_id k \<noteq> c}"
    and "set (remove_key r R) = {k \<in> set R. key_client_id k \<noteq> c}"
proof -
  note own = timeouts_match_own [OF assms] and D = timeouts_matchD(2,4) [OF assms(1)]
  show "set (remove_key w W) = {k \<in> set W. key_client_id k \<noteq> c}"
    unfolding set_remove_key [OF D(1)] using own(1) by (cases w) auto
  show "set (remove_key r R) = {k \<in> set R. key_client_id k \<noteq> c}"
    unfolding set_remove_key [OF D(2)] using own(2) by (cases r) auto
qed

lemma timeouts_match_none:
  assumes "timeouts_match K W R" "K c = None \<or> K c = Some (None, None)"
  shows "set W = {k \<in> set W. key_client_id k \<noteq> c}" "set R = {k \<in> set R. key_client_id k \<noteq> c}"
proof -
  note D = timeouts_matchD [OF assms(1)]
  have "key_client_id k \<noteq> c" if "k \<in> set W" for k
    using D(5) [OF that] assms(2) by (metis option.distinct(1) option.inject prod.inject)
  then show "set W = {k \<in> set W. key_client_id k \<noteq> c}" by blast
  have "key_client_id k \<noteq> c" if "k \<in> set R" for k
    using D(6) [OF that] assms(2) by (metis option.distinct(1) option.inject prod.inject)
  then show "set R = {k \<in> set R. key_client_id k \<noteq> c}" by blast
qed

text \<open>The one update that every operation makes: the client's keys are replaced.\<close>

lemma timeouts_match_update:
  assumes "timeouts_match K W R" "sorted W'" "distinct W'" "sorted R'" "distinct R'"
    and W': "set W' = {k \<in> set W. key_client_id k \<noteq> c} \<union> set_option w"
    and R': "set R' = {k \<in> set R. key_client_id k \<noteq> c} \<union> set_option r"
    and v: "v = None \<and> w = None \<and> r = None \<or> v = Some (w, r)"
    and r: "r = None \<Longrightarrow> w = None"
    and key: "\<And>k. w = Some k \<or> r = Some k \<Longrightarrow> key_client_id k = c"
  shows "timeouts_match (K(c := v)) W' R'"
proof (rule timeouts_matchI [OF assms(2-5)])
  note D = timeouts_matchD [OF assms(1)]
  fix k
  show "\<exists>r. (K(c := v)) (key_client_id k) = Some (Some k, r)" if "k \<in> set W'"
  proof (cases "w = Some k")
    case True
    then show ?thesis using v key by auto
  next
    case False
    with that have "k \<in> set W" "key_client_id k \<noteq> c" unfolding W' by (auto split: option.splits)
    then show ?thesis using D(5) [of k] by simp
  qed
  show "\<exists>w. (K(c := v)) (key_client_id k) = Some (w, Some k)" if "k \<in> set R'"
  proof (cases "r = Some k")
    case True
    then show ?thesis using v key by auto
  next
    case False
    with that have "k \<in> set R" "key_client_id k \<noteq> c" unfolding R' by (auto split: option.splits)
    then show ?thesis using D(6) [of k] by simp
  qed
next
  note D = timeouts_matchD [OF assms(1)]
  fix c' w'
  assume "(K(c := v)) c' = Some (w', None)"
  then show "w' = None" using D(7) [of c' w'] v r by (cases "c' = c") auto
next
  note D = timeouts_matchD [OF assms(1)]
  fix c' w' k
  assume a: "(K(c := v)) c' = Some (w', Some k)"
  show "key_client_id k = c' \<and> k \<in> set R'"
  proof (cases "c' = c")
    case True
    then have "r = Some k" using a v by auto
    then show ?thesis using key True unfolding R' by simp
  next
    case False
    then have "K c' = Some (w', Some k)" using a by simp
    then show ?thesis using D(8,9) False unfolding R' by simp
  qed
next
  note D = timeouts_matchD [OF assms(1)]
  fix c' k r'
  assume "(K(c := v)) c' = Some (Some k, r')"
  then show "key_client_id k = c'" using D(10) [of c' k r'] v key by (cases "c' = c") auto
qed

lemma timeouts_match_remove:
  assumes "timeouts_match K W R" "K c = Some (w, r)" "v = None \<or> v = Some (None, None)"
  shows "timeouts_match (K(c := v)) (remove_key w W) (remove_key r R)"
  using timeouts_matchD(1-4) [OF assms(1)]
  by (intro timeouts_match_update [OF assms(1), where w = None and r = None])
    (use assms(3) in \<open>simp_all add: timeouts_match_without [OF assms(1,2)] remove_key_sorted\<close>)

lemma timeouts_match_fresh:
  assumes "timeouts_match K W R" "K c = None"
  shows "timeouts_match (K(c \<mapsto> (None, None))) W R"
  using timeouts_matchD(1-4) [OF assms(1)] timeouts_match_none [OF assms(1), of c] assms(2)
  by (intro timeouts_match_update [OF assms(1), where w = None and r = None]) simp_all

lemma timeouts_match_disconnect:
  assumes "timeouts_match K W R" "K c = Some (None, None)" "key_client_id key = c"
    and "\<And>k. w = Some k \<Longrightarrow> key_client_id k = c"
  shows "timeouts_match (K(c \<mapsto> (w, Some key))) (insert_key w W) (insert_key (Some key) R)"
  using timeouts_matchD(1-4) [OF assms(1)] timeouts_match_none [OF assms(1), of c] assms(2-4)
  by (intro timeouts_match_update [OF assms(1), where w = w and r = "Some key"])
    (auto simp: insert_key_sorted set_insert_key)

lemma timeouts_match_will_taken:
  assumes "timeouts_match K (k # W) R"
  shows "timeouts_match K W R"
proof -
  note D = timeouts_matchD [OF assms]
  have "sorted W" "distinct W" using D(1,2) by simp_all
  then show ?thesis
    by (rule timeouts_matchI) (use D(3-) in \<open>(meson list.set_intros)+\<close>)
qed

lemma timeouts_match_clients:
  assumes "timeouts_match K W R"
  shows "inj_on key_client_id (set W)" "inj_on key_client_id (set R)"
proof -
  note D = timeouts_matchD [OF assms]
  show "inj_on key_client_id (set W)"
    using D(5) by (intro inj_onI) (metis option.inject prod.inject)
  show "inj_on key_client_id (set R)"
    using D(6) by (intro inj_onI) (metis option.inject prod.inject)
qed

subsection \<open>The invariant\<close>

definition session_keys :: "Storage \<Rightarrow> string \<Rightarrow> (TimeoutKey option \<times> TimeoutKey option) option" where
  "session_keys st c =
     map_option (\<lambda>s. (session_last_will_timeout_key s, session_remove_timeout_key s)) (session_of st c)"

definition timeouts_ok :: "Storage \<Rightarrow> bool" where
  "timeouts_ok st \<longleftrightarrow> distinct (map fst (storage_sessions st)) \<and>
     timeouts_match (session_keys st) (storage_send_last_will_timeout st) (storage_remove_timeout st)"

text \<open>A disconnected session that still has its will publishes it no later than it expires.\<close>

definition will_pending :: "timeouts \<Rightarrow> Session \<Rightarrow> bool" where
  "will_pending W s \<longleftrightarrow>
     (case session_remove_timeout_key s of
        None \<Rightarrow> True
      | Some r \<Rightarrow> session_last_will s = None \<or>
          (case session_last_will_timeout_key s of
             None \<Rightarrow> False
           | Some k \<Rightarrow> k \<in> set W \<and> key_timeout k \<le> key_timeout r))"

definition Storage_inv :: "Storage \<Rightarrow> bool" where
  "Storage_inv st \<longleftrightarrow> Trie_inv (storage_filter_tree st) \<and> timeouts_ok st \<and>
     (\<forall>c s. session_of st c = Some s \<longrightarrow> will_pending (storage_send_last_will_timeout st) s) \<and>
     (\<forall>f c. session_of st c = None \<longrightarrow> Trie_lookup (storage_filter_tree st) f c = None)"

lemma Storage_invI:
  assumes "Trie_inv (storage_filter_tree st)" "distinct (map fst (storage_sessions st))"
    and "timeouts_match (session_keys st) (storage_send_last_will_timeout st) (storage_remove_timeout st)"
    and "\<And>c s. session_of st c = Some s \<Longrightarrow> will_pending (storage_send_last_will_timeout st) s"
    and "\<And>f c. session_of st c = None \<Longrightarrow> Trie_lookup (storage_filter_tree st) f c = None"
  shows "Storage_inv st"
  unfolding Storage_inv_def timeouts_ok_def using assms by (intro conjI allI impI) blast+

lemma Storage_invD:
  assumes "Storage_inv st"
  shows "Trie_inv (storage_filter_tree st)" "timeouts_ok st" "distinct (map fst (storage_sessions st))"
    and "timeouts_match (session_keys st) (storage_send_last_will_timeout st) (storage_remove_timeout st)"
    and "session_of st c = Some s \<Longrightarrow> will_pending (storage_send_last_will_timeout st) s"
    and "session_of st c = None \<Longrightarrow> Trie_lookup (storage_filter_tree st) f c = None"
  using assms unfolding Storage_inv_def timeouts_ok_def by (elim conjE; blast)+

definition connected :: "Storage \<Rightarrow> string \<Rightarrow> bool" where
  "connected st c \<longleftrightarrow> (case session_of st c of None \<Rightarrow> False | Some s \<Rightarrow> session_remove_timeout_key s = None)"

lemma session_keys_None [simp]: "session_keys st c = None \<longleftrightarrow> session_of st c = None"
  by (simp add: session_keys_def)

lemma connected_keys:
  assumes "timeouts_ok st"
  shows "connected st c \<longleftrightarrow> session_keys st c = Some (None, None)"
proof (cases "session_of st c")
  case None
  then show ?thesis by (simp add: connected_def session_keys_def)
next
  case (Some s)
  then have keys: "session_keys st c = Some (session_last_will_timeout_key s, session_remove_timeout_key s)"
    by (simp add: session_keys_def)
  have "session_last_will_timeout_key s = None" if "session_remove_timeout_key s = None"
    using timeouts_matchD(7) [OF conjunct2 [OF assms [unfolded timeouts_ok_def]], of c] keys
    unfolding that by (rule meta_mp)
  then show ?thesis unfolding keys by (auto simp: connected_def Some)
qed

lemma Storage_inv_default: "Storage_inv Storage_default"
  by (rule Storage_invI)
    (simp_all add: Storage_default_def Trie_inv_default timeouts_match_def session_keys_def Trie_lookup_default)

text \<open>Operations on queues, inflight packets and retained messages keep the keys and the wills.\<close>

definition same_timeouts :: "Session \<Rightarrow> Session \<Rightarrow> bool" where
  "same_timeouts s s' \<longleftrightarrow> session_last_will s' = session_last_will s \<and>
     session_last_will_timeout_key s' = session_last_will_timeout_key s \<and>
     session_remove_timeout_key s' = session_remove_timeout_key s"

lemma Storage_inv_frame:
  assumes "Storage_inv st" "same_frame (st\<lparr>storage_filter_tree := storage_filter_tree st'\<rparr>) st'"
    and "\<And>c. rel_option same_timeouts (session_of st c) (session_of st' c)"
    and "Trie_inv (storage_filter_tree st')"
    and "\<And>f c. session_of st c = None \<Longrightarrow> Trie_lookup (storage_filter_tree st') f c = None"
  shows "Storage_inv st'"
proof (rule Storage_invI [OF assms(4)])
  note inv = Storage_invD [OF assms(1)] and frame = same_frameD [OF assms(2), simplified]
  show "distinct (map fst (storage_sessions st'))" unfolding frame by (rule inv(3))
  have "session_keys st' c = session_keys st c" for c
    using assms(3) [of c] by (cases "session_of st c"; cases "session_of st' c")
      (simp_all add: session_keys_def same_timeouts_def)
  then have "session_keys st' = session_keys st" by (rule ext)
  then show "timeouts_match (session_keys st') (storage_send_last_will_timeout st') (storage_remove_timeout st')"
    unfolding frame using inv(4) by simp
  fix c
  show "will_pending (storage_send_last_will_timeout st') s" if s: "session_of st' c = Some s" for s
  proof -
    obtain s0 where s0: "session_of st c = Some s0" "same_timeouts s0 s"
      using assms(3) [of c] unfolding s by (cases "session_of st c") simp_all
    from inv(5) [OF s0(1)] s0(2) show ?thesis
      unfolding frame by (simp add: will_pending_def same_timeouts_def cong: option.case_cong)
  qed
  show "Trie_lookup (storage_filter_tree st') f c = None" if "session_of st' c = None" for f
    using assms(3) [of c] that by (intro assms(5)) (cases "session_of st c"; simp)
qed

lemma Storage_inv_same_tree:
  assumes "Storage_inv st" "same_frame st st'"
    and "\<And>c. rel_option same_timeouts (session_of st c) (session_of st' c)"
  shows "Storage_inv st'"
proof (rule Storage_inv_frame [OF assms(1) _ assms(3)])
  note tree = same_frameD(1) [OF assms(2)]
  show "same_frame (st\<lparr>storage_filter_tree := storage_filter_tree st'\<rparr>) st'"
    using assms(2) unfolding tree by simp
  show "Trie_inv (storage_filter_tree st')"
    and "session_of st c = None \<Longrightarrow> Trie_lookup (storage_filter_tree st') f c = None" for f c
    unfolding tree by (rule Storage_invD [OF assms(1)])+
qed

end
