(* ===== verification/Storage_Operations.thy ===== *)
theory Storage_Operations
  imports Storage_Sessions
begin

text \<open>
  Every operation of the storage keeps the invariant: \<open>disconnect_session\<close> when the client is
  connected, \<open>subscribe\<close> when it has a session, \<open>update_retained_message\<close> for a topic name.
\<close>

subsection \<open>Operations on queues and inflight packets\<close>

definition keeps_timeouts :: "Storage \<Rightarrow> Storage \<Rightarrow> bool" where
  "keeps_timeouts st st' \<longleftrightarrow> same_frame st st' \<and>
     (\<forall>c. rel_option same_timeouts (session_of st c) (session_of st' c))"

lemma same_timeouts_refl [simp]: "same_timeouts s s"
  by (simp add: same_timeouts_def)

lemma keeps_timeouts_refl [simp]: "keeps_timeouts st st"
  by (simp add: keeps_timeouts_def option.rel_refl)

lemma keeps_timeouts_trans: "keeps_timeouts a b \<Longrightarrow> keeps_timeouts b c \<Longrightarrow> keeps_timeouts a c"
proof -
  have "rel_option same_timeouts x z" if "rel_option same_timeouts x y" "rel_option same_timeouts y z" for x y z
    using that by (cases x; cases y; cases z) (simp_all add: same_timeouts_def)
  then show "keeps_timeouts a b \<Longrightarrow> keeps_timeouts b c \<Longrightarrow> keeps_timeouts a c"
    unfolding keeps_timeouts_def using same_frame_trans by blast
qed

lemma keeps_timeouts_modify [simp]:
  "(\<And>s. same_timeouts s (f s)) \<Longrightarrow> keeps_timeouts st (modify_session c f st)"
  by (simp add: keeps_timeouts_def option.rel_map option.rel_refl)

lemma keeps_timeouts_fold:
  "(\<And>x st. x \<in> set xs \<Longrightarrow> keeps_timeouts st (f x st)) \<Longrightarrow> keeps_timeouts st (fold f xs st)"
  by (induction xs arbitrary: st) (auto intro: keeps_timeouts_trans)

lemma Storage_inv_keeps: "Storage_inv st \<Longrightarrow> keeps_timeouts st st' \<Longrightarrow> Storage_inv st'"
  unfolding keeps_timeouts_def using Storage_inv_same_tree by blast

lemma connected_keeps: "keeps_timeouts st st' \<Longrightarrow> connected st' c \<longleftrightarrow> connected st c"
proof -
  assume "keeps_timeouts st st'"
  then have "rel_option same_timeouts (session_of st c) (session_of st' c)" by (simp add: keeps_timeouts_def)
  then show "connected st' c \<longleftrightarrow> connected st c"
    by (cases "session_of st c"; cases "session_of st' c") (simp_all add: connected_def same_timeouts_def)
qed

lemma same_timeouts_add_message [simp]: "same_timeouts s (Session_add_message now msg items s)"
  by (simp add: Session_add_message_queue same_timeouts_def)

lemma keeps_timeouts_deliver_message: "keeps_timeouts st (deliver_message now pick msg st)"
proof -
  have k: "keeps_timeouts st (fold (\<lambda>(c, items). modify_session c (Session_add_message now msg (P c items))) groups st)"
    for P :: "string \<Rightarrow> FilterItem list \<Rightarrow> FilterItem list" and groups st
    by (rule keeps_timeouts_fold) auto
  show ?thesis
    by (auto simp: deliver_message_def Let_def intro!: keeps_timeouts_trans [OF k k [of _ "\<lambda>_ items. items"]])
qed

lemma keeps_timeouts_deliver: "keeps_timeouts st (Storage_deliver now pick msgs st)"
proof (induction msgs arbitrary: st pick)
  case (Cons msg msgs)
  show ?case by (simp add: keeps_timeouts_trans [OF keeps_timeouts_deliver_message Cons.IH])
qed simp

lemma deliver_inv: "Storage_inv st \<Longrightarrow> Storage_inv (Storage_deliver now pick msgs st)"
  by (erule Storage_inv_keeps) (rule keeps_timeouts_deliver)

lemma next_messages_keeps: "Storage_next_messages c limit st = Some (msgs, st') \<Longrightarrow> keeps_timeouts st st'"
  by (auto simp: Storage_next_messages_def same_timeouts_def split: option.splits)

lemma next_messages_inv: "Storage_inv st \<Longrightarrow> Storage_next_messages c limit st = Some (msgs, st') \<Longrightarrow> Storage_inv st'"
  by (rule Storage_inv_keeps [OF _ next_messages_keeps])

lemma add_inflight_keeps: "Storage_add_inflight_pub_packet c publish st = Some st' \<Longrightarrow> keeps_timeouts st st'"
  by (auto simp: Storage_add_inflight_pub_packet_def same_timeouts_def split: option.splits)

lemma add_inflight_inv: "Storage_inv st \<Longrightarrow> Storage_add_inflight_pub_packet c publish st = Some st' \<Longrightarrow> Storage_inv st'"
  by (rule Storage_inv_keeps [OF _ add_inflight_keeps])

lemma get_inflight_keeps: "Storage_get_inflight_pub_packets c packet_id remove st = Some (res, st') \<Longrightarrow> keeps_timeouts st st'"
  by (auto simp: Storage_get_inflight_pub_packets_def same_timeouts_def
        split: option.splits list.splits if_splits)

lemma get_inflight_inv: "Storage_inv st \<Longrightarrow> Storage_get_inflight_pub_packets c packet_id remove st = Some (res, st') \<Longrightarrow> Storage_inv st'"
  by (rule Storage_inv_keeps [OF _ get_inflight_keeps])

subsection \<open>Operations on the tree\<close>

lemma tree_update_inv:
  assumes "Storage_inv st" "Trie_inv tree"
    and "\<And>f c. session_of st c = None \<Longrightarrow> Trie_lookup tree f c = None"
  shows "Storage_inv (st\<lparr>storage_filter_tree := tree\<rparr>)"
  by (rule Storage_inv_frame [OF assms(1)]) (simp_all add: assms(2,3) same_frame_def option.rel_refl)

lemma update_retained_inv:
  assumes "Storage_inv st" "valid_topic (message_topic msg)"
  shows "Storage_inv (Storage_update_retained_message msg st)"
  unfolding Storage_update_retained_message_def
  using Trie_set_retained_spec [OF Storage_invD(1) [OF assms(1)] valid_topic_split [OF assms(2)] surjective_pairing]
    Storage_invD(6) [OF assms(1)]
  by (intro tree_update_inv [OF assms(1)]) simp_all

lemma subscribe_inv:
  assumes "Storage_inv st" "session_of st c \<noteq> None"
  shows "Storage_inv (Storage_subscribe now c f item st)"
proof -
  define tree where "tree = snd (Trie_subscribe f c item (storage_filter_tree st))"
  have inv: "Storage_inv (st\<lparr>storage_filter_tree := tree\<rparr>)"
    unfolding tree_def
    using trie.subscribe_inv trie.subscribe_lookup Storage_invD(1,6) [OF assms(1)] assms(2)
    by (intro tree_update_inv [OF assms(1)]) auto
  have "keeps_timeouts st (fold (\<lambda>msg st. if P msg then st else if Q msg then st
      else modify_session c (Session_add_message now msg [item]) st) msgs st)" for P Q msgs st
    by (rule keeps_timeouts_fold) simp
  then show ?thesis
    using inv by (simp add: Storage_subscribe_def case_prod_unfold Let_def tree_def [symmetric] Storage_inv_keeps)
qed

lemma connected_tree: "connected (st\<lparr>storage_filter_tree := tree\<rparr>) c \<longleftrightarrow> connected st c"
  by (simp add: connected_def)

lemma subscribe_connected: "connected (Storage_subscribe now c f item st) c' \<longleftrightarrow> connected st c'"
proof -
  have k: "keeps_timeouts st (fold (\<lambda>msg st. if P msg then st else if Q msg then st
      else modify_session c (Session_add_message now msg [item]) st) msgs st)" for P Q msgs st
    by (rule keeps_timeouts_fold) simp
  show ?thesis
    by (simp add: Storage_subscribe_def case_prod_unfold Let_def connected_keeps [OF k] connected_tree)
qed

lemma unsubscribe_inv:
  assumes "Storage_inv st"
  shows "Storage_inv (snd (Storage_unsubscribe c f st))"
  using trie.unsubscribe_inv trie.unsubscribe_lookup Storage_invD(1,6) [OF assms]
  by (auto simp: Storage_unsubscribe_def case_prod_unfold Let_def intro!: tree_update_inv [OF assms])

end
