(* ===== verification/Storage_Lifecycle.thy ===== *)
theory Storage_Lifecycle
  imports Storage_Operations
begin

text \<open>
  Creating, disconnecting and removing sessions, and what \<open>update_sessions\<close> does: it publishes the
  wills that are due and removes the sessions that are due, and no others.
\<close>

subsection \<open>One session changes\<close>

definition keys_of :: "Session \<Rightarrow> TimeoutKey option \<times> TimeoutKey option" where
  "keys_of s = (session_last_will_timeout_key s, session_remove_timeout_key s)"

lemma session_keys_of: "session_keys st c = map_option keys_of (session_of st c)"
  by (simp add: session_keys_def keys_of_def [abs_def])

lemma session_keys_upd:
  "session_of st' = (session_of st)(c := v) \<Longrightarrow> session_keys st' = (session_keys st)(c := map_option keys_of v)"
  by (auto simp: fun_eq_iff session_keys_of)

lemma will_pending_other:
  assumes "Storage_inv st" "session_of st c' = Some s" "c' \<noteq> c"
    and "{k \<in> set (storage_send_last_will_timeout st). key_client_id k \<noteq> c} \<subseteq> set W'"
  shows "will_pending W' s"
proof -
  note inv = Storage_invD [OF assms(1)]
  have own: "key_client_id k \<noteq> c" if "session_last_will_timeout_key s = Some k" for k
    using timeouts_matchD(10) [OF inv(4), of c'] assms(2,3) that by (simp add: session_keys_def)
  have pending: "will_pending (storage_send_last_will_timeout st) s" by (rule inv(5)) fact
  show ?thesis
    using pending own assms(4) unfolding will_pending_def
    by (cases "session_remove_timeout_key s"; cases "session_last_will_timeout_key s") auto
qed

lemma Storage_inv_update:
  assumes "Storage_inv st" "Trie_inv (storage_filter_tree st')" "distinct (map fst (storage_sessions st'))"
    and sessions: "session_of st' = (session_of st)(c := v)"
    and match: "timeouts_match ((session_keys st)(c := map_option keys_of v))
      (storage_send_last_will_timeout st') (storage_remove_timeout st')"
    and others: "{k \<in> set (storage_send_last_will_timeout st). key_client_id k \<noteq> c}
      \<subseteq> set (storage_send_last_will_timeout st')"
    and own: "\<And>s. v = Some s \<Longrightarrow> will_pending (storage_send_last_will_timeout st') s"
    and tree: "\<And>f c'. Trie_lookup (storage_filter_tree st') f c' =
      (if v = None \<and> c' = c then None else Trie_lookup (storage_filter_tree st) f c')"
  shows "Storage_inv st'"
proof (rule Storage_invI [OF assms(2,3)])
  show "timeouts_match (session_keys st') (storage_send_last_will_timeout st') (storage_remove_timeout st')"
    unfolding session_keys_upd [OF sessions] by (rule match)
  fix c'
  show "will_pending (storage_send_last_will_timeout st') s" if "session_of st' c' = Some s" for s
  proof (cases "c' = c")
    case True
    with that show ?thesis using own sessions by simp
  next
    case False
    then have "session_of st c' = Some s" using that sessions by simp
    from will_pending_other [OF assms(1) this False others] show ?thesis .
  qed
  show "Trie_lookup (storage_filter_tree st') f c' = None" if "session_of st' c' = None" for f
    using that sessions Storage_invD(6) [OF assms(1), of c' f] by (auto simp: tree split: if_splits)
qed

subsection \<open>Removing a session\<close>

lemma remove_session_fields:
  "session_of (remove_session c st) = (session_of st)(c := None)"
  "storage_filter_tree (remove_session c st) = Trie_unsubscribe_all c (storage_filter_tree st)"
  "storage_send_last_will_timeout (remove_session c st) = remove_key
     (Option.bind (session_of st c) session_last_will_timeout_key) (storage_send_last_will_timeout st)"
  "storage_clients_expired (remove_session c st) = storage_clients_expired st"
  "distinct (map fst (storage_sessions st)) \<Longrightarrow> distinct (map fst (storage_sessions (remove_session c st)))"
  by (auto simp: remove_session_def remove_key_def fun_eq_iff delete_conv' distinct_delete split: option.split)

lemma remove_session_keys:
  assumes "Storage_inv st" "v = None \<or> v = Some (None, None)"
  shows "timeouts_match ((session_keys st)(c := v))
      (storage_send_last_will_timeout (remove_session c st)) (storage_remove_timeout (remove_session c st))"
    and "set (storage_send_last_will_timeout (remove_session c st)) =
      {k \<in> set (storage_send_last_will_timeout st). key_client_id k \<noteq> c}"
proof -
  note match = Storage_invD(4) [OF assms(1)]
  have "timeouts_match ((session_keys st)(c := v))
      (storage_send_last_will_timeout (remove_session c st)) (storage_remove_timeout (remove_session c st)) \<and>
    set (storage_send_last_will_timeout (remove_session c st)) =
      {k \<in> set (storage_send_last_will_timeout st). key_client_id k \<noteq> c}"
  proof (cases "session_of st c")
    case None
    then have k: "session_keys st c = None" by simp
    then have "(session_keys st)(c := None) = session_keys st" by (rule fun_upd_idem)
    then show ?thesis
      using assms(2) match timeouts_match_fresh [OF match k] timeouts_match_none(1) [OF match, of c] k
      by (auto simp: None remove_session_fields remove_session_remove_timeout remove_key_def)
  next
    case (Some s)
    then have "session_keys st c = Some (session_last_will_timeout_key s, session_remove_timeout_key s)"
      by (simp add: session_keys_def)
    from timeouts_match_remove [OF match this assms(2)] timeouts_match_without(1) [OF match this]
    show ?thesis by (simp add: Some remove_session_fields remove_session_remove_timeout)
  qed
  then show "timeouts_match ((session_keys st)(c := v))
      (storage_send_last_will_timeout (remove_session c st)) (storage_remove_timeout (remove_session c st))"
    "set (storage_send_last_will_timeout (remove_session c st)) =
      {k \<in> set (storage_send_last_will_timeout st). key_client_id k \<noteq> c}" by simp_all
qed

lemma remove_session_inv:
  assumes "Storage_inv st"
  shows "Storage_inv (remove_session c st)"
proof (rule Storage_inv_update [OF assms _ _ remove_session_fields(1)])
  note inv = Storage_invD [OF assms]
  show "Trie_inv (storage_filter_tree (remove_session c st))"
    by (simp add: remove_session_fields(2) trie.unsubscribe_all_inv inv(1))
  show "distinct (map fst (storage_sessions (remove_session c st)))"
    by (rule remove_session_fields(5) [OF inv(3)])
  show "timeouts_match ((session_keys st)(c := map_option keys_of None))
      (storage_send_last_will_timeout (remove_session c st)) (storage_remove_timeout (remove_session c st))"
    by (rule remove_session_keys [OF assms]) simp
  show "{k \<in> set (storage_send_last_will_timeout st). key_client_id k \<noteq> c}
      \<subseteq> set (storage_send_last_will_timeout (remove_session c st))"
    by (simp add: remove_session_keys(2) [OF assms, where v = None])
  show "Trie_lookup (storage_filter_tree (remove_session c st)) f c' =
      (if (None :: Session option) = None \<and> c' = c then None else Trie_lookup (storage_filter_tree st) f c')" for f c'
    by (simp add: remove_session_fields(2) trie.unsubscribe_all_lookup inv(1))
qed simp

subsection \<open>Creating a session\<close>

text \<open>The session that a resuming client finds.\<close>

definition resumed :: "LastWill option \<Rightarrow> Session \<Rightarrow> Session" where
  "resumed last_will s = s\<lparr>session_last_will := last_will, session_last_will_timeout_key := None,
     session_remove_timeout_key := None\<rparr>"

lemma create_session_resume:
  assumes "session_of st c = Some s"
  shows "Storage_create_session c False last_will st =
    (True, st\<lparr>storage_sessions := AList.update c (resumed last_will s) (storage_sessions st),
       storage_send_last_will_timeout := remove_key (session_last_will_timeout_key s) (storage_send_last_will_timeout st),
       storage_remove_timeout := remove_key (session_remove_timeout_key s) (storage_remove_timeout st)\<rparr>)"
  by (simp add: Storage_create_session_def assms resumed_def Let_def)

lemma create_session_new:
  assumes "clean_start \<or> session_of st c = None"
  shows "Storage_create_session c clean_start last_will st =
    (False, (if clean_start then remove_session c st else st)
      \<lparr>storage_sessions := AList.update c (Session_new last_will)
        (storage_sessions (if clean_start then remove_session c st else st))\<rparr>)"
  using assms by (cases clean_start) (simp_all add: Storage_create_session_def)

lemma create_session_inv_resume:
  assumes "Storage_inv st" "session_of st c = Some s"
  shows "Storage_inv (snd (Storage_create_session c False last_will st))"
proof -
  note inv = Storage_invD [OF assms(1)]
  let ?st = "snd (Storage_create_session c False last_will st)"
  note st = arg_cong [OF create_session_resume [OF assms(2), of last_will], of snd, simplified snd_conv]
  have k: "session_keys st c = Some (session_last_will_timeout_key s, session_remove_timeout_key s)"
    by (simp add: session_keys_def assms(2))
  show ?thesis
  proof (rule Storage_inv_update [OF assms(1)])
    show "session_of ?st = (session_of st)(c := Some (resumed last_will s))"
      by (auto simp: st update_conv' fun_eq_iff)
    show "timeouts_match ((session_keys st)(c := map_option keys_of (Some (resumed last_will s))))
        (storage_send_last_will_timeout ?st) (storage_remove_timeout ?st)"
      using timeouts_match_remove [OF inv(4) k, of "Some (None, None)"]
      by (simp add: st keys_of_def resumed_def)
    show "{k \<in> set (storage_send_last_will_timeout st). key_client_id k \<noteq> c}
        \<subseteq> set (storage_send_last_will_timeout ?st)"
      by (simp add: st timeouts_match_without(1) [OF inv(4) k])
  qed (simp_all add: st inv(1,3) distinct_update will_pending_def resumed_def)
qed

lemma create_session_inv_new:
  assumes "Storage_inv st" "clean_start \<or> session_of st c = None"
  shows "Storage_inv (snd (Storage_create_session c clean_start last_will st))"
proof -
  note inv = Storage_invD [OF assms(1)]
  let ?st = "snd (Storage_create_session c clean_start last_will st)"
  define st1 where "st1 = (if clean_start then remove_session c st else st)"
  have inv1: "Storage_inv st1"
    using assms(1) remove_session_inv by (simp add: st1_def)
  have none: "session_of st1 c = None"
    using assms(2) by (auto simp: st1_def remove_session_fields)
  note st = arg_cong [OF create_session_new [OF assms(2), of last_will], of snd, folded st1_def, simplified snd_conv]
  show ?thesis
  proof (rule Storage_inv_update [OF inv1])
    show "session_of ?st = (session_of st1)(c := Some (Session_new last_will))"
      by (auto simp: st update_conv' fun_eq_iff)
    show "timeouts_match ((session_keys st1)(c := map_option keys_of (Some (Session_new last_will))))
        (storage_send_last_will_timeout ?st) (storage_remove_timeout ?st)"
      using timeouts_match_fresh [OF Storage_invD(4) [OF inv1], of c] none
      by (simp add: st keys_of_def Session_new_def)
  qed (auto simp: st Storage_invD(1,3) [OF inv1] distinct_update will_pending_def Session_new_def)
qed

lemma create_session_inv:
  assumes "Storage_inv st"
  shows "Storage_inv (snd (Storage_create_session c clean_start last_will st))"
  using create_session_inv_resume [OF assms] create_session_inv_new [OF assms]
  by (cases clean_start; cases "session_of st c") auto

lemma create_session_spec:
  assumes "Storage_inv st" "Storage_create_session c clean_start last_will st = (present, st')"
  shows "present = (\<not> clean_start \<and> session_of st c \<noteq> None) \<and> Storage_inv st' \<and> connected st' c \<and>
    session_of st' = (session_of st)(c \<mapsto>
      (if present then resumed last_will (the (session_of st c)) else Session_new last_will)) \<and>
    Trie_lookup (storage_filter_tree st') f c' =
      (if \<not> present \<and> c' = c then None else Trie_lookup (storage_filter_tree st) f c') \<and>
    Trie_retained (storage_filter_tree st') = Trie_retained (storage_filter_tree st)"
proof (cases "clean_start \<or> session_of st c = None")
  case True
  note all = Trie_unsubscribe_all_spec [OF Storage_invD(1) [OF assms(1)], of c f c']
  from create_session_new [OF True, of last_will] create_session_inv [OF assms(1), of c clean_start last_will]
  show ?thesis
    using assms(2) True all Storage_invD(6) [OF assms(1), of c f]
    by (auto simp: remove_session_fields update_conv' connected_def Session_new_def)
next
  case False
  then obtain s where s: "session_of st c = Some s" by auto
  from create_session_resume [OF s, of last_will] create_session_inv [OF assms(1), of c clean_start last_will]
  show ?thesis
    using assms(2) False s by (auto simp: update_conv' connected_def resumed_def)
qed

subsection \<open>Disconnecting a session\<close>

definition disconnected :: "nat \<Rightarrow> string \<Rightarrow> u32 \<Rightarrow> Session \<Rightarrow> Session" where
  "disconnected now c interval s =
     (let s = (case session_last_will s of
           None \<Rightarrow> s
         | Some last_will \<Rightarrow> s\<lparr>session_last_will_timeout_key :=
             Some (TimeoutKey (now + from_secs (last_will_interval last_will interval)) c)\<rparr>)
      in s\<lparr>session_remove_timeout_key := Some (TimeoutKey (now + from_secs interval) c)\<rparr>)"

lemma disconnect_session_eq:
  "Storage_disconnect_session now c interval st =
     (case session_of st c of
        None \<Rightarrow> st
      | Some s \<Rightarrow> st\<lparr>storage_sessions := AList.update c (disconnected now c interval s) (storage_sessions st),
          storage_send_last_will_timeout :=
            insert_key (map_option (\<lambda>last_will. TimeoutKey (now + from_secs (last_will_interval last_will interval)) c)
              (session_last_will s)) (storage_send_last_will_timeout st),
          storage_remove_timeout :=
            insert_key (Some (TimeoutKey (now + from_secs interval) c)) (storage_remove_timeout st)\<rparr>)"
  by (auto simp: Storage_disconnect_session_def disconnected_def Let_def split: option.splits)

lemma from_secs_mono: "a \<le> b \<Longrightarrow> from_secs a \<le> from_secs b"
  by (simp add: from_secs_def word_le_nat_alt)

lemma disconnect_inv:
  assumes "Storage_inv st" "connected st c"
  shows "Storage_inv (Storage_disconnect_session now c interval st)"
proof -
  note inv = Storage_invD [OF assms(1)]
  have k: "session_keys st c = Some (None, None)"
    using assms(2) connected_keys [OF inv(2)] by simp
  then obtain s where s: "session_of st c = Some s" "session_last_will_timeout_key s = None"
    by (auto simp: session_keys_def)
  let ?st = "Storage_disconnect_session now c interval st"
  note st = disconnect_session_eq [of now c interval st, unfolded s option.case]
  show ?thesis
  proof (rule Storage_inv_update [OF assms(1)])
    show "session_of ?st = (session_of st)(c := Some (disconnected now c interval s))"
      by (auto simp: st update_conv' fun_eq_iff)
    show "timeouts_match ((session_keys st)(c := map_option keys_of (Some (disconnected now c interval s))))
        (storage_send_last_will_timeout ?st) (storage_remove_timeout ?st)"
      using timeouts_match_disconnect [OF inv(4) k, of "TimeoutKey (now + from_secs interval) c"
        "map_option (\<lambda>last_will. TimeoutKey (now + from_secs (last_will_interval last_will interval)) c) (session_last_will s)"]
      by (cases "session_last_will s") (auto simp: st keys_of_def disconnected_def s(2))
    show "will_pending (storage_send_last_will_timeout ?st) s'"
      if "Some (disconnected now c interval s) = Some s'" for s'
      using that by (cases "session_last_will s")
        (auto simp: st will_pending_def disconnected_def set_insert_key last_will_interval_def from_secs_mono)
  qed (auto simp: st inv(1,3) distinct_update set_insert_key)
qed

end
