(* ===== verification/Storage_Update.thy ===== *)
theory Storage_Update
  imports Storage_Lifecycle
begin

text \<open>
  \<open>update_sessions\<close>: the loops over the two timeout sets take exactly the keys that are due. The
  wills of the due keys are delivered in the order of their timeouts, after the due sessions are gone.
\<close>

subsection \<open>The wills that are due\<close>

abbreviation due :: "nat \<Rightarrow> timeouts \<Rightarrow> timeouts" where
  "due now ks \<equiv> takeWhile (\<lambda>k. key_timeout k < now) ks"

lemma key_le_timeout: "a \<le> b \<Longrightarrow> key_timeout a \<le> key_timeout b"
  by (auto simp: less_eq_TimeoutKey_def split: if_splits)

lemma set_due:
  assumes "sorted ks"
  shows "set (due now ks) = {k \<in> set ks. key_timeout k < now}"
  using assms by (induction ks) (auto dest!: key_le_timeout intro: le_less_trans)

definition will_of :: "Storage \<Rightarrow> TimeoutKey \<Rightarrow> (string \<times> LastWill) list" where
  "will_of st k = (case session_of st (key_client_id k) of
     None \<Rightarrow> []
   | Some s \<Rightarrow> (case session_last_will s of None \<Rightarrow> [] | Some last_will \<Rightarrow> [(key_client_id k, last_will)]))"

definition without_will :: "Session \<Rightarrow> Session" where
  "without_will s = s\<lparr>session_last_will := None\<rparr>"

text \<open>One turn of the loop.\<close>

definition take_will :: "TimeoutKey \<Rightarrow> Storage \<Rightarrow> Storage" where
  "take_will k st = modify_session (key_client_id k) without_will
     (st\<lparr>storage_send_last_will_timeout := tl (storage_send_last_will_timeout st)\<rparr>)"

lemma without_will_idem: "session_last_will s = None \<Longrightarrow> without_will s = s"
  by (simp add: without_will_def)

lemma modify_session_idem:
  assumes "\<And>s. session_of st c = Some s \<Longrightarrow> f s = s"
  shows "modify_session c f st = st"
proof -
  have "AList.update c s al = al" if "map_of al c = Some s" for s and al :: "(string \<times> Session) list"
    using that by (induction al) (auto split: if_splits)
  then show ?thesis using assms by (auto simp: modify_session_def split: option.splits)
qed

lemma take_last_wills_step:
  "take_last_wills now wills st =
     (case storage_send_last_will_timeout st of
        [] \<Rightarrow> (wills, st)
      | k # _ \<Rightarrow> if key_timeout k < now then take_last_wills now (wills @ will_of st k) (take_will k st)
          else (wills, st))"
proof (cases "storage_send_last_will_timeout st")
  case (Cons k ks)
  let ?st = "st\<lparr>storage_send_last_will_timeout := ks\<rparr>"
  show ?thesis
  proof (cases "key_timeout k < now")
    case True
    have idem: "modify_session (key_client_id k) without_will ?st = ?st"
      if "will_of st k = []"
      using that by (intro modify_session_idem) (auto simp: will_of_def without_will_def split: option.splits)
    show ?thesis
      using True idem
      by (subst take_last_wills.simps)
        (auto simp: Cons take_will_def will_of_def without_will_def [abs_def] Let_def split: option.splits)
  qed (simp add: take_last_wills.simps Cons)
qed (simp add: take_last_wills.simps)

lemma take_will_inv:
  assumes "Storage_inv st" "storage_send_last_will_timeout st = k # ks"
  shows "Storage_inv (take_will k st)"
proof (rule Storage_invI)
  note inv = Storage_invD [OF assms(1)]
  let ?st = "take_will k st"
  have W: "storage_send_last_will_timeout ?st = ks" and R: "storage_remove_timeout ?st = storage_remove_timeout st"
    and T: "storage_filter_tree ?st = storage_filter_tree st"
    and S: "session_of ?st c = map_option (if c = key_client_id k then without_will else id) (session_of st c)" for c
    by (simp_all add: take_will_def assms(2) option.map_id option.map_ident)
  have "session_keys ?st = session_keys st"
    by (auto simp: fun_eq_iff session_keys_of S keys_of_def without_will_def option.map_comp comp_def
        intro!: option.map_cong)
  then show "timeouts_match (session_keys ?st) (storage_send_last_will_timeout ?st) (storage_remove_timeout ?st)"
    using timeouts_match_will_taken inv(4) by (simp add: W R assms(2))
  show "will_pending (storage_send_last_will_timeout ?st) s" if s: "session_of ?st c = Some s" for c s
  proof (cases "c = key_client_id k")
    case True
    with s show ?thesis
      by (auto simp: S will_pending_def without_will_def split: option.splits)
  next
    case False
    then have "session_of st c = Some s" using s by (simp add: S option.map_id option.map_ident)
    from will_pending_other [OF assms(1) this False, of ks]
    show ?thesis by (auto simp: W assms(2))
  qed
  show "distinct (map fst (storage_sessions ?st))" using inv(3) by (simp add: take_will_def)
  show "Trie_inv (storage_filter_tree ?st)" using inv(1) by (simp add: T)
  show "Trie_lookup (storage_filter_tree ?st) f c = None" if "session_of ?st c = None" for f c
    using that inv(6) by (simp add: T S)
qed

lemma take_last_wills_spec:
  assumes "Storage_inv st" "take_last_wills now wills st = (wills', st')"
  defines "ks \<equiv> due now (storage_send_last_will_timeout st)"
  shows "Storage_inv st' \<and> wills' = wills @ concat (map (will_of st) ks) \<and>
    storage_send_last_will_timeout st' = dropWhile (\<lambda>k. key_timeout k < now) (storage_send_last_will_timeout st) \<and>
    (\<forall>c. session_of st' c = map_option (if c \<in> key_client_id ` set ks then without_will else id) (session_of st c)) \<and>
    storage_remove_timeout st' = storage_remove_timeout st \<and>
    storage_filter_tree st' = storage_filter_tree st \<and>
    storage_clients_expired st' = storage_clients_expired st"
proof -
  have "take_last_wills now wills st = (wills', st') \<Longrightarrow> Storage_inv st \<Longrightarrow>
    W = storage_send_last_will_timeout st \<Longrightarrow> Storage_inv st' \<and>
    wills' = wills @ concat (map (will_of st) (due now W)) \<and>
    storage_send_last_will_timeout st' = dropWhile (\<lambda>k. key_timeout k < now) W \<and>
    (\<forall>c. session_of st' c = map_option (if c \<in> key_client_id ` set (due now W) then without_will else id) (session_of st c)) \<and>
    storage_remove_timeout st' = storage_remove_timeout st \<and>
    storage_filter_tree st' = storage_filter_tree st \<and>
    storage_clients_expired st' = storage_clients_expired st" for W
  proof (induction W arbitrary: wills st)
    case Nil
    then show ?case
      by (subst (asm) take_last_wills_step) (auto simp: option.map_id option.map_ident)
  next
    case (Cons k W)
    have W: "storage_send_last_will_timeout st = k # W" using Cons.prems(3) by simp
    show ?case
    proof (cases "key_timeout k < now")
      case False
      then have "wills' = wills \<and> st' = st"
        using Cons.prems(1) by (subst (asm) take_last_wills_step) (simp add: W)
      with False Cons.prems(2) show ?thesis by (simp add: W option.map_id option.map_ident)
    next
      case True
      have step: "take_last_wills now (wills @ will_of st k) (take_will k st) = (wills', st')"
        using Cons.prems(1) True by (subst (asm) take_last_wills_step) (simp add: W)
      have fields: "storage_send_last_will_timeout (take_will k st) = W"
        "storage_remove_timeout (take_will k st) = storage_remove_timeout st"
        "storage_filter_tree (take_will k st) = storage_filter_tree st"
        "storage_clients_expired (take_will k st) = storage_clients_expired st"
        "session_of (take_will k st) c =
          map_option (if c = key_client_id k then without_will else id) (session_of st c)" for c
        by (simp_all add: take_will_def W option.map_id option.map_ident)
      note IH = Cons.IH [OF step take_will_inv [OF Cons.prems(2) W] fields(1) [symmetric], unfolded fields]
      have "key_client_id k' \<noteq> key_client_id k" if "k' \<in> set W" for k'
        using timeouts_match_clients(1) [OF Storage_invD(4) [OF Cons.prems(2)]]
          timeouts_matchD(2) [OF Storage_invD(4) [OF Cons.prems(2)]] that
        by (auto simp: W inj_on_def)
      then have "will_of (take_will k st) k' = will_of st k'" if "k' \<in> set (due now W)" for k'
        using that by (auto simp: will_of_def fields option.map_id dest: set_takeWhileD split: option.split)
      then have wills: "map (will_of (take_will k st)) (due now W) = map (will_of st) (due now W)"
        by simp
      have "session_of st' c = map_option (if c \<in> key_client_id ` set (k # due now W) then without_will else id)
          (session_of st c)" for c
        using IH by (auto simp: option.map_comp comp_def without_will_def option.map_id option.map_ident intro!: option.map_cong)
      then show ?thesis
        using IH True by (simp add: wills)
    qed
  qed
  from this [OF assms(2,1) refl] show ?thesis unfolding ks_def .
qed

subsection \<open>The sessions that are due\<close>

definition expire :: "TimeoutKey \<Rightarrow> Storage \<Rightarrow> Storage" where
  "expire k st = (remove_session (key_client_id k) st)\<lparr>storage_clients_expired := storage_clients_expired st + 1\<rparr>"

lemma expire_fields:
  assumes "Storage_inv st" "storage_remove_timeout st = k # ks"
  shows "storage_remove_timeout (remove_session (key_client_id k) st) = ks" "k \<notin> set ks"
    and "storage_clients_expired (expire k st) = storage_clients_expired st + 1"
    and "storage_filter_tree (expire k st) = Trie_unsubscribe_all (key_client_id k) (storage_filter_tree st)"
    and "session_of (expire k st) = (session_of st)(key_client_id k := None)"
    and "storage_remove_timeout (expire k st) = ks"
    and "set (storage_send_last_will_timeout (expire k st)) =
      {k' \<in> set (storage_send_last_will_timeout st). key_client_id k' \<noteq> key_client_id k}"
    and "session_of st (key_client_id k) \<noteq> None"
proof -
  note match = Storage_invD(4) [OF assms(1)]
  from timeouts_matchD(6) [OF match, of k] obtain s where
    s: "session_of st (key_client_id k) = Some s" "session_remove_timeout_key s = Some k"
    by (auto simp: assms(2) session_keys_def)
  then show "storage_remove_timeout (remove_session (key_client_id k) st) = ks"
    by (simp add: remove_session_remove_timeout assms(2) remove_key_def)
  then show "storage_remove_timeout (expire k st) = ks" by (simp add: expire_def)
  show "k \<notin> set ks" using timeouts_matchD(4) [OF match] by (simp add: assms(2))
  show "session_of st (key_client_id k) \<noteq> None" by (simp add: s)
  show "session_of (expire k st) = (session_of st)(key_client_id k := None)"
    by (simp add: expire_def remove_session_fields(1) fun_eq_iff)
  show "set (storage_send_last_will_timeout (expire k st)) =
      {k' \<in> set (storage_send_last_will_timeout st). key_client_id k' \<noteq> key_client_id k}"
    by (simp add: expire_def remove_session_keys(2) [OF assms(1), where v = None])
qed (simp_all add: expire_def remove_session_fields(2,4))

lemma expire_inv:
  assumes "Storage_inv st"
  shows "Storage_inv (expire k st)"
proof -
  have "Storage_inv (st'\<lparr>storage_clients_expired := n\<rparr>)" if "Storage_inv st'" for st' n
    using that by (simp add: Storage_inv_def timeouts_ok_def session_keys_def [abs_def])
  then show ?thesis by (simp add: expire_def remove_session_inv assms)
qed

lemma remove_expired_step:
  assumes "Storage_inv st"
  shows "remove_expired_sessions now st =
     (case storage_remove_timeout st of
        [] \<Rightarrow> st
      | k # _ \<Rightarrow> if key_timeout k < now then remove_expired_sessions now (expire k st) else st)"
proof (cases "storage_remove_timeout st")
  case (Cons k ks)
  note f = expire_fields [OF assms Cons]
  have "remove1 k ks = ks" using f(2) by (rule remove1_idem)
  then have "(remove_session (key_client_id k) st)\<lparr>storage_remove_timeout :=
        remove1 k (storage_remove_timeout (remove_session (key_client_id k) st)),
      storage_clients_expired := storage_clients_expired (remove_session (key_client_id k) st) + 1\<rparr> = expire k st"
    using f(1) by (simp add: expire_def remove_session_fields)
  then show ?thesis
    by (subst remove_expired_sessions.simps) (simp add: Cons Let_def)
qed (simp add: remove_expired_sessions.simps)

lemma remove_expired_spec:
  assumes "Storage_inv st"
    and ks: "ks = due now (storage_remove_timeout st)" and st': "st' = remove_expired_sessions now st"
  shows "Storage_inv st' \<and>
    storage_remove_timeout st' = dropWhile (\<lambda>k. key_timeout k < now) (storage_remove_timeout st) \<and>
    set (storage_send_last_will_timeout st') =
      {k \<in> set (storage_send_last_will_timeout st). key_client_id k \<notin> key_client_id ` set ks} \<and>
    (\<forall>c. session_of st' c = (if c \<in> key_client_id ` set ks then None else session_of st c)) \<and>
    (\<forall>f c. Trie_lookup (storage_filter_tree st') f c =
      (if c \<in> key_client_id ` set ks then None else Trie_lookup (storage_filter_tree st) f c)) \<and>
    Trie_retained (storage_filter_tree st') = Trie_retained (storage_filter_tree st) \<and>
    storage_clients_expired st' = storage_clients_expired st + word_of_nat (length ks)"
proof -
  have "Storage_inv st \<Longrightarrow> R = storage_remove_timeout st \<Longrightarrow> st' = remove_expired_sessions now st \<Longrightarrow>
    Storage_inv st' \<and>
    storage_remove_timeout st' = dropWhile (\<lambda>k. key_timeout k < now) R \<and>
    set (storage_send_last_will_timeout st') =
      {k \<in> set (storage_send_last_will_timeout st). key_client_id k \<notin> key_client_id ` set (due now R)} \<and>
    (\<forall>c. session_of st' c = (if c \<in> key_client_id ` set (due now R) then None else session_of st c)) \<and>
    (\<forall>f c. Trie_lookup (storage_filter_tree st') f c =
      (if c \<in> key_client_id ` set (due now R) then None else Trie_lookup (storage_filter_tree st) f c)) \<and>
    Trie_retained (storage_filter_tree st') = Trie_retained (storage_filter_tree st) \<and>
    storage_clients_expired st' = storage_clients_expired st + word_of_nat (length (due now R))" for R st'
  proof (induction R arbitrary: st)
    case Nil
    then show ?case by (simp add: remove_expired_step)
  next
    case (Cons k R)
    have R: "storage_remove_timeout st = k # R" using Cons.prems(2) by simp
    show ?case
    proof (cases "key_timeout k < now")
      case False
      with Cons.prems(1,3) show ?thesis by (simp add: remove_expired_step R)
    next
      case True
      note f = expire_fields [OF Cons.prems(1) R]
      have step: "st' = remove_expired_sessions now (expire k st)"
        using Cons.prems(3) True by (simp add: remove_expired_step [OF Cons.prems(1)] R)
      note IH = Cons.IH [OF expire_inv [OF Cons.prems(1)] f(6) [symmetric] step, unfolded f(3-7)]
      note all = Trie_unsubscribe_all_spec [OF Storage_invD(1) [OF Cons.prems(1)]]
      show ?thesis
        using IH True all by auto
    qed
  qed
  from this [OF assms(1) refl st'] show ?thesis unfolding ks .
qed

text \<open>A session that expires has had its will published, if not before.\<close>

lemma expired_will_due:
  assumes "Storage_inv st" "k \<in> set (due now (storage_remove_timeout st))"
    "session_of st (key_client_id k) = Some s" "session_last_will s = Some last_will"
  shows "(key_client_id k, last_will) \<in>
    set (concat (map (will_of st) (due now (storage_send_last_will_timeout st))))"
proof -
  note inv = Storage_invD [OF assms(1)] and D = timeouts_matchD [OF Storage_invD(4) [OF assms(1)]]
  have k: "k \<in> set (storage_remove_timeout st)" "key_timeout k < now"
    using assms(2) set_due [OF D(3)] by auto
  then have r: "session_remove_timeout_key s = Some k"
    using D(6) [of k] assms(3) by (auto simp: session_keys_def)
  have "will_pending (storage_send_last_will_timeout st) s" by (rule inv(5)) fact
  then obtain w where w: "session_last_will_timeout_key s = Some w"
      "w \<in> set (storage_send_last_will_timeout st)" "key_timeout w \<le> key_timeout k"
    using r assms(4) by (auto simp: will_pending_def split: option.splits)
  have "key_client_id w = key_client_id k"
    using D(10) [of "key_client_id k" w] assms(3) w(1) by (simp add: session_keys_def)
  then have "(key_client_id k, last_will) \<in> set (will_of st w)"
    by (simp add: will_of_def assms(3,4))
  moreover have "w \<in> set (due now (storage_send_last_will_timeout st))"
    using w k(2) set_due [OF D(1)] by simp
  ultimately show ?thesis by auto
qed

subsection \<open>The whole operation\<close>

lemma update_sessions_eq:
  "Storage_update_sessions time now pick st =
     (let (wills, st1) = take_last_wills now [] st
      in Storage_deliver time pick (map (\<lambda>(c, last_will). Message_from_last_will time last_will) wills)
        (remove_expired_sessions now st1))"
  by (simp add: Storage_update_sessions_def case_prod_unfold Let_def)

lemma update_sessions_inv:
  assumes "Storage_inv st"
  shows "Storage_inv (Storage_update_sessions time now pick st)"
proof -
  obtain wills st1 where t: "take_last_wills now [] st = (wills, st1)" by force
  have "Storage_inv st1" using take_last_wills_spec [OF assms t] by simp
  then show ?thesis
    using remove_expired_spec [OF _ refl refl] by (simp add: update_sessions_eq t deliver_inv)
qed

end
