(* ===== verification/Service_Theorems.thy ===== *)
theory Service_Theorems
  imports Trie_Matching Filter_Util Message
begin

text \<open>
  The correctness properties of the subscription tree, of topic filters and of messages
  (\<open>libs/service\<close>), with the witnesses of those that have hypotheses.
\<close>

subsection \<open>Samples\<close>

definition sample_item :: FilterItem where
  "sample_item = \<lparr>item_qos = AtLeastOnce, item_no_local = False, item_retain_as_published = False,
     item_retain_handling = OnEverySubscribe, item_id = None\<rparr>"

definition sample_message :: "nat \<Rightarrow> Message" where
  "sample_message n = Message_new 0 ''a/b'' AtMostOnce (replicate n 0)"

definition plain :: "string \<Rightarrow> Filter" where
  "plain p = \<lparr>share_name = None, path = p\<rparr>"

definition shared :: "string \<Rightarrow> string \<Rightarrow> Filter" where
  "shared name p = \<lparr>share_name = Some name, path = p\<rparr>"

text \<open>One client with a plain subscription, one in a share group.\<close>

definition sample_commands :: "(Filter, string, FilterItem) command list" where
  "sample_commands = [SubscribeCmd (plain ''a/+'') ''c1'' sample_item,
     SubscribeCmd (shared ''g'' ''a/#'') ''c2'' sample_item]"

definition sample_trie :: Trie where
  "sample_trie = fold trie.apply_command sample_commands Trie_default"

lemma sample_trie_inv: "Trie_inv sample_trie"
  unfolding sample_trie_def by (rule trie.commands_inv [OF Trie_inv_default])

lemma sample_trie_lookup:
  "Trie_lookup sample_trie = (\<lambda>f c.
     if f = plain ''a/+'' \<and> c = ''c1'' \<or> f = shared ''g'' ''a/#'' \<and> c = ''c2'' then Some sample_item else None)"
  unfolding sample_trie_def trie.commands_refine [OF Trie_inv_default] Trie_lookup_default
  by (auto simp: fun_eq_iff sample_commands_def)

subsection \<open>Subscriptions\<close>

text \<open>C4: after any sequence of subscribe, unsubscribe and unsubscribe-all operations on a new
  \<open>Trie\<close>, the tree represents the map that the same operations make of the empty map, it is well
  formed (no empty node is left behind), and the subscription counter is the number of
  subscriptions modulo \<open>2 ^ 64\<close>.\<close>

theorem trie_refines_map:
  "Trie_inv (fold trie.apply_command cmds Trie_default) \<and>
   Trie_lookup (fold trie.apply_command cmds Trie_default) = fold map_command cmds (\<lambda>_ _. None) \<and>
   trie_subscribers_count (fold trie.apply_command cmds Trie_default) =
     word_of_nat (Trie_subscriptions (fold trie.apply_command cmds Trie_default))"
  using trie.commands_inv [OF Trie_inv_default, of cmds]
    trie.commands_refine [OF Trie_inv_default, of cmds]
  by (simp add: Trie_inv_def Trie_lookup_default)

text \<open>\<open>subscribe\<close> returns the options that the client had for exactly this filter, replaces
  them, and changes no other subscription and no retained message.\<close>

theorem subscribe_replaces:
  assumes "Trie_inv t" "Trie_subscribe f client_id item t = (res, t')"
  shows "res = Trie_lookup t f client_id \<and> Trie_inv t' \<and> Trie_retained t' = Trie_retained t \<and>
    Trie_lookup t' f' c' = (if f' = f \<and> c' = client_id then Some item else Trie_lookup t f' c')"
  using Trie_subscribe_spec [OF assms] by simp

lemma subscribe_replaces_witness:
  "fst (Trie_subscribe (plain ''a/+'') ''c1'' sample_item sample_trie) = Some sample_item"
  using subscribe_replaces [OF sample_trie_inv, of "plain ''a/+''" "''c1''" sample_item
      "fst (Trie_subscribe (plain ''a/+'') ''c1'' sample_item sample_trie)"
      "snd (Trie_subscribe (plain ''a/+'') ''c1'' sample_item sample_trie)"]
  by (simp add: sample_trie_lookup)

text \<open>\<open>unsubscribe\<close> returns the options the client had for exactly this filter, removes them
  and changes nothing else.\<close>

theorem unsubscribe_removes:
  assumes "Trie_inv t" "Trie_unsubscribe f client_id t = (res, t')"
  shows "res = Trie_lookup t f client_id \<and> Trie_inv t' \<and> Trie_retained t' = Trie_retained t \<and>
    Trie_lookup t' f' c' = (if f' = f \<and> c' = client_id then None else Trie_lookup t f' c')"
  using Trie_unsubscribe_spec [OF assms] by simp

lemma unsubscribe_removes_witness:
  "fst (Trie_unsubscribe (shared ''g'' ''a/#'') ''c2'' sample_trie) = Some sample_item"
  using unsubscribe_removes [OF sample_trie_inv, of "shared ''g'' ''a/#''" "''c2''"
      "fst (Trie_unsubscribe (shared ''g'' ''a/#'') ''c2'' sample_trie)"
      "snd (Trie_unsubscribe (shared ''g'' ''a/#'') ''c2'' sample_trie)"]
  by (simp add: sample_trie_lookup)

text \<open>C29: \<open>unsubscribe_all\<close> removes the client's subscriptions from the tree and from every share
  group, decreases the counter by their number, and keeps those of the other clients and the
  retained messages.\<close>

theorem unsubscribe_all_removes:
  assumes "Trie_inv t"
  shows "Trie_inv (Trie_unsubscribe_all client_id t) \<and>
    Trie_lookup (Trie_unsubscribe_all client_id t) f c = (if c = client_id then None else Trie_lookup t f c) \<and>
    Trie_subscriptions (Trie_unsubscribe_all client_id t) + Trie_subscriptions_of client_id t
      = Trie_subscriptions t \<and>
    Trie_retained (Trie_unsubscribe_all client_id t) = Trie_retained t"
  using Trie_unsubscribe_all_spec [OF assms, of client_id f c] by simp

lemma unsubscribe_all_removes_witness:
  "Trie_lookup sample_trie (plain ''a/+'') ''c1'' = Some sample_item \<and>
   Trie_lookup (Trie_unsubscribe_all ''c1'' sample_trie) (plain ''a/+'') ''c1'' = None \<and>
   Trie_lookup (Trie_unsubscribe_all ''c1'' sample_trie) (shared ''g'' ''a/#'') ''c2'' = Some sample_item"
  using unsubscribe_all_removes [OF sample_trie_inv, of "''c1''" "plain ''a/+''" "''c1''"]
    unsubscribe_all_removes [OF sample_trie_inv, of "''c1''" "shared ''g'' ''a/#''" "''c2''"]
  by (simp add: sample_trie_lookup)

text \<open>C12: \<open>matches\<close> gives each client its plain subscriptions whose filter matches the topic: one
  item for each, none missing, and no entry for a client without one. (\<open>enumerates g xs\<close>: \<open>xs\<close>
  lists the values of the partial map \<open>g\<close>, once for each key.)\<close>

theorem matches_exact:
  assumes "Trie_inv t"
  shows "groups_ok (Trie_matches topic t) \<and>
    enumerates (\<lambda>flt. if topic_matches flt topic
        then Trie_lookup t \<lparr>share_name = None, path = flt\<rparr> client_id else None)
      (items_of client_id (Trie_matches topic t))"
  using assms by (rule Trie_matches_enumerates)

lemma enumerates_one: "enumerates g xs \<Longrightarrow> g = (\<lambda>p. if p = a then Some x else None) \<Longrightarrow> xs = [x]"
proof -
  assume "enumerates g xs" "g = (\<lambda>p. if p = a then Some x else None)"
  then obtain ps where ps: "distinct ps" "set ps = {a}" "xs = map (\<lambda>p. the (if p = a then Some x else None)) ps"
    by (auto simp: enumerates_def split: if_splits)
  then have "length ps = 1" using distinct_card [of ps] by simp
  with ps show ?thesis by (cases ps) auto
qed

lemma matches_exact_witness:
  "items_of ''c1'' (Trie_matches ''a/b'' sample_trie) = [sample_item]"
proof -
  have "topic_matches ''a/+'' ''a/b''" by (simp add: topic_matches_def)
  then have "(\<lambda>flt. if topic_matches flt ''a/b''
      then Trie_lookup sample_trie \<lparr>share_name = None, path = flt\<rparr> ''c1'' else None)
    = (\<lambda>flt. if flt = ''a/+'' then Some sample_item else None)"
    by (auto simp: fun_eq_iff sample_trie_lookup plain_def shared_def)
  then show ?thesis
    by (rule enumerates_one [OF conjunct2 [OF matches_exact [OF sample_trie_inv]]])
qed

text \<open>C18: \<open>matches_shared\<close> gives the message to one client of each share group that has a matching
  subscription, with that client's matching options, and to nobody else, whatever index the random
  generator draws below the number of candidates.\<close>

theorem matches_shared_one_per_group:
  assumes "Trie_inv t" "\<And>name k. 0 < k \<Longrightarrow> pick name k < k"
  shows "distinct (map fst (share_choices pick topic t)) \<and>
    items_of client_id (Trie_matches_shared pick topic t) =
      concat (map (\<lambda>(name, k, items). if k = client_id then items else []) (share_choices pick topic t)) \<and>
    ((\<exists>k items. (name, k, items) \<in> set (share_choices pick topic t)) \<longleftrightarrow>
      (\<exists>c flt. group_matches t topic name c flt \<noteq> None)) \<and>
    ((name, k, items) \<in> set (share_choices pick topic t) \<longrightarrow>
      items \<noteq> [] \<and> enumerates (group_matches t topic name k) items)"
proof (intro conjI impI)
  show "distinct (map fst (share_choices pick topic t))"
    by (rule share_choices_distinct [OF assms(1)])
  show "(\<exists>k items. (name, k, items) \<in> set (share_choices pick topic t)) \<longleftrightarrow>
      (\<exists>c flt. group_matches t topic name c flt \<noteq> None)"
    by (rule share_choices_spec(1) [OF assms(1)]) (erule assms(2))
  assume chosen: "(name, k, items) \<in> set (share_choices pick topic t)"
  have "items \<noteq> [] \<and> enumerates (group_matches t topic name k) items"
    by (rule share_choices_spec(2) [OF assms(1) _ chosen]) (erule assms(2))
  then show "items \<noteq> []" "enumerates (group_matches t topic name k) items" by simp_all
qed (rule Trie_matches_shared_items)

lemma matches_shared_one_per_group_witness:
  "\<exists>k items. (''g'', k, items) \<in> set (share_choices (\<lambda>name k. k - 1) ''a/b'' sample_trie)"
proof -
  have "topic_matches ''a/#'' ''a/b''" by (simp add: topic_matches_def)
  then have "group_matches sample_trie ''a/b'' ''g'' ''c2'' ''a/#'' \<noteq> None"
    by (simp add: group_matches_def sample_trie_lookup shared_def)
  moreover have "(\<exists>k items. (''g'', k, items) \<in> set (share_choices (\<lambda>name k. k - 1) ''a/b'' sample_trie)) \<longleftrightarrow>
      (\<exists>c flt. group_matches sample_trie ''a/b'' ''g'' c flt \<noteq> None)"
    using matches_shared_one_per_group [OF sample_trie_inv, where pick = "\<lambda>name k. k - 1"
        and topic = "''a/b''" and name = "''g''"] by simp
  ultimately show ?thesis by blast
qed

text \<open>Unsubscribing from a share group that does not exist creates it: the group's empty tree
  stays in \<open>share_subscriptions\<close>, and no operation removes an entry from there.\<close>

theorem unsubscribe_creates_group:
  "Trie_unsubscribe \<lparr>share_name = Some name, path = p\<rparr> client_id Trie_default =
     (None, Trie_default\<lparr>trie_share_subscriptions := [(name, Node_default)]\<rparr>) \<and>
   map fst (trie_share_subscriptions (Trie_unsubscribe_all c t)) = map fst (trie_share_subscriptions t) \<and>
   fst ` set (trie_share_subscriptions t) \<subseteq> fst ` set (trie_share_subscriptions (snd (Trie_unsubscribe f c t)))"
proof -
  obtain s ss where s: "split CHR ''/'' p = s # ss"
    using split_not_Nil by (meson neq_Nil_conv)
  have "map fst (trie_share_subscriptions (Trie_unsubscribe_all c t)) = map fst (trie_share_subscriptions t)"
    by (simp add: Trie_unsubscribe_all_eq comp_def case_prod_unfold)
  moreover have "fst ` set (trie_share_subscriptions t) \<subseteq> fst ` set (trie_share_subscriptions (snd (Trie_unsubscribe f c t)))"
  proof -
    have "fst ` set al \<subseteq> fst ` set (AList.update k n al)" for k n and al :: "(string \<times> Node) list"
      by (simp add: dom_update subset_insertI)
    then show ?thesis
      by (cases "share_name f") (simp_all add: Trie_unsubscribe_def Let_def case_prod_unfold)
  qed
  ultimately show ?thesis
    by (simp add: Trie_unsubscribe_def share_or_default_def s Trie_default_def)
qed

subsection \<open>Retained messages\<close>

text \<open>C30: \<open>set_retained_message\<close> on a topic name without wildcards returns the topic's previous
  message, stores or clears it, and changes no other retained message and no subscription; the
  counter of retained messages stays exact.\<close>

theorem set_retained_replaces:
  assumes "Trie_inv t" "valid_topic topic" "Trie_set_retained_message topic msg t = (res, t')"
  shows "res = Trie_retained t topic \<and> Trie_inv t' \<and> Trie_lookup t' = Trie_lookup t \<and>
    Trie_retained t' = (Trie_retained t)(topic := msg) \<and>
    trie_retained_messages_count t' = word_of_nat (retained_messages (trie_root t'))"
  using Trie_set_retained_spec [OF assms(1) valid_topic_split [OF assms(2)] assms(3)]
  by (simp add: Trie_inv_def)

lemma set_retained_replaces_witness:
  "Trie_retained (snd (Trie_set_retained_message ''a/b'' (Some (sample_message 3)) sample_trie)) ''a/b''
     = Some (sample_message 3)"
proof -
  have "valid_topic ''a/b''" by (simp add: valid_topic_def contains_wildcard_def)
  then show ?thesis
    using set_retained_replaces [OF sample_trie_inv _ surjective_pairing, of "''a/b''" "Some (sample_message 3)"]
    by simp
qed

text \<open>C31: \<open>matches_retained_messages\<close> lists each retained message whose topic the filter matches,
  once.\<close>

theorem retained_matches_exact:
  assumes "Trie_inv t"
  shows "enumerates (\<lambda>topic. if retained_topic_matches flt topic then Trie_retained t topic else None)
    (Trie_matches_retained_messages flt t)"
  using assms by (rule Trie_matches_retained_enumerates)

lemma retained_matches_exact_witness:
  "Trie_matches_retained_messages ''a/#''
     (snd (Trie_set_retained_message ''a/b'' (Some (sample_message 3)) Trie_default)) = [sample_message 3]"
proof -
  define t where "t = snd (Trie_set_retained_message ''a/b'' (Some (sample_message 3)) Trie_default)"
  have "topic_segments (split CHR ''/'' ''a/b'')" by simp
  from Trie_set_retained_spec [OF Trie_inv_default this surjective_pairing, of "Some (sample_message 3)"]
  have t: "Trie_inv t" "Trie_retained t = (\<lambda>topic. if topic = ''a/b'' then Some (sample_message 3) else None)"
    by (auto simp: t_def fun_eq_iff Trie_retained_def Trie_default_def)
  moreover have "retained_topic_matches ''a/#'' ''a/b''" by (simp add: retained_topic_matches_def)
  ultimately have "(\<lambda>topic. if retained_topic_matches ''a/#'' topic then Trie_retained t topic else None)
      = (\<lambda>topic. if topic = ''a/b'' then Some (sample_message 3) else None)"
    by (auto simp: fun_eq_iff)
  then show ?thesis
    unfolding t_def [symmetric] by (rule enumerates_one [OF retained_matches_exact [OF t(1)]])
qed

lemma sample_message_simps: "length (message_payload (sample_message n)) = n"
  by (simp add: sample_message_def Message_new_def)

lemma Trie_default_bytes: "trie_retained_messages_bytes Trie_default = 0"
  by (simp add: Trie_default_def)

text \<open>Replacing a retained message does not update the byte counter, but deleting subtracts
  the size of the message that is then there: storing \<open>m1\<close>, then \<open>m2\<close>, then clearing the topic
  leaves the counter off by the difference of the sizes (and below zero, that is wrapped, when
  \<open>m2\<close> is the larger).\<close>

theorem retained_bytes_drift:
  assumes "Trie_inv t" "valid_topic topic" "Trie_retained t topic = None"
    and "t1 = snd (Trie_set_retained_message topic (Some m1) t)"
    and "t2 = snd (Trie_set_retained_message topic (Some m2) t1)"
    and "t3 = snd (Trie_set_retained_message topic None t2)"
  shows "Trie_retained t3 = Trie_retained t \<and>
    trie_retained_messages_count t3 = trie_retained_messages_count t \<and>
    trie_retained_messages_bytes t3 = trie_retained_messages_bytes t
      + word_of_nat (length (message_payload m1)) - word_of_nat (length (message_payload m2))"
proof -
  note seg = valid_topic_split [OF assms(2)]
  have step: "Trie_inv (snd (Trie_set_retained_message topic m u)) \<and>
      Trie_retained (snd (Trie_set_retained_message topic m u)) = (Trie_retained u)(topic := m) \<and>
      trie_retained_messages_count (snd (Trie_set_retained_message topic m u)) = trie_retained_messages_count u
        + (if m = None then 0 else 1) - (if Trie_retained u topic = None then 0 else 1) \<and>
      trie_retained_messages_bytes (snd (Trie_set_retained_message topic m u)) = trie_retained_messages_bytes u
        + (case (Trie_retained u topic, m) of (None, Some m) \<Rightarrow> word_of_nat (length (message_payload m))
           | (Some m, None) \<Rightarrow> - word_of_nat (length (message_payload m)) | _ \<Rightarrow> 0)"
    if "Trie_inv u" for u m
  proof -
    obtain r n where s: "internal_set_retained_message (split CHR ''/'' topic) (trie_root u) m = (r, n)"
      by force
    show ?thesis
      using Trie_set_retained_spec [OF that seg surjective_pairing, of m] Trie_set_retained_fields [OF s] by simp
  qed
  show ?thesis
    using step [OF assms(1), of "Some m1"] step [of t1 "Some m2"] step [of t2 None] assms(3)
    by (simp add: assms(4-6) fun_eq_iff)
qed

lemma retained_bytes_drift_witness:
  "trie_retained_messages_bytes
     (snd (Trie_set_retained_message ''a/b'' None
     (snd (Trie_set_retained_message ''a/b'' (Some (sample_message 2))
     (snd (Trie_set_retained_message ''a/b'' (Some (sample_message 1)) Trie_default)))))) = - 1"
proof -
  have "valid_topic ''a/b''" by (simp add: valid_topic_def contains_wildcard_def)
  moreover have "Trie_retained Trie_default ''a/b'' = None"
    by (simp add: Trie_retained_def Trie_default_def)
  ultimately show ?thesis
    using retained_bytes_drift [OF Trie_inv_default _ _ refl refl refl,
        where topic = "''a/b''" and ?m1.0 = "sample_message 1" and ?m2.0 = "sample_message 2"]
    by (simp add: sample_message_simps Trie_default_bytes)
qed

subsection \<open>Topic filters\<close>

text \<open>A subscription to \<open>t/#\<close> receives the message retained at \<open>t\<close> but not the messages
  published to \<open>t\<close>, although the standard lets the multi-level wildcard match the parent level.\<close>

theorem hash_parent_level:
  "\<not> contains_wildcard topic \<longrightarrow>
    \<not> topic_matches (topic @ ''/#'') topic \<and> retained_topic_matches (topic @ ''/#'') topic"
proof
  assume w: "\<not> contains_wildcard topic"
  have app: "split CHR ''/'' (s @ CHR ''/'' # s') = split CHR ''/'' s @ split CHR ''/'' s'" for s s'
    by (induction s) (auto split: list.splits)
  have free: "''#'' \<notin> set (split CHR ''/'' topic)"
    using w set_split [of "''#''" "CHR ''/''" topic] by (auto simp: contains_wildcard_iff)
  have "\<not> filter_matches (ss @ [''#'']) ss" if "''#'' \<notin> set ss" for ss
    using that by (induction ss) auto
  moreover have "ss = [] \<or> retained_matches (ss @ [''#'']) ss" for ss
    by (induction ss) auto
  note this [of "split CHR ''/'' topic"]
  ultimately show "\<not> topic_matches (topic @ ''/#'') topic \<and> retained_topic_matches (topic @ ''/#'') topic"
    using free app [of topic "''#''"] split_not_Nil [of "CHR ''/''" topic]
    by (simp add: topic_matches_def retained_topic_matches_def)
qed

lemma hash_parent_level_witness:
  "\<not> topic_matches ''a/#'' ''a'' \<and> retained_topic_matches ''a/#'' ''a''"
  using hash_parent_level [of "''a''"] by (simp add: contains_wildcard_def)

text \<open>C40: \<open>parse_filter\<close> accepts exactly the valid filters that do not start with \<open>$share\<close> and the
  strings \<open>$share/name/filter\<close> with a valid filter and a name without wildcards, and splits the
  latter at the right places.\<close>

theorem parse_filter_exact:
  "parse_filter s = Some f \<longleftrightarrow>
     path f \<noteq> [] \<and> list_all valid_segment (split CHR ''/'' (path f)) \<and>
     (case share_name f of
        None \<Rightarrow> s = path f \<and> strip_prefix ''$share'' s = None
      | Some n \<Rightarrow> s = ''$share/'' @ n @ ''/'' @ path f \<and> \<not> contains_wildcard n \<and> CHR ''/'' \<notin> set n)"
  unfolding parse_filter_Some valid_filter_iff by blast

text \<open>\<open>valid_filter\<close> accepts a filter exactly if every segment is a wildcard or has none; the
  position of the multi-level wildcard is not checked.\<close>

theorem valid_filter_exact:
  "(valid_filter flt \<longleftrightarrow> flt \<noteq> [] \<and> list_all valid_segment (split CHR ''/'' flt)) \<and> valid_filter ''a/#/b''"
proof -
  have "valid_filter ''a/#/b''"
    by (simp add: valid_filter_def contains_wildcard_def)
  then show ?thesis by (simp add: valid_filter_iff)
qed

subsection \<open>Message expiry\<close>

text \<open>A message is sent with the rest of its expiry interval, in whole seconds and never more
  than it had; it is dropped only when the interval has passed. At the very instant of its expiry
  \<open>is_expired\<close> already drops it, while this function still sends it with an interval of zero.\<close>

theorem expiry_interval_updated:
  assumes "message_created_at msg \<le> now"
    and "pubprop_message_expiry_interval (message_properties msg) = Some interval"
  shows "case Message_to_publish_and_update_expiry_interval now msg of
      None \<Rightarrow> Message_is_expired now msg \<and> now \<noteq> message_created_at msg + from_secs interval
    | Some publish \<Rightarrow>
        (Message_is_expired now msg \<longleftrightarrow> now = message_created_at msg + from_secs interval) \<and>
        (\<exists>left. pubprop_message_expiry_interval (publish_properties publish) = Some left \<and>
          unat left = as_secs (message_created_at msg + from_secs interval - now) \<and> left \<le> interval)"
proof (cases "Message_to_publish_and_update_expiry_interval now msg")
  case None
  then show ?thesis
    using Message_update_expiry(1) [OF assms] assms(2) by (simp add: Message_is_expired_def)
next
  case (Some publish)
  then show ?thesis
    using Message_update_expiry [OF assms] assms(2) by (auto simp: Message_is_expired_def)
qed

lemma expiry_interval_updated_witness:
  "case Message_to_publish_and_update_expiry_interval (10 ^ 9)
      (sample_message 1\<lparr>message_properties := PublishProperties_default
        \<lparr>pubprop_message_expiry_interval := Some 60\<rparr>\<rparr>) of
    None \<Rightarrow> False
  | Some publish \<Rightarrow> \<exists>left. pubprop_message_expiry_interval (publish_properties publish) = Some left \<and> unat left = 59"
  using expiry_interval_updated [of "sample_message 1\<lparr>message_properties := PublishProperties_default
        \<lparr>pubprop_message_expiry_interval := Some 60\<rparr>\<rparr>" "10 ^ 9" 60]
  by (auto simp: sample_message_def Message_new_def Message_is_expired_def from_secs_def as_secs_def
      split: option.splits)

end
