(* ===== verification/Storage_Theorems.thy ===== *)
theory Storage_Theorems
  imports Storage_Update Service_Theorems
begin

text \<open>
  The correctness properties of the storage (\<open>libs/service/src/storage.rs\<close>): what delivery and
  subscribing add to the queues, the invariant of the sessions over every sequence of operations,
  and when sessions expire and wills are published.
\<close>

subsection \<open>What a session receives\<close>

lemma enumerates_filtered:
  assumes "enumerates g xs"
  shows "enumerates (\<lambda>p. Option.bind (g p) (\<lambda>x. if P x then Some x else None)) (filter P xs)"
proof -
  obtain ps where ps: "distinct ps" "set ps = {p. g p \<noteq> None}" "xs = map (\<lambda>p. the (g p)) ps"
    using assms by (auto simp: enumerates_def)
  let ?h = "\<lambda>p. Option.bind (g p) (\<lambda>x. if P x then Some x else None)"
  have "set (filter (\<lambda>p. P (the (g p))) ps) = {p. ?h p \<noteq> None}"
    using ps(2) by (auto split: bind_splits if_splits)
  moreover have "filter P xs = map (\<lambda>p. the (?h p)) (filter (\<lambda>p. P (the (g p))) ps)"
    unfolding ps(3) filter_map comp_def using ps(2)
    by (intro map_cong) (auto split: bind_splits if_splits)
  ultimately show ?thesis
    unfolding enumerates_def using ps(1) distinct_filter by blast
qed

text \<open>The subscription of a client through which a message reaches it, for each filter.\<close>

definition receiving :: "Message \<Rightarrow> string \<Rightarrow> Storage \<Rightarrow> string \<Rightarrow> FilterItem option" where
  "receiving msg c st flt = Option.bind
     (if topic_matches flt (message_topic msg)
      then Trie_lookup (storage_filter_tree st) \<lparr>share_name = None, path = flt\<rparr> c else None)
     (\<lambda>item. if may_receive msg c item then Some item else None)"

lemma plain_copies_receiving:
  assumes "Trie_inv (storage_filter_tree st)"
  shows "\<exists>items. enumerates (receiving msg c st) items \<and>
    plain_copies now msg c (storage_filter_tree st) = (if items = [] then [] else [message_copy now msg items])"
  unfolding plain_copies_def Let_def receiving_def [abs_def]
  using enumerates_filtered [OF conjunct2 [OF Trie_matches_enumerates [OF assms]]] by blast

lemma shared_copies_choices:
  "shared_copies now pick msg c tree =
     (let items = concat (map (\<lambda>(name, k, items). if k = c then items else [])
        (share_choices pick (message_topic msg) tree))
      in if items = [] then [] else [message_copy now msg items])"
  by (simp add: shared_copies_def Trie_matches_shared_items)

definition retained_receiving :: "system_time \<Rightarrow> string \<Rightarrow> string \<Rightarrow> FilterItem \<Rightarrow> Trie \<Rightarrow> string \<Rightarrow> Message option" where
  "retained_receiving now c flt item tree topic = Option.bind
     (if retained_topic_matches flt topic then Trie_retained tree topic else None)
     (\<lambda>msg. if \<not> Message_is_expired now msg \<and> may_receive msg c item then Some msg else None)"

text \<open>Does a subscription get the retained messages? \<open>known\<close>: it replaces one to the same filter.\<close>

definition wants_retained :: "Filter \<Rightarrow> FilterItem \<Rightarrow> bool \<Rightarrow> bool" where
  "wants_retained f item known \<longleftrightarrow> share_name f = None \<and>
     (item_retain_handling item = OnEverySubscribe \<or> item_retain_handling item = OnNewSubscribe \<and> \<not> known)"

lemma subscribe_fold:
  "session_of (fold (\<lambda>msg st. if Message_is_expired now msg then st
        else if item_no_local item \<and> message_from_client_id msg = Some c then st
        else modify_session c (Session_add_message now msg [item]) st) msgs st) c'
   = map_option (if c' = c then queue_messages (map (\<lambda>msg. message_copy now msg [item])
        (filter (\<lambda>msg. \<not> Message_is_expired now msg \<and> may_receive msg c item) msgs)) else id) (session_of st c')"
  by (induction msgs arbitrary: st)
    (auto simp: option.map_comp comp_def option.map_ident option.map_id Session_add_message_queue may_receive_def)

lemma subscribe_session:
  assumes "Trie_subscribe f c item (storage_filter_tree st) = (res, tree)"
  shows "session_of (Storage_subscribe now c f item st) c' =
      map_option (if c' = c \<and> wants_retained f item (res \<noteq> None) then
        queue_messages (map (\<lambda>msg. message_copy now msg [item])
          (filter (\<lambda>msg. \<not> Message_is_expired now msg \<and> may_receive msg c item)
            (Trie_matches_retained_messages (path f) tree))) else id) (session_of st c')"
    and "storage_filter_tree (Storage_subscribe now c f item st) = tree"
proof -
  have frame: "same_frame st (fold (\<lambda>msg st. if P msg then st else if Q msg then st
      else modify_session c (Session_add_message now msg [item]) st) msgs st)" for P Q msgs st
    by (rule same_frame_fold) simp
  show "session_of (Storage_subscribe now c f item st) c' =
      map_option (if c' = c \<and> wants_retained f item (res \<noteq> None) then
        queue_messages (map (\<lambda>msg. message_copy now msg [item])
          (filter (\<lambda>msg. \<not> Message_is_expired now msg \<and> may_receive msg c item)
            (Trie_matches_retained_messages (path f) tree))) else id) (session_of st c')"
    by (cases "item_retain_handling item")
      (auto simp: Storage_subscribe_def assms Let_def subscribe_fold wants_retained_def option.map_id)
  show "storage_filter_tree (Storage_subscribe now c f item st) = tree"
    by (auto simp: Storage_subscribe_def assms Let_def same_frameD(1) [OF frame])
qed

subsection \<open>The sessions that are due\<close>

definition expires :: "nat \<Rightarrow> Storage \<Rightarrow> string \<Rightarrow> bool" where
  "expires now st c \<longleftrightarrow> (\<exists>s k. session_of st c = Some s \<and>
     session_remove_timeout_key s = Some k \<and> key_timeout k < now)"

definition due_will :: "nat \<Rightarrow> Storage \<Rightarrow> string \<Rightarrow> LastWill option" where
  "due_will now st c = (case session_of st c of
     None \<Rightarrow> None
   | Some s \<Rightarrow> (case session_last_will_timeout_key s of
       None \<Rightarrow> None
     | Some k \<Rightarrow> if key_timeout k < now then session_last_will s else None))"

lemma expires_iff:
  assumes "Storage_inv st"
  shows "c \<in> key_client_id ` set (due now (storage_remove_timeout st)) \<longleftrightarrow> expires now st c"
proof -
  note D = timeouts_matchD [OF Storage_invD(4) [OF assms]]
  show ?thesis
  proof
    assume "c \<in> key_client_id ` set (due now (storage_remove_timeout st))"
    then obtain k where "k \<in> set (storage_remove_timeout st)" "key_timeout k < now" "c = key_client_id k"
      by (auto simp: set_due [OF D(3)])
    with D(6) [of k] show "expires now st c" by (auto simp: expires_def session_keys_def)
  next
    assume "expires now st c"
    then obtain s k where s: "session_of st c = Some s" "session_remove_timeout_key s = Some k" "key_timeout k < now"
      by (auto simp: expires_def)
    then have "session_keys st c = Some (session_last_will_timeout_key s, Some k)" by (simp add: session_keys_def)
    from D(8,9) [OF this] s(3) show "c \<in> key_client_id ` set (due now (storage_remove_timeout st))"
      by (force simp: set_due [OF D(3)])
  qed
qed

lemma will_of_iff:
  "(c, last_will) \<in> set (will_of st k) \<longleftrightarrow> c = key_client_id k \<and>
     (\<exists>s. session_of st (key_client_id k) = Some s \<and> session_last_will s = Some last_will)"
  by (cases "session_of st (key_client_id k)") (auto simp: will_of_def split: option.splits)

lemma due_wills_iff:
  assumes "Storage_inv st"
  shows "(c, last_will) \<in> set (concat (map (will_of st) (due now (storage_send_last_will_timeout st))))
    \<longleftrightarrow> due_will now st c = Some last_will"
proof
  note inv = Storage_invD [OF assms] and D = timeouts_matchD [OF Storage_invD(4) [OF assms]]
  assume "(c, last_will) \<in> set (concat (map (will_of st) (due now (storage_send_last_will_timeout st))))"
  then obtain k s where k: "k \<in> set (storage_send_last_will_timeout st)" "key_timeout k < now" "c = key_client_id k"
      "session_of st c = Some s" "session_last_will s = Some last_will"
    by (auto simp: set_due [OF D(1)] will_of_iff)
  moreover from D(5) [OF k(1)] k(3,4) have "session_last_will_timeout_key s = Some k"
    by (auto simp: session_keys_def)
  ultimately show "due_will now st c = Some last_will" by (simp add: due_will_def)
next
  note inv = Storage_invD [OF assms] and D = timeouts_matchD [OF Storage_invD(4) [OF assms]]
  assume "due_will now st c = Some last_will"
  then obtain s k where s: "session_of st c = Some s" "session_last_will_timeout_key s = Some k"
      "key_timeout k < now" "session_last_will s = Some last_will"
    by (auto simp: due_will_def split: option.splits if_splits)
  have keys: "session_keys st c = Some (Some k, session_remove_timeout_key s)"
    using s by (simp add: session_keys_def)
  have "session_remove_timeout_key s \<noteq> None"
    using D(7) [of c "Some k"] keys by (cases "session_remove_timeout_key s") auto
  moreover have "will_pending (storage_send_last_will_timeout st) s" by (rule inv(5)) fact
  ultimately have "k \<in> set (storage_send_last_will_timeout st)"
    using s by (auto simp: will_pending_def)
  moreover have "key_client_id k = c" using D(10) [OF keys] .
  ultimately show "(c, last_will) \<in> set (concat (map (will_of st) (due now (storage_send_last_will_timeout st))))"
    using s by (force simp: set_due [OF D(1)] will_of_iff)
qed

subsection \<open>Samples\<close>

text \<open>A client with one subscription and a will.\<close>

definition sample_will :: LastWill where
  "sample_will = \<lparr>last_will_topic = ''a/w'', last_will_payload = [1], last_will_qos = AtMostOnce,
     last_will_retain = False, last_will_properties = WillProperties_default\<rparr>"

definition sample_created :: Storage where
  "sample_created = snd (Storage_create_session ''c1'' True (Some sample_will) Storage_default)"

definition sample_subscribed :: "string \<Rightarrow> Storage" where
  "sample_subscribed flt = Storage_subscribe 0 ''c1'' (plain flt) sample_item sample_created"

definition sample_storage :: Storage where
  "sample_storage = sample_subscribed ''a/+''"

lemma sample_created:
  "Storage_inv sample_created" "connected sample_created ''c1''"
  "session_of sample_created = [''c1'' \<mapsto> Session_new (Some sample_will)]"
  "Trie_lookup (storage_filter_tree sample_created) f c = None"
  "Trie_retained (storage_filter_tree sample_created) = (\<lambda>_. None)"
proof -
  have "session_of Storage_default = (\<lambda>_. None)" "Trie_lookup (storage_filter_tree Storage_default) f c = None"
    "Trie_retained (storage_filter_tree Storage_default) = (\<lambda>_. None)"
  proof -
    have t: "storage_filter_tree Storage_default = Trie_default" by (simp add: Storage_default_def)
    show "Trie_lookup (storage_filter_tree Storage_default) f c = None"
      "Trie_retained (storage_filter_tree Storage_default) = (\<lambda>_. None)"
      unfolding t by (simp only: Trie_lookup_default) (simp add: fun_eq_iff Trie_retained_def Trie_default_def)
  qed (simp add: Storage_default_def)
  with create_session_spec [OF Storage_inv_default surjective_pairing, of "''c1''" True "Some sample_will" f c]
  show "Storage_inv sample_created" "connected sample_created ''c1''"
    "session_of sample_created = [''c1'' \<mapsto> Session_new (Some sample_will)]"
    "Trie_lookup (storage_filter_tree sample_created) f c = None"
    "Trie_retained (storage_filter_tree sample_created) = (\<lambda>_. None)"
    by (simp_all add: sample_created_def Storage_create_session_def Let_def) (simp add: fun_eq_iff)
qed

lemma sample_subscribed:
  "Storage_inv (sample_subscribed p)"
  "session_of (sample_subscribed p) ''c1'' = Some (Session_new (Some sample_will))"
  "Trie_lookup (storage_filter_tree (sample_subscribed p)) f c =
     (if f = plain p \<and> c = ''c1'' then Some sample_item else None)"
  "trie_share_subscriptions (storage_filter_tree (sample_subscribed p)) = []"
proof -
  obtain res tree where t: "Trie_subscribe (plain p) ''c1'' sample_item (storage_filter_tree sample_created) = (res, tree)"
    by force
  note inv = Storage_invD(1) [OF sample_created(1)]
  note spec = Trie_subscribe_spec [OF inv t, of f c, unfolded sample_created(4,5)]
  have "(\<lambda>topic. if retained_topic_matches flt topic then Trie_retained tree topic else None) = (\<lambda>_. None)" for flt
    using spec by auto
  then have "enumerates (\<lambda>_ :: string. None) (Trie_matches_retained_messages flt tree)" for flt
    using Trie_matches_retained_enumerates [of tree flt] spec by simp
  then have "Trie_matches_retained_messages flt tree = []" for flt
    by (auto simp: enumerates_def)
  then show "session_of (sample_subscribed p) ''c1'' = Some (Session_new (Some sample_will))"
    unfolding sample_subscribed_def by (simp add: subscribe_session [OF t] sample_created(3))
  show "Storage_inv (sample_subscribed p)"
    unfolding sample_subscribed_def by (rule subscribe_inv [OF sample_created(1)]) (simp add: sample_created(3))
  show "Trie_lookup (storage_filter_tree (sample_subscribed p)) f c =
     (if f = plain p \<and> c = ''c1'' then Some sample_item else None)"
    unfolding sample_subscribed_def using spec by (simp add: subscribe_session(2) [OF t])
  have "trie_share_subscriptions (storage_filter_tree sample_created) = []"
    by (simp add: sample_created_def Storage_create_session_def remove_session_def Storage_default_def Let_def
        Trie_unsubscribe_all_def Trie_default_def case_prod_unfold)
  then show "trie_share_subscriptions (storage_filter_tree (sample_subscribed p)) = []"
    unfolding sample_subscribed_def subscribe_session(2) [OF t] using t
    by (auto simp: Trie_subscribe_def plain_def Let_def split: prod.splits if_splits)
qed

lemmas sample_storage = sample_subscribed [of "''a/+''", folded sample_storage_def]

lemma sample_not_expired: "\<not> Message_is_expired now (sample_message n)"
  by (simp add: Message_is_expired_def sample_message_def Message_new_def PublishProperties_default_def)

lemma sample_receiving:
  "receiving (sample_message n) ''c1'' sample_storage = (\<lambda>flt. if flt = ''a/+'' then Some sample_item else None)"
proof -
  have "topic_matches ''a/+'' ''a/b''" by (simp add: topic_matches_def)
  then show ?thesis
    by (auto simp: fun_eq_iff receiving_def sample_storage(3) plain_def sample_message_def Message_new_def
        may_receive_def sample_item_def)
qed

subsection \<open>Delivery\<close>

text \<open>C6: delivering a message that has not expired appends to a session's queue one copy for all
  of the client's plain subscriptions that match and may receive it, and one for the share groups
  that have chosen the client, if there are any, and changes nothing else in the storage. The
  copy has the lower of the message's QoS and the highest granted one, the subscription identifiers
  of all these subscriptions, and is retained only if the message is and all of them ask for that.\<close>

theorem deliver_exact:
  assumes "Storage_inv st" "\<And>i name k. 0 < k \<Longrightarrow> pick i name k < k" "\<not> Message_is_expired now msg"
    and "st' = Storage_deliver now pick [msg] st"
  shows "Storage_inv st' \<and> storage_filter_tree st' = storage_filter_tree st \<and>
    (\<exists>plain. enumerates (receiving msg c st) plain \<and>
      session_of st' c = map_option (queue_messages
        ((if plain = [] then [] else [message_copy now msg plain]) @
         (let chosen = concat (map (\<lambda>(name, k, items). if k = c then items else [])
            (share_choices (pick 0) (message_topic msg) (storage_filter_tree st)))
          in if chosen = [] then [] else [message_copy now msg chosen]))) (session_of st c))"
proof -
  obtain plain where plain: "enumerates (receiving msg c st) plain"
    "plain_copies now msg c (storage_filter_tree st) = (if plain = [] then [] else [message_copy now msg plain])"
    using plain_copies_receiving [OF Storage_invD(1) [OF assms(1)]] by blast
  have "session_of st' c = map_option (queue_messages (copies now pick [msg] c (storage_filter_tree st))) (session_of st c)"
    unfolding assms(4) by (rule deliver_session) (erule assms(2))
  moreover have "copies now pick [msg] c (storage_filter_tree st) =
      plain_copies now msg c (storage_filter_tree st) @ shared_copies now (pick 0) msg c (storage_filter_tree st)"
    using assms(3) by simp
  ultimately show ?thesis
    unfolding plain(2) shared_copies_choices Let_def
    using plain(1) deliver_inv [OF assms(1), of now pick "[msg]"] same_frameD(1) [OF deliver_frame, of now pick "[msg]" st]
    by (auto simp: assms(4))
qed

lemma deliver_exact_witness:
  "\<exists>copies. session_of (Storage_deliver 5 (\<lambda>_ _ k. k - 1) [sample_message 3] sample_storage) ''c1'' =
     Some (queue_messages (message_copy 5 (sample_message 3) [sample_item] # copies) (Session_new (Some sample_will)))"
proof -
  from deliver_exact [OF sample_storage(1) _ sample_not_expired [of 5 3] refl, where pick = "\<lambda>_ _ k. k - 1"
      and c = "''c1''"]
  obtain plain where p: "enumerates (receiving (sample_message 3) ''c1'' sample_storage) plain"
    "\<exists>copies. session_of (Storage_deliver 5 (\<lambda>_ _ k. k - 1) [sample_message 3] sample_storage) ''c1'' =
      map_option (queue_messages ((if plain = [] then [] else [message_copy 5 (sample_message 3) plain]) @ copies))
        (session_of sample_storage ''c1'')"
    by auto
  have "plain = [sample_item]" by (rule enumerates_one [OF p(1) sample_receiving])
  with p(2) show ?thesis by (simp add: sample_storage(2))
qed

text \<open>An expired message is not delivered to anybody.\<close>

theorem deliver_expired:
  assumes "Message_is_expired now msg"
  shows "Storage_deliver now pick (msg # msgs) st = Storage_deliver now (\<lambda>i. pick (Suc i)) msgs st"
  using assms by (simp add: deliver_message_def)

lemma deliver_expired_witness:
  "Storage_deliver 5 (\<lambda>_ _ _. 0) [sample_message 3\<lparr>message_properties := PublishProperties_default
      \<lparr>pubprop_message_expiry_interval := Some 0\<rparr>\<rparr>] sample_storage = sample_storage"
  by (subst deliver_expired)
    (simp_all add: Message_is_expired_def sample_message_def Message_new_def from_secs_def)

text \<open>C24: a subscription is stored under its filter, and when its options ask for them the session
  gets a copy of each retained message whose topic the filter matches, once, except the expired
  ones and, with \<open>no_local\<close>, the client's own. The copies have the options of this subscription:
  in particular they are marked as retained only with \<open>retain_as_published\<close>, and they are
  created now, so that their expiry interval starts again.\<close>

theorem subscribe_sends_retained:
  assumes "Storage_inv st" "session_of st c = Some s" "st' = Storage_subscribe now c f item st"
  shows "Storage_inv st' \<and>
    Trie_lookup (storage_filter_tree st') f' c' =
      (if f' = f \<and> c' = c then Some item else Trie_lookup (storage_filter_tree st) f' c') \<and>
    (\<exists>msgs. enumerates (retained_receiving now c (path f) item (storage_filter_tree st)) msgs \<and>
      session_of st' = (session_of st)(c \<mapsto>
        (if wants_retained f item (Trie_lookup (storage_filter_tree st) f c \<noteq> None)
         then queue_messages (map (\<lambda>msg. message_copy now msg [item]) msgs) s else s)))"
proof -
  note inv = Storage_invD(1) [OF assms(1)]
  obtain res tree where t: "Trie_subscribe f c item (storage_filter_tree st) = (res, tree)" by force
  note spec = Trie_subscribe_spec [OF inv t, of f' c']
  note enum = enumerates_filtered [OF Trie_matches_retained_enumerates, of tree "path f"
      "\<lambda>msg. \<not> Message_is_expired now msg \<and> may_receive msg c item"]
  have ret: "Trie_retained (storage_filter_tree st) = Trie_retained tree" using spec by simp
  have "enumerates (retained_receiving now c (path f) item (storage_filter_tree st))
      (filter (\<lambda>msg. \<not> Message_is_expired now msg \<and> may_receive msg c item)
        (Trie_matches_retained_messages (path f) tree))"
    unfolding retained_receiving_def [abs_def] ret using enum spec by blast
  moreover have "session_of st' = (session_of st)(c \<mapsto>
        (if wants_retained f item (Trie_lookup (storage_filter_tree st) f c \<noteq> None)
         then queue_messages (map (\<lambda>msg. message_copy now msg [item])
           (filter (\<lambda>msg. \<not> Message_is_expired now msg \<and> may_receive msg c item)
             (Trie_matches_retained_messages (path f) tree))) s else s))"
    using spec assms(2) by (auto simp: fun_eq_iff assms(3) subscribe_session(1) [OF t] option.map_id)
  moreover have "Storage_inv st'"
    unfolding assms(3) by (rule subscribe_inv [OF assms(1)]) (simp add: assms(2))
  moreover have "storage_filter_tree st' = tree"
    unfolding assms(3) by (rule subscribe_session(2) [OF t])
  ultimately show ?thesis using spec by blast
qed

subsection \<open>Timeouts\<close>

lemma card_expires:
  assumes "Storage_inv st"
  shows "card {c. expires now st c} = length (due now (storage_remove_timeout st))"
proof -
  note match = Storage_invD(4) [OF assms]
  have "{c. expires now st c} = key_client_id ` set (due now (storage_remove_timeout st))"
    using expires_iff [OF assms, of _ now] by auto
  moreover have "inj_on key_client_id (set (due now (storage_remove_timeout st)))"
    by (rule inj_on_subset [OF timeouts_match_clients(2) [OF match]]) (auto dest: set_takeWhileD)
  moreover have "distinct (due now (storage_remove_timeout st))"
    using timeouts_matchD(4) [OF match] by (simp add: distinct_takeWhile)
  ultimately show ?thesis by (simp add: card_image distinct_card)
qed

lemma due_will_taken:
  assumes "Storage_inv st"
  shows "due_will now st c \<noteq> None \<Longrightarrow> c \<in> key_client_id ` set (due now (storage_send_last_will_timeout st))"
    and "session_of st c = Some s \<Longrightarrow> due_will now st c = None \<Longrightarrow>
      c \<in> key_client_id ` set (due now (storage_send_last_will_timeout st)) \<Longrightarrow> without_will s = s"
proof -
  note D = timeouts_matchD [OF Storage_invD(4) [OF assms]]
  show "c \<in> key_client_id ` set (due now (storage_send_last_will_timeout st))" if "due_will now st c \<noteq> None"
    using that due_wills_iff [OF assms, of c _ now] by (force simp: will_of_iff)
  assume s: "session_of st c = Some s" "due_will now st c = None"
    and due: "c \<in> key_client_id ` set (due now (storage_send_last_will_timeout st))"
  from due obtain k where k: "k \<in> set (storage_send_last_will_timeout st)" "key_timeout k < now" "key_client_id k = c"
    by (auto simp: set_due [OF D(1)])
  have "session_last_will_timeout_key s = Some k" using D(5) [OF k(1)] k(3) s(1) by (auto simp: session_keys_def)
  then have "session_last_will s = None" using s k(2) by (simp add: due_will_def)
  then show "without_will s = s" by (rule without_will_idem)
qed

lemma update_sessions_spec:
  assumes "Storage_inv st" "\<And>i name k. 0 < k \<Longrightarrow> pick i name k < k"
    and st': "st' = Storage_update_sessions time now pick st"
    and wills: "wills = concat (map (will_of st) (due now (storage_send_last_will_timeout st)))"
  shows "session_of st' c = (if expires now st c then None
      else map_option (\<lambda>s. queue_messages (copies time pick
          (map (\<lambda>(client_id, last_will). Message_from_last_will time last_will) wills) c (storage_filter_tree st'))
        (if due_will now st c = None then s else without_will s)) (session_of st c))"
    and "Trie_lookup (storage_filter_tree st') f c =
      (if expires now st c then None else Trie_lookup (storage_filter_tree st) f c)"
    and "Trie_retained (storage_filter_tree st') = Trie_retained (storage_filter_tree st)"
    and "storage_clients_expired st' =
      storage_clients_expired st + word_of_nat (card {c. expires now st c})"
proof -
  obtain wills' st1 where t: "take_last_wills now [] st = (wills', st1)" by force
  note T = take_last_wills_spec [OF assms(1) t]
  define st2 where "st2 = remove_expired_sessions now st1"
  from T have inv1: "Storage_inv st1" by simp
  from T have fields: "wills' = wills" "storage_remove_timeout st1 = storage_remove_timeout st"
    "storage_filter_tree st1 = storage_filter_tree st" "storage_clients_expired st1 = storage_clients_expired st"
    by (simp_all add: wills)
  note R = remove_expired_spec [OF inv1 refl st2_def, unfolded fields]
  let ?msgs = "map (\<lambda>(client_id, last_will). Message_from_last_will time last_will) wills"
  have st'_eq: "st' = Storage_deliver time pick ?msgs st2"
    by (simp add: st' update_sessions_eq t st2_def fields)
  note frame = same_frameD [OF deliver_frame, of time pick ?msgs st2, folded st'_eq]
  note gone = expires_iff [OF assms(1), of _ now]
  have s1: "session_of st1 c = map_option (\<lambda>s. if due_will now st c = None then s else without_will s) (session_of st c)"
    using T due_will_taken [OF assms(1), where now = now and c = c] by (cases "session_of st c") auto
  have "session_of st' c = map_option (queue_messages (copies time pick ?msgs c (storage_filter_tree st2))) (session_of st2 c)"
    unfolding st'_eq by (rule deliver_session) (erule assms(2))
  then show "session_of st' c = (if expires now st c then None
      else map_option (\<lambda>s. queue_messages (copies time pick ?msgs c (storage_filter_tree st'))
        (if due_will now st c = None then s else without_will s)) (session_of st c))"
    using R s1 unfolding frame gone by (simp add: option.map_comp comp_def)
  show "Trie_lookup (storage_filter_tree st') f c =
      (if expires now st c then None else Trie_lookup (storage_filter_tree st) f c)"
    "Trie_retained (storage_filter_tree st') = Trie_retained (storage_filter_tree st)"
    using R unfolding frame gone by simp_all
  show "storage_clients_expired st' = storage_clients_expired st + word_of_nat (card {c. expires now st c})"
    using R unfolding frame card_expires [OF assms(1)] by simp
qed

lemma subscribe_sends_retained_witness:
  "Trie_lookup (storage_filter_tree (Storage_subscribe 0 ''c1'' (shared ''g'' ''a/#'') sample_item sample_storage))
     (shared ''g'' ''a/#'') ''c1'' = Some sample_item \<and>
   session_of (Storage_subscribe 0 ''c1'' (shared ''g'' ''a/#'') sample_item sample_storage) ''c1''
     = Some (Session_new (Some sample_will))"
  using subscribe_sends_retained [OF sample_storage(1,2) refl, of 0 "shared ''g'' ''a/#''" sample_item
      "shared ''g'' ''a/#''" "''c1''"]
  by (auto simp: wants_retained_def shared_def)

lemma wills_distinct:
  "distinct (map key_client_id ks) \<Longrightarrow> distinct (map fst (concat (map (will_of st) ks)))"
proof (induction ks)
  case (Cons k ks)
  have "distinct (map fst (will_of st k))"
    by (auto simp: will_of_def split: option.splits)
  moreover have "fst x \<noteq> fst y" if "x \<in> set (will_of st k)" "y \<in> set (concat (map (will_of st) ks))" for x y
  proof -
    obtain k' where k': "k' \<in> set ks" "y \<in> set (will_of st k')" using \<open>y \<in> _\<close> by auto
    have "fst x = key_client_id k" "fst y = key_client_id k'"
      using \<open>x \<in> _\<close> k'(2) will_of_iff [of "fst x" "snd x" st k] will_of_iff [of "fst y" "snd y" st k'] by simp_all
    then show ?thesis using Cons.prems k'(1) by auto
  qed
  ultimately show ?case using Cons by fastforce
qed simp

lemma due_wills_distinct:
  assumes "Storage_inv st"
  shows "distinct (map fst (concat (map (will_of st) (due now (storage_send_last_will_timeout st)))))"
proof (rule wills_distinct)
  note match = Storage_invD(4) [OF assms]
  have "inj_on key_client_id (set (due now (storage_send_last_will_timeout st)))"
    by (rule inj_on_subset [OF timeouts_match_clients(1) [OF match]]) (auto dest: set_takeWhileD)
  then show "distinct (map key_client_id (due now (storage_send_last_will_timeout st)))"
    using timeouts_matchD(2) [OF match] by (simp add: distinct_map distinct_takeWhile)
qed

lemma expired_will_taken:
  assumes "Storage_inv st" "expires now st c" "session_of st c = Some s" "session_last_will s \<noteq> None"
  shows "c \<in> fst ` set (concat (map (will_of st) (due now (storage_send_last_will_timeout st))))"
proof -
  obtain k where "k \<in> set (due now (storage_remove_timeout st))" "c = key_client_id k"
    using assms(2) expires_iff [OF assms(1)] by blast
  moreover obtain w where "session_last_will s = Some w" using assms(4) by blast
  ultimately show ?thesis using expired_will_due [OF assms(1)] assms(3) by force
qed

text \<open>C23: \<open>update_sessions\<close> removes exactly the sessions whose timeout has passed, with their
  subscriptions, and counts them. A connected session stays. The wills whose delay has passed are
  delivered once each, after the removals, and every will of a removed session is among them.\<close>

theorem update_sessions_exact:
  assumes "Storage_inv st" "\<And>i name k. 0 < k \<Longrightarrow> pick i name k < k"
    and "st' = Storage_update_sessions time now pick st"
  shows "Storage_inv st' \<and>
    (session_of st' c = None \<longleftrightarrow> session_of st c = None \<or> expires now st c) \<and>
    (connected st c \<longrightarrow> connected st' c) \<and>
    Trie_lookup (storage_filter_tree st') f c =
      (if expires now st c then None else Trie_lookup (storage_filter_tree st) f c) \<and>
    storage_clients_expired st' = storage_clients_expired st + word_of_nat (card {c. expires now st c}) \<and>
    (\<exists>wills. distinct (map fst wills) \<and>
      (\<forall>client_id last_will. (client_id, last_will) \<in> set wills \<longleftrightarrow> due_will now st client_id = Some last_will) \<and>
      (\<forall>client_id s. expires now st client_id \<and> session_of st client_id = Some s \<and> session_last_will s \<noteq> None \<longrightarrow>
        client_id \<in> fst ` set wills) \<and>
      (\<not> expires now st c \<longrightarrow> session_of st' c = map_option (\<lambda>s. queue_messages (copies time pick
          (map (\<lambda>(client_id, last_will). Message_from_last_will time last_will) wills) c (storage_filter_tree st'))
        (if due_will now st c = None then s else without_will s)) (session_of st c)))"
proof (intro conjI)
  let ?ks = "due now (storage_send_last_will_timeout st)"
  define wills where "wills = concat (map (will_of st) ?ks)"
  note spec = update_sessions_spec [OF assms(1) _ assms(3) wills_def]
  have pick: "0 < k \<Longrightarrow> pick i name k < k" for i name k by (rule assms(2))
  have connected_not: "\<not> expires now st c" if "connected st c"
    using that by (auto simp: connected_def expires_def)
  have s: "session_of st' c = (if expires now st c then None
      else map_option (\<lambda>s. queue_messages (copies time pick
          (map (\<lambda>(client_id, last_will). Message_from_last_will time last_will) wills) c (storage_filter_tree st'))
        (if due_will now st c = None then s else without_will s)) (session_of st c))"
    by (rule spec(1)) (erule pick)
  show "Storage_inv st'" unfolding assms(3) by (rule update_sessions_inv [OF assms(1)])
  show "session_of st' c = None \<longleftrightarrow> session_of st c = None \<or> expires now st c" using s by simp
  show "connected st c \<longrightarrow> connected st' c"
    using s connected_not by (auto simp: connected_def without_will_def split: option.splits)
  show "Trie_lookup (storage_filter_tree st') f c =
      (if expires now st c then None else Trie_lookup (storage_filter_tree st) f c)"
    by (rule spec(2)) (erule pick)
  show "storage_clients_expired st' = storage_clients_expired st + word_of_nat (card {c. expires now st c})"
    by (rule spec(4)) (erule pick)
  have "distinct (map fst wills)" unfolding wills_def by (rule due_wills_distinct [OF assms(1)])
  moreover have "client_id \<in> fst ` set wills"
    if "expires now st client_id" "session_of st client_id = Some s" "session_last_will s \<noteq> None" for client_id s
    unfolding wills_def using that by (rule expired_will_taken [OF assms(1)])
  moreover have "(client_id, last_will) \<in> set wills \<longleftrightarrow> due_will now st client_id = Some last_will"
    for client_id last_will
    unfolding wills_def by (rule due_wills_iff [OF assms(1)])
  ultimately show "\<exists>wills. distinct (map fst wills) \<and>
      (\<forall>client_id last_will. (client_id, last_will) \<in> set wills \<longleftrightarrow> due_will now st client_id = Some last_will) \<and>
      (\<forall>client_id s. expires now st client_id \<and> session_of st client_id = Some s \<and> session_last_will s \<noteq> None \<longrightarrow>
        client_id \<in> fst ` set wills) \<and>
      (\<not> expires now st c \<longrightarrow> session_of st' c = map_option (\<lambda>s. queue_messages (copies time pick
          (map (\<lambda>(client_id, last_will). Message_from_last_will time last_will) wills) c (storage_filter_tree st'))
        (if due_will now st c = None then s else without_will s)) (session_of st c))"
    using s by (intro exI [of _ wills]) auto
qed

lemma update_sessions_exact_witness:
  "session_of (Storage_update_sessions 0 (10 ^ 12) (\<lambda>_ _ k. k - 1)
     (Storage_disconnect_session 0 ''c1'' 60 sample_created)) ''c1'' = None \<and>
   storage_clients_expired (Storage_update_sessions 0 (10 ^ 12) (\<lambda>_ _ k. k - 1)
     (Storage_disconnect_session 0 ''c1'' 60 sample_created)) = 1"
proof -
  define st where "st = Storage_disconnect_session 0 ''c1'' 60 sample_created"
  have inv: "Storage_inv st" unfolding st_def by (rule disconnect_inv [OF sample_created(1,2)])
  have s: "session_of st = [''c1'' \<mapsto> disconnected 0 ''c1'' 60 (Session_new (Some sample_will))]"
    by (auto simp: fun_eq_iff st_def disconnect_session_eq sample_created(3) update_conv')
  have "expires (10 ^ 12) st c \<longleftrightarrow> c = ''c1''" for c
    by (auto simp: expires_def s disconnected_def Session_new_def from_secs_def)
  moreover have "storage_clients_expired st = 0"
    by (simp add: st_def disconnect_session_eq sample_created(3))
      (simp add: sample_created_def Storage_create_session_def remove_session_def Storage_default_def Let_def)
  ultimately show ?thesis
    using update_sessions_exact [OF inv, of "\<lambda>_ _ k. k - 1", OF _ refl, of 0 "10 ^ 12" "''c1''"]
    unfolding st_def [symmetric] by simp
qed

text \<open>C25: a session that is disconnected at \<open>now\<close> with an expiry interval is there until the
  interval has passed, and the next \<open>update_sessions\<close> after that removes it; then fetching
  messages for the client panics. Resuming it before keeps it for good.\<close>

theorem session_expiry_exact:
  assumes "Storage_inv st" "connected st c" "\<And>i name k. 0 < k \<Longrightarrow> pick i name k < k"
    and "st1 = Storage_disconnect_session now c interval st"
  shows "(session_of (Storage_update_sessions time now' pick st1) c = None \<longleftrightarrow> now + from_secs interval < now') \<and>
    (Storage_next_messages c limit (Storage_update_sessions time now' pick st1) = None \<longleftrightarrow>
      now + from_secs interval < now') \<and>
    connected (Storage_update_sessions time now' pick
      (snd (Storage_create_session c False last_will st1))) c"
proof -
  have pick: "0 < k \<Longrightarrow> pick i name k < k" for i name k by (rule assms(3))
  obtain s where s: "session_of st c = Some s"
    using assms(2) by (auto simp: connected_def split: option.splits)
  have s1: "session_of st1 c = Some (disconnected now c interval s)"
    by (simp add: assms(4) disconnect_session_eq s update_conv')
  then have exp: "expires now' st1 c \<longleftrightarrow> now + from_secs interval < now'"
    by (simp add: expires_def disconnected_def Let_def)
  have inv1: "Storage_inv st1"
    unfolding assms(4) by (rule disconnect_inv [OF assms(1,2)])
  have upd: "session_of (Storage_update_sessions time now' pick u) c = None \<longleftrightarrow> session_of u c = None \<or> expires now' u c"
    "connected u c \<Longrightarrow> connected (Storage_update_sessions time now' pick u) c" if "Storage_inv u" for u
    using update_sessions_spec(1) [OF that pick refl refl, where c = c and time = time and now = now']
    by (auto simp: connected_def expires_def without_will_def split: option.splits if_splits)
  have fetch: "Storage_next_messages c limit u = None \<longleftrightarrow> session_of u c = None" for u
    by (simp add: Storage_next_messages_def split: option.split)
  note create = create_session_spec [OF inv1 surjective_pairing, of c False last_will]
  show ?thesis
    using upd(1) [OF inv1] upd(2) [of "snd (Storage_create_session c False last_will st1)"] create s1
    unfolding fetch exp by auto
qed

lemma session_expiry_exact_witness:
  "session_of (Storage_update_sessions 0 (60 * 10 ^ 9) (\<lambda>_ _ k. k - 1)
     (Storage_disconnect_session 0 ''c1'' 60 sample_created)) ''c1'' \<noteq> None"
  using session_expiry_exact [OF sample_created(1,2) _ refl, of "\<lambda>_ _ k. k - 1" 0 "60 * 10 ^ 9" 0 60]
  by (simp add: from_secs_def)

subsection \<open>Creating sessions\<close>

text \<open>C22: \<open>create_session\<close> reports a present session exactly if there is one and no clean start is
  asked for. Such a session keeps its queue, its inflight packets and its subscriptions; its
  timeouts are cancelled and its will is replaced. Otherwise the client starts with an empty session
  and no subscription is left. The other clients and the retained messages are not affected.\<close>

theorem create_session_exact:
  assumes "Storage_inv st" "Storage_create_session c clean_start last_will st = (present, st')"
  shows "(present \<longleftrightarrow> \<not> clean_start \<and> session_of st c \<noteq> None) \<and> Storage_inv st' \<and> connected st' c \<and>
    session_of st' = (session_of st)(c \<mapsto>
      (if present then resumed last_will (the (session_of st c)) else Session_new last_will)) \<and>
    Trie_lookup (storage_filter_tree st') f c' =
      (if \<not> present \<and> c' = c then None else Trie_lookup (storage_filter_tree st) f c') \<and>
    Trie_retained (storage_filter_tree st') = Trie_retained (storage_filter_tree st)"
  using assms by (rule create_session_spec)

lemma create_session_exact_witness:
  "Trie_lookup (storage_filter_tree (snd (Storage_create_session ''c1'' True None sample_storage))) (plain ''a/+'') ''c1'' = None \<and>
   Trie_lookup (storage_filter_tree (snd (Storage_create_session ''c1'' False None sample_storage))) (plain ''a/+'') ''c1''
     = Some sample_item"
  using create_session_exact [OF sample_storage(1) surjective_pairing, of "''c1''" True None "plain ''a/+''" "''c1''"]
    create_session_exact [OF sample_storage(1) surjective_pairing, of "''c1''" False None "plain ''a/+''" "''c1''"]
  by (simp add: sample_storage)

end
