(* ===== verification/Storage_Runs.thy ===== *)
theory Storage_Runs
  imports Storage_Theorems
begin

text \<open>
  Sequences of storage operations, in every order that the connections can issue them: a client's
  session is disconnected only while it is connected, a client subscribes only while it has a session,
  and retained messages have topic names without wildcards.
\<close>

subsection \<open>The step relation\<close>

datatype storage_op =
    CreateOp string bool "LastWill option"
  | DisconnectOp nat string u32
  | UpdateOp system_time nat "nat \<Rightarrow> string \<Rightarrow> nat \<Rightarrow> nat"
  | DeliverOp system_time "nat \<Rightarrow> string \<Rightarrow> nat \<Rightarrow> nat" "Message list"
  | RetainOp Message
  | SubscribeOp system_time string Filter FilterItem
  | UnsubscribeOp string Filter
  | NextOp string "nat option"
  | AddInflightOp string Publish
  | GetInflightOp string u16 bool

abbreviation valid_pick :: "(nat \<Rightarrow> string \<Rightarrow> nat \<Rightarrow> nat) \<Rightarrow> bool" where
  "valid_pick pick \<equiv> \<forall>i name k. 0 < k \<longrightarrow> pick i name k < k"

inductive storage_step :: "Storage \<Rightarrow> storage_op \<Rightarrow> Storage \<Rightarrow> bool" where
  create: "Storage_create_session c clean_start last_will st = (present, st') \<Longrightarrow>
    storage_step st (CreateOp c clean_start last_will) st'"
| disconnect: "connected st c \<Longrightarrow>
    storage_step st (DisconnectOp now c interval) (Storage_disconnect_session now c interval st)"
| update: "valid_pick pick \<Longrightarrow>
    storage_step st (UpdateOp time now pick) (Storage_update_sessions time now pick st)"
| deliver: "valid_pick pick \<Longrightarrow> storage_step st (DeliverOp now pick msgs) (Storage_deliver now pick msgs st)"
| retain: "valid_topic (message_topic msg) \<Longrightarrow>
    storage_step st (RetainOp msg) (Storage_update_retained_message msg st)"
| subscribe: "session_of st c \<noteq> None \<Longrightarrow>
    storage_step st (SubscribeOp now c f item) (Storage_subscribe now c f item st)"
| unsubscribe: "Storage_unsubscribe c f st = (res, st') \<Longrightarrow> storage_step st (UnsubscribeOp c f) st'"
| next_messages: "Storage_next_messages c limit st = Some (msgs, st') \<Longrightarrow> storage_step st (NextOp c limit) st'"
| add_inflight: "Storage_add_inflight_pub_packet c publish st = Some st' \<Longrightarrow>
    storage_step st (AddInflightOp c publish) st'"
| get_inflight: "Storage_get_inflight_pub_packets c packet_id remove st = Some (res, st') \<Longrightarrow>
    storage_step st (GetInflightOp c packet_id remove) st'"

inductive storage_run :: "Storage \<Rightarrow> storage_op list \<Rightarrow> Storage \<Rightarrow> bool" where
  empty: "storage_run st [] st"
| step: "storage_step st op st' \<Longrightarrow> storage_run st' ops st'' \<Longrightarrow> storage_run st (op # ops) st''"

inductive_cases storage_run_NilE [elim!]: "storage_run st [] st'"
inductive_cases storage_run_ConsE [elim!]: "storage_run st (op # ops) st'"

lemma storage_step_inv: "storage_step st op st' \<Longrightarrow> Storage_inv st \<Longrightarrow> Storage_inv st'"
proof (induction rule: storage_step.induct)
  case (create c clean_start last_will st present st')
  then show ?case using create_session_inv [of st c clean_start last_will] by simp
next
  case (unsubscribe c f st res st')
  then show ?case using unsubscribe_inv [of st c f] by simp
qed (blast intro: disconnect_inv update_sessions_inv deliver_inv update_retained_inv subscribe_inv
    next_messages_inv add_inflight_inv get_inflight_inv)+

lemma storage_run_inv: "storage_run st ops st' \<Longrightarrow> Storage_inv st \<Longrightarrow> Storage_inv st'"
  by (induction rule: storage_run.induct) (simp_all add: storage_step_inv)

subsection \<open>A connected client's queue\<close>

text \<open>The operations that end the connection of \<open>c\<close> or take messages from its queue.\<close>

fun takes_from :: "string \<Rightarrow> storage_op \<Rightarrow> bool" where
  "takes_from c (CreateOp c' _ _) \<longleftrightarrow> c' = c"
| "takes_from c (DisconnectOp _ c' _) \<longleftrightarrow> c' = c"
| "takes_from c (NextOp c' _) \<longleftrightarrow> c' = c"
| "takes_from c _ \<longleftrightarrow> False"

definition queue_extends :: "string \<Rightarrow> Storage \<Rightarrow> Storage \<Rightarrow> bool" where
  "queue_extends c st st' \<longleftrightarrow> (\<forall>s. session_of st c = Some s \<and> session_remove_timeout_key s = None \<longrightarrow>
     (\<exists>s' msgs. session_of st' c = Some s' \<and> session_remove_timeout_key s' = None \<and>
       session_last_will s' = session_last_will s \<and> session_queue s' = session_queue s @ msgs))"

lemma queue_extends_refl: "queue_extends c st st"
  by (simp add: queue_extends_def)

lemma queue_extends_trans:
  assumes "queue_extends c st st'" "queue_extends c st' st''"
  shows "queue_extends c st st''"
  unfolding queue_extends_def
proof (intro allI impI)
  fix s assume "session_of st c = Some s \<and> session_remove_timeout_key s = None"
  with assms(1) obtain s1 msgs1 where 1: "session_of st' c = Some s1" "session_remove_timeout_key s1 = None"
      "session_last_will s1 = session_last_will s" "session_queue s1 = session_queue s @ msgs1"
    unfolding queue_extends_def by blast
  with assms(2) obtain s2 msgs2 where "session_of st'' c = Some s2" "session_remove_timeout_key s2 = None"
      "session_last_will s2 = session_last_will s1" "session_queue s2 = session_queue s1 @ msgs2"
    unfolding queue_extends_def by blast
  with 1 show "\<exists>s' msgs. session_of st'' c = Some s' \<and> session_remove_timeout_key s' = None \<and>
      session_last_will s' = session_last_will s \<and> session_queue s' = session_queue s @ msgs"
    by (intro exI [of _ s2] exI [of _ "msgs1 @ msgs2"]) simp
qed

lemma queue_extends_queue:
  assumes "session_of st' c = map_option (queue_messages msgs) (session_of st c)"
  shows "queue_extends c st st'"
  using assms by (auto simp: queue_extends_def)

lemma queue_extends_same: "session_of st' c = session_of st c \<Longrightarrow> queue_extends c st st'"
  by (simp add: queue_extends_def)

lemma storage_step_queue:
  assumes "storage_step st op st'" "Storage_inv st" "\<not> takes_from c op"
  shows "queue_extends c st st'"
  using assms
proof (induction rule: storage_step.induct)
  case (create c' clean_start last_will st present st')
  then show ?case
    using create_session_spec [of st c' clean_start last_will present st']
    by (intro queue_extends_same) auto
next
  case (disconnect st c' now interval)
  then show ?case
    by (intro queue_extends_same) (simp add: disconnect_session_eq update_conv' split: option.split)
next
  case (update pick st time now)
  have "session_of (Storage_update_sessions time now pick st) c = map_option (queue_messages
      (copies time pick (map (\<lambda>(client_id, last_will). Message_from_last_will time last_will)
        (concat (map (will_of st) (due now (storage_send_last_will_timeout st))))) c
        (storage_filter_tree (Storage_update_sessions time now pick st)))) (session_of st c)"
    if "connected st c"
  proof -
    have "\<not> expires now st c" "due_will now st c = None"
      using that connected_keys [OF Storage_invD(2) [OF update.prems(1)], of c]
      by (auto simp: connected_def expires_def due_will_def session_keys_def split: option.splits)
    then show ?thesis
      using update.hyps by (subst update_sessions_spec(1) [OF update.prems(1) _ refl refl]) auto
  qed
  then show ?case
    using queue_extends_queue by (cases "connected st c")
      (auto simp: connected_def queue_extends_def split: option.splits)
next
  case (deliver pick st now msgs)
  have "session_of (Storage_deliver now pick msgs st) c =
      map_option (queue_messages (copies now pick msgs c (storage_filter_tree st))) (session_of st c)"
    using deliver.hyps by (intro deliver_session) simp
  then show ?case by (rule queue_extends_queue)
next
  case (subscribe st c' now f item)
  obtain res tree where t: "Trie_subscribe f c' item (storage_filter_tree st) = (res, tree)" by force
  show ?case
    by (auto simp: queue_extends_def subscribe_session(1) [OF t] option.map_id)
next
  case (next_messages c' limit st msgs st')
  then show ?case
    by (intro queue_extends_same) (auto simp: Storage_next_messages_def split: option.splits)
next
  case (add_inflight c' publish st st')
  then show ?case
    by (auto simp: queue_extends_def Storage_add_inflight_pub_packet_def split: option.splits)
next
  case (get_inflight c' packet_id remove st res st')
  then show ?case
    by (auto simp: queue_extends_def Storage_get_inflight_pub_packets_def split: option.splits list.splits if_splits)
qed (auto simp: queue_extends_def Storage_update_retained_message_def Storage_unsubscribe_def case_prod_unfold Let_def)

lemma storage_run_queue:
  "storage_run st ops st' \<Longrightarrow> Storage_inv st \<Longrightarrow> list_all (\<lambda>op. \<not> takes_from c op) ops \<Longrightarrow>
    queue_extends c st st'"
proof (induction rule: storage_run.induct)
  case (step st op st' ops st'')
  then have "queue_extends c st st'" "queue_extends c st' st''"
    using storage_step_queue storage_step_inv by simp_all
  then show ?case by (rule queue_extends_trans)
qed (rule queue_extends_refl)

subsection \<open>Properties of runs\<close>

text \<open>C10: as long as \<open>disconnect_session\<close> is called for connected sessions only, and its other callers keep their
  contract (a client subscribes while it has a session, a retained message has a valid topic, and the random choices are
  within their bounds), every sequence of operations on a new storage keeps the subscription counter exact, a
  connected client has no pending timeout, every pending timeout is that of a session, a client
  with a subscription has a session, and no client has two.\<close>

theorem storage_runs_safe:
  assumes "storage_run Storage_default ops st"
  shows "Storage_inv st \<and>
    trie_subscribers_count (storage_filter_tree st) = word_of_nat (Trie_subscriptions (storage_filter_tree st)) \<and>
    (\<forall>k \<in> set (storage_send_last_will_timeout st) \<union> set (storage_remove_timeout st).
      session_of st (key_client_id k) \<noteq> None \<and> \<not> connected st (key_client_id k)) \<and>
    (\<forall>f c. Trie_lookup (storage_filter_tree st) f c \<noteq> None \<longrightarrow> session_of st c \<noteq> None) \<and>
    distinct (map fst (storage_sessions st))"
proof (intro conjI)
  show inv: "Storage_inv st" by (rule storage_run_inv [OF assms Storage_inv_default])
  note all = Storage_invD [OF inv] and D = timeouts_matchD [OF Storage_invD(4) [OF inv]]
  show "trie_subscribers_count (storage_filter_tree st) = word_of_nat (Trie_subscriptions (storage_filter_tree st))"
    using all(1) by (simp add: Trie_inv_def)
  show "\<forall>k \<in> set (storage_send_last_will_timeout st) \<union> set (storage_remove_timeout st).
      session_of st (key_client_id k) \<noteq> None \<and> \<not> connected st (key_client_id k)"
  proof
    fix k assume "k \<in> set (storage_send_last_will_timeout st) \<union> set (storage_remove_timeout st)"
    then have "\<exists>w r. session_keys st (key_client_id k) = Some (w, r) \<and> (w = Some k \<or> r = Some k)"
      using D(5,6) [of k] by blast
    then show "session_of st (key_client_id k) \<noteq> None \<and> \<not> connected st (key_client_id k)"
      unfolding connected_keys [OF all(2)] by (auto simp: session_keys_def)
  qed
  show "\<forall>f c. Trie_lookup (storage_filter_tree st) f c \<noteq> None \<longrightarrow> session_of st c \<noteq> None"
  proof (intro allI impI notI)
    fix f c assume "Trie_lookup (storage_filter_tree st) f c \<noteq> None" "session_of st c = None"
    from this(1) all(6) [OF this(2), of f] show False by (rule notE)
  qed
qed (rule Storage_invD(3) [OF storage_run_inv [OF assms Storage_inv_default]])

lemma storage_runs_safe_witness:
  "Storage_inv (Storage_subscribe 0 ''c1'' (plain ''a/+'') sample_item sample_created)"
proof -
  have "storage_run Storage_default
      [CreateOp ''c1'' True (Some sample_will), SubscribeOp 0 ''c1'' (plain ''a/+'') sample_item]
      (Storage_subscribe 0 ''c1'' (plain ''a/+'') sample_item sample_created)"
    by (rule storage_run.step [OF storage_step.create storage_run.step [OF storage_step.subscribe storage_run.empty]])
      (simp_all add: sample_created_def [symmetric] prod_eq_iff sample_created(3))
  from conjunct1 [OF storage_runs_safe [OF this]] show ?thesis .
qed

text \<open>The guard is needed: a second \<open>disconnect_session\<close>, which a race between two connections of one client can
  cause, leaves a key of the first one among the timeouts that no session knows about.\<close>

theorem second_disconnect_leaves_key:
  "\<not> Storage_inv (Storage_disconnect_session 1 ''c1'' 0 (Storage_disconnect_session 0 ''c1'' 0 sample_created))"
proof
  let ?st = "Storage_disconnect_session 1 ''c1'' 0 (Storage_disconnect_session 0 ''c1'' 0 sample_created)"
  assume inv: "Storage_inv ?st"
  have keys: "TimeoutKey 0 ''c1'' \<in> set (storage_remove_timeout ?st)"
    "\<exists>w. session_keys ?st ''c1'' = Some (w, Some (TimeoutKey 1 ''c1''))"
    "\<exists>d. session_of ?st ''c1'' = Some d \<and> session_last_will_timeout_key d = Some (TimeoutKey 1 ''c1'')"
    by (simp_all add: disconnect_session_eq sample_created(3) update_conv' disconnected_def session_keys_def keys_of_def
        set_insert_key from_secs_def Session_new_def sample_will_def last_will_interval_def WillProperties_default_def)
  from timeouts_matchD(5,6) [OF Storage_invD(4) [OF inv]] keys show False
    by (fastforce simp: session_keys_def)
qed

text \<open>C21: no message of a connected client is lost: while the client neither connects again, nor is disconnected, nor
  fetches messages, it stays connected, keeps its will, and its queue only grows at the end,
  whatever the other clients, the timers and the deliveries do.\<close>

theorem queue_only_grows:
  assumes "storage_run st ops st'" "Storage_inv st" "session_of st c = Some s" "connected st c"
    and "list_all (\<lambda>op. \<not> takes_from c op) ops"
  shows "\<exists>s' msgs. session_of st' c = Some s' \<and> connected st' c \<and>
    session_last_will s' = session_last_will s \<and> session_queue s' = session_queue s @ msgs"
  using storage_run_queue [OF assms(1,2,5)] assms(3,4)
  by (auto simp: queue_extends_def connected_def split: option.splits)

lemma items_one_subscription:
  assumes "Storage_inv st" "message_from_client_id msg \<noteq> Some c"
    and "\<And>flt. Trie_lookup (storage_filter_tree st) \<lparr>share_name = None, path = flt\<rparr> c = (if flt = f then Some item else None)"
  shows "plain_copies now msg c (storage_filter_tree st) =
    (if topic_matches f (message_topic msg) then [message_copy now msg [item]] else [])"
proof -
  obtain items where items: "enumerates (receiving msg c st) items"
    "plain_copies now msg c (storage_filter_tree st) = (if items = [] then [] else [message_copy now msg items])"
    using plain_copies_receiving [OF Storage_invD(1) [OF assms(1)]] by blast
  have "receiving msg c st = (\<lambda>flt. if flt = f \<and> topic_matches f (message_topic msg) then Some item else None)"
    by (auto simp: fun_eq_iff receiving_def assms(2,3) may_receive_def)
  then have r: "receiving msg c st = (if topic_matches f (message_topic msg)
      then (\<lambda>flt. if flt = f then Some item else None) else (\<lambda>_. None))"
    by (simp add: fun_eq_iff)
  show ?thesis
  proof (cases "topic_matches f (message_topic msg)")
    case True
    then have "items = [item]" using enumerates_one [OF items(1)] r by simp
    with items(2) True show ?thesis by simp
  next
    case False
    then have "items = []" using items(1) r by (simp add: enumerates_def)
    with items(2) False show ?thesis by simp
  qed
qed

lemma copies_one_subscription:
  assumes "Storage_inv st" "trie_share_subscriptions (storage_filter_tree st) = []"
    and "\<And>flt. Trie_lookup (storage_filter_tree st) \<lparr>share_name = None, path = flt\<rparr> c = (if flt = f then Some item else None)"
    and "\<forall>msg \<in> set msgs. message_from_client_id msg \<noteq> Some c"
  shows "copies now pick msgs c (storage_filter_tree st) = map (\<lambda>msg. message_copy now msg [item])
    (filter (\<lambda>msg. \<not> Message_is_expired now msg \<and> topic_matches f (message_topic msg)) msgs)"
  using assms(4)
proof (induction msgs arbitrary: pick)
  case (Cons msg msgs)
  have "shared_copies now p msg c (storage_filter_tree st) = []" for p
    by (simp add: shared_copies_def Trie_matches_shared_def assms(2) items_of_def)
  moreover have "plain_copies now msg c (storage_filter_tree st) =
      (if topic_matches f (message_topic msg) then [message_copy now msg [item]] else [])"
    using Cons.prems by (intro items_one_subscription [OF assms(1) _ assms(3)]) simp
  ultimately show ?case using Cons by simp
qed simp

lemma sample_subscribed_copies:
  "copies now pick (map sample_message ns) ''c1'' (storage_filter_tree (sample_subscribed ''a/b'')) =
    map (\<lambda>n. message_copy now (sample_message n) [sample_item]) ns"
proof -
  have "Trie_lookup (storage_filter_tree (sample_subscribed ''a/b'')) \<lparr>share_name = None, path = flt\<rparr> ''c1'' =
      (if flt = ''a/b'' then Some sample_item else None)" for flt
    by (simp add: sample_subscribed(3) plain_def)
  moreover have "topic_matches ''a/b'' ''a/b''" by (simp add: topic_matches_def)
  ultimately show ?thesis
    by (subst copies_one_subscription [OF sample_subscribed(1,4)])
      (auto simp: sample_message_def Message_new_def Message_is_expired_def PublishProperties_default_def comp_def)
qed

text \<open>A message that is queued before another one is delivered stays at the head.\<close>

lemma queue_only_grows_witness:
  "\<exists>s msgs. session_of (Storage_deliver 6 (\<lambda>_ _ k. k - 1) [sample_message 4]
      (Storage_deliver 5 (\<lambda>_ _ k. k - 1) [sample_message 3] (sample_subscribed ''a/b''))) ''c1'' = Some s \<and>
    session_queue s = message_copy 5 (sample_message 3) [sample_item] # msgs"
proof -
  let ?st = "Storage_deliver 5 (\<lambda>_ _ k. k - 1) [sample_message 3] (sample_subscribed ''a/b'')"
  let ?s = "queue_messages [message_copy 5 (sample_message 3) [sample_item]] (Session_new (Some sample_will))"
  have s: "session_of ?st ''c1'' = Some ?s"
    using sample_subscribed_copies [of 5 "\<lambda>_ _ k. k - 1" "[3]"] unfolding list.map
    by (subst deliver_session) (simp, simp only: sample_subscribed(2) option.map)
  then have c: "connected ?st ''c1''" by (simp add: connected_def queue_messages_def Session_new_def)
  have inv: "Storage_inv ?st" by (rule deliver_inv [OF sample_subscribed(1)])
  have run: "storage_run ?st [DeliverOp 6 (\<lambda>_ _ k. k - 1) [sample_message 4]]
      (Storage_deliver 6 (\<lambda>_ _ k. k - 1) [sample_message 4] ?st)"
    by (rule storage_run.step [OF storage_step.deliver storage_run.empty]) simp
  have queue: "session_queue ?s = [message_copy 5 (sample_message 3) [sample_item]]" by (simp add: Session_new_def)
  obtain s' msgs where "session_of (Storage_deliver 6 (\<lambda>_ _ k. k - 1) [sample_message 4] ?st) ''c1'' = Some s'"
    "session_queue s' = session_queue ?s @ msgs"
    using queue_only_grows [OF run inv s c] by (simp only: list.pred_inject takes_from.simps simp_thms) blast
  then show ?thesis unfolding queue by (intro exI [of _ s'] exI [of _ msgs]) simp
qed

text \<open>C32: first in, first out: the messages that are delivered to a client are queued behind those that wait, in the
  order in which they were sent, and leave the queue from its head: fetching at most \<open>n\<close> and then at most
  \<open>m\<close> messages gives the first \<open>n\<close> and the next \<open>m\<close>, none twice, and leaves the rest.\<close>

theorem fetch_in_order:
  assumes "session_of st c = Some s" "valid_pick pick"
    and "queued = session_queue s @ copies now pick msgs c (storage_filter_tree st)"
  shows "\<exists>st1 st2. Storage_next_messages c (Some n) (Storage_deliver now pick msgs st) = Some (take n queued, st1) \<and>
    Storage_next_messages c (Some m) st1 = Some (take m (drop n queued), st2) \<and>
    map_option session_queue (session_of st2 c) = Some (drop (n + m) queued)"
proof -
  have fetch: "\<exists>st''. Storage_next_messages c (Some k) st' = Some (take k (session_queue s'), st'') \<and>
      session_of st'' c = Some (s'\<lparr>session_queue := drop k (session_queue s')\<rparr>)" if "session_of st' c = Some s'" for k st' s'
    using that by (simp add: Storage_next_messages_def)
  have "session_of (Storage_deliver now pick msgs st) c = Some (s\<lparr>session_queue := queued,
      session_notify := session_notify (queue_messages (copies now pick msgs c (storage_filter_tree st)) s)\<rparr>)"
    using deliver_session [of pick] assms by (simp add: queue_messages_def)
  from fetch [OF this, of n] obtain st1 where st1: "Storage_next_messages c (Some n) (Storage_deliver now pick msgs st) = Some (take n queued, st1)"
    "\<exists>s1. session_of st1 c = Some s1 \<and> session_queue s1 = drop n queued"
    by auto
  then obtain s1 where s1: "session_of st1 c = Some s1" "session_queue s1 = drop n queued" by blast
  from fetch [OF s1(1), of m] s1(2) obtain st2 where "Storage_next_messages c (Some m) st1 = Some (take m (drop n queued), st2)"
    "map_option session_queue (session_of st2 c) = Some (drop (n + m) queued)"
    by (auto simp: add.commute)
  with st1(1) show ?thesis by blast
qed

text \<open>Of three messages the first is fetched, and then the second.\<close>

lemma fetch_in_order_witness:
  "\<exists>st1 st2. Storage_next_messages ''c1'' (Some 1) (Storage_deliver 5 (\<lambda>_ _ k. k - 1) (map sample_message [1, 2, 3])
      (sample_subscribed ''a/b'')) = Some ([message_copy 5 (sample_message 1) [sample_item]], st1) \<and>
    Storage_next_messages ''c1'' (Some 1) st1 = Some ([message_copy 5 (sample_message 2) [sample_item]], st2)"
  using fetch_in_order [OF sample_subscribed(2) [of "''a/b''"] _ refl, where pick = "\<lambda>_ _ k. k - 1" and now = 5
      and msgs = "map sample_message [1, 2, 3]" and n = 1 and m = 1]
  unfolding sample_subscribed_copies by (auto simp: Session_new_def)

text \<open>Acknowledging a sequence of packet identifiers.\<close>

primrec acknowledge :: "string \<Rightarrow> u16 list \<Rightarrow> Storage \<Rightarrow> (Publish option list \<times> Storage) option" where
  "acknowledge c [] st = Some ([], st)"
| "acknowledge c (packet_id # ids) st =
     Option.bind (Storage_get_inflight_pub_packets c packet_id True st) (\<lambda>(res, st).
       map_option (\<lambda>(rs, st). (res # rs, st)) (acknowledge c ids st))"

text \<open>C33: the inflight packets of a session are acknowledged in the order in which they were sent:
  acknowledging all their identifiers in this order returns the packets and empties the list, and
  an identifier other than the oldest one is refused, even if its packet is in flight.\<close>

theorem inflight_in_order:
  assumes "session_of st c = Some s" "map publish_packet_id (session_inflight_pub_packets s) = map Some ids"
  shows "(\<exists>st'. acknowledge c ids st = Some (map Some (session_inflight_pub_packets s), st') \<and>
      (\<forall>c'. session_of st' c' = (if c' = c then Some (s\<lparr>session_inflight_pub_packets := []\<rparr>) else session_of st c'))) \<and>
    (\<forall>packet_id. packet_id \<notin> set (take 1 ids) \<longrightarrow>
      Storage_get_inflight_pub_packets c packet_id remove st = Some (None, st))"
  using assms
proof (intro conjI)
  show "\<exists>st'. acknowledge c ids st = Some (map Some (session_inflight_pub_packets s), st') \<and>
      (\<forall>c'. session_of st' c' = (if c' = c then Some (s\<lparr>session_inflight_pub_packets := []\<rparr>) else session_of st c'))"
    using assms
  proof (induction ids arbitrary: st s)
    case Nil
    then show ?case by simp
  next
    case (Cons packet_id ids)
    then obtain p ps where ps: "session_inflight_pub_packets s = p # ps" "publish_packet_id p = Some packet_id"
        "map publish_packet_id ps = map Some ids" by auto
    let ?s = "s\<lparr>session_inflight_pub_packets := ps\<rparr>"
    let ?st = "modify_session c (\<lambda>s. s\<lparr>session_inflight_pub_packets := tl (session_inflight_pub_packets s)\<rparr>) st"
    have "session_of ?st c = Some ?s" using Cons.prems(1) ps(1) by simp
    from Cons.IH [OF this] ps(3) obtain st' where "acknowledge c ids ?st = Some (map Some ps, st')"
        "\<And>c'. session_of st' c' = (if c' = c then Some (?s\<lparr>session_inflight_pub_packets := []\<rparr>) else session_of ?st c')"
      by auto
    then show ?case
      using Cons.prems(1) ps(1,2) by (intro exI [of _ st']) (simp add: Storage_get_inflight_pub_packets_def)
  qed
  show "\<forall>packet_id. packet_id \<notin> set (take 1 ids) \<longrightarrow>
      Storage_get_inflight_pub_packets c packet_id remove st = Some (None, st)"
    using assms by (cases ids) (auto simp: Storage_get_inflight_pub_packets_def)
qed

definition sample_inflight :: Storage where
  "sample_inflight = modify_session ''c1'' (\<lambda>s. s\<lparr>session_inflight_pub_packets :=
     [(Message_to_publish (sample_message 1))\<lparr>publish_packet_id := Some 1\<rparr>, (Message_to_publish (sample_message 1))\<lparr>publish_packet_id := Some 2\<rparr>]\<rparr>) sample_created"

lemma inflight_in_order_witness:
  "Storage_get_inflight_pub_packets ''c1'' 2 True sample_inflight = Some (None, sample_inflight)"
  using inflight_in_order [of sample_inflight "''c1''" "Session_new (Some sample_will)\<lparr>session_inflight_pub_packets :=
     [(Message_to_publish (sample_message 1))\<lparr>publish_packet_id := Some 1\<rparr>, (Message_to_publish (sample_message 1))\<lparr>publish_packet_id := Some 2\<rparr>]\<rparr>" "[1, 2]"]
  by (simp add: sample_inflight_def sample_created(3))

subsection \<open>Times\<close>

lemma disconnected_will_due:
  assumes "Storage_inv st" "connected st c" "session_of st c = Some s" "session_last_will s = Some last_will"
  shows "(c, last_will) \<in> set (fst (take_last_wills now' [] (Storage_disconnect_session now c interval st))) \<longleftrightarrow>
    now + from_secs (last_will_interval last_will interval) < now'"
proof -
  let ?st = "Storage_disconnect_session now c interval st"
  have inv: "Storage_inv ?st" by (rule disconnect_inv [OF assms(1,2)])
  have "session_of ?st c = Some (disconnected now c interval s)"
    by (simp add: disconnect_session_eq assms(3) update_conv')
  then have "due_will now' ?st c = (if now + from_secs (last_will_interval last_will interval) < now'
      then Some last_will else None)"
    by (simp add: due_will_def disconnected_def assms(4))
  moreover have "fst (take_last_wills now' [] ?st) = concat (map (will_of ?st) (due now' (storage_send_last_will_timeout ?st)))"
    using take_last_wills_spec [OF inv surjective_pairing, of now' "[]"] by simp
  ultimately show ?thesis
    using due_wills_iff [OF inv, of c last_will now'] by simp
qed

lemma copies_contain:
  assumes "msg \<in> set msgs" "\<not> Message_is_expired now msg"
  shows "set (plain_copies now msg c tree) \<subseteq> set (copies now pick msgs c tree)"
  using assms(1)
proof (induction msgs arbitrary: pick)
  case (Cons m msgs)
  then show ?case
  proof (cases "msg = m")
    case False
    with Cons.prems have "set (plain_copies now msg c tree) \<subseteq> set (copies now (\<lambda>i. pick (Suc i)) msgs c tree)"
      by (intro Cons.IH) simp
    then show ?thesis by auto
  qed (use assms(2) in auto)
qed simp

lemma last_will_message:
  "message_topic (Message_from_last_will now last_will) = last_will_topic last_will"
  "message_payload (Message_from_last_will now last_will) = last_will_payload last_will"
  "message_from_client_id (Message_from_last_will now last_will) = None"
  by (simp_all add: Message_from_last_will_def Message_with_properties_def Message_with_retain_def Message_new_def Let_def)

text \<open>Once it is due, the will of a disconnected client reaches a connected subscriber.\<close>

lemma disconnected_will_delivered:
  assumes "Storage_inv st" "connected st c" "session_of st c = Some s" "session_last_will s = Some last_will"
    and "now + from_secs (last_will_interval last_will interval) < now'" "valid_pick pick"
    and "c' \<noteq> c" "session_of st c' = Some s'" "connected st c'"
    and "\<And>flt. Trie_lookup (storage_filter_tree st) \<lparr>share_name = None, path = flt\<rparr> c' = (if flt = f then Some item else None)"
    and "topic_matches f (last_will_topic last_will)" "\<not> Message_is_expired time (Message_from_last_will time last_will)"
  shows "\<exists>msgs. map_option session_queue (session_of (Storage_update_sessions time now' pick
      (Storage_disconnect_session now c interval st)) c') = Some (session_queue s' @ msgs) \<and>
    message_copy time (Message_from_last_will time last_will) [item] \<in> set msgs"
proof -
  let ?st = "Storage_disconnect_session now c interval st" and ?msg = "Message_from_last_will time last_will"
  let ?st' = "Storage_update_sessions time now' pick ?st"
  define wills where "wills = concat (map (will_of ?st) (due now' (storage_send_last_will_timeout ?st)))"
  let ?msgs = "map (\<lambda>(client_id, last_will). Message_from_last_will time last_will) wills"
  have inv: "Storage_inv ?st" by (rule disconnect_inv [OF assms(1,2)])
  have "session_of ?st c = Some (disconnected now c interval s)"
    by (simp add: disconnect_session_eq assms(3) update_conv')
  then have "due_will now' ?st c = Some last_will" using assms(5) by (simp add: due_will_def disconnected_def assms(4))
  then have "(c, last_will) \<in> set wills" unfolding wills_def using due_wills_iff [OF inv] by blast
  then have will: "?msg \<in> set ?msgs" by force
  have same: "session_of ?st c' = Some s'" "storage_filter_tree ?st = storage_filter_tree st"
    using assms(3,7,8) by (simp_all add: disconnect_session_eq update_conv')
  then have c': "connected ?st c'" using assms(8,9) by (simp add: connected_def)
  then have "\<not> expires now' ?st c'" "due_will now' ?st c' = None"
    using connected_keys [OF Storage_invD(2) [OF inv], of c']
    by (auto simp: connected_def expires_def due_will_def session_keys_def split: option.splits)
  then have "session_of ?st' c' = Some (queue_messages (copies time pick ?msgs c' (storage_filter_tree ?st')) s')"
    and lookup: "Trie_lookup (storage_filter_tree ?st') flt c' = Trie_lookup (storage_filter_tree st) flt c'" for flt
    using update_sessions_spec(1,2) [OF inv _ refl wills_def, of pick] assms(6) same by simp_all
  moreover have "plain_copies time ?msg c' (storage_filter_tree ?st') = [message_copy time ?msg [item]]"
    using items_one_subscription [OF update_sessions_inv [OF inv], of ?msg c' time now' pick f item time] assms(10,11)
    by (simp add: lookup last_will_message)
  ultimately show ?thesis
    using copies_contain [OF will assms(12), of c' "storage_filter_tree ?st'" pick] by simp
qed

text \<open>C26: the will of a client that is disconnected at \<open>now\<close> is published by \<open>update_sessions\<close> once
  its delay or, if that is shorter, the session expiry interval has passed, and not before.\<close>

theorem will_delay_exact:
  assumes "Storage_inv st" "connected st c" "session_of st c = Some s" "session_last_will s = Some last_will"
    and "last_wills = fst (take_last_wills now' [] (Storage_disconnect_session now c interval st))"
  shows "(c, last_will) \<in> set last_wills \<longleftrightarrow>
    now + from_secs (min (case will_delay_interval (last_will_properties last_will) of Some n \<Rightarrow> n | None \<Rightarrow> 0) interval) < now'"
  unfolding assms(5) disconnected_will_due [OF assms(1-4)] by (simp add: last_will_interval_def)

lemma will_delay_exact_witness:
  "(''c1'', sample_will) \<in> set (fst (take_last_wills 1 [] (Storage_disconnect_session 0 ''c1'' 60 sample_created)))"
  using will_delay_exact [OF sample_created(1,2) _ _ refl, of "Session_new (Some sample_will)" sample_will 1 0 60]
  by (simp add: sample_created(3) Session_new_def sample_will_def WillProperties_default_def from_secs_def)

text \<open>The copy of a message that is queued for a session counts its expiry interval from the time
  it is queued: however old the message is, the copy lives for the whole interval again and is sent
  with the interval that was received, although the time a message waits in the server has to be
  subtracted from it.\<close>

theorem queued_copy_restarts_expiry:
  assumes "items \<noteq> []" "pubprop_message_expiry_interval (message_properties msg) = Some interval"
  shows "\<exists>copy publish. session_queue (Session_add_message now msg items s) = session_queue s @ [copy] \<and>
    (\<forall>later. Message_is_expired later copy \<longleftrightarrow> now + from_secs interval \<le> later) \<and>
    Message_to_publish_and_update_expiry_interval now copy = Some publish \<and>
    pubprop_message_expiry_interval (publish_properties publish) = Some interval"
  using assms by (auto simp: Session_add_message_copy message_copy_def Message_is_expired_def Let_def
      Message_to_publish_and_update_expiry_interval_def Message_to_publish_def as_secs_def from_secs_def)

lemma queued_copy_restarts_expiry_witness:
  "\<exists>copy. session_queue (Session_add_message (59 * 10 ^ 9) (sample_message 1\<lparr>message_properties :=
      PublishProperties_default\<lparr>pubprop_message_expiry_interval := Some 60\<rparr>\<rparr>) [sample_item] (Session_new None)) = [copy] \<and>
    \<not> Message_is_expired (118 * 10 ^ 9) copy"
  using queued_copy_restarts_expiry [of "[sample_item]" "sample_message 1\<lparr>message_properties :=
      PublishProperties_default\<lparr>pubprop_message_expiry_interval := Some 60\<rparr>\<rparr>" 60 "59 * 10 ^ 9" "Session_new None"]
  by (auto simp: Session_new_def from_secs_def)

end
