(* ===== verification/Sys_Theorems.thy ===== *)
theory Sys_Theorems
  imports Sys_Topics Metrics_Theorems Storage_Runs
begin

text \<open>
  The correctness properties of the system topics (\<open>libs/service/src/sys_topics.rs\<close>), over the storage that
  delivers them.
\<close>

lemma sys_message_simps [simp]:
  "message_topic (sys_message now entry) = fst entry" "message_from_client_id (sys_message now entry) = None"
  "\<not> Message_is_expired now (sys_message now entry)"
  by (simp_all add: sys_message_def Message_with_retain_def Message_new_def Message_is_expired_def
      PublishProperties_default_def)

subsection \<open>What is published\<close>

text \<open>The topics and payloads by name: twenty-one lines with counters in decimal (\<open>clients/disconnected\<close> twice) and,
  for each of three periods, the averages of nine loads.\<close>

definition sys_counters :: "(string \<times> ('f Metrics \<Rightarrow> u64)) list" where
  "sys_counters = [
     (''bytes/received'', met_bytes_received), (''bytes/sent'', met_bytes_sent),
     (''clients/connected'', met_clients_connected), (''clients/expired'', met_clients_expired),
     (''clients/disconnected'', met_clients_disconnected), (''clients/disconnected'', met_clients_disconnected),
     (''clients/maximum'', met_clients_maximum), (''clients/total'', met_clients_total),
     (''messages/inflight'', met_messages_inflight), (''messages/received'', met_messages_received),
     (''messages/sent'', met_messages_sent), (''publish/messages/dropped'', met_publish_messages_dropped),
     (''publish/messages/received'', met_publish_messages_received), (''publish/messages/sent'', met_publish_messages_sent),
     (''publish/bytes/received'', met_publish_bytes_received), (''publish/bytes/sent'', met_publish_bytes_sent),
     (''retained messages/count'', met_retained_messages_count), (''store/messages/count'', met_store_messages_count),
     (''store/messages/bytes'', met_store_messages_bytes), (''subscriptions/count'', met_subscriptions_count)]"

definition sys_averages :: "(string \<times> ('f Metrics \<Rightarrow> 'f MetricsLoad)) list" where
  "sys_averages = [
     (''messages/received'', met_load_messages_received), (''messages/sent'', met_load_messages_sent),
     (''publish/dropped'', met_load_publish_dropped), (''publish/received'', met_load_publish_received),
     (''publish/sent'', met_load_publish_sent), (''bytes/received'', met_load_bytes_received),
     (''bytes/sent'', met_load_bytes_sent), (''sockets'', met_load_sockets), (''connections'', met_load_connections)]"

definition sys_lines :: "(string \<times> string) list \<Rightarrow> (string \<times> string) list" where
  "sys_lines = map (\<lambda>(name, payload). (''$SYS/broker/'' @ name, payload))"

definition sys_table :: "'f float_ops \<Rightarrow> 'f Metrics \<Rightarrow> (string \<times> string) list" where
  "sys_table ops m =
     sys_lines ((''uptime'', show_nat (unat (met_uptime m)) @ '' seconds'')
       # map (\<lambda>(name, counter). (name, show_nat (unat (counter m)))) sys_counters)
     @ sys_lines (concat (map (\<lambda>(period, average).
         map (\<lambda>(name, load). (''load/'' @ name @ ''/'' @ period, f_show ops (average (load m)))) sys_averages)
       [(''1min'', load_min1), (''5min'', load_min5), (''15min'', load_min15)]))"

lemma sys_counts_table:
  "sys_counts m = sys_lines ((''uptime'', show_nat (unat (met_uptime m)) @ '' seconds'')
      # map (\<lambda>(name, counter). (name, show_nat (unat (counter m)))) sys_counters)"
  unfolding sys_counts_def sys_counters_def sys_lines_def show_u64_def by (simp only: list.map prod.case append.simps)

lemma sys_loads_table:
  "sys_loads ops m = sys_lines (concat (map (\<lambda>(period, average).
      map (\<lambda>(name, load). (''load/'' @ name @ ''/'' @ period, f_show ops (average (load m)))) sys_averages)
    [(''1min'', load_min1), (''5min'', load_min5), (''15min'', load_min15)]))"
  unfolding sys_loads_def sys_averages_def sys_lines_def by (simp only: list.map prod.case append.simps concat.simps append_Nil2)

lemma sys_topics_table: "sys_topics ops m = sys_table ops m"
  unfolding sys_topics_def sys_counts_table sys_loads_table sys_table_def by (rule refl)

text \<open>A message of the server, as a subscriber gets it.\<close>

lemma sys_copy:
  "message_topic (message_copy now (sys_message now entry) [item]) = fst entry"
  "string_of_bytes (message_payload (message_copy now (sys_message now entry) [item])) = snd entry"
  "message_qos (message_copy now (sys_message now entry) [item]) = AtMostOnce"
  "message_retain (message_copy now (sys_message now entry) [item]) = item_retain_as_published item"
  "message_from_client_id (message_copy now (sys_message now entry) [item]) = None"
proof -
  have "min AtMostOnce q = AtMostOnce" for q by (cases q) (simp_all add: min_def less_eq_Qos_def)
  then show "message_qos (message_copy now (sys_message now entry) [item]) = AtMostOnce"
    by (simp add: message_copy_def sys_message_def Message_with_retain_def Message_new_def)
qed (simp_all add: message_copy_def sys_message_def Message_with_retain_def Message_new_def)

text \<open>C28: \<open>update_sys_topics\<close> publishes the current metrics: a client with one subscription, which may be to \<open>#\<close>, gets for
  each of the 48 lines of the table whose topic its filter matches one message, in the order of the table,
  with the value as a text, at QoS 0, and marked as retained if the subscription keeps that mark. Nothing is stored:
  somebody who subscribes later gets nothing.\<close>

theorem sys_topics_delivered:
  assumes "Storage_inv (state_storage state)" "valid_pick pick"
    and "trie_share_subscriptions (storage_filter_tree (state_storage state)) = []"
    and "\<And>flt. Trie_lookup (storage_filter_tree (state_storage state)) \<lparr>share_name = None, path = flt\<rparr> c =
      (if flt = f then Some item else None)"
    and "state' = update_sys_topics ops now pick ms state"
  shows "(\<exists>new. session_of (state_storage state') c = map_option (queue_messages new) (session_of (state_storage state) c) \<and>
      map (\<lambda>msg. (message_topic msg, string_of_bytes (message_payload msg))) new =
        filter (\<lambda>line. topic_matches f (fst line)) (sys_table ops (ServiceState_metrics ms)) \<and>
      (\<forall>msg \<in> set new. message_qos msg = AtMostOnce \<and> message_retain msg = item_retain_as_published item \<and>
        message_from_client_id msg = None)) \<and>
    Trie_retained (storage_filter_tree (state_storage state')) = Trie_retained (storage_filter_tree (state_storage state))"
proof
  let ?lines = "filter (\<lambda>line. topic_matches f (fst line)) (sys_table ops (ServiceState_metrics ms))"
  let ?new = "map (\<lambda>line. message_copy now (sys_message now line) [item]) ?lines"
  show "Trie_retained (storage_filter_tree (state_storage state')) = Trie_retained (storage_filter_tree (state_storage state))"
    by (simp add: assms(5) update_sys_topics_def Let_def same_frameD(1) [OF deliver_frame])
  have "session_of (state_storage state') c = map_option (queue_messages
      (copies now pick (map (sys_message now) (sys_table ops (ServiceState_metrics ms))) c
        (storage_filter_tree (state_storage state)))) (session_of (state_storage state) c)"
    using deliver_session [of pick] assms(2) by (simp add: assms(5) update_sys_topics_def Let_def sys_topics_table)
  also have "copies now pick (map (sys_message now) (sys_table ops (ServiceState_metrics ms))) c
      (storage_filter_tree (state_storage state)) = ?new"
    by (subst copies_one_subscription [OF assms(1,3,4)]) (simp_all add: filter_map comp_def)
  finally show "\<exists>new. session_of (state_storage state') c = map_option (queue_messages new) (session_of (state_storage state) c) \<and>
      map (\<lambda>msg. (message_topic msg, string_of_bytes (message_payload msg))) new = ?lines \<and>
      (\<forall>msg \<in> set new. message_qos msg = AtMostOnce \<and> message_retain msg = item_retain_as_published item \<and>
        message_from_client_id msg = None)"
    by (intro exI [of _ ?new]) (simp add: sys_copy comp_def)
qed

text \<open>A wildcard at the beginning of a filter matches the system topics, too.\<close>

lemma hash_matches: "topic_matches ''#'' topic"
  by (cases "split CHR ''/'' topic") (simp_all add: topic_matches_def)

definition sample_sys_state :: ServiceState where
  "sample_sys_state = (ServiceState_new ServiceConfig_default [] [])\<lparr>state_storage := sample_subscribed ''#''\<rparr>"

lemma sample_sys_state_storage: "state_storage sample_sys_state = sample_subscribed ''#''"
  by (simp add: sample_sys_state_def)

text \<open>A subscriber to \<open>#\<close> of a new server gets 48 messages, and first the one with the uptime.\<close>

lemma sys_topics_delivered_witness:
  "\<exists>s. session_of (state_storage (update_sys_topics (real_ops (\<lambda>_. ''0'')) 0
      (\<lambda>_ _ k. k - 1) (MetricsState_new (real_ops (\<lambda>_. ''0'')) 0) sample_sys_state)) ''c1'' = Some s \<and>
    length (session_queue s) = 48 \<and>
    message_topic (hd (session_queue s)) = ''$SYS/broker/uptime'' \<and> message_qos (hd (session_queue s)) = AtMostOnce"
proof -
  let ?ms = "MetricsState_new (real_ops (\<lambda>_. ''0'')) 0"
  note s = sample_subscribed [of "''#''", folded sample_sys_state_storage]
  have lookup: "Trie_lookup (storage_filter_tree (state_storage sample_sys_state)) \<lparr>share_name = None, path = flt\<rparr> ''c1'' =
    (if flt = ''#'' then Some sample_item else None)" for flt
    by (simp add: s(3) plain_def)
  have pick: "valid_pick (\<lambda>_ _ k. k - 1)" by simp
  obtain new where new: "session_of (state_storage (update_sys_topics (real_ops (\<lambda>_. ''0'')) 0 (\<lambda>_ _ k. k - 1) ?ms sample_sys_state)) ''c1'' =
      map_option (queue_messages new) (session_of (state_storage sample_sys_state) ''c1'')"
    "map (\<lambda>msg. (message_topic msg, string_of_bytes (message_payload msg))) new =
      filter (\<lambda>line. topic_matches ''#'' (fst line)) (sys_table (real_ops (\<lambda>_. ''0'')) (ServiceState_metrics ?ms))"
    "\<forall>msg \<in> set new. message_qos msg = AtMostOnce"
    using conjunct1 [OF sys_topics_delivered [OF s(1) pick s(4) lookup refl]] by blast
  have table: "length (sys_table ops m) = 48" "fst (hd (sys_table ops m)) = ''$SYS/broker/uptime''" for ops :: "'a float_ops" and m
    by (simp_all add: sys_topics_table [symmetric] sys_topics_def sys_counts_def sys_loads_def)
  from new(2) have lines: "map (\<lambda>msg. (message_topic msg, string_of_bytes (message_payload msg))) new =
      sys_table (real_ops (\<lambda>_. ''0'')) (ServiceState_metrics ?ms)" by (simp add: hash_matches)
  from arg_cong [OF lines, of length] have len: "length new = 48" by (simp add: table)
  then have "new \<noteq> []" by auto
  moreover from arg_cong [OF lines, of "\<lambda>xs. fst (hd xs)"] \<open>new \<noteq> []\<close> have "message_topic (hd new) = ''$SYS/broker/uptime''"
    by (simp add: table hd_map)
  ultimately show ?thesis
    using new(1,3) len by (simp add: s(2) Session_new_def)
qed

end
