(* ===== verification/Actions.thy ===== *)
theory Actions
  imports Main
begin

text \<open>
  Handlers of asynchronous tasks as functions on a state: a handler gets an environment (the transport, the clocks)
  and a state, and finishes with a value, fails with an error (the question mark operator passes it on),
  panics, or aborts the process. \<open>safe P m Q F\<close> says that from a state with \<open>P\<close> the handler neither
  panics nor aborts, that \<open>Q\<close> holds of its result and state when it finishes, and \<open>F\<close> of its state when
  it fails.
\<close>

datatype ('e, 'a) outcome = Finished 'a | Failed 'e | Panicked | Aborted

type_synonym ('v, 's, 'e, 'a) handler = "'v \<Rightarrow> 's \<Rightarrow> ('e, 'a) outcome \<times> 's"

definition finish :: "'a \<Rightarrow> ('v, 's, 'e, 'a) handler" where
  "finish x = (\<lambda>env w. (Finished x, w))"

definition fail :: "'e \<Rightarrow> ('v, 's, 'e, 'a) handler" where
  "fail e = (\<lambda>env w. (Failed e, w))"

definition panic :: "('v, 's, 'e, 'a) handler" where
  "panic = (\<lambda>env w. (Panicked, w))"

text \<open>\<open>let x = m?; f(x)\<close>.\<close>

definition andthen :: "('v, 's, 'e, 'a) handler \<Rightarrow> ('a \<Rightarrow> ('v, 's, 'e, 'b) handler) \<Rightarrow> ('v, 's, 'e, 'b) handler" where
  "andthen m f = (\<lambda>env w. case m env w of
      (Finished x, w) \<Rightarrow> f x env w
    | (Failed e, w) \<Rightarrow> (Failed e, w)
    | (Panicked, w) \<Rightarrow> (Panicked, w)
    | (Aborted, w) \<Rightarrow> (Aborted, w))"

text \<open>\<open>m.await.ok()\<close>.\<close>

definition attempt :: "('v, 's, 'e, unit) handler \<Rightarrow> ('v, 's, 'e, unit) handler" where
  "attempt m = (\<lambda>env w. case m env w of (Failed e, w) \<Rightarrow> (Finished (), w) | r \<Rightarrow> r)"

text \<open>Reading and updating the state.\<close>

definition look :: "('v \<Rightarrow> 's \<Rightarrow> 'a) \<Rightarrow> ('v, 's, 'e, 'a) handler" where
  "look f = (\<lambda>env w. (Finished (f env w), w))"

definition modify :: "('s \<Rightarrow> 's) \<Rightarrow> ('v, 's, 'e, unit) handler" where
  "modify f = (\<lambda>env w. (Finished (), f w))"

text \<open>A loop, and a loop that collects a result for each element.\<close>

primrec loop_over :: "('b \<Rightarrow> ('v, 's, 'e, unit) handler) \<Rightarrow> 'b list \<Rightarrow> ('v, 's, 'e, unit) handler" where
  "loop_over f [] = finish ()"
| "loop_over f (x # xs) = andthen (f x) (\<lambda>_. loop_over f xs)"

primrec loop_collect :: "('b \<Rightarrow> ('v, 's, 'e, 'c) handler) \<Rightarrow> 'b list \<Rightarrow> ('v, 's, 'e, 'c list) handler" where
  "loop_collect f [] = finish []"
| "loop_collect f (x # xs) = andthen (f x) (\<lambda>c. andthen (loop_collect f xs) (\<lambda>cs. finish (c # cs)))"

named_theorems act "evaluation of handlers"

lemma handler_simps [act]:
  "finish x env w = (Finished x, w)"
  "fail e env w = (Failed e, w)"
  "panic env w = (Panicked, w)"
  "look g env w = (Finished (g env w), w)"
  "modify f env w = (Finished (), f w)"
  by (simp_all add: finish_def fail_def panic_def look_def modify_def)

lemma andthen_app [act]:
  "andthen m f env w = (case m env w of
      (Finished x, w) \<Rightarrow> f x env w
    | (Failed e, w) \<Rightarrow> (Failed e, w)
    | (Panicked, w) \<Rightarrow> (Panicked, w)
    | (Aborted, w) \<Rightarrow> (Aborted, w))"
  by (simp add: andthen_def)

subsection \<open>Triples\<close>

definition post ::
  "('a \<Rightarrow> 's \<Rightarrow> bool) \<Rightarrow> ('s \<Rightarrow> bool) \<Rightarrow> ('e, 'a) outcome \<times> 's \<Rightarrow> bool" where
  "post Q F res = (case fst res of
      Finished x \<Rightarrow> Q x (snd res) | Failed e \<Rightarrow> F (snd res) | _ \<Rightarrow> False)"

lemma post_simps [simp]:
  "post Q F (Finished x, w) = Q x w" "post Q F (Failed e, w) = F w"
  "post Q F (Panicked, w) = False" "post Q F (Aborted, w) = False"
  by (simp_all add: post_def)

definition safe ::
  "('s \<Rightarrow> bool) \<Rightarrow> ('v, 's, 'e, 'a) handler \<Rightarrow> ('a \<Rightarrow> 's \<Rightarrow> bool)
   \<Rightarrow> ('s \<Rightarrow> bool) \<Rightarrow> bool" where
  "safe P m Q F \<longleftrightarrow> (\<forall>env w. P w \<longrightarrow> post Q F (m env w))"

lemma safeI: "(\<And>env w. P w \<Longrightarrow> post Q F (m env w)) \<Longrightarrow> safe P m Q F"
  by (simp add: safe_def)

lemma safeD: "safe P m Q F \<Longrightarrow> P w \<Longrightarrow> post Q F (m env w)"
  by (simp add: safe_def)

lemma safe_finish: "(\<And>w. P w \<Longrightarrow> Q x w) \<Longrightarrow> safe P (finish x) Q F"
  by (simp add: safe_def act)

lemma safe_fail: "(\<And>w. P w \<Longrightarrow> F w) \<Longrightarrow> safe P (fail e) Q F"
  by (simp add: safe_def act)

lemma safe_look: "(\<And>env w. P w \<Longrightarrow> Q (g env w) w) \<Longrightarrow> safe P (look g) Q F"
  by (simp add: safe_def act)

lemma safe_modify: "(\<And>w. P w \<Longrightarrow> Q () (f w)) \<Longrightarrow> safe P (modify f) Q F"
  by (simp add: safe_def act)

lemma safe_andthen:
  assumes "safe P m R F" "\<And>x. safe (R x) (f x) Q F"
  shows "safe P (andthen m f) Q F"
proof (rule safeI)
  fix env w assume "P w"
  with assms(1) have m: "post R F (m env w)" by (rule safeD)
  obtain r w' where r: "m env w = (r, w')" by force
  show "post Q F (andthen m f env w)"
    using m assms(2) unfolding andthen_app r by (cases r) (auto intro: safeD)
qed

lemma safe_weaken:
  assumes "safe P' m Q' F" "\<And>w. P w \<Longrightarrow> P' w" "\<And>x w. Q' x w \<Longrightarrow> Q x w"
  shows "safe P m Q F"
proof (rule safeI)
  fix env w assume "P w"
  then have m: "post Q' F (m env w)" by (intro safeD [OF assms(1)] assms(2))
  obtain r w' where r: "m env w = (r, w')" by force
  show "post Q F (m env w)" using m assms(3) unfolding r by (cases r) auto
qed

lemma safe_for_each:
  "(\<And>x. x \<in> set xs \<Longrightarrow> safe P (f x) (\<lambda>_. P) F) \<Longrightarrow> safe P (loop_over f xs) (\<lambda>_. P) F"
  by (induction xs) (auto intro!: safe_finish safe_andthen)

lemma safe_for_codes:
  "(\<And>x. x \<in> set xs \<Longrightarrow> safe P (f x) (\<lambda>_. P) F) \<Longrightarrow> safe P (loop_collect f xs) (\<lambda>_. P) F"
  by (induction xs) (auto intro!: safe_finish safe_andthen)

end
