(* ===== verification/Client_Loop.thy ===== *)
theory Client_Loop
  imports Service_State Actions
begin

text \<open>
  \<open>libs/service/src/client_loop.rs\<close>: one connection. A handler is an action on the connection and
  the shared state that ends in a result, in one of the errors that close the connection, or in a
  panic of its task. \<open>Env\<close> is what the handler gets from outside: the transport, the clocks, a
  fresh UUID and random numbers. A handler is one step: other connections run between the turns of
  the loop, and the points in the middle of a handler where it waits for its socket are not modelled.

  The quotas are \<open>usize\<close>, words of 64 bits whose decrement below zero wraps as in a release build.
\<close>

subsection \<open>Connections and actions\<close>

datatype Qos2State = Published | Recorded

record ('r, 'w) Connection =
  conn_remote_addr :: RemoteAddr
  conn_client_id :: "string option"
  conn_control_sender :: nat
  conn_uid :: "string option"
  conn_codec :: Codec
  conn_reader :: 'r
  conn_writer :: 'w
  conn_session_expiry_interval :: u32
  conn_receive_in_max :: u64
  conn_receive_out_max :: u64
  conn_receive_in_quota :: u64
  conn_receive_out_quota :: u64
  conn_max_topic_alias :: u64
  conn_topic_alias :: "u16 \<rightharpoonup> string"
  conn_keep_alive :: u16
  conn_last_active :: nat
  conn_last_will :: "LastWill option"
  conn_packet_id_allocator :: PacketIdAllocator
  conn_inflight_qos2_messages :: "u16 \<rightharpoonup> Qos2State"
  conn_uncompleted_messages :: "u16 \<rightharpoonup> Message"

record ('r, 'w) Env =
  env_read :: "'r \<Rightarrow> (io_error + bytes) \<times> 'r"
  env_write_all :: "'w \<Rightarrow> bytes \<Rightarrow> (io_error + unit) \<times> 'w"
  env_now :: system_time
  env_instant :: nat
  env_uuid :: string
  env_pick :: "nat \<Rightarrow> string \<Rightarrow> nat \<Rightarrow> nat"

record ('r, 'w) World =
  world_conn :: "('r, 'w) Connection"
  world_state :: ServiceState

text \<open>A handler of a connection. To abort is to overflow the stack, which ends the process.\<close>

type_synonym ('r, 'w, 'a) action = "(('r, 'w) Env, ('r, 'w) World, Error, 'a) handler"

text \<open>Reading and updating the connection and the shared state.\<close>

definition update_conn :: "(('r, 'w) Connection \<Rightarrow> ('r, 'w) Connection) \<Rightarrow> ('r, 'w, unit) action" where
  "update_conn f = (\<lambda>env w. (Finished (), w\<lparr>world_conn := f (world_conn w)\<rparr>))"

definition update_state :: "(ServiceState \<Rightarrow> ServiceState) \<Rightarrow> ('r, 'w, unit) action" where
  "update_state f = (\<lambda>env w. (Finished (), w\<lparr>world_state := f (world_state w)\<rparr>))"

definition update_metrics :: "(ServiceMetrics \<Rightarrow> ServiceMetrics) \<Rightarrow> ('r, 'w, unit) action" where
  "update_metrics f = update_state (\<lambda>s. s\<lparr>state_service_metrics := f (state_service_metrics s)\<rparr>)"

definition update_storage :: "(Storage \<Rightarrow> Storage) \<Rightarrow> ('r, 'w, unit) action" where
  "update_storage f = update_state (\<lambda>s. s\<lparr>state_storage := f (state_storage s)\<rparr>)"

text \<open>An operation of the storage with a result, and one that can panic.\<close>

definition with_storage :: "(Storage \<Rightarrow> 'a \<times> Storage) \<Rightarrow> ('r, 'w, 'a) action" where
  "with_storage f = (\<lambda>env w. let (x, st) = f (state_storage (world_state w))
     in (Finished x, w\<lparr>world_state := (world_state w)\<lparr>state_storage := st\<rparr>\<rparr>))"

definition try_storage :: "(Storage \<Rightarrow> ('a \<times> Storage) option) \<Rightarrow> ('r, 'w, 'a) action" where
  "try_storage f = (\<lambda>env w. case f (state_storage (world_state w)) of
      None \<Rightarrow> (Panicked, w)
    | Some (x, st) \<Rightarrow> (Finished x, w\<lparr>world_state := (world_state w)\<lparr>state_storage := st\<rparr>\<rparr>))"

definition disconnect_because :: "DisconnectReasonCode \<Rightarrow> ('r, 'w, 'a) action" where
  "disconnect_because reason_code = fail (Error_server_disconnect reason_code)"

subsection \<open>Sending\<close>

definition encode_packet :: "Packet \<Rightarrow> ('r, 'w, EncodeError + nat) action" where
  "encode_packet packet = (\<lambda>env w.
     let conn = world_conn w;
         (res, writer, codec) = Codec_encode (env_write_all env) packet (conn_writer conn) (conn_codec conn)
     in (Finished res, w\<lparr>world_conn := conn\<lparr>conn_writer := writer, conn_codec := codec\<rparr>\<rparr>))"

definition send_packet :: "Packet \<Rightarrow> ('r, 'w, unit) action" where
  "send_packet packet = andthen (encode_packet packet) (\<lambda>res.
     case res of
       Inr packet_size \<Rightarrow>
         update_metrics (\<lambda>m.
           let m = inc_bytes_sent packet_size (inc_msgs_sent 1 m)
           in case packet of
                Publish publish \<Rightarrow> inc_pub_bytes_sent (length (publish_payload publish)) m
              | _ \<Rightarrow> m)
     | Inl PayloadTooLarge \<Rightarrow> disconnect_because DisconnectReasonCode.PacketTooLarge
     | Inl err \<Rightarrow> fail (EncodePacket err))"

definition send_disconnect :: "DisconnectReasonCode \<Rightarrow> DisconnectProperties option \<Rightarrow> ('r, 'w, unit) action" where
  "send_disconnect reason_code properties = send_packet (Packet.Disconnect
     \<lparr>disconnect_reason_code = reason_code,
      disconnect_properties = (case properties of Some p \<Rightarrow> p | None \<Rightarrow> DisconnectProperties_default)\<rparr>)"

definition check_acl :: "Action \<Rightarrow> string \<Rightarrow> ('r, 'w, unit) action" where
  "check_acl action topic = (\<lambda>env w.
     (case acl_plugins (state_plugins (world_state w)) (conn_remote_addr (world_conn w))
         (conn_uid (world_conn w)) action topic of
        Inl err \<Rightarrow> disconnect_because DisconnectReasonCode.UnspecifiedError
      | Inr allow \<Rightarrow>
          if \<not> allow then disconnect_because DisconnectReasonCode.NotAuthorized else finish ()) env w)"

text \<open>The check at the head of most handlers: the connection is logged in.\<close>

definition require_client_id :: "('r, 'w, string) action" where
  "require_client_id = (\<lambda>env w. case conn_client_id (world_conn w) of
      Some client_id \<Rightarrow> (Finished client_id, w)
    | None \<Rightarrow> disconnect_because DisconnectReasonCode.ProtocolError env w)"

subsection \<open>CONNECT\<close>

text \<open>The negotiated session expiry interval, and what the CONNACK says about it.\<close>

definition connect_session_expiry :: "ServiceConfig \<Rightarrow> Connect \<Rightarrow> u32 \<times> u32 option" where
  "connect_session_expiry config connect =
     (case connprop_session_expiry_interval (connect_properties connect) of
        Some session_expiry_interval \<Rightarrow>
          if session_expiry_interval > config_max_session_expiry_interval config
          then (config_max_session_expiry_interval config, Some (config_max_session_expiry_interval config))
          else (session_expiry_interval, None)
      | None \<Rightarrow> (0, None))"

definition connect_keep_alive_limit :: "ServiceConfig \<Rightarrow> Connect \<Rightarrow> u16 \<times> u16 option" where
  "connect_keep_alive_limit config connect =
     (if connect_keep_alive connect > config_max_keep_alive config
      then (config_max_keep_alive config, Some (config_max_keep_alive config))
      else (connect_keep_alive connect, None))"

definition connect_topic_alias :: "ServiceConfig \<Rightarrow> Connect \<Rightarrow> u16 \<times> u16 option" where
  "connect_topic_alias config connect =
     (case connprop_topic_alias_max (connect_properties connect) of
        Some topic_alias_max \<Rightarrow>
          if topic_alias_max > config_max_topic_alias config
          then (config_max_topic_alias config, Some (config_max_topic_alias config))
          else (topic_alias_max, None)
      | None \<Rightarrow> (config_max_topic_alias config, Some (config_max_topic_alias config)))"

definition connect_ack_properties :: "ServiceConfig \<Rightarrow> Connect \<Rightarrow> ConnAckProperties" where
  "connect_ack_properties config connect = ConnAckProperties_default\<lparr>
     connackprop_session_expiry_interval := snd (connect_session_expiry config connect),
     connackprop_server_keep_alive := snd (connect_keep_alive_limit config connect),
     connackprop_maximum_qos :=
       (if config_maximum_qos config \<noteq> ExactlyOnce then Some (config_maximum_qos config) else None),
     connackprop_max_packet_size :=
       (if config_max_packet_size config \<noteq> u32_max then Some (config_max_packet_size config) else None),
     connackprop_retain_available := (if \<not> config_retain_available config then Some False else None),
     connackprop_wildcard_subscription_available :=
       (if \<not> config_wildcard_subscription_available config then Some False else None),
     connackprop_topic_alias_max := snd (connect_topic_alias config connect)\<rparr>"

definition will_refusal :: "ServiceConfig \<Rightarrow> LastWill \<Rightarrow> ConnectReasonCode option" where
  "will_refusal config last_will =
     (if last_will_qos last_will > config_maximum_qos config then Some ConnectReasonCode.QoSNotSupported
      else if last_will_retain last_will \<and> \<not> config_retain_available config
      then Some ConnectReasonCode.RetainNotSupported
      else if will_payload_format_indicator (last_will_properties last_will) = Some True
        \<and> \<not> utf8_valid (last_will_payload last_will)
      then Some ConnectReasonCode.PayloadFormatInvalid
      else None)"

definition refuse_connect :: "ConnectReasonCode \<Rightarrow> ('r, 'w, unit) action" where
  "refuse_connect reason_code = send_packet (Packet.ConnAck
     \<lparr>connack_session_present = False, connack_reason_code = reason_code,
      connack_properties = ConnAckProperties_default\<rparr>)"

definition authenticate :: "Connect \<Rightarrow> ('r, 'w, string option) action" where
  "authenticate connect = (\<lambda>env w.
     (case connect_login connect of
        None \<Rightarrow> finish None
      | Some login \<Rightarrow>
          (case auth_plugins (state_plugins (world_state w)) login of
             Inl err \<Rightarrow> (\<lambda>env w. case Error_internal_error err of
                 None \<Rightarrow> (Aborted, w) | Some e \<Rightarrow> (Failed e, w))
           | Inr None \<Rightarrow> disconnect_because DisconnectReasonCode.NotAuthorized
           | Inr (Some uid) \<Rightarrow> finish (Some uid))) env w)"

text \<open>The connection becomes the client's: an older one is told, and replaced in the table.\<close>

definition take_over :: "string \<Rightarrow> nat \<Rightarrow> ServiceState \<Rightarrow> ServiceState" where
  "take_over client_id sender state = state\<lparr>
     state_controls := state_controls state @
       (case map_of (state_connections state) client_id of
          Some control_sender \<Rightarrow> [(control_sender, TakenOver)] | None \<Rightarrow> []),
     state_connections := AList.update client_id sender (state_connections state)\<rparr>"

definition resend_inflight :: "Publish \<Rightarrow> ('r, 'w, unit) action" where
  "resend_inflight publish = andthen
     (update_conn (\<lambda>c. c\<lparr>conn_receive_out_quota := conn_receive_out_quota c - 1\<rparr>)) (\<lambda>_.
     send_packet (Packet.Publish (publish\<lparr>publish_dup := True\<rparr>)))"

definition item_of :: "SubscribeFilter \<Rightarrow> nat option \<Rightarrow> FilterItem" where
  "item_of s i = \<lparr>item_qos = filter_qos s, item_no_local = filter_no_local s,
     item_retain_as_published = filter_retain_as_published s,
     item_retain_handling = filter_retain_handling s, item_id = i\<rparr>"

definition proxy_subscribe :: "string \<Rightarrow> SubscribeFilter \<Rightarrow> ('r, 'w, unit) action" where
  "proxy_subscribe client_id s =
     (case parse_filter (filter_path s) of
        None \<Rightarrow> finish ()
      | Some f \<Rightarrow> andthen (look (\<lambda>env w. env_now env)) (\<lambda>now.
          update_storage (Storage_subscribe now client_id f (item_of s None))))"

text \<open>The second half of \<open>handle_connect\<close>: the client is accepted.\<close>

definition login_connection ::
  "ServiceConfig \<Rightarrow> Connect \<Rightarrow> string option \<Rightarrow> u32 \<Rightarrow> ('r, 'w) Connection \<Rightarrow> ('r, 'w) Connection" where
  "login_connection config connect uid session_expiry_interval c =
     (let receive_in_max = ucast (config_receive_max config);
          receive_out_max = (case connprop_receive_max (connect_properties connect) of
            Some n \<Rightarrow> ucast n | None \<Rightarrow> word_of_nat usize_max);
          max_packet_size_out = (case connprop_max_packet_size (connect_properties connect) of
            Some n \<Rightarrow> n | None \<Rightarrow> u32_max)
      in c\<lparr>conn_uid := uid, conn_client_id := Some (connect_client_id connect),
           conn_keep_alive := fst (connect_keep_alive_limit config connect),
           conn_receive_in_max := receive_in_max, conn_receive_out_max := receive_out_max,
           conn_receive_in_quota := receive_in_max, conn_receive_out_quota := receive_out_max,
           conn_max_topic_alias := ucast (fst (connect_topic_alias config connect)),
           conn_session_expiry_interval := session_expiry_interval,
           conn_last_will := connect_last_will connect,
           conn_codec := Codec_set_input_max_size (unat (config_max_packet_size config))
             (Codec_set_output_max_size (unat max_packet_size_out) (conn_codec c))\<rparr>)"

definition accept_connect ::
  "Connect \<Rightarrow> ConnAckProperties \<Rightarrow> string option \<Rightarrow> ('r, 'w, unit) action" where
  "accept_connect connect conn_ack_properties uid =
     andthen (look (\<lambda>env w. (state_config (world_state w), conn_control_sender (world_conn w)))) (\<lambda>(config, sender).
     let client_id = connect_client_id connect;
         session_expiry_interval =
           (if connect_level connect = V4 \<and> \<not> connect_clean_start connect
            then config_max_session_expiry_interval config
            else fst (connect_session_expiry config connect))
     in andthen (update_state (take_over client_id sender)) (\<lambda>_.
        andthen (with_storage (Storage_create_session client_id (connect_clean_start connect)
          (connect_last_will connect))) (\<lambda>session_present.
        andthen (update_conn (login_connection config connect uid session_expiry_interval)) (\<lambda>_.
        andthen (send_packet (Packet.ConnAck \<lparr>connack_session_present = session_present,
          connack_reason_code = ConnectReasonCode.Success,
          connack_properties = conn_ack_properties\<rparr>)) (\<lambda>_.
        andthen (update_metrics (inc_connection_count 1)) (\<lambda>_.
        andthen (look (\<lambda>env w. world_conn w)) (\<lambda>conn.
        andthen (update_state (call_plugins (OnClientConnected (conn_remote_addr conn) client_id
          (conn_uid conn) (conn_keep_alive conn) (connect_level connect)))) (\<lambda>_.
        if session_present then
          andthen (try_storage (\<lambda>st. map_option (\<lambda>packets. (packets, st))
            (Storage_get_all_inflight_pub_packets client_id st))) (\<lambda>packets.
          loop_over resend_inflight packets)
        else loop_over (proxy_subscribe client_id) (config_subscriptions config)))))))))"

definition handle_connect :: "Connect \<Rightarrow> ('r, 'w, unit) action" where
  "handle_connect connect =
     andthen (look (\<lambda>env w. (conn_client_id (world_conn w), state_config (world_state w), env_uuid env)))
       (\<lambda>(conn_id, config, uuid).
     if conn_id \<noteq> None then disconnect_because DisconnectReasonCode.ProtocolError
     else let conn_ack_properties = connect_ack_properties config connect in
     (case Option.bind (connect_last_will connect) (will_refusal config) of
        Some reason_code \<Rightarrow> refuse_connect reason_code
      | None \<Rightarrow>
          if connect_client_id connect = [] then
            if \<not> connect_clean_start connect then
              andthen (refuse_connect ConnectReasonCode.ClientIdentifierNotValid) (\<lambda>_.
                fail (ServerDisconnect None))
            else
              let client_id = ''auto-'' @ uuid;
                  connect = connect\<lparr>connect_client_id := client_id\<rparr>
              in andthen (authenticate connect)
                (accept_connect connect (conn_ack_properties\<lparr>connackprop_assigned_client_identifier := Some client_id\<rparr>))
          else andthen (authenticate connect) (accept_connect connect conn_ack_properties)))"

subsection \<open>PUBLISH\<close>

text \<open>The checks of the packet, in their order: the reason for which it is refused.\<close>

definition publish_refusal :: "ServiceConfig \<Rightarrow> Publish \<Rightarrow> DisconnectReasonCode option" where
  "publish_refusal config publish =
     (let p = publish_properties publish; topic = publish_topic publish in
      if (case pubprop_topic_alias p of Some alias \<Rightarrow> alias > config_max_topic_alias config | None \<Rightarrow> False)
      then Some DisconnectReasonCode.TopicAliasInvalid
      else if topic = [] \<and> pubprop_topic_alias p = None then Some DisconnectReasonCode.ProtocolError
      else if publish_qos publish > AtMostOnce \<and> publish_packet_id publish = None
      then Some DisconnectReasonCode.ProtocolError
      else if pubprop_subscription_identifiers p \<noteq> [] then Some DisconnectReasonCode.ProtocolError
      else if take 1 topic = ''$'' then Some DisconnectReasonCode.TopicNameInvalid
      else if topic \<noteq> [] \<and> \<not> valid_topic topic then Some DisconnectReasonCode.TopicNameInvalid
      else if publish_retain publish \<and> \<not> config_retain_available config
      then Some DisconnectReasonCode.RetainNotSupported
      else if pubprop_payload_format_indicator p = Some True \<and> \<not> utf8_valid (publish_payload publish)
      then Some DisconnectReasonCode.PayloadFormatInvalid
      else None)"

text \<open>The topic name, by the alias if there is one: the name, and the updated aliases.\<close>

definition resolve_topic_alias ::
  "Publish \<Rightarrow> (u16 \<rightharpoonup> string) \<Rightarrow> (string \<times> (u16 \<rightharpoonup> string)) option" where
  "resolve_topic_alias publish aliases =
     (case pubprop_topic_alias (publish_properties publish) of
        Some topic_alias \<Rightarrow>
          if publish_topic publish \<noteq> [] then
            Some (publish_topic publish, aliases(topic_alias \<mapsto> publish_topic publish))
          else (case aliases topic_alias of
              Some topic \<Rightarrow> Some (topic, aliases)
            | None \<Rightarrow> None)
      | None \<Rightarrow> if publish_topic publish \<noteq> [] then Some (publish_topic publish, aliases) else None)"

definition deliver_one :: "Message \<Rightarrow> ('r, 'w, unit) action" where
  "deliver_one msg = andthen (look (\<lambda>env w. (env_now env, env_pick env))) (\<lambda>(now, pick).
     update_storage (Storage_deliver now pick [msg]))"

text \<open>\<open>packet_id.unwrap()\<close>.\<close>

definition unwrap_id :: "u16 option \<Rightarrow> ('r, 'w, u16) action" where
  "unwrap_id packet_id = (case packet_id of Some i \<Rightarrow> finish i | None \<Rightarrow> panic)"

definition send_pub_rec :: "u16 \<Rightarrow> PubRecReasonCode \<Rightarrow> ('r, 'w, unit) action" where
  "send_pub_rec packet_id reason_code = send_packet (Packet.PubRec
     \<lparr>pubrec_packet_id = packet_id, pubrec_reason_code = reason_code,
      pubrec_properties = PubRecProperties_default\<rparr>)"

definition publish_exactly_once :: "u16 option \<Rightarrow> Message \<Rightarrow> ('r, 'w, unit) action" where
  "publish_exactly_once packet_id msg =
     andthen (look (\<lambda>env w. world_conn w)) (\<lambda>conn.
     if conn_receive_in_quota conn = 0 then
       andthen (update_metrics (inc_msg_dropped 1)) (\<lambda>_.
       disconnect_because DisconnectReasonCode.ReceiveMaximumExceeded)
     else
       andthen (unwrap_id packet_id) (\<lambda>packet_id.
       andthen (update_conn (\<lambda>c. c\<lparr>conn_uncompleted_messages :=
         (conn_uncompleted_messages c)(packet_id \<mapsto> msg)\<rparr>)) (\<lambda>_.
       if conn_uncompleted_messages conn packet_id \<noteq> None then
         if codec_level (conn_codec conn) = V5
         then send_pub_rec packet_id PubRecReasonCode.PacketIdentifierInUse
         else disconnect_because DisconnectReasonCode.ProtocolError
       else
         andthen (update_conn (\<lambda>c. c\<lparr>conn_receive_in_quota := conn_receive_in_quota c - 1\<rparr>)) (\<lambda>_.
         send_pub_rec packet_id PubRecReasonCode.Success))))"

definition publish_message :: "u16 option \<Rightarrow> Message \<Rightarrow> ('r, 'w, unit) action" where
  "publish_message packet_id msg =
     (case message_qos msg of
        AtMostOnce \<Rightarrow> deliver_one msg
      | AtLeastOnce \<Rightarrow>
          andthen (deliver_one msg) (\<lambda>_.
          andthen (unwrap_id packet_id) (\<lambda>packet_id.
          send_packet (Packet.PubAck \<lparr>puback_packet_id = packet_id,
            puback_reason_code = PubAckReasonCode.Success, puback_properties = PubAckProperties_default\<rparr>)))
      | ExactlyOnce \<Rightarrow> publish_exactly_once packet_id msg)"

definition message_of_publish :: "system_time \<Rightarrow> string \<Rightarrow> string option \<Rightarrow> Publish \<Rightarrow> Message" where
  "message_of_publish now client_id uid publish =
     (let msg = Message_with_from_client_id client_id (Message_from_publish now publish)
      in case uid of Some uid \<Rightarrow> Message_with_from_uid uid msg | None \<Rightarrow> msg)"

text \<open>What is done with a packet that has passed the checks, once its topic is known.\<close>

definition process_publish :: "string \<Rightarrow> string \<Rightarrow> Publish \<Rightarrow> ('r, 'w, unit) action" where
  "process_publish client_id topic publish =
     andthen (check_acl PublishAction topic) (\<lambda>_.
     andthen (look (\<lambda>env w. (env_now env, ServiceState_rewrite topic (world_state w),
       conn_uid (world_conn w)))) (\<lambda>(now, topic, uid).
     let publish = publish\<lparr>publish_topic := topic\<rparr>;
         msg = message_of_publish now client_id uid publish
     in andthen (if publish_retain publish
         then update_storage (Storage_update_retained_message msg) else finish ()) (\<lambda>_.
        andthen (update_state (call_plugins (OnMessagePublish client_id uid (message_topic msg)
          (message_qos msg) (message_retain msg) (message_payload msg)))) (\<lambda>_.
        publish_message (publish_packet_id publish) msg))))"

definition handle_publish :: "Publish \<Rightarrow> ('r, 'w, unit) action" where
  "handle_publish publish =
     andthen require_client_id (\<lambda>client_id.
     andthen (update_metrics (\<lambda>m. inc_pub_msgs_received 1
       (inc_pub_bytes_received (length (publish_payload publish)) m))) (\<lambda>_.
     andthen (look (\<lambda>env w. (state_config (world_state w), conn_topic_alias (world_conn w)))) (\<lambda>(config, aliases).
     case publish_refusal config publish of
       Some reason_code \<Rightarrow> disconnect_because reason_code
     | None \<Rightarrow>
         (case resolve_topic_alias publish aliases of
            None \<Rightarrow> disconnect_because DisconnectReasonCode.ProtocolError
          | Some (topic, aliases) \<Rightarrow>
              andthen (update_conn (\<lambda>c. c\<lparr>conn_topic_alias := aliases\<rparr>)) (\<lambda>_.
              process_publish client_id topic publish)))))"

subsection \<open>Acknowledgements\<close>

text \<open>An inflight packet of the client, if it is the oldest one.\<close>

definition oldest_inflight :: "string \<Rightarrow> u16 \<Rightarrow> bool \<Rightarrow> ('r, 'w, Publish option) action" where
  "oldest_inflight client_id packet_id remove =
     try_storage (Storage_get_inflight_pub_packets client_id packet_id remove)"

definition handle_pub_ack :: "PubAck \<Rightarrow> ('r, 'w, unit) action" where
  "handle_pub_ack pub_ack =
     andthen require_client_id (\<lambda>client_id.
     andthen (oldest_inflight client_id (puback_packet_id pub_ack) True) (\<lambda>res.
     case res of
       Some _ \<Rightarrow> update_conn (\<lambda>c. c\<lparr>conn_receive_out_quota := conn_receive_out_quota c + 1\<rparr>)
     | None \<Rightarrow> disconnect_because DisconnectReasonCode.ProtocolError))"

definition send_pub_rel :: "u16 \<Rightarrow> PubRelReasonCode \<Rightarrow> ('r, 'w, unit) action" where
  "send_pub_rel packet_id reason_code = send_packet (Packet.PubRel
     \<lparr>pubrel_packet_id = packet_id, pubrel_reason_code = reason_code,
      pubrel_properties = PubRelProperties_default\<rparr>)"

definition handle_pub_rec :: "PubRec \<Rightarrow> ('r, 'w, unit) action" where
  "handle_pub_rec pub_rec =
     (let packet_id = pubrec_packet_id pub_rec in
      andthen require_client_id (\<lambda>client_id.
      andthen (look (\<lambda>env w. (conn_inflight_qos2_messages (world_conn w) packet_id,
        codec_level (conn_codec (world_conn w))))) (\<lambda>(qos2_state, level).
      if qos2_state \<noteq> Some Published then disconnect_because DisconnectReasonCode.ProtocolError
      else
        andthen (update_conn (\<lambda>c. c\<lparr>conn_inflight_qos2_messages :=
          (conn_inflight_qos2_messages c)(packet_id \<mapsto> Recorded)\<rparr>)) (\<lambda>_.
        if \<not> PubRecReasonCode_is_success (pubrec_reason_code pub_rec) then
          andthen (oldest_inflight client_id packet_id True) (\<lambda>res.
          if res = None then disconnect_because DisconnectReasonCode.ProtocolError else finish ())
        else
          andthen (oldest_inflight client_id packet_id False) (\<lambda>res.
          case res of
            Some _ \<Rightarrow> send_pub_rel packet_id PubRelReasonCode.Success
          | None \<Rightarrow>
              if level = V5 then send_pub_rel packet_id PubRelReasonCode.PacketIdentifierNotFound
              else disconnect_because DisconnectReasonCode.ProtocolError)))))"

definition send_pub_comp :: "u16 \<Rightarrow> PubCompReasonCode \<Rightarrow> ('r, 'w, unit) action" where
  "send_pub_comp packet_id reason_code = send_packet (Packet.PubComp
     \<lparr>pubcomp_packet_id = packet_id, pubcomp_reason_code = reason_code,
      pubcomp_properties = PubCompProperties_default\<rparr>)"

definition handle_pub_rel :: "PubRel \<Rightarrow> ('r, 'w, unit) action" where
  "handle_pub_rel pub_rel =
     (let packet_id = pubrel_packet_id pub_rel in
      andthen require_client_id (\<lambda>_.
      andthen (look (\<lambda>env w. world_conn w)) (\<lambda>conn.
      andthen (update_conn (\<lambda>c. c\<lparr>conn_uncompleted_messages :=
        (conn_uncompleted_messages c)(packet_id := None)\<rparr>)) (\<lambda>_.
      case conn_uncompleted_messages conn packet_id of
        Some msg \<Rightarrow>
          if \<not> PubRelReasonCode_is_success (pubrel_reason_code pub_rel) then finish ()
          else
            andthen (deliver_one msg) (\<lambda>_.
            andthen (send_pub_comp packet_id PubCompReasonCode.Success) (\<lambda>_.
            update_conn (\<lambda>c. c\<lparr>conn_receive_in_quota := conn_receive_in_quota c + 1\<rparr>)))
      | None \<Rightarrow>
          if codec_level (conn_codec conn) = V5
          then send_pub_comp packet_id PubCompReasonCode.PacketIdentifierNotFound
          else disconnect_because DisconnectReasonCode.ProtocolError))))"

subsection \<open>Sending queued messages\<close>

definition deliver_publish :: "string \<Rightarrow> Publish \<Rightarrow> ('r, 'w, unit) action" where
  "deliver_publish client_id publish =
     andthen (look (\<lambda>env w. PacketIdAllocator_take (conn_packet_id_allocator (world_conn w)))) (\<lambda>(packet_id, allocator).
     let publish = publish\<lparr>publish_packet_id := Some packet_id\<rparr>
     in andthen (update_conn (\<lambda>c. c\<lparr>conn_packet_id_allocator := allocator,
          conn_receive_out_quota := conn_receive_out_quota c - 1\<rparr>)) (\<lambda>_.
        andthen (try_storage (\<lambda>st. map_option (\<lambda>st. ((), st))
          (Storage_add_inflight_pub_packet client_id publish st))) (\<lambda>_.
        andthen (update_conn (\<lambda>c. c\<lparr>conn_inflight_qos2_messages :=
          (conn_inflight_qos2_messages c)(packet_id \<mapsto> Published)\<rparr>)) (\<lambda>_.
        send_packet (Packet.Publish publish)))))"

definition delive :: "Message \<Rightarrow> ('r, 'w, unit) action" where
  "delive msg =
     andthen (look (\<lambda>env w. (conn_client_id (world_conn w), conn_uid (world_conn w), env_now env)))
       (\<lambda>(conn_id, uid, now).
     case conn_id of
       None \<Rightarrow> finish ()
     | Some client_id \<Rightarrow>
         (case Message_to_publish_and_update_expiry_interval now msg of
            None \<Rightarrow> finish ()
          | Some publish \<Rightarrow>
              andthen (update_state (call_plugins (OnMessageDelivered client_id uid (message_from_client_id msg)
                (message_from_uid msg) (message_topic msg) (message_qos msg) (message_retain msg)
                (message_payload msg)))) (\<lambda>_.
              andthen (update_metrics (inc_pub_msgs_sent 1)) (\<lambda>_.
              if publish_qos publish = AtMostOnce then send_packet (Packet.Publish publish)
              else deliver_publish client_id publish))))"

definition handle_notified :: "('r, 'w, unit) action" where
  "handle_notified =
     andthen (look (\<lambda>env w. (conn_client_id (world_conn w), conn_receive_out_quota (world_conn w), env_now env)))
       (\<lambda>(conn_id, quota, now).
     case conn_id of
       None \<Rightarrow> finish ()
     | Some client_id \<Rightarrow>
         if quota = 0 then finish ()
         else
           andthen (try_storage (Storage_next_messages client_id (Some (unat quota)))) (\<lambda>msgs.
           if length msgs > unat quota then panic
           else loop_over (\<lambda>msg. if Message_is_expired now msg then finish () else delive msg) msgs))"

definition handle_pub_comp :: "PubComp \<Rightarrow> ('r, 'w, unit) action" where
  "handle_pub_comp pub_comp =
     (let packet_id = pubcomp_packet_id pub_comp in
      andthen require_client_id (\<lambda>client_id.
      andthen (look (\<lambda>env w. conn_inflight_qos2_messages (world_conn w) packet_id)) (\<lambda>qos2_state.
      andthen (update_conn (\<lambda>c. c\<lparr>conn_inflight_qos2_messages :=
        (conn_inflight_qos2_messages c)(packet_id := None)\<rparr>)) (\<lambda>_.
      if qos2_state \<noteq> Some Recorded then disconnect_because DisconnectReasonCode.ProtocolError
      else
        andthen (oldest_inflight client_id packet_id True) (\<lambda>res.
        case res of
          Some _ \<Rightarrow>
            andthen (update_conn (\<lambda>c. c\<lparr>conn_receive_out_quota := conn_receive_out_quota c + 1\<rparr>)) (\<lambda>_.
            handle_notified)
        | None \<Rightarrow> finish ())))))"

subsection \<open>SUBSCRIBE and UNSUBSCRIBE\<close>

definition granted_code :: "Qos \<Rightarrow> SubscribeReasonCode" where
  "granted_code qos = (case qos of
     AtMostOnce \<Rightarrow> SubscribeReasonCode.QoS0 | AtLeastOnce \<Rightarrow> SubscribeReasonCode.QoS1
   | ExactlyOnce \<Rightarrow> SubscribeReasonCode.QoS2)"

text \<open>One filter of a SUBSCRIBE: its reason code.\<close>

definition subscribe_one :: "string \<Rightarrow> nat option \<Rightarrow> SubscribeFilter \<Rightarrow> ('r, 'w, SubscribeReasonCode) action" where
  "subscribe_one client_id i s =
     andthen (look (\<lambda>env w. (state_config (world_state w), conn_uid (world_conn w), env_now env)))
       (\<lambda>(config, uid, now).
     case parse_filter (filter_path s) of
       None \<Rightarrow> finish SubscribeReasonCode.TopicFilterInvalid
     | Some f \<Rightarrow>
         if share_name f \<noteq> None \<and> filter_no_local s
         then disconnect_because DisconnectReasonCode.ProtocolError
         else if \<not> config_wildcard_subscription_available config \<and> has_wildcards (path f)
         then finish SubscribeReasonCode.WildcardSubscriptionsNotSupported
         else
           andthen (check_acl SubscribeAction (path f)) (\<lambda>_.
           let qos = min (filter_qos s) (config_maximum_qos config)
           in andthen (update_state (call_plugins (OnSessionSubscribed client_id uid (filter_path s) qos))) (\<lambda>_.
              andthen (update_storage (Storage_subscribe now client_id f (item_of s i))) (\<lambda>_.
              finish (granted_code qos)))))"

definition handle_subscribe :: "Subscribe \<Rightarrow> ('r, 'w, unit) action" where
  "handle_subscribe subscribe =
     andthen require_client_id (\<lambda>client_id.
     andthen (loop_collect (subscribe_one client_id (subprop_id (subscribe_properties subscribe)))
       (subscribe_filters subscribe)) (\<lambda>reason_codes.
     send_packet (Packet.SubAck \<lparr>suback_packet_id = subscribe_packet_id subscribe,
       suback_reason_codes = reason_codes, suback_properties = SubAckProperties_default\<rparr>)))"

definition unsubscribe_one :: "string \<Rightarrow> string \<Rightarrow> ('r, 'w, UnsubAckReasonCode) action" where
  "unsubscribe_one client_id p =
     (case parse_filter p of
        None \<Rightarrow> finish UnsubAckReasonCode.TopicFilterInvalid
      | Some f \<Rightarrow>
          andthen (look (\<lambda>env w. conn_uid (world_conn w))) (\<lambda>uid.
          andthen (update_state (call_plugins (OnSessionUnsubscribed client_id uid p))) (\<lambda>_.
          andthen (with_storage (Storage_unsubscribe client_id f)) (\<lambda>existed.
          finish (if existed then UnsubAckReasonCode.Success
            else UnsubAckReasonCode.NoSubscriptionExisted)))))"

definition handle_unsubscribe :: "Unsubscribe \<Rightarrow> ('r, 'w, unit) action" where
  "handle_unsubscribe unsubscribe =
     andthen require_client_id (\<lambda>client_id.
     andthen (loop_collect (unsubscribe_one client_id) (unsubscribe_filters unsubscribe)) (\<lambda>reason_codes.
     send_packet (Packet.UnsubAck \<lparr>unsuback_packet_id = unsubscribe_packet_id unsubscribe,
       unsuback_reason_codes = reason_codes, unsuback_properties = UnsubAckProperties_default\<rparr>)))"

subsection \<open>The other packets\<close>

definition handle_ping_req :: "('r, 'w, unit) action" where
  "handle_ping_req = send_packet Packet.PingResp"

definition handle_disconnect :: "Disconnect \<Rightarrow> ('r, 'w, unit) action" where
  "handle_disconnect disconnect =
     andthen (if disconnect_reason_code disconnect = DisconnectReasonCode.NormalDisconnection
       then update_conn (\<lambda>c. c\<lparr>conn_last_will := None\<rparr>) else finish ()) (\<lambda>_.
     andthen (case disconnectprop_session_expiry_interval (disconnect_properties disconnect) of
         Some session_expiry_interval \<Rightarrow>
           update_conn (\<lambda>c. c\<lparr>conn_session_expiry_interval := session_expiry_interval\<rparr>)
       | None \<Rightarrow> finish ()) (\<lambda>_.
     fail (ClientDisconnect disconnect)))"

definition handle_control :: "Control \<Rightarrow> ('r, 'w, unit) action" where
  "handle_control control =
     andthen (update_conn (\<lambda>c. c\<lparr>conn_client_id := None\<rparr>)) (\<lambda>_.
     andthen (update_metrics (dec_connection_count 1)) (\<lambda>_.
     fail SessionTakenOver))"

definition handle_packet :: "Packet \<Rightarrow> ('r, 'w, unit) action" where
  "handle_packet packet =
     (case packet of
        Packet.Connect connect \<Rightarrow> handle_connect connect
      | Packet.Publish publish \<Rightarrow> handle_publish publish
      | Packet.PubAck pub_ack \<Rightarrow> handle_pub_ack pub_ack
      | Packet.PubRec pub_rec \<Rightarrow> handle_pub_rec pub_rec
      | Packet.PubRel pub_rel \<Rightarrow> handle_pub_rel pub_rel
      | Packet.PubComp pub_comp \<Rightarrow> handle_pub_comp pub_comp
      | Packet.Subscribe subscribe \<Rightarrow> handle_subscribe subscribe
      | Packet.Unsubscribe unsubscribe \<Rightarrow> handle_unsubscribe unsubscribe
      | Packet.PingReq \<Rightarrow> handle_ping_req
      | Packet.Disconnect disconnect \<Rightarrow> handle_disconnect disconnect
      | _ \<Rightarrow> disconnect_because DisconnectReasonCode.ProtocolError)"

subsection \<open>The loop\<close>

text \<open>
  A turn of the \<open>select!\<close>: a tick of the timer, a packet, a control or a notification. Its result
  is whether the loop goes on. The packet branch runs \<open>decode\<close> to its end; what a \<open>decode\<close> that
  another branch has interrupted had read is kept in the codec.
\<close>

datatype event = Tick | Decode | Receive Control | Notified

definition tick :: "('r, 'w, bool) action" where
  "tick = andthen (look (\<lambda>env w. (conn_keep_alive (world_conn w), env_instant env - conn_last_active (world_conn w))))
     (\<lambda>(keep_alive, elapsed).
     if keep_alive > 0 \<and> as_secs elapsed > unat keep_alive * 3 div 2 then
       andthen (attempt (send_disconnect DisconnectReasonCode.KeepAliveTimeout None)) (\<lambda>_. finish False)
     else finish True)"

definition decode_packet :: "('r, 'w, DecodeError + (Packet \<times> nat) option) action" where
  "decode_packet = (\<lambda>env w.
     let conn = world_conn w;
         (res, reader, codec) = Codec_decode (env_read env) (conn_reader conn) (conn_codec conn)
     in (Finished res, w\<lparr>world_conn := conn\<lparr>conn_reader := reader, conn_codec := codec\<rparr>\<rparr>))"

text \<open>What the loop does with the error of a handler: it always ends.\<close>

definition close_on :: "Error \<Rightarrow> ('r, 'w, unit) action" where
  "close_on e = (case e of
     InternalError _ \<Rightarrow> attempt (send_disconnect DisconnectReasonCode.UnspecifiedError None)
   | ServerDisconnect (Some disconnect) \<Rightarrow> attempt (send_packet (Packet.Disconnect disconnect))
   | _ \<Rightarrow> finish ())"

text \<open>\<open>match m { Ok(_) => {} Err(e) => { h(e); break } }\<close>.\<close>

definition or_close :: "('r, 'w, unit) action \<Rightarrow> (Error \<Rightarrow> ('r, 'w, unit) action) \<Rightarrow> ('r, 'w, bool) action" where
  "or_close m h = (\<lambda>env w. case m env w of
      (Finished _, w) \<Rightarrow> (Finished True, w)
    | (Failed e, w) \<Rightarrow> andthen (h e) (\<lambda>_. finish False) env w
    | (Panicked, w) \<Rightarrow> (Panicked, w)
    | (Aborted, w) \<Rightarrow> (Aborted, w))"

definition receive_packet :: "('r, 'w, bool) action" where
  "receive_packet =
     andthen decode_packet (\<lambda>res.
     case res of
       Inr (Some (packet, packet_size)) \<Rightarrow>
         andthen (update_metrics (\<lambda>m. inc_msgs_received 1 (inc_bytes_received packet_size m))) (\<lambda>_.
         andthen (look (\<lambda>env w. env_instant env)) (\<lambda>now.
         andthen (update_conn (\<lambda>c. c\<lparr>conn_last_active := now\<rparr>)) (\<lambda>_.
         or_close (handle_packet packet) close_on)))
     | Inr None \<Rightarrow> finish False
     | Inl DecodeError.PacketTooLarge \<Rightarrow>
         andthen (attempt (send_disconnect DisconnectReasonCode.PacketTooLarge None)) (\<lambda>_. finish False)
     | Inl _ \<Rightarrow> finish False)"

definition receive_control :: "Control \<Rightarrow> ('r, 'w, bool) action" where
  "receive_control control = or_close (handle_control control) (\<lambda>e.
     case e of
       SessionTakenOver \<Rightarrow> attempt (send_disconnect DisconnectReasonCode.SessionTakenOver None)
     | _ \<Rightarrow> finish ())"

text \<open>The permit of the session's \<open>Notify\<close> is taken by \<open>notified()\<close>.\<close>

definition take_permit :: "('r, 'w, unit) action" where
  "take_permit = andthen (look (\<lambda>env w. conn_client_id (world_conn w))) (\<lambda>conn_id.
     case conn_id of
       None \<Rightarrow> finish ()
     | Some client_id \<Rightarrow> update_storage (modify_session client_id (\<lambda>s. s\<lparr>session_notify := False\<rparr>)))"

definition loop_turn :: "event \<Rightarrow> ('r, 'w, bool) action" where
  "loop_turn ev = (case ev of
     Tick \<Rightarrow> tick
   | Decode \<Rightarrow> receive_packet
   | Receive control \<Rightarrow> receive_control control
   | Notified \<Rightarrow> andthen take_permit (\<lambda>_. or_close handle_notified (\<lambda>_. finish ())))"

definition Connection_new :: "RemoteAddr \<Rightarrow> nat \<Rightarrow> nat \<Rightarrow> 'r \<Rightarrow> 'w \<Rightarrow> ('r, 'w) Connection" where
  "Connection_new remote_addr control_sender now reader writer = \<lparr>conn_remote_addr = remote_addr,
     conn_client_id = None, conn_control_sender = control_sender, conn_uid = None,
     conn_codec = Codec_new, conn_reader = reader, conn_writer = writer,
     conn_session_expiry_interval = 0, conn_receive_in_max = 0, conn_receive_out_max = 0,
     conn_receive_in_quota = 0, conn_receive_out_quota = 0, conn_max_topic_alias = 0,
     conn_topic_alias = (\<lambda>_. None), conn_keep_alive = 60, conn_last_active = now,
     conn_last_will = None, conn_packet_id_allocator = PacketIdAllocator_default,
     conn_inflight_qos2_messages = (\<lambda>_. None), conn_uncompleted_messages = (\<lambda>_. None)\<rparr>"

text \<open>What follows the loop.\<close>

definition close_connection :: "('r, 'w, unit) action" where
  "close_connection =
     andthen (look (\<lambda>env w. (world_conn w, env_instant env))) (\<lambda>(conn, now).
     andthen (case conn_client_id conn of
         None \<Rightarrow> finish ()
       | Some client_id \<Rightarrow>
           andthen (update_state (\<lambda>s. s\<lparr>state_connections := AList.delete client_id (state_connections s)\<rparr>)) (\<lambda>_.
           andthen (update_metrics (dec_connection_count 1)) (\<lambda>_.
           andthen (update_storage (Storage_disconnect_session now client_id (conn_session_expiry_interval conn))) (\<lambda>_.
           update_state (call_plugins (OnClientDisconnected client_id (conn_uid conn))))))) (\<lambda>_.
     update_metrics (dec_socket_connections 1)))"

text \<open>The connection for a given sequence of turns: it is still open after them (\<open>True\<close>) or it
  has been closed.\<close>

primrec run_turns :: "(('r, 'w) Env \<times> event) list \<Rightarrow> ('r, 'w) World \<Rightarrow> (Error, bool) outcome \<times> ('r, 'w) World" where
  "run_turns [] w = (Finished True, w)"
| "run_turns (turn # turns) w =
     (case loop_turn (snd turn) (fst turn) w of
        (Finished True, w) \<Rightarrow> run_turns turns w
      | (Finished False, w) \<Rightarrow> andthen close_connection (\<lambda>_. finish False) (fst turn) w
      | r \<Rightarrow> r)"

definition client_loop ::
  "RemoteAddr \<Rightarrow> nat \<Rightarrow> 'r \<Rightarrow> 'w \<Rightarrow> nat \<Rightarrow> (('r, 'w) Env \<times> event) list \<Rightarrow> ServiceState
   \<Rightarrow> (Error, bool) outcome \<times> ('r, 'w) World" where
  "client_loop remote_addr control_sender reader writer now turns state =
     run_turns turns \<lparr>world_conn = Connection_new remote_addr control_sender now reader writer,
       world_state = state\<lparr>state_service_metrics :=
         inc_socket_connections 1 (state_service_metrics state)\<rparr>\<rparr>"

end
