(* ===== verification/Client_Actions.thy ===== *)
theory Client_Actions
  imports Client_Loop Storage_Runs
begin

text \<open>
  Evaluation and triples for the actions of a connection, and what sending a packet changes.
\<close>

lemma act_simps [act]:
  "disconnect_because r env w = (Failed (Error_server_disconnect r), w)"
  "update_conn f env w = (Finished (), w\<lparr>world_conn := f (world_conn w)\<rparr>)"
  "update_state h env w = (Finished (), w\<lparr>world_state := h (world_state w)\<rparr>)"
  "update_storage k env w = (Finished (), w\<lparr>world_state := (world_state w)\<lparr>state_storage := k (state_storage (world_state w))\<rparr>\<rparr>)"
  "update_metrics l env w = (Finished (), w\<lparr>world_state := (world_state w)\<lparr>state_service_metrics := l (state_service_metrics (world_state w))\<rparr>\<rparr>)"
  by (simp_all add: act disconnect_because_def update_conn_def
      update_state_def update_storage_def update_metrics_def)

lemma safe_disconnect: "(\<And>w. P w \<Longrightarrow> F w) \<Longrightarrow> safe P (disconnect_because r) Q F"
  by (simp add: safe_def act)

lemma safe_conn: "(\<And>w. P w \<Longrightarrow> Q () (w\<lparr>world_conn := f (world_conn w)\<rparr>)) \<Longrightarrow> safe P (update_conn f) Q F"
  by (simp add: safe_def act)

lemma safe_state: "(\<And>w. P w \<Longrightarrow> Q () (w\<lparr>world_state := f (world_state w)\<rparr>)) \<Longrightarrow> safe P (update_state f) Q F"
  by (simp add: safe_def act)

subsection \<open>Sending\<close>

text \<open>Sending touches the codec, the transport and the counters only.\<close>

definition sends :: "('r, 'w) World \<Rightarrow> ('r, 'w) World \<Rightarrow> bool" where
  "sends w w' \<longleftrightarrow> (\<exists>writer codec metrics. codec_level codec = codec_level (conn_codec (world_conn w)) \<and>
     w' = w\<lparr>world_conn := (world_conn w)\<lparr>conn_writer := writer, conn_codec := codec\<rparr>,
       world_state := (world_state w)\<lparr>state_service_metrics := metrics\<rparr>\<rparr>)"

lemma send_packet_sends:
  assumes "\<And>connect. packet \<noteq> Packet.Connect connect"
  shows "(fst (send_packet packet env w) = Finished () \<or> (\<exists>e. fst (send_packet packet env w) = Failed e)) \<and>
    sends w (snd (send_packet packet env w))"
proof -
  obtain res writer codec where enc: "Codec_encode (env_write_all env) packet
      (conn_writer (world_conn w)) (conn_codec (world_conn w)) = (res, writer, codec)"
    using prod_cases3 by blast
  have level: "codec_level codec = codec_level (conn_codec (world_conn w))"
    using enc assms by (auto simp: Codec_encode_def Let_def split: Packet.splits prod.splits sum.splits)
  have same: "world_state w\<lparr>state_service_metrics := state_service_metrics (world_state w)\<rparr> = world_state w"
    by simp
  have "sends w (w\<lparr>world_conn := (world_conn w)\<lparr>conn_writer := writer, conn_codec := codec\<rparr>\<rparr>)"
    unfolding sends_def using level
    by (intro exI [of _ writer] exI [of _ codec] exI [of _ "state_service_metrics (world_state w)"]) simp
  moreover have "sends w (w\<lparr>world_conn := (world_conn w)\<lparr>conn_writer := writer, conn_codec := codec\<rparr>,
      world_state := (world_state w)\<lparr>state_service_metrics := m\<rparr>\<rparr>)" for m
    unfolding sends_def using level by blast
  ultimately show ?thesis
    by (cases res) (auto simp: send_packet_def encode_packet_def act enc split: EncodeError.split)
qed

lemma safe_send:
  assumes "\<And>w w'. P w \<Longrightarrow> sends w w' \<Longrightarrow> Q () w' \<and> F w'" "\<And>connect. packet \<noteq> Packet.Connect connect"
  shows "safe P (send_packet packet) Q F"
proof (rule safeI)
  fix env w assume P: "P w"
  obtain r w' where r: "send_packet packet env w = (r, w')" by force
  have "r = Finished () \<or> (\<exists>e. r = Failed e)" "sends w w'"
    using send_packet_sends [OF assms(2), of env w] unfolding r by simp_all
  then show "post Q F (send_packet packet env w)"
    using assms(1) [OF P] unfolding r by auto
qed

end
