(* ===== verification/Client_Safety.thy ===== *)
theory Client_Safety
  imports Client_Actions
begin

text \<open>
  The handlers of a client that is logged in, in the locale \<open>storage_client\<close>: they keep any
  property of the storage that the operations of this client keep, they do not panic, and the
  connection stays logged in under the same name until it is closed.
\<close>

subsection \<open>Rules for what handlers read\<close>

lemma safe_look_then:
  assumes "\<And>env w. P w \<Longrightarrow> B (g env w)" "\<And>x. B x \<Longrightarrow> safe P (f x) Q F"
  shows "safe P (andthen (look g) f) Q F"
proof (rule safeI)
  fix env w assume "P w"
  then have "post Q F (f (g env w) env w)" by (intro safeD [OF assms(2)] assms(1))
  then show "post Q F (andthen (look g) f env w)" by (simp add: act)
qed

lemma safe_try_then:
  assumes "\<And>w. P w \<Longrightarrow> op (state_storage (world_state w)) \<noteq> None"
    and "\<And>w x st. P w \<Longrightarrow> op (state_storage (world_state w)) = Some (x, st) \<Longrightarrow>
      B x \<and> P (w\<lparr>world_state := (world_state w)\<lparr>state_storage := st\<rparr>\<rparr>)"
    and "\<And>x. B x \<Longrightarrow> safe P (f x) Q F"
  shows "safe P (andthen (try_storage op) f) Q F"
proof (rule safeI)
  fix env w assume P: "P w"
  then obtain x st where op: "op (state_storage (world_state w)) = Some (x, st)" using assms(1) by fastforce
  show "post Q F (andthen (try_storage op) f env w)"
    using assms(2) [OF P op] by (auto simp: andthen_app try_storage_def op intro: safeD [OF assms(3)])
qed

lemma safe_with_storage:
  assumes "\<And>w. P w \<Longrightarrow> Q (fst (op (state_storage (world_state w))))
      (w\<lparr>world_state := (world_state w)\<lparr>state_storage := snd (op (state_storage (world_state w)))\<rparr>\<rparr>)"
  shows "safe P (with_storage op) Q F"
  using assms by (intro safeI) (simp add: with_storage_def case_prod_unfold Let_def)

lemma safe_update_metrics:
  "(\<And>w m. P w \<Longrightarrow> Q () (w\<lparr>world_state := (world_state w)\<lparr>state_service_metrics := m\<rparr>\<rparr>)) \<Longrightarrow> safe P (update_metrics f) Q F"
  by (intro safeI) (simp add: act)

lemma safe_update_storage:
  "(\<And>w. P w \<Longrightarrow> Q () (w\<lparr>world_state := (world_state w)\<lparr>state_storage := f (state_storage (world_state w))\<rparr>\<rparr>)) \<Longrightarrow>
    safe P (update_storage f) Q F"
  by (intro safeI) (simp add: act)

subsection \<open>The interface to the storage\<close>

text \<open>No plugin answers \<open>auth\<close> with an error, which would end the process.\<close>

definition auth_ok :: "Plugin list \<Rightarrow> bool" where
  "auth_ok plugins \<longleftrightarrow> (\<forall>plugin \<in> set plugins. \<forall>user pass err. plugin_auth plugin user pass \<noteq> Inl err)"

lemma auth_ok_plugins: "auth_ok plugins \<Longrightarrow> auth_plugins plugins login \<noteq> Inl err"
  by (induction plugins) (auto simp: auth_ok_def split: sum.split option.split)

definition logged_in :: "string \<Rightarrow> (Storage \<Rightarrow> bool) \<Rightarrow> (string \<Rightarrow> bool) \<Rightarrow> ('r, 'w) World \<Rightarrow> bool" where
  "logged_in c P ok w \<longleftrightarrow> conn_client_id (world_conn w) = Some c \<and> P (state_storage (world_state w)) \<and>
     (\<forall>i topic. conn_topic_alias (world_conn w) i = Some topic \<longrightarrow> valid_topic topic) \<and>
     (\<forall>topic. valid_topic topic \<longrightarrow> ok (ServiceState_rewrite topic (world_state w))) \<and>
     auth_ok (state_plugins (world_state w))"

locale storage_client =
  fixes P :: "Storage \<Rightarrow> bool" and c :: string and ok :: "string \<Rightarrow> bool"
  assumes has_session: "P st \<Longrightarrow> session_of st c \<noteq> None"
    and deliver: "P st \<Longrightarrow> P (Storage_deliver now pick msgs st)"
    and retain: "P st \<Longrightarrow> ok (message_topic msg) \<Longrightarrow> P (Storage_update_retained_message msg st)"
    and subscribe: "P st \<Longrightarrow> P (Storage_subscribe now c f item st)"
    and unsubscribe: "P st \<Longrightarrow> P (snd (Storage_unsubscribe c f st))"
    and next_messages: "P st \<Longrightarrow> Storage_next_messages c limit st = Some (msgs, st') \<Longrightarrow> P st'"
    and add_inflight: "P st \<Longrightarrow> Storage_add_inflight_pub_packet c publish st = Some st' \<Longrightarrow> P st'"
    and get_inflight: "P st \<Longrightarrow> Storage_get_inflight_pub_packets c packet_id remove st = Some (res, st') \<Longrightarrow> P st'"
    and permit: "P st \<Longrightarrow> P (modify_session c (\<lambda>s. s\<lparr>session_notify := False\<rparr>) st)"
begin

abbreviation L :: "('r, 'w) World \<Rightarrow> bool" where
  "L \<equiv> logged_in c P ok"

abbreviation keeps :: "('r, 'w, 'a) action \<Rightarrow> bool" where
  "keeps m \<equiv> safe L m (\<lambda>_. L) L"

lemma L_sends: "L w \<Longrightarrow> sends w w' \<Longrightarrow> L w'"
  by (auto simp: logged_in_def sends_def ServiceState_rewrite_def)

lemma L_storage: "L w \<Longrightarrow> P st \<Longrightarrow> L (w\<lparr>world_state := (world_state w)\<lparr>state_storage := st\<rparr>\<rparr>)"
  by (simp add: logged_in_def ServiceState_rewrite_def)

lemma L_P: "L w \<Longrightarrow> P (state_storage (world_state w))"
  by (simp add: logged_in_def)

lemma keeps_finish: "keeps (finish x)"
  by (rule safe_finish)

lemma keeps_disconnect: "keeps (disconnect_because r)"
  by (rule safe_disconnect)

lemma keeps_send:
  assumes "\<And>connect. packet \<noteq> Packet.Connect connect"
  shows "keeps (send_packet packet)"
  by (rule safe_send) (use L_sends assms in auto)

lemma keeps_metrics: "keeps (update_metrics f)"
  by (rule safe_update_metrics) (simp add: logged_in_def ServiceState_rewrite_def)

lemma keeps_calls: "keeps (update_state (call_plugins call))"
  by (rule safe_state) (simp add: logged_in_def ServiceState_rewrite_def call_plugins_def)

text \<open>An update of the connection that keeps its name and its aliases.\<close>

lemma keeps_conn:
  assumes "\<And>conn. conn_client_id (f conn) = conn_client_id conn" "\<And>conn. conn_topic_alias (f conn) = conn_topic_alias conn"
  shows "keeps (update_conn f)"
  by (rule safe_conn) (simp add: logged_in_def assms)

lemma keeps_storage:
  assumes "\<And>st. P st \<Longrightarrow> P (f st)"
  shows "keeps (update_storage f)"
  by (rule safe_update_storage) (use assms L_storage L_P in blast)

lemma keeps_then: "keeps m \<Longrightarrow> (\<And>x. keeps (f x)) \<Longrightarrow> keeps (andthen m f)"
  by (rule safe_andthen)

lemma keeps_look: "(\<And>x. keeps (f x)) \<Longrightarrow> keeps (andthen (look g) f)"
  by (rule safe_look_then [where B = "\<lambda>_. True"]) simp_all

lemma keeps_client: "keeps (f c) \<Longrightarrow> keeps (andthen require_client_id f)"
  by (rule safeI) (auto simp: require_client_id_def andthen_app logged_in_def dest!: safeD [where m = "f c"])

lemma keeps_inflight:
  assumes "\<And>res. keeps (f res)"
  shows "keeps (andthen (oldest_inflight c packet_id remove) f)"
  unfolding oldest_inflight_def
proof (rule safe_try_then [where B = "\<lambda>_. True"])
  fix w :: "('r, 'w) World" assume w: "L w"
  show "Storage_get_inflight_pub_packets c packet_id remove (state_storage (world_state w)) \<noteq> None"
    using has_session [OF L_P [OF w]] by (simp add: Storage_get_inflight_pub_packets_def split: option.split)
  show "True \<and> L (w\<lparr>world_state := (world_state w)\<lparr>state_storage := st\<rparr>\<rparr>)"
    if "Storage_get_inflight_pub_packets c packet_id remove (state_storage (world_state w)) = Some (x, st)" for x st
    using L_storage [OF w get_inflight [OF L_P [OF w] that]] by simp
qed (rule assms)

lemma keeps_deliver: "keeps (deliver_one msg)"
  unfolding deliver_one_def by (intro keeps_look) (auto intro!: keeps_storage deliver)

subsection \<open>PUBLISH\<close>

lemma keeps_acl: "keeps (check_acl action topic)"
  by (rule safeI) (auto simp: check_acl_def act split: sum.split)

lemma keeps_unwrap: "packet_id \<noteq> None \<Longrightarrow> keeps (unwrap_id packet_id)"
  by (auto simp: unwrap_id_def keeps_finish)

lemma keeps_publish_message:
  assumes "message_qos msg \<noteq> AtMostOnce \<Longrightarrow> packet_id \<noteq> None"
  shows "keeps (publish_message packet_id msg)"
proof (cases "packet_id = None")
  case True
  then have "message_qos msg = AtMostOnce" using assms by blast
  then show ?thesis by (simp add: publish_message_def keeps_deliver)
next
  case False
  then show ?thesis
    unfolding publish_message_def publish_exactly_once_def send_pub_rec_def
    by (cases "message_qos msg") (auto intro!: keeps_look keeps_deliver keeps_then keeps_send keeps_unwrap
        keeps_metrics keeps_disconnect keeps_conn)
qed

lemma topic_of_alias:
  assumes "publish_refusal config publish = None" "\<forall>i topic. aliases i = Some topic \<longrightarrow> valid_topic topic"
    and "resolve_topic_alias publish aliases = Some (topic, aliases')"
  shows "valid_topic topic \<and> (\<forall>i topic. aliases' i = Some topic \<longrightarrow> valid_topic topic)"
proof -
  have "valid_topic (publish_topic publish)" if "publish_topic publish \<noteq> []"
    using assms(1) that by (auto simp: publish_refusal_def Let_def split: if_splits)
  with assms(2,3) show ?thesis
    by (auto simp: resolve_topic_alias_def split: option.splits if_splits)
qed

text \<open>\<open>publish_refusal\<close> has checked that there is an identifier where \<open>unwrap\<close> takes it.\<close>

lemma refusal_packet_id:
  "publish_refusal config publish = None \<Longrightarrow> publish_qos publish \<noteq> AtMostOnce \<Longrightarrow> publish_packet_id publish \<noteq> None"
  by (cases "publish_qos publish") (auto simp: publish_refusal_def Let_def less_Qos_def split: if_splits)

lemma message_of_publish_fields:
  "message_topic (message_of_publish now client_id uid publish) = publish_topic publish"
  "message_qos (message_of_publish now client_id uid publish) = publish_qos publish"
  by (simp_all add: message_of_publish_def Message_from_publish_def Message_new_def Message_with_properties_def
      Message_with_retain_def Message_with_from_client_id_def Message_with_from_uid_def Let_def split: option.split)

lemma keeps_process_publish:
  assumes "valid_topic topic" "publish_refusal config publish = None"
  shows "keeps (process_publish c topic publish)"
  unfolding process_publish_def
proof (rule keeps_then [OF keeps_acl], rule safe_look_then [where B = "\<lambda>(now, t, uid). ok t"])
  fix x :: "system_time \<times> string \<times> string option"
  assume "case x of (now, t, uid) \<Rightarrow> ok t"
  moreover obtain now t uid where x: "x = (now, t, uid)" by (cases x) auto
  moreover have "keeps (publish_message (publish_packet_id publish)
      (message_of_publish now c uid (publish\<lparr>publish_topic := t\<rparr>)))"
    using refusal_packet_id [OF assms(2)] by (intro keeps_publish_message) (simp add: message_of_publish_fields)
  ultimately show "keeps (case x of (now, topic, uid) \<Rightarrow>
     let publish = publish\<lparr>publish_topic := topic\<rparr>;
         msg = message_of_publish now c uid publish
     in andthen (if publish_retain publish
         then update_storage (Storage_update_retained_message msg) else finish ()) (\<lambda>_.
        andthen (update_state (call_plugins (OnMessagePublish c uid (message_topic msg)
          (message_qos msg) (message_retain msg) (message_payload msg)))) (\<lambda>_.
        publish_message (publish_packet_id publish) msg)))"
    by (auto simp: Let_def intro!: keeps_then keeps_calls keeps_finish keeps_storage retain
        simp: message_of_publish_fields)
qed (use assms(1) in \<open>simp add: logged_in_def\<close>)

lemma keeps_handle_publish: "keeps (handle_publish publish)"
  unfolding handle_publish_def
proof (rule keeps_client, rule keeps_then [OF keeps_metrics], rule safe_look_then
    [where B = "\<lambda>(config, aliases). \<forall>i topic. aliases i = Some topic \<longrightarrow> valid_topic topic"])
  fix x :: "ServiceConfig \<times> (u16 \<Rightarrow> string option)"
  assume aliases: "case x of (config, aliases) \<Rightarrow> \<forall>i topic. aliases i = Some topic \<longrightarrow> valid_topic topic"
  obtain config aliases where x: "x = (config, aliases)" by force
  have "keeps (andthen (update_conn (\<lambda>c. c\<lparr>conn_topic_alias := aliases'\<rparr>)) (\<lambda>_. process_publish c topic publish))"
    if "publish_refusal config publish = None" "resolve_topic_alias publish aliases = Some (topic, aliases')"
    for topic aliases'
  proof -
    have t: "valid_topic topic" "\<forall>i topic. aliases' i = Some topic \<longrightarrow> valid_topic topic"
      using topic_of_alias [OF that(1) _ that(2)] aliases x by auto
    have "keeps (update_conn (\<lambda>c. c\<lparr>conn_topic_alias := aliases'\<rparr>))"
      using t(2) by (intro safe_conn) (simp add: logged_in_def ServiceState_rewrite_def)
    then show ?thesis by (rule keeps_then) (rule keeps_process_publish [OF t(1) that(1)])
  qed
  then show "keeps (case x of (config, aliases) \<Rightarrow>
     case publish_refusal config publish of
       Some reason_code \<Rightarrow> disconnect_because reason_code
     | None \<Rightarrow>
         (case resolve_topic_alias publish aliases of
            None \<Rightarrow> disconnect_because DisconnectReasonCode.ProtocolError
          | Some (topic, aliases) \<Rightarrow>
              andthen (update_conn (\<lambda>c. c\<lparr>conn_topic_alias := aliases\<rparr>)) (\<lambda>_.
              process_publish c topic publish)))"
    by (auto simp: x keeps_disconnect split: option.split)
qed (simp add: logged_in_def)

subsection \<open>The other packets\<close>

lemma keeps_handle_pub_ack: "keeps (handle_pub_ack pub_ack)"
  unfolding handle_pub_ack_def
  by (intro keeps_client keeps_inflight) (auto intro!: keeps_conn keeps_disconnect split: option.split)

lemma keeps_handle_pub_rec: "keeps (handle_pub_rec pub_rec)"
  unfolding handle_pub_rec_def Let_def
  by (rule keeps_client, rule keeps_look)
    (auto intro!: keeps_then [OF keeps_conn] keeps_inflight keeps_disconnect keeps_finish keeps_send
      simp: send_pub_rel_def split: option.split prod.split)

lemma keeps_handle_pub_rel: "keeps (handle_pub_rel pub_rel)"
  unfolding handle_pub_rel_def Let_def
  by (rule keeps_client, rule keeps_look)
    (auto intro!: keeps_then keeps_conn keeps_deliver keeps_disconnect keeps_finish keeps_send
      simp: send_pub_comp_def split: option.split)

lemma keeps_add_inflight:
  assumes "\<And>x. keeps (f x)"
  shows "keeps (andthen (try_storage (\<lambda>st. map_option (\<lambda>st. ((), st))
    (Storage_add_inflight_pub_packet c publish st))) f)"
proof (rule safe_try_then [where B = "\<lambda>_. True"])
  fix w :: "('r, 'w) World" assume w: "L w"
  show "map_option (\<lambda>st. ((), st)) (Storage_add_inflight_pub_packet c publish (state_storage (world_state w))) \<noteq> None"
    using has_session [OF L_P [OF w]] by (simp add: Storage_add_inflight_pub_packet_def split: option.split)
  show "True \<and> L (w\<lparr>world_state := (world_state w)\<lparr>state_storage := st\<rparr>\<rparr>)"
    if "map_option (\<lambda>st. ((), st)) (Storage_add_inflight_pub_packet c publish (state_storage (world_state w))) = Some (x, st)"
    for x st
    using that L_storage [OF w] add_inflight [OF L_P [OF w]] by (auto split: option.splits)
qed (rule assms)

lemma keeps_fetch:
  assumes "\<And>msgs. length msgs \<le> n \<Longrightarrow> keeps (f msgs)"
  shows "keeps (andthen (try_storage (Storage_next_messages c (Some n))) f)"
proof (rule safe_try_then [where B = "\<lambda>msgs. length msgs \<le> n"])
  fix w :: "('r, 'w) World" assume w: "L w"
  show "Storage_next_messages c (Some n) (state_storage (world_state w)) \<noteq> None"
    using has_session [OF L_P [OF w]] by (simp add: Storage_next_messages_def Let_def split: option.split)
  show "length msgs \<le> n \<and> L (w\<lparr>world_state := (world_state w)\<lparr>state_storage := st\<rparr>\<rparr>)"
    if "Storage_next_messages c (Some n) (state_storage (world_state w)) = Some (msgs, st)" for msgs st
    using that L_storage [OF w next_messages [OF L_P [OF w] that]]
    by (auto simp: Storage_next_messages_def Let_def split: option.splits)
qed (rule assms)

lemma keeps_deliver_publish: "keeps (deliver_publish c publish)"
  unfolding deliver_publish_def Let_def
  by (rule keeps_look) (auto intro!: keeps_then [OF keeps_conn] keeps_add_inflight keeps_send split: prod.split)

lemma keeps_delive: "keeps (delive msg)"
  unfolding delive_def
proof (rule safe_look_then [where B = "\<lambda>(conn_id, uid, now). conn_id = Some c"])
  fix x :: "string option \<times> string option \<times> system_time"
  assume "case x of (conn_id, uid, now) \<Rightarrow> conn_id = Some c"
  moreover obtain conn_id uid now where "x = (conn_id, uid, now)" by (cases x) auto
  ultimately show "keeps (case x of (conn_id, uid, now) \<Rightarrow>
     case conn_id of
       None \<Rightarrow> finish ()
     | Some client_id \<Rightarrow>
         (case Message_to_publish_and_update_expiry_interval now msg of
            None \<Rightarrow> finish ()
          | Some publish \<Rightarrow>
              andthen (update_state (call_plugins (OnMessageDelivered client_id uid (message_from_client_id msg)
                (message_from_uid msg) (message_topic msg) (message_qos msg) (message_retain msg)
                (message_payload msg)))) (\<lambda>_.
              andthen (update_metrics (inc_pub_msgs_sent 1)) (\<lambda>_.
              if publish_qos publish = AtMostOnce then send_packet (Packet.Publish publish)
              else deliver_publish client_id publish))))"
    by (auto intro!: keeps_finish keeps_then keeps_calls keeps_metrics keeps_send keeps_deliver_publish split: option.split)
qed (simp add: logged_in_def)

lemma keeps_handle_notified: "keeps handle_notified"
  unfolding handle_notified_def
proof (rule safe_look_then [where B = "\<lambda>(conn_id, quota, now). conn_id = Some c"])
  fix x :: "string option \<times> u64 \<times> system_time"
  assume "case x of (conn_id, quota, now) \<Rightarrow> conn_id = Some c"
  then obtain quota now where x: "x = (Some c, quota, now)" by (cases x) auto
  show "keeps (case x of (conn_id, quota, now) \<Rightarrow>
     case conn_id of
       None \<Rightarrow> finish ()
     | Some client_id \<Rightarrow>
         if quota = 0 then finish ()
         else
           andthen (try_storage (Storage_next_messages client_id (Some (unat quota)))) (\<lambda>msgs.
           if length msgs > unat quota then panic
           else loop_over (\<lambda>msg. if Message_is_expired now msg then finish () else delive msg) msgs))"
    by (auto simp: x intro!: keeps_fetch safe_for_each keeps_finish keeps_delive)
qed (simp add: logged_in_def)

lemma keeps_handle_pub_comp: "keeps (handle_pub_comp pub_comp)"
  unfolding handle_pub_comp_def Let_def
  by (rule keeps_client, rule keeps_look)
    (auto intro!: keeps_then [OF keeps_conn] keeps_inflight keeps_disconnect keeps_finish keeps_handle_notified
      split: option.split)

lemma keeps_subscribe_one: "keeps (subscribe_one c i s)"
  unfolding subscribe_one_def Let_def
  by (rule keeps_look) (auto intro!: keeps_finish keeps_disconnect keeps_then keeps_acl keeps_calls keeps_storage
      subscribe split: option.split prod.split)

lemma keeps_unsubscribe_one: "keeps (unsubscribe_one c p)"
proof -
  have "keeps (with_storage (Storage_unsubscribe c f))" for f
    by (rule safe_with_storage) (use L_storage L_P unsubscribe in blast)
  then show ?thesis
    unfolding unsubscribe_one_def
    by (auto intro!: keeps_finish keeps_look keeps_then keeps_calls split: option.split)
qed

lemma keeps_handle_subscribe: "keeps (handle_subscribe s)"
  unfolding handle_subscribe_def
  by (intro keeps_client keeps_then safe_for_codes keeps_subscribe_one keeps_send) simp

lemma keeps_handle_unsubscribe: "keeps (handle_unsubscribe u)"
  unfolding handle_unsubscribe_def
  by (intro keeps_client keeps_then safe_for_codes keeps_unsubscribe_one keeps_send) simp

lemma keeps_handle_disconnect: "keeps (handle_disconnect disconnect)"
  unfolding handle_disconnect_def
  by (auto intro!: keeps_then keeps_conn keeps_finish safe_fail split: option.split)

text \<open>A second CONNECT is a protocol error.\<close>

lemma keeps_handle_connect: "keeps (handle_connect connect)"
  by (rule safeI) (simp add: handle_connect_def act logged_in_def)

lemma keeps_handle_packet: "keeps (handle_packet packet)"
  unfolding handle_packet_def
  by (cases packet) (simp_all add: keeps_handle_connect keeps_handle_publish keeps_handle_pub_ack
      keeps_handle_pub_rec keeps_handle_pub_rel keeps_handle_pub_comp keeps_handle_subscribe
      keeps_handle_unsubscribe keeps_handle_disconnect keeps_disconnect handle_ping_req_def keeps_send)

end

subsection \<open>The storage keeps its side\<close>

definition all_connected :: "string set \<Rightarrow> Storage \<Rightarrow> bool" where
  "all_connected D st \<longleftrightarrow> (\<forall>d \<in> D. connected st d)"

lemma all_connected_one [simp]: "all_connected {c} st \<longleftrightarrow> connected st c"
  by (simp add: all_connected_def)

lemma all_connected_insert: "all_connected (insert c D) st \<longleftrightarrow> connected st c \<and> all_connected D st"
  by (simp add: all_connected_def)

lemma all_connectedI: "(\<And>d. connected st d \<Longrightarrow> connected st' d) \<Longrightarrow> all_connected D st \<Longrightarrow> all_connected D st'"
  by (simp add: all_connected_def)

text \<open>The operations of \<open>c\<close> leave it and the other clients \<open>D\<close> connected.\<close>

interpretation connected_client: storage_client "\<lambda>st. Storage_inv st \<and> all_connected (insert c D) st" c valid_topic for c D
proof
  fix st st' :: Storage and now pick msgs msg f item limit publish packet_id remove res
  assume P: "Storage_inv st \<and> all_connected (insert c D) st"
  show s: "session_of st c \<noteq> None"
    using P by (auto simp: all_connected_insert connected_def split: option.splits)
  have all: "all_connected (insert c D) st'" if "\<And>d. connected st' d \<longleftrightarrow> connected st d" for st'
    using P all_connectedI that by blast
  show "Storage_inv (Storage_deliver now pick msgs st) \<and> all_connected (insert c D) (Storage_deliver now pick msgs st)"
    using P by (simp add: deliver_inv all connected_keeps [OF keeps_timeouts_deliver])
  show "valid_topic (message_topic msg) \<Longrightarrow> Storage_inv (Storage_update_retained_message msg st) \<and>
      all_connected (insert c D) (Storage_update_retained_message msg st)"
    using P update_retained_inv by (simp add: all Storage_update_retained_message_def connected_tree)
  show "Storage_inv (Storage_subscribe now c f item st) \<and> all_connected (insert c D) (Storage_subscribe now c f item st)"
    using P s by (simp add: subscribe_inv all subscribe_connected)
  show "Storage_inv (snd (Storage_unsubscribe c f st)) \<and> all_connected (insert c D) (snd (Storage_unsubscribe c f st))"
    using P unsubscribe_inv by (simp add: all Storage_unsubscribe_def case_prod_unfold Let_def connected_tree)
  show "Storage_next_messages c limit st = Some (msgs, st') \<Longrightarrow> Storage_inv st' \<and> all_connected (insert c D) st'"
    using P next_messages_inv all connected_keeps [OF next_messages_keeps] by blast
  show "Storage_add_inflight_pub_packet c publish st = Some st' \<Longrightarrow> Storage_inv st' \<and> all_connected (insert c D) st'"
    using P add_inflight_inv all connected_keeps [OF add_inflight_keeps] by blast
  show "Storage_get_inflight_pub_packets c packet_id remove st = Some (res, st') \<Longrightarrow>
      Storage_inv st' \<and> all_connected (insert c D) st'"
    using P get_inflight_inv all connected_keeps [OF get_inflight_keeps] by blast
  have k: "keeps_timeouts st (modify_session c (\<lambda>s. s\<lparr>session_notify := False\<rparr>) st)"
    by (rule keeps_timeouts_modify) (simp add: same_timeouts_def)
  show "Storage_inv (modify_session c (\<lambda>s. s\<lparr>session_notify := False\<rparr>) st) \<and>
      all_connected (insert c D) (modify_session c (\<lambda>s. s\<lparr>session_notify := False\<rparr>) st)"
    using P Storage_inv_keeps [OF _ k] all connected_keeps [OF k] by blast
qed

subsection \<open>A connection from its start\<close>

text \<open>The invariant of a connection: when it is logged in, its client's session is connected; and so are those
  of the clients \<open>D\<close>.\<close>

definition conn_keeps :: "string set \<Rightarrow> ('r, 'w) World \<Rightarrow> bool" where
  "conn_keeps D w \<longleftrightarrow> Storage_inv (state_storage (world_state w)) \<and>
     all_connected D (state_storage (world_state w)) \<and>
     (\<forall>c. conn_client_id (world_conn w) = Some c \<longrightarrow> connected (state_storage (world_state w)) c) \<and>
     (\<forall>i topic. conn_topic_alias (world_conn w) i = Some topic \<longrightarrow> valid_topic topic) \<and>
     (\<forall>topic. valid_topic topic \<longrightarrow> valid_topic (ServiceState_rewrite topic (world_state w))) \<and>
     auth_ok (state_plugins (world_state w))"

abbreviation client_keeps :: "string set \<Rightarrow> string \<Rightarrow> ('r, 'w) World \<Rightarrow> bool" where
  "client_keeps D c \<equiv> logged_in c (\<lambda>st. Storage_inv st \<and> all_connected (insert c D) st) valid_topic"

lemma conn_keeps_client: "conn_client_id (world_conn w) = Some c \<Longrightarrow> conn_keeps D w \<longleftrightarrow> client_keeps D c w"
  by (auto simp: conn_keeps_def logged_in_def all_connected_insert)

lemma client_keeps_conn: "client_keeps D c w \<Longrightarrow> conn_keeps D w"
  by (simp add: conn_keeps_def logged_in_def all_connected_insert)

definition anonymous :: "string set \<Rightarrow> ('r, 'w) World \<Rightarrow> bool" where
  "anonymous D w \<longleftrightarrow> conn_keeps D w \<and> conn_client_id (world_conn w) = None"

lemma conn_keeps_cases:
  assumes "conn_keeps D w"
  obtains "anonymous D w" | c where "client_keeps D c w"
  using assms conn_keeps_client by (cases "conn_client_id (world_conn w)") (auto simp: anonymous_def)

lemma anonymous_sends: "anonymous D w \<Longrightarrow> sends w w' \<Longrightarrow> anonymous D w'"
  by (auto simp: anonymous_def conn_keeps_def sends_def ServiceState_rewrite_def)

lemma safe_from_client: "safe (client_keeps D c) m (\<lambda>_. client_keeps D c) (client_keeps D c) \<Longrightarrow> client_keeps D c w \<Longrightarrow> post (\<lambda>_. conn_keeps D) (conn_keeps D) (m env w)"
proof -
  assume "safe (client_keeps D c) m (\<lambda>_. client_keeps D c) (client_keeps D c)" "client_keeps D c w"
  then have p: "post (\<lambda>_. client_keeps D c) (client_keeps D c) (m env w)" by (rule safeD)
  obtain r w' where r: "m env w = (r, w')" by force
  show ?thesis using p client_keeps_conn unfolding r by (cases r) auto
qed

lemma safe_refuse: "safe (anonymous D) (refuse_connect reason_code) (\<lambda>_. anonymous D) (anonymous D)"
  unfolding refuse_connect_def by (rule safe_send) (simp_all add: anonymous_sends)

lemma safe_authenticate: "safe (anonymous D) (authenticate connect) (\<lambda>_. anonymous D) (anonymous D)"
  by (rule safeI) (auto simp: authenticate_def act anonymous_def conn_keeps_def auth_ok_plugins
      split: option.split sum.split)

text \<open>For this connection alone.\<close>

abbreviation conn_ok :: "('r, 'w) World \<Rightarrow> bool" where
  "conn_ok \<equiv> conn_keeps {}"

abbreviation client_ok :: "string \<Rightarrow> ('r, 'w) World \<Rightarrow> bool" where
  "client_ok \<equiv> client_keeps {}"

lemma conn_ok_def: "conn_ok w \<longleftrightarrow> Storage_inv (state_storage (world_state w)) \<and>
     (\<forall>c. conn_client_id (world_conn w) = Some c \<longrightarrow> connected (state_storage (world_state w)) c) \<and>
     (\<forall>i topic. conn_topic_alias (world_conn w) i = Some topic \<longrightarrow> valid_topic topic) \<and>
     (\<forall>topic. valid_topic topic \<longrightarrow> valid_topic (ServiceState_rewrite topic (world_state w))) \<and>
     auth_ok (state_plugins (world_state w))"
  by (simp add: conn_keeps_def all_connected_def)

end
