(* ===== verification/Client_Runs.thy ===== *)
theory Client_Runs
  imports Client_Safety
begin

text \<open>
  A connection from its start to its end: CONNECT logs it in, every turn of the loop keeps the
  invariant, and closing it disconnects the session. Between the turns other connections and the
  timer work on the storage.
\<close>

subsection \<open>CONNECT\<close>

lemma safe_weaken_post:
  assumes "safe P m Q F" "\<And>x w. Q x w \<Longrightarrow> Q' x w" "\<And>w. F w \<Longrightarrow> F' w"
  shows "safe P m Q' F'"
proof (rule safeI)
  fix env w assume "P w"
  then have m: "post Q F (m env w)" by (rule safeD [OF assms(1)])
  obtain r w' where r: "m env w = (r, w')" by force
  show "post Q' F' (m env w)" using m assms(2,3) unfolding r by (cases r) auto
qed

lemma safe_login:
  assumes "\<And>w. P w \<Longrightarrow> anonymous D w \<and> connected (state_storage (world_state w)) (connect_client_id connect)"
  shows "safe P (update_conn (login_connection config connect uid interval))
    (\<lambda>_. client_keeps D (connect_client_id connect)) F"
proof (rule safe_conn)
  fix w assume "P w"
  with assms show "client_keeps D (connect_client_id connect)
      (w\<lparr>world_conn := login_connection config connect uid interval (world_conn w)\<rparr>)"
    by (auto simp: logged_in_def anonymous_def conn_keeps_def login_connection_def all_connected_insert Let_def)
qed

lemma safe_create:
  "safe (anonymous D) (with_storage (Storage_create_session c clean_start last_will))
    (\<lambda>_ w. anonymous D w \<and> connected (state_storage (world_state w)) c) F"
proof (rule safe_with_storage)
  fix w :: "('r, 'w) World" assume w: "anonymous D w"
  then have "Storage_inv (state_storage (world_state w))" by (simp add: anonymous_def conn_keeps_def)
  let ?st = "snd (Storage_create_session c clean_start last_will (state_storage (world_state w)))"
  have spec: "Storage_inv ?st" "connected ?st c"
      "\<And>d. d \<noteq> c \<Longrightarrow> session_of ?st d = session_of (state_storage (world_state w)) d"
    using create_session_spec [OF \<open>Storage_inv _\<close> surjective_pairing, of c clean_start last_will "plain []" c] by simp_all
  then have "connected ?st d" if "connected (state_storage (world_state w)) d" for d
    using that unfolding connected_def by metis
  then have "all_connected D ?st" if "all_connected D (state_storage (world_state w))"
    using that by (rule all_connectedI)
  then show "anonymous D (w\<lparr>world_state := (world_state w)\<lparr>state_storage :=
        snd (Storage_create_session c clean_start last_will (state_storage (world_state w)))\<rparr>\<rparr>) \<and>
      connected (state_storage (world_state (w\<lparr>world_state := (world_state w)\<lparr>state_storage :=
        snd (Storage_create_session c clean_start last_will (state_storage (world_state w)))\<rparr>\<rparr>))) c"
    using w spec by (simp add: anonymous_def conn_keeps_def ServiceState_rewrite_def)
qed

lemma safe_resend:
  "safe (client_keeps D c) (andthen (try_storage (\<lambda>st. map_option (\<lambda>packets. (packets, st))
      (Storage_get_all_inflight_pub_packets c st))) (\<lambda>packets. loop_over resend_inflight packets))
    (\<lambda>_. client_keeps D c) (client_keeps D c)"
proof (rule safe_try_then [where B = "\<lambda>_. True"])
  fix w :: "('r, 'w) World" assume w: "client_keeps D c w"
  then have s: "session_of (state_storage (world_state w)) c \<noteq> None"
    by (auto simp: logged_in_def all_connected_insert connected_def split: option.splits)
  then show "map_option (\<lambda>packets. (packets, state_storage (world_state w)))
      (Storage_get_all_inflight_pub_packets c (state_storage (world_state w))) \<noteq> None"
    by (simp add: Storage_get_all_inflight_pub_packets_def)
  show "True \<and> client_keeps D c (w\<lparr>world_state := (world_state w)\<lparr>state_storage := st\<rparr>\<rparr>)"
    if "map_option (\<lambda>packets. (packets, state_storage (world_state w)))
      (Storage_get_all_inflight_pub_packets c (state_storage (world_state w))) = Some (packets, st)" for packets st
    using that w connected_client.L_storage [OF w] by (auto simp: logged_in_def split: option.splits)
next
  fix packets
  show "safe (client_keeps D c) (loop_over resend_inflight packets) (\<lambda>_. client_keeps D c) (client_keeps D c)"
    by (intro safe_for_each)
      (auto simp: resend_inflight_def intro!: connected_client.keeps_then connected_client.keeps_conn connected_client.keeps_send)
qed

lemma safe_proxy: "safe (client_keeps D c) (proxy_subscribe c s) (\<lambda>_. client_keeps D c) (client_keeps D c)"
  unfolding proxy_subscribe_def
  by (auto intro!: connected_client.keeps_finish connected_client.keeps_look connected_client.keeps_storage
      connected_client.subscribe split: option.split)

lemma safe_accept: "safe (anonymous D) (accept_connect connect properties uid) (\<lambda>_. conn_keeps D) (conn_keeps D)"
proof -
  let ?c = "connect_client_id connect"
  have after: "safe (client_keeps D ?c) m (\<lambda>_. client_keeps D ?c) (client_keeps D ?c) \<Longrightarrow> safe (client_keeps D ?c) m (\<lambda>_. conn_keeps D) (conn_keeps D)" for m
    by (erule safe_weaken_post) (rule client_keeps_conn, assumption)+
  have state: "safe (anonymous D) (update_state (take_over ?c sender)) (\<lambda>_. anonymous D) (conn_keeps D)" for sender
    by (rule safe_state) (simp add: anonymous_def conn_keeps_def take_over_def ServiceState_rewrite_def)
  show ?thesis
    unfolding accept_connect_def Let_def
    by (rule safe_look_then [where B = "\<lambda>_. True"], simp, clarify)
      (rule safe_andthen [OF state], rule safe_andthen [OF safe_create], rule safe_andthen [OF safe_login], assumption,
       rule after, auto intro!: connected_client.keeps_then connected_client.keeps_send connected_client.keeps_metrics
         connected_client.keeps_look connected_client.keeps_calls safe_resend safe_for_each safe_proxy)
qed

lemma safe_handle_connect: "safe (anonymous D) (handle_connect connect) (\<lambda>_. conn_keeps D) (conn_keeps D)"
proof -
  have anon: "safe (anonymous D) m (\<lambda>_. anonymous D) (anonymous D) \<Longrightarrow> safe (anonymous D) m (\<lambda>_. conn_keeps D) (conn_keeps D)" for m
    by (erule safe_weaken_post) (simp_all add: anonymous_def)
  have auth: "safe (anonymous D) (authenticate connect) (\<lambda>_. anonymous D) (conn_keeps D)" for connect
    by (rule safe_weaken_post [OF safe_authenticate]) (simp_all add: anonymous_def)
  have refuse: "safe (anonymous D) (refuse_connect reason_code) (\<lambda>_. anonymous D) (conn_keeps D)" for reason_code
    by (rule safe_weaken_post [OF safe_refuse]) (simp_all add: anonymous_def)
  show ?thesis
    unfolding handle_connect_def Let_def
    by (rule safe_look_then [where B = "\<lambda>_. True"], simp, clarify)
      (auto intro!: safe_disconnect anon [OF safe_refuse] safe_andthen [OF refuse] safe_andthen [OF auth] safe_accept
        safe_fail simp: anonymous_def split: option.split)
qed

lemma safe_handle_packet: "conn_keeps D w \<Longrightarrow> post (\<lambda>_. conn_keeps D) (conn_keeps D) (handle_packet packet env w)"
proof (erule conn_keeps_cases)
  assume anon: "anonymous D w"
  then have none: "conn_client_id (world_conn w) = None" "conn_keeps D w" by (simp_all add: anonymous_def)
  have sent: "conn_keeps D w'" if "sends w w'" for w'
    using anonymous_sends [OF anon that] by (simp add: anonymous_def)
  have ping: "post (\<lambda>_. conn_keeps D) (conn_keeps D) (send_packet Packet.PingResp env w)"
    by (rule safeD [OF safe_send, of "\<lambda>v. v = w"]) (auto intro: sent)
  show "post (\<lambda>_. conn_keeps D) (conn_keeps D) (handle_packet packet env w)"
    using ping safeD [OF safe_handle_connect anon] none
    by (cases packet) (auto simp: handle_packet_def handle_publish_def handle_pub_ack_def handle_pub_rec_def
        handle_pub_rel_def handle_pub_comp_def handle_subscribe_def handle_unsubscribe_def handle_ping_req_def
        handle_disconnect_def require_client_id_def act Let_def conn_keeps_def split: option.split)
next
  fix c assume "client_keeps D c w"
  then show "post (\<lambda>_. conn_keeps D) (conn_keeps D) (handle_packet packet env w)"
    by (rule safe_from_client [OF connected_client.keeps_handle_packet])
qed

subsection \<open>Turns of the loop\<close>

abbreviation stays_ok :: "string set \<Rightarrow> ('r, 'w, 'a) action \<Rightarrow> bool" where
  "stays_ok D m \<equiv> safe (conn_keeps D) m (\<lambda>_. conn_keeps D) (conn_keeps D)"

lemma conn_ok_sends: "conn_keeps D w \<Longrightarrow> sends w w' \<Longrightarrow> conn_keeps D w'"
  by (auto simp: conn_keeps_def sends_def ServiceState_rewrite_def)

lemma stays_ok_send: "(\<And>connect. packet \<noteq> Packet.Connect connect) \<Longrightarrow> stays_ok D (send_packet packet)"
  by (rule safe_send) (auto dest: conn_ok_sends)

lemma stays_ok_handle: "stays_ok D (handle_packet packet)"
  by (rule safeI) (rule safe_handle_packet)

lemma safe_attempt:
  assumes "safe P m (\<lambda>_. Q) Q"
  shows "safe P (attempt m) (\<lambda>_. Q) Q"
proof (rule safeI)
  fix env w assume "P w"
  then have m: "post (\<lambda>_. Q) Q (m env w)" by (rule safeD [OF assms])
  obtain r w' where r: "m env w = (r, w')" by force
  show "post (\<lambda>_. Q) Q (attempt m env w)" using m unfolding r attempt_def by (cases r) (simp_all add: r)
qed

lemma safe_or_close:
  assumes "safe P m (\<lambda>_. Q) Q" "\<And>e. safe Q (h e) (\<lambda>_. Q) Q"
  shows "safe P (or_close m h) (\<lambda>_. Q) Q"
proof (rule safeI)
  fix env w assume "P w"
  then have m: "post (\<lambda>_. Q) Q (m env w)" by (rule safeD [OF assms(1)])
  obtain r w' where r: "m env w = (r, w')" by force
  have "post (\<lambda>_. Q) Q (andthen (h e) (\<lambda>_. finish False) env w')" if "Q w'" for e
    by (rule safeD [OF safe_andthen [OF assms(2)] that]) (rule safe_finish)
  then show "post (\<lambda>_. Q) Q (or_close m h env w)" using m unfolding r or_close_def by (cases r) (simp_all add: r)
qed

lemma stays_ok_attempt: "(\<And>connect. packet \<noteq> Packet.Connect connect) \<Longrightarrow> stays_ok D (attempt (send_packet packet))"
  by (intro safe_attempt stays_ok_send)

lemma stays_ok_finish: "stays_ok D (finish x)"
  by (rule safe_finish)

lemma stays_ok_close_on: "stays_ok D (close_on e)"
  by (auto simp: close_on_def send_disconnect_def intro!: stays_ok_attempt stays_ok_finish split: Error.split option.split)

lemma stays_ok_update:
  assumes "\<And>w. conn_keeps D w \<Longrightarrow> conn_keeps D (w\<lparr>world_conn := f (world_conn w)\<rparr>)"
  shows "stays_ok D (update_conn f)"
  by (rule safe_conn) (rule assms)

lemma stays_ok_decode: "stays_ok D decode_packet"
  by (rule safeI) (auto simp: decode_packet_def case_prod_unfold Let_def conn_keeps_def)

lemma stays_ok_metrics: "stays_ok D (update_metrics f)"
  by (rule safe_update_metrics) (simp add: conn_keeps_def ServiceState_rewrite_def)

lemma stays_ok_look: "(\<And>x. stays_ok D (f x)) \<Longrightarrow> stays_ok D (andthen (look g) f)"
  by (rule safe_look_then [where B = "\<lambda>_. True"]) simp_all

lemma stays_ok_receive: "stays_ok D receive_packet"
  unfolding receive_packet_def
  by (rule safe_andthen [OF stays_ok_decode])
    (auto simp: send_disconnect_def intro!: stays_ok_finish stays_ok_look safe_andthen [OF stays_ok_metrics]
      safe_andthen [OF stays_ok_update] safe_or_close stays_ok_handle stays_ok_close_on
      safe_andthen [OF stays_ok_attempt] split: sum.split option.split DecodeError.split,
     auto simp: conn_keeps_def ServiceState_rewrite_def)

lemma stays_ok_tick: "stays_ok D tick"
  unfolding tick_def send_disconnect_def
  by (rule stays_ok_look) (auto intro!: safe_andthen [OF stays_ok_attempt] stays_ok_finish)

lemma stays_ok_control: "stays_ok D (receive_control control)"
proof -
  have "stays_ok D (handle_control control)"
    unfolding handle_control_def
    by (intro safe_andthen [OF stays_ok_update] safe_andthen [OF stays_ok_metrics] safe_fail)
      (auto simp: conn_keeps_def ServiceState_rewrite_def)
  then show ?thesis
    unfolding receive_control_def send_disconnect_def
    by (intro safe_or_close) (auto intro!: stays_ok_attempt stays_ok_finish split: Error.split)
qed

lemma stays_ok_notified: "stays_ok D (loop_turn Notified)"
proof (rule safeI)
  fix env w assume ok: "conn_keeps D (w :: ('a, 'b) World)"
  show "post (\<lambda>_. conn_keeps D) (conn_keeps D) (loop_turn Notified env w)"
  proof (cases "conn_client_id (world_conn w)")
    case None
    with ok show ?thesis
      by (simp add: loop_turn_def take_permit_def handle_notified_def or_close_def act)
  next
    case (Some c)
    with ok have w: "client_keeps D c w" by (simp add: conn_keeps_client)
    have permit: "safe (client_keeps D c) (update_storage (modify_session c (\<lambda>s. s\<lparr>session_notify := False\<rparr>)))
        (\<lambda>_. client_keeps D c) (client_keeps D c)"
      by (rule connected_client.keeps_storage) (rule connected_client.permit)
    have "take_permit env w = update_storage (modify_session c (\<lambda>s. s\<lparr>session_notify := False\<rparr>)) env w"
      using Some by (simp add: take_permit_def act)
    then have "post (\<lambda>_. client_keeps D c) (client_keeps D c) (take_permit env w)"
      using safeD [OF permit w, of env] by simp
    moreover have "safe (client_keeps D c) (or_close handle_notified (\<lambda>_. finish ())) (\<lambda>_. client_keeps D c) (client_keeps D c)"
      by (rule safe_or_close [OF connected_client.keeps_handle_notified]) (rule connected_client.keeps_finish)
    then have "safe (client_keeps D c) (or_close handle_notified (\<lambda>_. finish ())) (\<lambda>_. conn_keeps D) (conn_keeps D)"
      by (rule safe_weaken_post) (rule client_keeps_conn, assumption)+
    ultimately show ?thesis
      unfolding loop_turn_def event.case andthen_app
      by (cases "take_permit env w"; cases "fst (take_permit env w)") (auto intro: safeD client_keeps_conn)
  qed
qed

lemma stays_ok_loop_turn: "stays_ok D (loop_turn ev)"
  using stays_ok_notified by (cases ev) (simp_all add: loop_turn_def stays_ok_tick stays_ok_receive stays_ok_control)

text \<open>At the end the session is disconnected.\<close>

lemma stays_ok_close: "safe (conn_keeps D) close_connection (\<lambda>_ w. Storage_inv (state_storage (world_state w))) F"
  by (rule safeI) (auto simp: close_connection_def act conn_keeps_def disconnect_inv call_plugins_def split: option.split)

end
