(* ===== verification/Client_Window.thy ===== *)
theory Client_Window
  imports Client_Runs
begin

text \<open>
  Flow control: the send quota and the packets in flight. Together they are the window that the
  client has announced as its receive maximum.
\<close>

definition inflight_of :: "string \<Rightarrow> Storage \<Rightarrow> Publish list" where
  "inflight_of c st = (case session_of st c of None \<Rightarrow> [] | Some s \<Rightarrow> session_inflight_pub_packets s)"

definition window :: "string \<Rightarrow> ('r, 'w) World \<Rightarrow> nat" where
  "window c w = unat (conn_receive_out_quota (world_conn w)) + length (inflight_of c (state_storage (world_state w)))"

text \<open>The window is \<open>k\<close>, and at least \<open>n\<close> more packets may be sent.\<close>

definition has_window :: "string \<Rightarrow> nat \<Rightarrow> nat \<Rightarrow> ('r, 'w) World \<Rightarrow> bool" where
  "has_window c k n w \<longleftrightarrow> conn_client_id (world_conn w) = Some c \<and>
     session_of (state_storage (world_state w)) c \<noteq> None \<and> window c w = k \<and>
     n \<le> unat (conn_receive_out_quota (world_conn w))"

lemma has_window_less: "has_window c k n w \<Longrightarrow> m \<le> n \<Longrightarrow> has_window c k m w"
  by (simp add: has_window_def)

lemma has_window_sends: "has_window c k n w \<Longrightarrow> sends w w' \<Longrightarrow> has_window c k n w'"
  by (auto simp: has_window_def window_def sends_def)

lemma window_send:
  assumes "\<And>connect. packet \<noteq> Packet.Connect connect"
  shows "safe (has_window c k n) (send_packet packet) (\<lambda>_. has_window c k n) (has_window c k 0)"
  by (rule safe_send) (use assms in \<open>auto dest: has_window_sends intro: has_window_less\<close>)

lemma quota_dec: "0 < unat (q :: u64) \<Longrightarrow> unat (q - 1) = unat q - 1"
  by (metis Suc_pred' unat_1 unat_gt_0 unat_minus_one word_neq_0_conv zero_less_one)

lemma add_inflight_length:
  assumes "Storage_add_inflight_pub_packet c publish st = Some st'"
  shows "length (inflight_of c st') = Suc (length (inflight_of c st)) \<and> session_of st' c \<noteq> None"
  using assms by (auto simp: Storage_add_inflight_pub_packet_def inflight_of_def split: option.splits)

lemma window_deliver_publish:
  "safe (has_window c k (Suc n)) (deliver_publish c publish) (\<lambda>_. has_window c k n) (has_window c k 0)"
proof (rule safeI)
  fix env w assume w: "has_window c k (Suc n) w"
  obtain packet_id allocator where id: "PacketIdAllocator_take (conn_packet_id_allocator (world_conn w)) = (packet_id, allocator)"
    by force
  let ?p = "publish\<lparr>publish_packet_id := Some packet_id\<rparr>"
  obtain st where st: "Storage_add_inflight_pub_packet c ?p (state_storage (world_state w)) = Some st"
    using w by (auto simp: has_window_def Storage_add_inflight_pub_packet_def split: option.splits)
  note add = add_inflight_length [OF st]
  have "0 < unat (conn_receive_out_quota (world_conn w))" using w by (simp add: has_window_def)
  note dec = quota_dec [OF this]
  define w' where "w' = w\<lparr>world_state := (world_state w)\<lparr>state_storage := st\<rparr>,
    world_conn := (world_conn w)\<lparr>conn_packet_id_allocator := allocator,
      conn_receive_out_quota := conn_receive_out_quota (world_conn w) - 1,
      conn_inflight_qos2_messages := (conn_inflight_qos2_messages (world_conn w))(packet_id \<mapsto> Published)\<rparr>\<rparr>"
  have "deliver_publish c publish env w = send_packet (Packet.Publish ?p) env w'"
    by (simp add: deliver_publish_def act id try_storage_def st w'_def Let_def)
  moreover have "has_window c k n w'"
    using w add dec by (auto simp: has_window_def window_def w'_def)
  ultimately show "post (\<lambda>_. has_window c k n) (has_window c k 0) (deliver_publish c publish env w)"
    using safeD [OF window_send, of _ c k n w' env] by simp
qed

lemma window_delive: "safe (has_window c k (Suc n)) (delive msg) (\<lambda>_. has_window c k n) (has_window c k 0)"
proof (rule safeI)
  fix env w assume w: "has_window c k (Suc n) w"
  then have id: "conn_client_id (world_conn w) = Some c" by (simp add: has_window_def)
  show "post (\<lambda>_. has_window c k n) (has_window c k 0) (delive msg env w)"
  proof (cases "Message_to_publish_and_update_expiry_interval (env_now env) msg")
    case None
    then show ?thesis using w by (simp add: delive_def act id has_window_less)
  next
    case (Some publish)
    define state where "state = call_plugins (OnMessageDelivered c (conn_uid (world_conn w)) (message_from_client_id msg)
        (message_from_uid msg) (message_topic msg) (message_qos msg) (message_retain msg) (message_payload msg)) (world_state w)"
    define v where "v = w\<lparr>world_state := state\<lparr>state_service_metrics :=
        inc_pub_msgs_sent 1 (state_service_metrics state)\<rparr>\<rparr>"
    have v: "has_window c k (Suc n) v"
      "delive msg env w = (if publish_qos publish = AtMostOnce then send_packet (Packet.Publish publish)
         else deliver_publish c publish) env v"
      using w Some by (simp_all add: delive_def act id v_def state_def has_window_def window_def call_plugins_def)
    then show ?thesis
      using safeD [OF window_send [of "Packet.Publish publish"] has_window_less [OF v(1), of n], of env]
        safeD [OF window_deliver_publish v(1), of publish env] by simp
  qed
qed

lemma window_send_queue:
  "length msgs \<le> n \<Longrightarrow>
    safe (has_window c k n) (loop_over (\<lambda>msg. if Message_is_expired now msg then finish () else delive msg) msgs)
      (\<lambda>_. has_window c k 0) (has_window c k 0)"
proof (induction msgs arbitrary: n)
  case Nil
  then show ?case by (auto intro!: safe_finish intro: has_window_less)
next
  case (Cons msg msgs)
  then obtain m where n: "n = Suc m" "length msgs \<le> m" by (cases n) auto
  have "safe (has_window c k n) (if Message_is_expired now msg then finish () else delive msg)
      (\<lambda>_. has_window c k m) (has_window c k 0)"
    unfolding n(1) using window_delive by (auto intro!: safe_finish intro: has_window_less)
  from this Cons.IH [OF n(2)] show ?case unfolding loop_over.simps by (rule safe_andthen)
qed

lemma next_messages_inflight:
  assumes "Storage_next_messages c limit st = Some (msgs, st')"
  shows "inflight_of c st' = inflight_of c st \<and> session_of st' c \<noteq> None"
  using assms by (auto simp: Storage_next_messages_def inflight_of_def Let_def split: option.splits)

lemma window_handle_notified:
  "safe (has_window c k 0) handle_notified (\<lambda>_. has_window c k 0) (has_window c k 0)"
proof (rule safeI)
  fix env w assume w: "has_window c k 0 w"
  then have id: "conn_client_id (world_conn w) = Some c" by (simp add: has_window_def)
  let ?n = "unat (conn_receive_out_quota (world_conn w))"
  obtain msgs st where st: "Storage_next_messages c (Some ?n) (state_storage (world_state w)) = Some (msgs, st)"
    using w by (auto simp: has_window_def Storage_next_messages_def Let_def split: option.splits)
  then have len: "length msgs \<le> ?n"
    by (auto simp: Storage_next_messages_def Let_def split: option.splits)
  have "has_window c k ?n (w\<lparr>world_state := (world_state w)\<lparr>state_storage := st\<rparr>\<rparr>)"
    using w next_messages_inflight [OF st] by (simp add: has_window_def window_def)
  from safeD [OF window_send_queue [OF len] this, of "env_now env" env]
  show "post (\<lambda>_. has_window c k 0) (has_window c k 0) (handle_notified env w)"
    using w len by (simp add: handle_notified_def act id try_storage_def st)
qed

text \<open>Acknowledging the oldest packet.\<close>

lemma get_inflight_remove:
  assumes "Storage_get_inflight_pub_packets c packet_id True st = Some (res, st')"
  shows "length (inflight_of c st) = length (inflight_of c st') + (if res = None then 0 else 1) \<and>
    (session_of st' c \<noteq> None)"
  using assms by (auto simp: Storage_get_inflight_pub_packets_def inflight_of_def split: option.splits list.splits if_splits)

lemma get_inflight_some:
  assumes "session_of st c \<noteq> None"
  obtains res st' where "Storage_get_inflight_pub_packets c packet_id remove st = Some (res, st')"
    "res = None \<Longrightarrow> st' = st"
  using assms by (cases "Storage_get_inflight_pub_packets c packet_id remove st")
    (auto simp: Storage_get_inflight_pub_packets_def split: option.splits list.splits if_splits)

lemma quota_inc: "unat (q :: u64) < 2 ^ 64 - 1 \<Longrightarrow> unat (q + 1) = unat q + 1"
proof -
  assume "unat q < 2 ^ 64 - 1"
  then have "unat q + 1 < 2 ^ 64" by simp
  then show ?thesis by (simp add: unat_plus_if_size word_size)
qed

lemma window_ack:
  assumes "has_window c k 0 w" "k < 2 ^ 64"
    and "Storage_get_inflight_pub_packets c packet_id True (state_storage (world_state w)) = Some (Some p, st)"
  shows "has_window c k 0 (w\<lparr>world_state := (world_state w)\<lparr>state_storage := st\<rparr>,
    world_conn := (world_conn w)\<lparr>conn_receive_out_quota := conn_receive_out_quota (world_conn w) + 1\<rparr>\<rparr>)"
proof -
  note len = get_inflight_remove [OF assms(3)]
  have "unat (conn_receive_out_quota (world_conn w)) < 2 ^ 64 - 1"
    using assms(1,2) len by (simp add: has_window_def window_def)
  then show ?thesis
    using assms(1) len by (simp add: has_window_def window_def quota_inc)
qed

end
