(* ===== verification/Codec_Stream.thy ===== *)
theory Codec_Stream
  imports Codec
begin

text \<open>
  What the codec promises of a byte stream. \<open>next_packet\<close> specifies one call of \<open>decode\<close> on the
  whole stream that is still to come; the lemmas show that \<open>Codec_decode\<close> implements it however
  the stream is cut into reads, that a failed read loses nothing, and that the packets one codec
  writes are the packets another one reads.
\<close>

subsection \<open>Reading lengths from a prefix\<close>

lemma read_remaining_length_loop_append:
  "read_remaining_length_loop n shift d = Inr (m, r) \<Longrightarrow>
   read_remaining_length_loop n shift (d @ x) = Inr (m, r @ x) \<and> (\<exists>p. d = p @ r)"
proof (induction n shift d rule: read_remaining_length_loop.induct)
  case (1 n shift d)
  from "1.prems" obtain b d' where d: "d = b # d'"
    by (cases d) (simp_all add: read_remaining_length_loop.simps [of n shift "[]"])
  note unfolded = read_remaining_length_loop.simps [of n shift "b # _"]
  show ?case
  proof (cases "b AND 128 = 0")
    case True
    with "1.prems" show ?thesis by (auto simp: d unfolded)
  next
    case False
    with "1.prems" have shift: "shift + 7 \<le> 21"
      and "read_remaining_length_loop (n + push_bit shift (unat (b AND 127))) (shift + 7) d' = Inr (m, r)"
      by (auto simp: d unfolded Let_def and_then_Inr_iff)
    with "1.IH" [of "(b, d')" b d'] False d
    have "read_remaining_length_loop (n + push_bit shift (unat (b AND 127))) (shift + 7) (d' @ x)
        = Inr (m, r @ x) \<and> (\<exists>p. d' = p @ r)"
      by simp
    with False shift show ?thesis by (auto simp: d unfolded Let_def)
  qed
qed

lemma read_remaining_length_append:
  assumes "read_remaining_length d = Inr (m, r)"
  shows "read_remaining_length (d @ x) = Inr (m, r @ x)" "drop (length d - length r) d = r"
    "length r \<le> length d"
proof -
  from read_remaining_length_loop_append [of 0 0 d m r] assms obtain p where "d = p @ r"
    by (auto simp: read_remaining_length_def)
  then show "drop (length d - length r) d = r" "length r \<le> length d" by simp_all
  show "read_remaining_length (d @ x) = Inr (m, r @ x)"
    using read_remaining_length_loop_append [of 0 0 d m r x] assms
    by (simp add: read_remaining_length_def)
qed

lemma read_remaining_length_loop_malformed:
  "read_remaining_length_loop n (7 * k) d = Inl e \<Longrightarrow> k \<le> 3 \<Longrightarrow> 4 \<le> k + length d \<Longrightarrow>
   read_remaining_length_loop n (7 * k) (d @ x) = Inl DecodeError.MalformedPacket"
proof (induction d arbitrary: n k)
  case Nil
  then show ?case by simp
next
  case (Cons b d)
  note unfolded = read_remaining_length_loop.simps [of n "7 * k" "b # _"]
  from Cons.prems(1) have more: "b AND 128 \<noteq> 0" by (auto simp: unfolded)
  show ?case
  proof (cases "k = 3")
    case True
    with more unfolded show ?thesis by (simp add: Let_def)
  next
    case False
    with Cons.prems more Cons.IH [of "n + push_bit (7 * k) (unat (b AND 127))" "Suc k"]
    show ?thesis by (simp add: unfolded Let_def add.commute)
  qed
qed

lemma read_remaining_length_malformed:
  "read_remaining_length d = Inl e \<Longrightarrow> 4 \<le> length d \<Longrightarrow>
   read_remaining_length (d @ x) = Inl DecodeError.MalformedPacket"
  using read_remaining_length_loop_malformed [of 0 0 d e x] by (simp add: read_remaining_length_def)

subsection \<open>The next packet of a stream\<close>

text \<open>
  The result of a call, with the rest of the stream behind the packet.
\<close>

type_synonym outcome = "DecodeError + (Packet \<times> nat \<times> bytes) option"

definition next_body :: "ProtocolLevel \<Rightarrow> u8 \<Rightarrow> nat \<Rightarrow> bytes \<Rightarrow> outcome" where
  "next_body level flag packet_size s =
     (if length s < packet_size then Inl (DecodeIo UnexpectedEof)
      else and_then (Packet_decode (take packet_size s) flag level) (\<lambda>packet.
        Inr (Some (packet, packet_size, drop packet_size s))))"

definition next_length :: "ProtocolLevel \<Rightarrow> nat \<Rightarrow> u8 \<Rightarrow> bytes \<Rightarrow> outcome" where
  "next_length level input_max_size flag s =
     (case read_remaining_length s of
        Inl _ \<Rightarrow> if length s < 4 then Inl (DecodeIo UnexpectedEof) else Inl DecodeError.MalformedPacket
      | Inr (packet_size, s) \<Rightarrow>
          if packet_size > input_max_size then Inl DecodeError.PacketTooLarge
          else next_body level flag packet_size s)"

definition next_packet :: "ProtocolLevel \<Rightarrow> nat \<Rightarrow> bytes \<Rightarrow> outcome" where
  "next_packet level input_max_size s =
     (case s of
        [] \<Rightarrow> Inr None
      | flag # s \<Rightarrow> next_length level input_max_size flag s)"

text \<open>The next packet for a codec in any decoder state, where \<open>s\<close> starts with its buffer.\<close>

definition next_of :: "Codec \<Rightarrow> bytes \<Rightarrow> outcome" where
  "next_of c s =
     (case codec_decoder_state c of
        Flag \<Rightarrow> next_packet (codec_level c) (codec_input_max_size c) s
      | Length flag \<Rightarrow> next_length (codec_level c) (codec_input_max_size c) flag s
      | Body flag packet_size \<Rightarrow> next_body (codec_level c) flag packet_size s)"

text \<open>The level a packet sets.\<close>

definition level_after :: "ProtocolLevel \<Rightarrow> Packet \<Rightarrow> ProtocolLevel" where
  "level_after level packet = (case packet of Connect connect \<Rightarrow> connect_level connect | _ \<Rightarrow> level)"

text \<open>A result and a codec with the stream it has left agree with an outcome.\<close>

definition yields ::
  "outcome \<Rightarrow> Codec \<Rightarrow> DecodeError + (Packet \<times> nat) option \<Rightarrow> Codec \<Rightarrow> bytes \<Rightarrow> bool" where
  "yields outcome c result c' s \<longleftrightarrow>
     (case outcome of
        Inl e \<Rightarrow> result = Inl e
      | Inr None \<Rightarrow> result = Inr None
      | Inr (Some (packet, packet_size, rest)) \<Rightarrow>
          result = Inr (Some (packet, packet_size)) \<and> s = rest \<and>
          c' = c\<lparr>codec_level := level_after (codec_level c) packet,
            codec_read_buf := codec_read_buf c', codec_decoder_state := Flag\<rparr>)"

lemma Codec_turn_Continue:
  assumes "Codec_turn c = Continue c'"
  shows "next_of c' (codec_read_buf c' @ s) = next_of c (codec_read_buf c @ s)"
    and "c' = c\<lparr>codec_read_buf := codec_read_buf c', codec_decoder_state := codec_decoder_state c'\<rparr>"
proof -
  have "next_of c' (codec_read_buf c' @ s) = next_of c (codec_read_buf c @ s) \<and>
    c' = c\<lparr>codec_read_buf := codec_read_buf c', codec_decoder_state := codec_decoder_state c'\<rparr>"
  proof (cases "codec_decoder_state c")
    case Flag
    with assms show ?thesis
      by (auto simp: Codec_turn_def next_of_def next_packet_def split: list.splits)
  next
    case (Length flag)
    with assms obtain n len where
      g: "get_remaining_length (codec_read_buf c) = Inr (Some (n, len))" "n \<le> codec_input_max_size c"
      and c': "c' = c\<lparr>codec_read_buf := drop len (codec_read_buf c), codec_decoder_state := Body flag n\<rparr>"
      by (auto simp: Codec_turn_def split: sum.splits option.splits if_splits)
    from g(1) obtain r where r: "read_remaining_length (codec_read_buf c) = Inr (n, r)"
      and len: "len = length (codec_read_buf c) - length r"
      by (auto simp: get_remaining_length_eq split: sum.splits if_splits)
    note append = read_remaining_length_append [OF r]
    show ?thesis
      using Length g(2) by (simp add: c' next_of_def next_length_def len append)
  next
    case (Body flag n)
    with assms show ?thesis by (simp add: Codec_turn_def Let_def split: if_splits sum.splits)
  qed
  then show "next_of c' (codec_read_buf c' @ s) = next_of c (codec_read_buf c @ s)"
    and "c' = c\<lparr>codec_read_buf := codec_read_buf c', codec_decoder_state := codec_decoder_state c'\<rparr>"
    by blast+
qed

lemma Codec_turn_Return:
  assumes "Codec_turn c = Return result c'"
  shows "yields (next_of c (codec_read_buf c @ s)) c result c' (codec_read_buf c' @ s)"
proof (cases "codec_decoder_state c")
  case Flag
  with assms show ?thesis by (simp add: Codec_turn_def split: list.splits)
next
  case (Length flag)
  let ?buf = "codec_read_buf c"
  show ?thesis
  proof (cases "read_remaining_length ?buf")
    case (Inl e)
    with assms Length have "4 \<le> length ?buf" "result = Inl DecodeError.MalformedPacket"
      by (auto simp: Codec_turn_def get_remaining_length_eq split: if_splits)
    with Length read_remaining_length_malformed [OF Inl] show ?thesis
      by (simp add: next_of_def next_length_def yields_def)
  next
    case (Inr nr)
    obtain n r where r: "read_remaining_length ?buf = Inr (n, r)" using Inr by (cases nr) auto
    with assms Length have "codec_input_max_size c < n" "result = Inl DecodeError.PacketTooLarge"
      by (auto simp: Codec_turn_def get_remaining_length_eq split: if_splits)
    with Length read_remaining_length_append(1) [OF r] show ?thesis
      by (simp add: next_of_def next_length_def yields_def)
  qed
next
  case (Body flag n)
  show ?thesis
  proof (cases "Packet_decode (take n (codec_read_buf c)) flag (codec_level c)")
    case (Inl e)
    with assms Body show ?thesis
      by (auto simp: Codec_turn_def Let_def next_of_def next_body_def yields_def split: if_splits)
  next
    case (Inr packet)
    with assms Body show ?thesis
      by (cases packet)
        (auto simp: Codec_turn_def Let_def next_of_def next_body_def yields_def level_after_def
          split: if_splits)
  qed
qed

lemma Codec_turn_Await:
  assumes "Codec_turn c = Await"
  shows "yields (next_of c (codec_read_buf c)) c (Codec_eof c) c s"
proof (cases "codec_decoder_state c")
  case Flag
  with assms show ?thesis
    by (auto simp: Codec_turn_def next_of_def next_packet_def yields_def Codec_eof_def
        split: list.splits)
next
  case (Length flag)
  with assms show ?thesis
    by (auto simp: Codec_turn_def next_of_def next_length_def yields_def Codec_eof_def
        get_remaining_length_eq split: sum.splits if_splits)
next
  case (Body flag n)
  with assms show ?thesis
    by (auto simp: Codec_turn_def Let_def next_of_def next_body_def yields_def Codec_eof_def
        split: sum.splits if_splits)
qed

subsection \<open>Chunking\<close>

text \<open>A reader that delivers the stream in the given chunks, and then the end of the stream.\<close>

fun read_chunks :: "bytes list \<Rightarrow> (io_error + bytes) \<times> bytes list" where
  "read_chunks [] = (Inr [], [])"
| "read_chunks (data # chunks) = (Inr data, chunks)"

lemma yields_frame:
  assumes "yields outcome c1 result c' s"
    and "c1 = c\<lparr>codec_read_buf := codec_read_buf c1, codec_decoder_state := codec_decoder_state c1\<rparr>"
  shows "yields outcome c result c' s"
proof -
  have "codec_level c1 = codec_level c" by (subst assms(2)) simp
  moreover have "c1\<lparr>codec_level := l, codec_read_buf := b, codec_decoder_state := d\<rparr>
    = c\<lparr>codec_level := l, codec_read_buf := b, codec_decoder_state := d\<rparr>" for l b d
    by (subst assms(2)) simp
  ultimately show ?thesis
    using assms(1) by (auto simp: yields_def split: sum.splits option.splits)
qed

lemma Codec_decode_chunks:
  assumes "Codec_decode read_chunks chunks c = (result, chunks', c')" "[] \<notin> set chunks"
  shows "[] \<notin> set chunks' \<and>
    yields (next_of c (codec_read_buf c @ concat chunks)) c result c' (codec_read_buf c' @ concat chunks')"
proof -
  have "read = read_chunks \<Longrightarrow> Codec_decode read chunks c = (result, chunks', c') \<Longrightarrow>
    [] \<notin> set chunks \<Longrightarrow> [] \<notin> set chunks' \<and>
    yields (next_of c (codec_read_buf c @ concat chunks)) c result c' (codec_read_buf c' @ concat chunks')"
    for read
  proof (induction read chunks c rule: Codec_decode.induct)
    case (1 read chunks c)
    note unfolded = Codec_decode.simps [of read chunks c]
    show ?case
    proof (cases "Codec_turn c")
      case (Continue c1)
      with "1.prems" unfolded have "Codec_decode read chunks c1 = (result, chunks', c')" by simp
      with "1.IH"(1) [OF Continue] "1.prems" Codec_turn_Continue [OF Continue] show ?thesis
        by (auto intro: yields_frame)
    next
      case (Return result1 c1)
      with "1.prems" unfolded Codec_turn_Return [OF Return] show ?thesis by auto
    next
      case Await
      show ?thesis
      proof (cases chunks)
        case Nil
        with Await "1.prems" unfolded Codec_turn_Await [OF Await] show ?thesis by auto
      next
        case (Cons data rest)
        define c1 where "c1 = c\<lparr>codec_read_buf := codec_read_buf c @ data\<rparr>"
        from Cons "1.prems" Await unfolded have "Codec_decode read rest c1 = (result, chunks', c')"
          by (auto simp: c1_def)
        with "1.IH"(2) [OF Await, of "Inr data" rest data] Cons "1.prems"
        have ih: "[] \<notin> set chunks' \<and> yields (next_of c1 (codec_read_buf c1 @ concat rest)) c1 result c'
            (codec_read_buf c' @ concat chunks')"
          by (auto simp: c1_def)
        moreover have "next_of c1 = next_of c"
          by (cases "codec_decoder_state c") (simp_all add: next_of_def c1_def fun_eq_iff)
        ultimately show ?thesis
          using yields_frame [of _ c1 result c' _ c] Cons by (auto simp: c1_def)
      qed
    qed
  qed
  with assms show ?thesis by blast
qed

subsection \<open>Failed reads\<close>

text \<open>A reader that follows a script of results; behind it comes the end of the stream.\<close>

fun read_script :: "(io_error + bytes) list \<Rightarrow> (io_error + bytes) \<times> (io_error + bytes) list" where
  "read_script [] = (Inr [], [])"
| "read_script (outcome # script) = (outcome, script)"

text \<open>
  A call that ends with a failed read can be repeated: the second call goes on where the first
  one stopped, as if the read had not failed.
\<close>

lemma Codec_decode_resume:
  assumes "Codec_decode read_script (map Inr chunks @ Inl e # script) c
      = (Inl (DecodeIo e), script, c')"
  shows "Codec_decode read_script script c' = Codec_decode read_script (map Inr chunks @ script) c"
proof -
  have "read = read_script \<Longrightarrow> r = map Inr chunks @ Inl e # script \<Longrightarrow>
    Codec_decode read r c = (Inl (DecodeIo e), script, c') \<Longrightarrow>
    Codec_decode read_script script c' = Codec_decode read_script (map Inr chunks @ script) c"
    for read r
  proof (induction read r c arbitrary: chunks rule: Codec_decode.induct)
    case (1 read r c)
    note unfolded = Codec_decode.simps [of read r c]
    have other: "map Inr xs @ Inl e # script \<noteq> script" for xs :: "bytes list"
      by (auto dest: arg_cong [of _ _ length])
    show ?case
    proof (cases "Codec_turn c")
      case (Continue c1)
      with "1.prems" unfolded have "Codec_decode read r c1 = (Inl (DecodeIo e), script, c')" by simp
      from "1.IH"(1) [OF Continue "1.prems"(1,2) this] show ?thesis
        using Continue Codec_decode.simps [of read_script _ c] by simp
    next
      case (Return result1 c1)
      with "1.prems" unfolded other show ?thesis by auto
    next
      case Await
      show ?thesis
      proof (cases chunks)
        case Nil
        with Await "1.prems" unfolded show ?thesis by simp
      next
        case (Cons data rest)
        define c1 where "c1 = c\<lparr>codec_read_buf := codec_read_buf c @ data\<rparr>"
        have data: "data \<noteq> []"
          using Await "1.prems" unfolded Cons other [of rest] by (auto split: if_splits)
        with Cons Await "1.prems" unfolded
        have "Codec_decode read (map Inr rest @ Inl e # script) c1 = (Inl (DecodeIo e), script, c')"
          by (auto simp: c1_def)
        moreover have "(Inr data, map Inr rest @ Inl e # script) = read r" using Cons "1.prems" by simp
        ultimately have "Codec_decode read_script script c' = Codec_decode read_script (map Inr rest @ script) c1"
          using "1.IH"(2) [OF Await _ _ _ "1.prems"(1) refl] data by (auto simp: c1_def)
        with Cons Await data show ?thesis
          using Codec_decode.simps [of read_script _ c] by (simp add: c1_def)
      qed
    qed
  qed
  with assms show ?thesis by blast
qed

subsection \<open>What is written is read\<close>

text \<open>A writer that appends to a buffer, as an in-memory \<open>AsyncWrite\<close> does.\<close>

definition append_all :: "bytes \<Rightarrow> bytes \<Rightarrow> (io_error + unit) \<times> bytes" where
  "append_all w buf = (Inr (), w @ buf)"

text \<open>When the codec can send a packet to a peer with the given limit.\<close>

definition sendable :: "nat \<Rightarrow> nat \<Rightarrow> ProtocolLevel \<Rightarrow> Packet \<Rightarrow> bool" where
  "sendable output_max_size input_max_size level packet \<longleftrightarrow>
     Packet_ok level packet \<and> Packet_exact level packet \<and>
     Packet_limit packet (length (Packet_body level packet)) output_max_size \<and>
     length (Packet_body level packet) \<le> 268435455 \<and>
     length (Packet_body level packet) \<le> input_max_size"

lemma Codec_encode_wire:
  assumes "sendable (codec_output_max_size c) n (level_after (codec_level c) packet) packet"
    and "codec_write_buf c = []"
  shows "Codec_encode write_all packet w c =
    (let level = level_after (codec_level c) packet;
         c = c\<lparr>codec_level := level\<rparr>; wire = Packet_wire level packet in
     (case write_all w wire of
        (Inl e, w) \<Rightarrow> (Inl (EncodeIo e), w, c\<lparr>codec_write_buf := wire\<rparr>)
      | (Inr _, w) \<Rightarrow> (Inr (length wire), w, c)))"
proof -
  define level where "level = level_after (codec_level c) packet"
  have c: "(case packet of Connect connect \<Rightarrow> c\<lparr>codec_level := connect_level connect\<rparr> | _ \<Rightarrow> c)
    = c\<lparr>codec_level := level\<rparr>"
    by (cases packet) (simp_all add: level_def level_after_def)
  have "Packet_encode packet level (codec_output_max_size c) [] = (Inr (), Packet_wire level packet)"
    using assms(1) by (subst Packet_encode_wire) (auto simp: sendable_def level_def put_slice_apply)
  moreover have "c\<lparr>codec_level := level, codec_write_buf := []\<rparr> = c\<lparr>codec_level := level\<rparr>"
    using assms(2) by (cases c) simp
  ultimately show ?thesis
    using assms(2)
    by (simp add: Codec_encode_def c Let_def flip: level_def split: prod.splits sum.splits)
qed

lemma Packet_norm_type: "level_after level (Packet_norm l packet) = level_after level packet"
  by (cases packet; cases l) (simp_all add: Packet_norm_def level_after_def Connect_norm_def)

lemma Packet_decode_level:
  assumes "Packet_ok (level_after level packet) packet"
  shows "Packet_decode (Packet_body (level_after level packet) packet) (Packet_header packet) level
    = Inr (Packet_norm (level_after level packet) packet)"
proof (cases packet)
  case (Connect connect)
  then have "Packet_decode data (Packet_header packet) level = Packet_decode data (Packet_header packet) l" for data l
    by (simp add: Packet_decode_def Packet_header_def Connect_decode_def)
  with assms Packet_decode_wire show ?thesis by metis
qed (use assms Packet_decode_wire in \<open>simp_all add: level_after_def\<close>)

lemma next_packet_wire:
  assumes "sendable n input_max_size (level_after level packet) packet"
  shows "next_packet level input_max_size (Packet_wire (level_after level packet) packet @ rest) =
    Inr (Some (Packet_norm (level_after level packet) packet,
      length (Packet_body (level_after level packet) packet), rest))"
  using assms Packet_decode_level [of level packet]
  by (simp add: next_packet_def next_length_def next_body_def Packet_wire_def sendable_def read_varint)

text \<open>The packets of a sequence with the levels at which they go over the wire.\<close>

primrec with_levels :: "ProtocolLevel \<Rightarrow> Packet list \<Rightarrow> (ProtocolLevel \<times> Packet) list" where
  "with_levels level [] = []"
| "with_levels level (packet # packets) =
     (let level = level_after level packet in (level, packet) # with_levels level packets)"

definition stream_wire :: "(ProtocolLevel \<times> Packet) list \<Rightarrow> bytes" where
  "stream_wire sent = concat (map (\<lambda>(level, packet). Packet_wire level packet) sent)"

text \<open>Successive calls of \<open>encode\<close>, and of \<open>decode\<close>.\<close>

primrec Codec_encodes ::
  "('w \<Rightarrow> bytes \<Rightarrow> (io_error + unit) \<times> 'w) \<Rightarrow> Packet list \<Rightarrow> 'w \<Rightarrow> Codec
   \<Rightarrow> (EncodeError + nat) list \<times> 'w \<times> Codec" where
  "Codec_encodes write_all [] w c = ([], w, c)"
| "Codec_encodes write_all (packet # packets) w c =
     (let (result, w, c) = Codec_encode write_all packet w c;
          (results, w, c) = Codec_encodes write_all packets w c in (result # results, w, c))"

primrec Codec_decodes ::
  "('r \<Rightarrow> (io_error + bytes) \<times> 'r) \<Rightarrow> nat \<Rightarrow> 'r \<Rightarrow> Codec
   \<Rightarrow> (DecodeError + (Packet \<times> nat) option) list \<times> 'r \<times> Codec" where
  "Codec_decodes read 0 r c = ([], r, c)"
| "Codec_decodes read (Suc n) r c =
     (let (result, r, c) = Codec_decode read r c;
          (results, r, c) = Codec_decodes read n r c in (result # results, r, c))"

lemma Codec_encodes_wire:
  assumes "list_all (\<lambda>(level, packet). sendable (codec_output_max_size c) n level packet)
      (with_levels (codec_level c) packets)"
    and "codec_write_buf c = []"
  shows "\<exists>c'. Codec_encodes append_all packets w c =
    (map (\<lambda>(level, packet). Inr (length (Packet_wire level packet))) (with_levels (codec_level c) packets),
     w @ stream_wire (with_levels (codec_level c) packets), c')"
  using assms
proof (induction packets arbitrary: w c)
  case Nil
  then show ?case by (simp add: stream_wire_def)
next
  case (Cons packet packets)
  define level where "level = level_after (codec_level c) packet"
  define c1 where "c1 = c\<lparr>codec_level := level\<rparr>"
  have "Codec_encode append_all packet w c
    = (Inr (length (Packet_wire level packet)), w @ Packet_wire level packet, c1)"
    using Cons.prems by (subst Codec_encode_wire) (auto simp: Let_def append_all_def level_def c1_def)
  moreover have "\<exists>c'. Codec_encodes append_all packets (w @ Packet_wire level packet) c1 =
    (map (\<lambda>(level, packet). Inr (length (Packet_wire level packet))) (with_levels level packets),
     (w @ Packet_wire level packet) @ stream_wire (with_levels level packets), c')"
    using Cons.IH [of c1 "w @ Packet_wire level packet"] Cons.prems
    by (simp add: c1_def level_def Let_def)
  ultimately show ?case
    by (auto simp: Let_def stream_wire_def simp flip: level_def)
qed

lemma Codec_decodes_wire:
  assumes "list_all (\<lambda>(level, packet). sendable n (codec_input_max_size c) level packet)
      (with_levels (codec_level c) packets)"
    and "codec_decoder_state c = Flag" "[] \<notin> set chunks"
    and "codec_read_buf c @ concat chunks = stream_wire (with_levels (codec_level c) packets)"
  shows "fst (Codec_decodes read_chunks (Suc (length packets)) chunks c) =
    map (\<lambda>(level, packet). Inr (Some (Packet_norm level packet, length (Packet_body level packet))))
      (with_levels (codec_level c) packets) @ [Inr None]"
  using assms
proof (induction packets arbitrary: chunks c)
  case Nil
  obtain result chunks' c' where d: "Codec_decode read_chunks chunks c = (result, chunks', c')"
    using prod_cases3 by blast
  from Codec_decode_chunks [OF this Nil.prems(3)] Nil.prems have "result = Inr None"
    by (simp add: yields_def next_of_def next_packet_def stream_wire_def)
  with d show ?case by simp
next
  case (Cons packet packets)
  define level where "level = level_after (codec_level c) packet"
  obtain result chunks' c' where d: "Codec_decode read_chunks chunks c = (result, chunks', c')"
    using prod_cases3 by blast
  have "next_of c (codec_read_buf c @ concat chunks) = Inr (Some (Packet_norm level packet,
      length (Packet_body level packet), stream_wire (with_levels level packets)))"
    using Cons.prems next_packet_wire [of n "codec_input_max_size c" "codec_level c" packet]
    by (simp add: next_of_def stream_wire_def Let_def flip: level_def)
  with Codec_decode_chunks [OF d Cons.prems(3)]
  have result: "result = Inr (Some (Packet_norm level packet, length (Packet_body level packet)))"
    and rest: "codec_read_buf c' @ concat chunks' = stream_wire (with_levels level packets)"
      "[] \<notin> set chunks'"
    and c': "c' = c\<lparr>codec_level := level, codec_read_buf := codec_read_buf c',
      codec_decoder_state := Flag\<rparr>"
    by (auto simp: yields_def Packet_norm_type simp flip: level_def)
  have fields: "codec_level c' = level" "codec_decoder_state c' = Flag"
    "codec_input_max_size c' = codec_input_max_size c"
    by (subst c', simp)+
  have "fst (Codec_decodes read_chunks (Suc (length packets)) chunks' c') =
    map (\<lambda>(level, packet). Inr (Some (Packet_norm level packet, length (Packet_body level packet))))
      (with_levels level packets) @ [Inr None]"
    using Cons.IH [of c' chunks'] Cons.prems rest fields by (simp add: Let_def level_def)
  with d result show ?case
    by (auto simp: Let_def split: prod.splits simp flip: level_def)
qed

end
