(* ===== verification/Codec_Theorems.thy ===== *)
theory Codec_Theorems
  imports Codec_Stream Packet_Id_Allocator
begin

text \<open>
  The correctness properties of \<open>libs/codec\<close>, over the definitions of the codec theories. A
  property with hypotheses is followed by a witness, which applies it to a concrete input.
\<close>

subsection \<open>Sample packets\<close>

definition sample_puback :: Packet where
  "sample_puback = PubAck \<lparr>puback_packet_id = 7, puback_reason_code = PubAckReasonCode.Success,
     puback_properties = PubAckProperties_default\<rparr>"

definition sample_publish :: Packet where
  "sample_publish = Publish \<lparr>publish_dup = False, publish_qos = AtLeastOnce, publish_retain = True,
     publish_topic = ''a/b'', publish_packet_id = Some 7,
     publish_properties = PublishProperties_default\<lparr>pubprop_message_expiry_interval := Some 60\<rparr>,
     publish_payload = [1, 2, 3]\<rparr>"

lemma sample_sendable:
  "sendable 1000 1000 level PingReq" "sendable 1000 1000 level sample_puback"
  "sendable 1000 1000 level sample_publish"
proof -
  show "sendable 1000 1000 level PingReq"
    by (simp add: sendable_def Packet_ok_def Packet_exact_def Packet_limit_def Packet_body_def)
  show "sendable 1000 1000 level sample_puback"
    by (cases level) (simp_all add: sendable_def sample_puback_def Packet_ok_def Packet_exact_def
      Packet_limit_def Packet_body_def PubAck_ok_def PubAck_exact_def PubAck_body_def
      PubAckProperties_fits_def PubAckProperties_ok_def PubAckProperties_wire_def
      PubAckProperties_default_def PubAckProperties_is_empty_def wire_opt_def users_wire_def
      off_by_one_def)
  show "sendable 1000 1000 level sample_publish"
    by (cases level) (simp_all add: sendable_def sample_publish_def Packet_ok_def Packet_exact_def
      Packet_limit_def Packet_body_def Publish_ok_def Publish_exact_def Publish_body_def
      PublishProperties_fits_def PublishProperties_ok_def PublishProperties_wire_def
      PublishProperties_default_def wire_opt_def users_wire_def off_by_one_def str_ok_def
      valid_str_def as_bytes_def byte_of_char_def props_wire_def length_varint)
qed

text \<open>Encoded and decoded at the samples' level, so that the witnesses below compute little.\<close>

definition sample_codec :: Codec where
  "sample_codec = Codec_new\<lparr>codec_level := V5, codec_input_max_size := 1000,
     codec_output_max_size := 1000\<rparr>"

lemma sample_codec_simps [simp]:
  "codec_level sample_codec = V5" "codec_input_max_size sample_codec = 1000"
  "codec_output_max_size sample_codec = 1000" "codec_read_buf sample_codec = []"
  "codec_write_buf sample_codec = []" "codec_decoder_state sample_codec = Flag"
  by (simp_all add: sample_codec_def Codec_new_def)

lemma level_after_samples [simp]:
  "level_after level sample_puback = level" "level_after level sample_publish = level"
  "level_after level PingReq = level"
  by (simp_all add: level_after_def sample_puback_def sample_publish_def)

subsection \<open>Streams of packets\<close>

text \<open>C1: packets that one codec encodes are decoded by another codec at the same level, in order
  and nothing else, however the transport cuts the bytes into chunks, and the end of the stream is
  then reported. What level 4 does not transmit is missing from the result (\<open>Packet_norm\<close>, the
  identity at level 5).\<close>

theorem stream_roundtrip:
  assumes "list_all (\<lambda>(level, packet). sendable (codec_output_max_size s) (codec_input_max_size r) level packet)
      (with_levels (codec_level s) packets)"
    and "codec_level r = codec_level s" "codec_write_buf s = []"
    and "codec_read_buf r = []" "codec_decoder_state r = Flag"
    and "Codec_encodes append_all packets [] s = (sizes, wire, s')"
    and "concat chunks = wire" "[] \<notin> set chunks"
  shows "fst (Codec_decodes read_chunks (Suc (length packets)) chunks r) =
    map (\<lambda>(level, packet). Inr (Some (Packet_norm level packet, length (Packet_body level packet))))
      (with_levels (codec_level s) packets) @ [Inr None]"
proof -
  have "wire = stream_wire (with_levels (codec_level s) packets)"
    using Codec_encodes_wire [OF assms(1,3), of "[]"] assms(6) by auto
  then show ?thesis
    using Codec_decodes_wire [of "codec_output_max_size s" r packets chunks] assms by simp
qed

lemma stream_roundtrip_witness:
  "\<exists>sizes wire s'.
     Codec_encodes append_all [sample_publish, sample_puback] [] sample_codec = (sizes, wire, s') \<and>
     wire \<noteq> [] \<and>
     fst (Codec_decodes read_chunks 3 [wire] sample_codec) =
       [Inr (Some (sample_publish, length (Packet_body V5 sample_publish))),
        Inr (Some (sample_puback, length (Packet_body V5 sample_puback))), Inr None]"
proof -
  obtain sizes wire s' where e:
    "Codec_encodes append_all [sample_publish, sample_puback] [] sample_codec = (sizes, wire, s')"
    by (metis prod_cases3)
  have ok: "list_all (\<lambda>(level, packet). sendable 1000 1000 level packet)
      (with_levels V5 [sample_publish, sample_puback])"
    by (simp add: sample_sendable)
  have "wire = stream_wire (with_levels V5 [sample_publish, sample_puback])"
    using Codec_encodes_wire [of sample_codec 1000 "[sample_publish, sample_puback]" "[]"] ok e by auto
  then have "wire \<noteq> []"
    by (simp add: stream_wire_def Packet_wire_def)
  moreover have "Packet_norm V5 sample_publish = sample_publish" "Packet_norm V5 sample_puback = sample_puback"
    by (simp_all add: Packet_norm_def sample_publish_def sample_puback_def Publish_norm_def PubAck_norm_def)
  ultimately show ?thesis
    using e stream_roundtrip [of sample_codec sample_codec "[sample_publish, sample_puback]" sizes wire s' "[wire]"] ok
    by (simp add: numeral_3_eq_3)
qed

text \<open>C11: \<open>Codec::decode\<close> refines a parser of the whole byte stream: on buffered bytes and chunks
  yet to come, the result, the codec's level and the bytes left are those \<open>next_packet\<close> gives on
  the concatenation, so the way the transport cuts the stream has no influence.\<close>

theorem decode_refines_next_packet:
  assumes "Codec_decode read_chunks chunks c = (result, chunks', c')"
    and "codec_decoder_state c = Flag" "[] \<notin> set chunks"
  shows "yields (next_packet (codec_level c) (codec_input_max_size c) (codec_read_buf c @ concat chunks))
    c result c' (codec_read_buf c' @ concat chunks')"
  using Codec_decode_chunks [OF assms(1,3)] assms(2) by (simp add: next_of_def)

lemma decode_refines_next_packet_witness:
  "\<exists>result chunks' c'. Codec_decode read_chunks [[0xc0], [0, 0xc0]] sample_codec = (result, chunks', c') \<and>
     result = Inr (Some (PingReq, 0)) \<and> codec_read_buf c' @ concat chunks' = [0xc0]"
proof -
  obtain result chunks' c' where d:
    "Codec_decode read_chunks [[0xc0], [0, 0xc0]] sample_codec = (result, chunks', c')"
    by (metis prod_cases3)
  have "next_packet V5 1000 [0xc0, 0, 0xc0] = Inr (Some (PingReq, 0, [0xc0]))"
    using next_packet_wire [of 1000 1000 V5 PingReq "[0xc0]"] sample_sendable(1)
    by (simp add: Packet_wire_def Packet_header_def Packet_body_def Packet_norm_def
        varint.simps)
  then show ?thesis
    using decode_refines_next_packet [OF d] d by (simp add: yields_def)
qed

text \<open>C27: when a read fails in the middle of a packet, the error is reported and nothing is lost:
  decoding again gives what it would have given without the error.\<close>

theorem decode_resumes_after_error:
  assumes "Codec_decode read_script (map Inr chunks @ Inl e # script) c = (Inl (DecodeIo e), script, c')"
  shows "Codec_decode read_script script c' = Codec_decode read_script (map Inr chunks @ script) c"
  using assms by (rule Codec_decode_resume)

lemma decode_resumes_after_error_witness:
  "\<exists>c'. Codec_decode read_script [Inr [0xc0], Inl UnexpectedEof, Inr [0]] sample_codec
       = (Inl (DecodeIo UnexpectedEof), [Inr [0]], c') \<and>
     Codec_decode read_script [Inr [0]] c' = Codec_decode read_script [Inr [0xc0], Inr [0]] sample_codec"
proof -
  obtain c' where "Codec_decode read_script [Inr [0xc0], Inl UnexpectedEof, Inr [0]] sample_codec
      = (Inl (DecodeIo UnexpectedEof), [Inr [0]], c')"
    by (simp add: Codec_decode.simps Codec_turn_def get_remaining_length_def
        get_remaining_length_loop.simps)
  then show ?thesis
    using decode_resumes_after_error [of "[[0xc0]]" UnexpectedEof "[Inr [0]]" sample_codec c'] by simp
qed

subsection \<open>Encoding\<close>

text \<open>A packet that is refused (too large, or a value that has no encoding) writes nothing to
  the transport, but leaves the first byte of its fixed header in the write buffer; the next packet
  is sent behind that byte, so the peer loses synchronisation.\<close>

theorem encode_error_garbles_next:
  assumes "Codec_encode append_all p w c = (Inl e, w', c')"
    and "codec_write_buf c = []" "Packet_ok (level_after (codec_level c) p) p"
    and "sendable (codec_output_max_size c) n (level_after (codec_level c') q) q"
  shows "w' = w \<and> codec_write_buf c' = [Packet_header p] \<and>
    Codec_encode append_all q w' c' =
      (let level = level_after (codec_level c') q; wire = Packet_header p # Packet_wire level q
       in (Inr (length wire), w @ wire, c'\<lparr>codec_level := level, codec_write_buf := []\<rparr>))"
proof -
  define level where "level = level_after (codec_level c) p"
  define c1 where "c1 = c\<lparr>codec_level := level\<rparr>"
  have c1: "(case p of Connect connect \<Rightarrow> c\<lparr>codec_level := connect_level connect\<rparr> | _ \<Rightarrow> c) = c1"
    by (simp add: c1_def level_def level_after_def split: Packet.splits)
  obtain buf where buf: "Packet_encode p level (codec_output_max_size c) [] = (Inl e, buf)"
    and c': "w' = w" "c' = c1\<lparr>codec_write_buf := buf\<rparr>"
    using assms(1,2) by (auto simp: Codec_encode_def c1 append_all_def Let_def c1_def split: prod.splits sum.splits)
  have "buf = [Packet_header p]"
    using Packet_encode_residue [OF _ buf] assms(3) by (simp add: level_def)
  moreover define level' where "level' = level_after (codec_level c') q"
  have "Packet_encode q level' (codec_output_max_size c) = put_slice (Packet_wire level' q)"
    using assms(4) by (intro Packet_encode_wire) (simp_all add: sendable_def level'_def)
  moreover have q: "(case q of Connect connect \<Rightarrow> c'\<lparr>codec_level := connect_level connect\<rparr> | _ \<Rightarrow> c')
      = c'\<lparr>codec_level := level'\<rparr>"
    by (simp add: level'_def level_after_def split: Packet.splits)
  moreover have "codec_write_buf c' = buf" "codec_output_max_size c' = codec_output_max_size c"
    by (simp_all add: c' c1_def)
  ultimately have "Codec_encode append_all q w' c' =
      (Inr (length ([Packet_header p] @ Packet_wire level' q)),
       w @ [Packet_header p] @ Packet_wire level' q, c'\<lparr>codec_level := level', codec_write_buf := []\<rparr>)"
    unfolding Codec_encode_def q by (simp add: put_slice_apply append_all_def c'(1))
  then show ?thesis
    using \<open>buf = _\<close> \<open>codec_write_buf c' = buf\<close> c'(1) by (simp add: level'_def Let_def)
qed

lemma encode_error_garbles_next_witness:
  "\<exists>c'. Codec_encode append_all sample_puback [] (sample_codec\<lparr>codec_output_max_size := 1\<rparr>)
       = (Inl EncodeError.PacketTooLarge, [], c') \<and>
     fst (snd (Codec_encode append_all PingReq [] c')) = [0x40, 0xc0, 0]"
proof -
  let ?c = "sample_codec\<lparr>codec_output_max_size := 1\<rparr>"
  have ok: "Packet_ok (level_after (codec_level ?c) sample_puback) sample_puback"
    using sample_sendable(2) [of V5] by (simp add: sendable_def)
  have lim: "Packet_encode sample_puback V5 1 [] = (Inl EncodeError.PacketTooLarge, [0x40])"
    by (simp add: sample_puback_def Packet_encode_def PubAck_encode_def PubAck_size_def
        PubAck_variable_header_length_def PubAck_payload_length_def PubAckProperties_is_empty_def
        PubAckProperties_default_def block.simps put_word_slice put_slice_apply let_ok_def
        ensure_w_def and_then_iff)
  then obtain c' where e: "Codec_encode append_all sample_puback [] ?c = (Inl EncodeError.PacketTooLarge, [], c')"
    by (simp add: Codec_encode_def sample_puback_def)
  then have "codec_level c' = V5"
    using lim by (auto simp: Codec_encode_def sample_puback_def)
  moreover have "sendable (codec_output_max_size ?c) 1000 V5 PingReq"
    by (simp add: sendable_def Packet_ok_def Packet_exact_def Packet_limit_def Packet_body_def)
  ultimately have "fst (snd (Codec_encode append_all PingReq [] c')) = [0x40, 0xc0, 0]"
    using encode_error_garbles_next [OF e _ ok, of 1000 PingReq]
    by (simp add: Let_def Packet_wire_def Packet_header_def Packet_body_def varint.simps
        sample_puback_def level_after_def)
  with e show ?thesis by blast
qed

text \<open>C19: at level 5, a packet is recovered from what \<open>Packet::encode\<close> writes: the header byte,
  the remaining length, and a body that \<open>Packet::decode\<close> maps back to the packet.\<close>

theorem packet_roundtrip:
  assumes "Packet_ok V5 packet" "Packet_exact V5 packet"
    and "Packet_limit packet (length (Packet_body V5 packet)) max_size"
    and "length (Packet_body V5 packet) \<le> 268435455"
  shows "\<exists>flag body. Packet_encode packet V5 max_size [] = (Inr (), flag # varint (length body) @ body) \<and>
    read_remaining_length (varint (length body) @ body) = Inr (length body, body) \<and>
    Packet_decode body flag V5 = Inr packet"
proof -
  have "Packet_norm V5 packet = packet"
    by (cases packet) (simp_all add: Packet_norm_def Connect_norm_def ConnAck_norm_def Publish_norm_def
      PubAck_norm_def PubRec_norm_def PubRel_norm_def PubComp_norm_def Subscribe_norm_def SubAck_norm_def
      Unsubscribe_norm_def UnsubAck_norm_def Disconnect_norm_def)
  then show ?thesis
    using Packet_encode_wire [OF assms] Packet_decode_wire [OF assms(1)] read_varint [OF assms(4)]
    by (auto simp: put_slice_apply Packet_wire_def)
qed

lemma packet_roundtrip_witness:
  "\<exists>flag body. Packet_encode sample_publish V5 1000 [] = (Inr (), flag # varint (length body) @ body) \<and>
    read_remaining_length (varint (length body) @ body) = Inr (length body, body) \<and>
    Packet_decode body flag V5 = Inr sample_publish"
  using packet_roundtrip [of sample_publish 1000] sample_sendable(3) [of V5] by (simp add: sendable_def)

text \<open>The lengths that \<open>bytes_remaining_length\<close> is asked about when the size of a packet is computed: that
  of its properties block and, because they are written in the same format, its subscription identifiers.\<close>

definition announced_lengths :: "Packet \<Rightarrow> nat list" where
  "announced_lengths packet =
     (case packet of
        Packet.Connect x \<Rightarrow> [length (ConnectProperties_wire (connect_properties x))]
      | Packet.ConnAck x \<Rightarrow> [length (ConnAckProperties_wire (connack_properties x))]
      | Packet.Publish x \<Rightarrow> length (PublishProperties_wire (publish_properties x)) #
          pubprop_subscription_identifiers (publish_properties x)
      | Packet.PubAck x \<Rightarrow> [length (PubAckProperties_wire (puback_properties x))]
      | Packet.PubRec x \<Rightarrow> [length (PubRecProperties_wire (pubrec_properties x))]
      | Packet.PubRel x \<Rightarrow> [length (PubRelProperties_wire (pubrel_properties x))]
      | Packet.PubComp x \<Rightarrow> [length (PubCompProperties_wire (pubcomp_properties x))]
      | Packet.Subscribe x \<Rightarrow> length (SubscribeProperties_wire (subscribe_properties x)) #
          (case subprop_id (subscribe_properties x) of Some i \<Rightarrow> [i] | None \<Rightarrow> [])
      | Packet.SubAck x \<Rightarrow> [length (SubAckProperties_wire (suback_properties x))]
      | Packet.Unsubscribe x \<Rightarrow> [length (UnsubscribeProperties_wire (unsubscribe_properties x))]
      | Packet.UnsubAck x \<Rightarrow> [length (UnsubAckProperties_wire (unsuback_properties x))]
      | Packet.PingReq \<Rightarrow> []
      | Packet.PingResp \<Rightarrow> []
      | Packet.Disconnect x \<Rightarrow> [length (DisconnectProperties_wire (disconnect_properties x))])"

lemmas packet_fits =
  ConnectProperties_fits_def ConnAckProperties_fits_def PublishProperties_fits_def PubAckProperties_fits_def
  PubRecProperties_fits_def PubRelProperties_fits_def PubCompProperties_fits_def SubscribeProperties_fits_def
  SubAckProperties_fits_def UnsubscribeProperties_fits_def UnsubAckProperties_fits_def DisconnectProperties_fits_def

lemmas packet_oks =
  ConnAck_ok_def Publish_ok_def PubAck_ok_def PubRec_ok_def PubRel_ok_def PubComp_ok_def
  Subscribe_ok_def SubAck_ok_def Unsubscribe_ok_def UnsubAck_ok_def Disconnect_ok_def

lemmas packet_exacts =
  ConnAck_exact_def Publish_exact_def PubAck_exact_def PubRec_exact_def PubRel_exact_def PubComp_exact_def
  Subscribe_exact_def SubAck_exact_def Unsubscribe_exact_def UnsubAck_exact_def Disconnect_exact_def

lemma wf_ok_exact:
  assumes "Packet_wf packet"
    and "\<forall>n \<in> set (announced_lengths packet). n < 268435455 \<and> n \<noteq> 16383 \<and> n \<noteq> 2097151"
    and "case packet of
        Packet.Publish p \<Rightarrow> sorted (pubprop_subscription_identifiers (publish_properties p))
      | Packet.Connect c \<Rightarrow> connect_level c = level \<and>
          opt_ok (\<lambda>l. username l \<noteq> []) (connect_login c) \<and>
          opt_ok (\<lambda>w. level = V5 \<and> length (WillProperties_wire (last_will_properties w)) < 268435455 \<and>
            length (varint (length (WillProperties_wire (last_will_properties w))))
              = length (varint (length (ConnectProperties_wire (connect_properties c))))) (connect_last_will c)
      | _ \<Rightarrow> True"
  shows "Packet_ok level packet" and "Packet_exact level packet"
proof -
  have "Packet_ok level packet \<and> Packet_exact level packet"
  proof (cases packet)
    case (Connect c)
    show ?thesis
      using assms by (cases "connect_last_will c"; cases "connect_login c")
        (simp_all add: Connect Packet_wf_def Packet_ok_def Packet_exact_def announced_lengths_def Connect_wf_def
          Connect_ok_def Connect_exact_def LastWill_ok_def Login_ok_def ConnectProperties_fits_def
          WillProperties_fits_def off_by_one_def)
  next
    case (Subscribe p)
    then show ?thesis
      using assms(1,2) by (cases "subprop_id (subscribe_properties p)")
        (auto simp: Packet_wf_def Packet_ok_def Packet_exact_def announced_lengths_def packet_oks packet_exacts
          packet_fits off_by_one_def)
  next
    case (Publish p)
    then show ?thesis
      using assms(1-3) by (auto simp: Packet_wf_def Packet_ok_def Packet_exact_def announced_lengths_def
          Publish_ok_def Publish_exact_def PublishProperties_fits_def off_by_one_def list_all_iff)
  qed (use assms(1,2) in \<open>simp_all add: Packet_wf_def Packet_ok_def Packet_exact_def announced_lengths_def packet_oks
    packet_exacts packet_fits off_by_one_def\<close>)
  then show "Packet_ok level packet" and "Packet_exact level packet" by simp_all
qed

text \<open>C35: the size that a packet announces, and that is compared with the peer's maximum packet
  size, is the length of what is written after the fixed header, for every well-formed packet except
  these: one with a properties block or a subscription identifier (in PUBLISH and SUBSCRIBE) of exactly 16383 or 2097151, or of
  268435455 and more; a CONNECT at another level than its own, with a login without user name, with a will at
  level 4, or with a will whose properties need a longer or shorter length than those of the packet. The subscription
  identifiers of a PUBLISH are assumed to be in order, as the decoder leaves them.\<close>

theorem packet_size_exact:
  assumes "Packet_wf packet"
    and "\<forall>n \<in> set (announced_lengths packet). n < 268435455 \<and> n \<noteq> 16383 \<and> n \<noteq> 2097151"
    and "case packet of
        Packet.Publish p \<Rightarrow> sorted (pubprop_subscription_identifiers (publish_properties p))
      | Packet.Connect c \<Rightarrow> connect_level c = level \<and>
          opt_ok (\<lambda>l. username l \<noteq> []) (connect_login c) \<and>
          opt_ok (\<lambda>w. level = V5 \<and> length (WillProperties_wire (last_will_properties w)) < 268435455 \<and>
            length (varint (length (WillProperties_wire (last_will_properties w))))
              = length (varint (length (ConnectProperties_wire (connect_properties c))))) (connect_last_will c)
      | _ \<Rightarrow> True"
  shows "Packet_size level packet = Inr (length (Packet_body level packet)) \<and>
    (length (Packet_body level packet) \<le> 268435455 \<and> Packet_limit packet (length (Packet_body level packet)) max_size \<longrightarrow>
     Packet_encode packet level max_size [] = (Inr (),
       Packet_header packet # varint (length (Packet_body level packet)) @ Packet_body level packet))"
proof -
  note ok = wf_ok_exact [OF assms]
  have "Packet_encode packet level max_size [] = (Inr (), Packet_wire level packet)"
    if "Packet_limit packet (length (Packet_body level packet)) max_size" "length (Packet_body level packet) \<le> 268435455"
    by (simp only: Packet_encode_wire [OF ok that] put_slice_apply append_Nil)
  then show ?thesis
    using Packet_size_exact [OF ok] unfolding Packet_wire_def by blast
qed

definition sample_subscribe :: "nat \<Rightarrow> Packet" where
  "sample_subscribe i = Packet.Subscribe \<lparr>subscribe_packet_id = 1,
     subscribe_properties = SubscribeProperties_default\<lparr>subprop_id := Some i\<rparr>,
     subscribe_filters = [\<lparr>filter_path = ''a'', filter_qos = AtMostOnce, filter_no_local = False,
       filter_retain_as_published = False, filter_retain_handling = RetainHandling.OnEverySubscribe\<rparr>]\<rparr>"

lemmas sample_subscribe_simps = sample_subscribe_def SubscribeProperties_default_def SubscribeProperties_wire_def
  wire_opt_def users_wire_def varint.simps as_bytes_def byte_of_char_def

lemma sample_subscribe_wf: "Packet_wf (sample_subscribe 16384)"
  by (simp add: Packet_wf_def SubscribeProperties_ok_def identifier_ok_def str_ok_def valid_str_def sample_subscribe_simps)

lemma sample_subscribe_body:
  "Packet_body V5 (sample_subscribe 16384) = [0, 1, 4, 11, 0x80, 0x80, 1, 0, 1, 0x61, 0]"
  by (simp add: Packet_body_def Subscribe_body_def props_wire_def be16_def SubscribeFilter_wire_def
      SubscribeFilter_options_def str_wire_def sample_subscribe_simps)

lemma packet_size_exact_witness:
  "Packet_size V5 (sample_subscribe 16384) = Inr 11 \<and>
   Packet_encode (sample_subscribe 16384) V5 100 [] = (Inr (), [0x82, 11, 0, 1, 4, 11, 0x80, 0x80, 1, 0, 1, 0x61, 0])"
proof -
  let ?p = "sample_subscribe 16384"
  have "\<forall>n \<in> set (announced_lengths ?p). n < 268435455 \<and> n \<noteq> 16383 \<and> n \<noteq> 2097151"
    by (simp add: announced_lengths_def sample_subscribe_simps)
  then have exact: "Packet_size V5 ?p = Inr (length (Packet_body V5 ?p)) \<and>
    (length (Packet_body V5 ?p) \<le> 268435455 \<and> Packet_limit ?p (length (Packet_body V5 ?p)) 100 \<longrightarrow>
     Packet_encode ?p V5 100 [] = (Inr (), Packet_header ?p # varint (length (Packet_body V5 ?p)) @ Packet_body V5 ?p))"
    by (intro packet_size_exact sample_subscribe_wf) (simp_all add: sample_subscribe_def)
  have len: "length (Packet_body V5 ?p) = 11" by (simp add: sample_subscribe_body)
  have rest: "Packet_header ?p = 0x82" "Packet_limit ?p 11 100" "varint 11 = [11]" "(11 :: nat) \<le> 268435455"
    by (simp_all add: Packet_header_def Packet_limit_def sample_subscribe_def varint.simps)
  show ?thesis
    using exact [unfolded len] by (simp only: rest sample_subscribe_body simp_thms append.simps)
qed

text \<open>The exceptions are real: with the subscription identifier 16383, a SUBSCRIBE announces 11 bytes and
  writes 10.\<close>

theorem subscription_identifier_size:
  "Packet_encode (sample_subscribe 16383) V5 100 [] = (Inr (), [0x82, 11] @ [0, 1, 4, 11, 0xff, 0x7f, 0, 1, 0x61, 0])"
proof -
  obtain p where p: "sample_subscribe 16383 = Packet.Subscribe p" by (simp add: sample_subscribe_def)
  have fields: "subscribe_packet_id p = 1" "subscribe_properties p = \<lparr>subprop_id = Some 16383, subprop_user_properties = []\<rparr>"
      "subscribe_filters p = [\<lparr>filter_path = ''a'', filter_qos = AtMostOnce, filter_no_local = False,
        filter_retain_as_published = False, filter_retain_handling = RetainHandling.OnEverySubscribe\<rparr>]"
    using p by (auto simp: sample_subscribe_def SubscribeProperties_default_def)
  have props: "SubscribeProperties_bytes_length \<lparr>subprop_id = Some 16383, subprop_user_properties = []\<rparr> = Inr 4"
    by (simp add: SubscribeProperties_bytes_length_def prop_remaining_length_len_def bytes_remaining_length_def
        user_properties_len_def)
  have size: "Subscribe_size V5 p = Inr 11"
    by (simp add: Subscribe_size_def Subscribe_variable_header_length_def props props_size_def bytes_remaining_length_def
        Subscribe_payload_length_def fields)
  have "Subscribe_encode_body V5 p = put_slice [0, 1, 4, 11, 0xff, 0x7f, 0, 1, 0x61, 0]"
    by (simp add: Subscribe_encode_body_def props SubscribeProperties_encode_def SubscribeFilter_encode_def
        SubscribeFilter_options_def fields sample_subscribe_simps write_remaining_length_slice identifier_writers
        write_prop_def for_each_def put_u16_def be16_def let_ok_def if_true_def wire write_string_def
        write_user_properties_def put_slice_apply)
      (simp add: fun_eq_iff block.simps put_slice_apply)
  then show ?thesis
    by (simp add: p Packet_encode_def Subscribe_encode_def size write_remaining_length_slice varint.simps
        block.simps put_slice_apply put_u8_def let_ok_def ensure_w_def)
qed

text \<open>For a CONNECT with a will at level 5, the announced size differs from the length of what is
  written by the difference between the lengths of the two properties' length prefixes, because
  \<open>payload_length\<close> takes the prefix of the CONNECT properties for that of the will properties.\<close>

theorem connect_will_size:
  assumes "Connect_ok V5 c" "connect_last_will c = Some w"
    and "off_by_one (length (ConnectProperties_wire (connect_properties c))) = 0"
  shows "\<exists>n. Connect_size V5 c = Inr n \<and>
    n + length (varint (length (WillProperties_wire (last_will_properties w)))) =
    length (Connect_body V5 c) + length (varint (length (ConnectProperties_wire (connect_properties c))))"
proof -
  have login: "(case connect_login c of Some l \<Rightarrow> Login_length l | None \<Rightarrow> 0)
    = length (case connect_login c of Some l \<Rightarrow> Login_wire l | None \<Rightarrow> [])"
    using assms(1) by (cases "connect_login c")
      (auto simp: Login_length_def Login_wire_def Connect_ok_def Login_ok_def)
  show ?thesis
    using assms ConnectProperties_fits_length [of "connect_properties c"] WillProperties_fits_length login
    by (auto simp: Connect_size_def Connect_variable_header_length_def Connect_payload_length_def
        Connect_will_length_def Connect_body_def Connect_ok_def LastWill_ok_def LastWill_wire_def
        bytes_remaining_length_eq wire props_wire_def)
qed

definition sample_connect :: "ProtocolLevel \<Rightarrow> WillProperties \<Rightarrow> Connect" where
  "sample_connect level properties = \<lparr>connect_level = level, connect_keep_alive = 60,
     connect_clean_start = True, connect_client_id = ''c'',
     connect_last_will = Some \<lparr>last_will_topic = ''t'', last_will_payload = [1],
       last_will_qos = AtMostOnce, last_will_retain = False, last_will_properties = properties\<rparr>,
     connect_login = None, connect_properties = ConnectProperties_default\<rparr>"

definition long_will_properties :: WillProperties where
  "long_will_properties = WillProperties_default\<lparr>will_correlation_data := Some (replicate 130 0)\<rparr>"

lemma connect_will_size_witness:
  "\<exists>n. Connect_size V5 (sample_connect V5 long_will_properties) = Inr n \<and>
     n + 1 = length (Connect_body V5 (sample_connect V5 long_will_properties))"
proof -
  let ?c = "sample_connect V5 long_will_properties"
  have will: "length (WillProperties_wire long_will_properties) = 133" "WillProperties_ok long_will_properties"
    by (simp_all add: WillProperties_wire_def WillProperties_ok_def long_will_properties_def
        WillProperties_default_def prop_data_len_def prop_len_def user_properties_len_def bin_ok_def)
  have conn: "length (ConnectProperties_wire ConnectProperties_default) = 0" "ConnectProperties_ok ConnectProperties_default"
    by (simp_all add: ConnectProperties_wire_def ConnectProperties_ok_def
        ConnectProperties_default_def wire_opt_def users_wire_def)
  have "Connect_ok V5 ?c"
    using will conn by (simp add: Connect_ok_def sample_connect_def LastWill_ok_def str_ok_def
        valid_str_def as_bytes_def byte_of_char_def bin_ok_def WillProperties_fits_def
        ConnectProperties_fits_def)
  then show ?thesis
    using connect_will_size [of ?c] will conn
    by (simp add: sample_connect_def off_by_one_def length_varint)
qed

text \<open>A CONNECT with a will at level 4 is written without will properties, but the decoder reads
  a properties length at level 4 too, so it rejects what the encoder wrote.\<close>

theorem connect_v4_will_rejected:
  "Connect_encode (sample_connect V4 WillProperties_default) V4 1000 [] =
    (Inr (), [0x10, 19] @ [0, 4, 0x4d, 0x51, 0x54, 0x54, 4, 6, 0, 60, 0, 1, 0x63, 0, 1, 0x74, 0, 1, 1]) \<and>
   Connect_decode [0, 4, 0x4d, 0x51, 0x54, 0x54, 4, 6, 0, 60, 0, 1, 0x63, 0, 1, 0x74, 0, 1, 1] V4
     = Inl DecodeError.MalformedPacket"
proof
  show "Connect_encode (sample_connect V4 WillProperties_default) V4 1000 [] =
    (Inr (), [0x10, 19] @ [0, 4, 0x4d, 0x51, 0x54, 0x54, 4, 6, 0, 60, 0, 1, 0x63, 0, 1, 0x74, 0, 1, 1])"
    by (simp add: sample_connect_def Connect_encode_def Connect_size_def
        Connect_variable_header_length_def Connect_payload_length_def Connect_will_length_def wire
        Connect_encode_body_def LastWill_encode_def Connect_flags_def str_ok_MQTT write_string_def
        write_binary_def as_bytes_def byte_of_char_def be16_def varint.simps)
      (simp add: block.simps put_slice_apply)
qed code_simp

subsection \<open>Decoding\<close>

text \<open>C20: whatever bytes arrive, a packet that is decoded satisfies the invariants of its type:
  packet identifiers are not zero and there exactly when the quality of service needs one, strings
  are UTF-8 of at most 65535 bytes, and properties are in range.\<close>

theorem decode_well_formed:
  assumes "Packet_decode data flag level = Inr packet"
  shows "Packet_wf packet"
  using assms by (rule Packet_decode_wf)

lemma decode_well_formed_witness:
  "Packet_decode [0, 7] 0x40 V4 = Inr sample_puback \<and> Packet_wf sample_puback"
proof -
  have "Packet_body V4 sample_puback = [0, 7]" "Packet_header sample_puback = 0x40"
    "Packet_norm V4 sample_puback = sample_puback"
    by (simp_all add: Packet_body_def Packet_header_def Packet_norm_def sample_puback_def
        PubAck_body_def PubAck_norm_def be16_def)
  moreover have "Packet_ok V4 sample_puback"
    using sample_sendable(2) [of V4] by (simp add: sendable_def)
  ultimately have d: "Packet_decode [0, 7] 0x40 V4 = Inr sample_puback"
    using Packet_decode_wire [of V4 sample_puback] by simp
  then show ?thesis using decode_well_formed [OF d] by simp
qed

subsection \<open>Remaining lengths\<close>

text \<open>\<open>get_remaining_length\<close>, which looks at a buffer that may still be incomplete, agrees
  with \<open>read_remaining_length\<close>: same value, same number of bytes, a malformed length only when
  four bytes are there, and otherwise a request for more.\<close>

theorem get_remaining_length_reads:
  "get_remaining_length data =
    (case read_remaining_length data of
       Inr (m, rest) \<Rightarrow> Inr (Some (m, length data - length rest))
     | Inl _ \<Rightarrow> if length data < 4 then Inr None else Inl DecodeError.MalformedPacket)"
  by (rule get_remaining_length_eq)

text \<open>A remaining length of at most 268435455 is written in one to four bytes and read back
  whatever follows; a larger one is refused and nothing is written.\<close>

theorem remaining_length_roundtrip:
  "((\<exists>bs. write_remaining_length n buf = (Inr (), buf @ bs) \<and> length bs \<in> {1, 2, 3, 4} \<and>
     read_remaining_length (bs @ rest) = Inr (n, rest)) \<longleftrightarrow> n \<le> 268435455) \<and>
   (write_remaining_length n buf = (Inl PayloadTooLarge, buf) \<longleftrightarrow> 268435455 < n)"
proof -
  have ok: "write_remaining_length n buf = (Inr (), buf @ varint n) \<and> length (varint n) \<in> {1, 2, 3, 4} \<and>
      read_remaining_length (varint n @ rest) = Inr (n, rest)" if "n \<le> 268435455"
    using that by (simp add: write_remaining_length_slice put_slice_apply read_varint length_varint)
  have bad: "write_remaining_length n buf = (Inl PayloadTooLarge, buf)" if "268435455 < n"
    using that by (simp add: write_remaining_length_def block.simps ensure_w_def)
  have "(\<exists>bs. write_remaining_length n buf = (Inr (), buf @ bs) \<and> length bs \<in> {1, 2, 3, 4} \<and>
     read_remaining_length (bs @ rest) = Inr (n, rest)) \<longleftrightarrow> n \<le> 268435455"
    using ok bad by (cases "n \<le> 268435455") auto
  moreover have "write_remaining_length n buf = (Inl PayloadTooLarge, buf) \<longleftrightarrow> 268435455 < n"
    using ok bad by (cases "n \<le> 268435455") auto
  ultimately show ?thesis ..
qed

text \<open>\<open>bytes_remaining_length\<close>, which computes how many bytes the length \<open>n\<close> will take,
  is right except at 16383 and 2097151, where it is one too large, and at 268435455, which it
  refuses although \<open>write_remaining_length\<close> writes it.\<close>

theorem bytes_remaining_length_off_by_one:
  "bytes_remaining_length n =
    (if 268435455 \<le> n then Inl PayloadTooLarge
     else Inr (length (varint n) + (if n = 16383 \<or> n = 2097151 then 1 else 0))) \<and>
   write_remaining_length 268435455 buf = (Inr (), buf @ varint 268435455)"
  by (simp_all add: bytes_remaining_length_eq off_by_one_def write_remaining_length_slice put_slice_apply)

subsection \<open>Packet identifiers\<close>

text \<open>A new allocator hands out 65535 different identifiers, none of them zero, before it
  repeats; the \<open>i\<close>-th one is \<open>i mod 65535 + 1\<close>.\<close>

theorem packet_ids_distinct:
  "distinct (fst (PacketIdAllocator_takes 65535 PacketIdAllocator_default)) \<and>
   0 \<notin> set (fst (PacketIdAllocator_takes n PacketIdAllocator_default)) \<and>
   map unat (fst (PacketIdAllocator_takes n PacketIdAllocator_default)) = map (\<lambda>i. i mod 65535 + 1) [0..<n]"
proof -
  have ids: "fst (PacketIdAllocator_takes n PacketIdAllocator_default) = map nth_packet_id [0..<n]" for n
    using PacketIdAllocator_takes_nth [of n 0] by (simp add: PacketIdAllocator_default_nth)
  have "inj_on nth_packet_id {0..<65535}"
  proof (rule inj_onI)
    fix i j
    assume "i \<in> {0..<65535}" "j \<in> {0..<65535::nat}" "nth_packet_id i = nth_packet_id j"
    then have "i mod 65535 + 1 = j mod 65535 + 1" by (metis unat_nth_packet_id)
    with \<open>i \<in> _\<close> \<open>j \<in> _\<close> show "i = j" by simp
  qed
  then have "distinct (map nth_packet_id [0..<65535])"
    by (simp only: distinct_map set_upt distinct_upt simp_thms)
  then show ?thesis
    by (auto simp: ids unat_nth_packet_id nth_packet_id_nonzero [symmetric])
qed

end
