(* ===== verification/Client_Theorems.thy ===== *)
theory Client_Theorems
  imports Client_Window Codec_Theorems
begin

text \<open>
  The correctness properties of the client loop (\<open>libs/service/src/client_loop.rs\<close>) with the
  storage below it: that it does not panic as long as its session is left alone, what is accepted
  before and after CONNECT, flow control, exactly-once reception, and the behaviours of takeover,
  resumption, wills and refused connections that the code does not get right.
\<close>

subsection \<open>Runs of a connection\<close>

text \<open>A connection between its start and a turn that ends it: its own turns, and the operations
  that other connections and the timer make on the storage. They may do anything but create,
  disconnect or empty the session of the client that is logged in here.\<close>

inductive conn_run :: "('r, 'w) World \<Rightarrow> ('r, 'w) World \<Rightarrow> bool" where
  start: "conn_run w w"
| turn: "conn_run w w' \<Longrightarrow> loop_turn ev env w' = (Finished True, w'') \<Longrightarrow> conn_run w w''"
| others: "conn_run w w' \<Longrightarrow> storage_step (state_storage (world_state w')) op st \<Longrightarrow>
    (\<And>c. conn_client_id (world_conn w') = Some c \<Longrightarrow> \<not> takes_from c op) \<Longrightarrow>
    conn_run w (w'\<lparr>world_state := (world_state w')\<lparr>state_storage := st\<rparr>\<rparr>)"

lemma others_ok:
  assumes "conn_ok w" "storage_step (state_storage (world_state w)) op st"
    and "\<And>c. conn_client_id (world_conn w) = Some c \<Longrightarrow> \<not> takes_from c op"
  shows "conn_ok (w\<lparr>world_state := (world_state w)\<lparr>state_storage := st\<rparr>\<rparr>)"
proof -
  have inv: "Storage_inv (state_storage (world_state w))" using assms(1) by (simp add: conn_ok_def)
  have "connected st c" if c: "conn_client_id (world_conn w) = Some c" for c
  proof -
    have "queue_extends c (state_storage (world_state w)) st"
      by (rule storage_step_queue [OF assms(2) inv assms(3) [OF c]])
    moreover have "connected (state_storage (world_state w)) c" using assms(1) c by (simp add: conn_ok_def)
    ultimately show ?thesis
      by (auto simp: queue_extends_def connected_def split: option.splits)
  qed
  then show ?thesis
    using assms(1) storage_step_inv [OF assms(2) inv] by (simp add: conn_ok_def ServiceState_rewrite_def)
qed

lemma conn_run_ok: "conn_run w w' \<Longrightarrow> conn_ok w \<Longrightarrow> conn_ok w'"
proof (induction rule: conn_run.induct)
  case (turn w w' ev env w'')
  then show ?case using safeD [OF stays_ok_loop_turn, of "{}" w' ev env] by simp
qed (simp_all add: others_ok)

text \<open>C7: a connection never panics and never aborts the process, whatever it receives, however its
  reads and writes fail, and whatever the other connections and the timer do in between, unless they create,
  disconnect or empty its session: none of the \<open>unwrap\<close>s of the handlers and of the storage
  fails, and neither does the assertion on the number of fetched messages. All along, the storage
  invariant holds, and the client's session is connected.\<close>

theorem connection_never_panics:
  assumes "conn_run w w'" "conn_ok w"
  shows "conn_ok w' \<and> fst (loop_turn ev env w') \<notin> {Panicked, Aborted} \<and>
    Storage_inv (state_storage (world_state (snd (close_connection env w'))))"
proof -
  have ok: "conn_ok w'" by (rule conn_run_ok [OF assms])
  obtain r v where r: "loop_turn ev env w' = (r, v)" by force
  obtain r' v' where r': "close_connection env w' = (r', v')" by force
  have "post (\<lambda>_. conn_ok) conn_ok (r, v)"
    using safeD [OF stays_ok_loop_turn ok, of ev env] by (simp add: r)
  moreover have "post (\<lambda>_ w. Storage_inv (state_storage (world_state w))) (\<lambda>_. False) (r', v')"
    using safeD [OF stays_ok_close ok, of "\<lambda>_. False" env] by (simp add: r')
  ultimately show ?thesis
    using ok by (cases r; cases r') (simp_all add: r r')
qed

subsection \<open>Samples\<close>

text \<open>A transport that takes everything and delivers nothing.\<close>

definition sample_env :: "(unit, bytes) Env" where
  "sample_env = \<lparr>env_read = (\<lambda>r. (Inr [], r)), env_write_all = (\<lambda>w data. (Inr (), w @ data)),
     env_now = 0, env_instant = 0, env_uuid = ''0'', env_pick = (\<lambda>_ _ k. k - 1)\<rparr>"

definition sample_state :: ServiceState where
  "sample_state = ServiceState_new ServiceConfig_default [] []"

definition sample_conn :: "(unit, bytes) Connection" where
  "sample_conn = Connection_new \<lparr>remote_protocol = ''tcp'', remote_address = None\<rparr> 1 0 () []"

definition sample_world :: "(unit, bytes) World" where
  "sample_world = \<lparr>world_conn = sample_conn, world_state = sample_state\<rparr>"

text \<open>The same connection logged in as the client of the sample storage.\<close>

definition sample_client :: "(unit, bytes) World" where
  "sample_client = \<lparr>world_conn = sample_conn\<lparr>conn_client_id := Some ''c1'', conn_receive_in_quota := 10,
      conn_receive_out_quota := 10, conn_receive_out_max := 10\<rparr>,
     world_state = sample_state\<lparr>state_storage := sample_created\<rparr>\<rparr>"

lemma sample_world_ok: "conn_ok sample_world"
  by (simp add: conn_ok_def sample_world_def sample_conn_def Connection_new_def sample_state_def
      ServiceState_new_def Storage_inv_default ServiceState_rewrite_def auth_ok_def)

lemma sample_client_ok: "conn_ok sample_client" "client_ok ''c1'' sample_client"
proof -
  show "client_ok ''c1'' sample_client"
    by (simp add: logged_in_def sample_client_def sample_conn_def Connection_new_def sample_state_def
        ServiceState_new_def ServiceState_rewrite_def sample_created auth_ok_def)
  then show "conn_ok sample_client" by (rule client_keeps_conn)
qed

lemma connection_never_panics_witness:
  "fst (loop_turn Notified sample_env sample_client) \<noteq> Panicked"
  using connection_never_panics [OF conn_run.start sample_client_ok(1)] by blast

subsection \<open>Before and after CONNECT\<close>

text \<open>C34: before a CONNECT has been accepted, every packet but CONNECT, PINGREQ and DISCONNECT is a
  protocol error that changes nothing; afterwards a second CONNECT is one.\<close>

theorem login_gate:
  "(conn_client_id (world_conn w) = None \<and>
      (case packet of Packet.Connect _ \<Rightarrow> False | Packet.PingReq \<Rightarrow> False | Packet.Disconnect _ \<Rightarrow> False | _ \<Rightarrow> True) \<or>
    conn_client_id (world_conn w) \<noteq> None \<and> (case packet of Packet.Connect _ \<Rightarrow> True | _ \<Rightarrow> False)) \<longrightarrow>
   handle_packet packet env w = (Failed (Error_server_disconnect DisconnectReasonCode.ProtocolError), w)"
  by (cases packet) (auto simp: handle_packet_def handle_connect_def handle_publish_def handle_pub_ack_def
      handle_pub_rec_def handle_pub_rel_def handle_pub_comp_def handle_subscribe_def handle_unsubscribe_def
      require_client_id_def act Let_def)

lemma login_gate_witness:
  "handle_packet Packet.PingResp sample_env sample_world =
     (Failed (Error_server_disconnect DisconnectReasonCode.ProtocolError), sample_world)"
  using login_gate [of sample_world Packet.PingResp sample_env]
  by (simp add: sample_world_def sample_conn_def Connection_new_def)

subsection \<open>Flow control\<close>

lemma window_pub_ack:
  assumes "has_window c k 0 w" "k < 2 ^ 64"
  shows "post (\<lambda>_. has_window c k 0) (has_window c k 0) (handle_pub_ack pub_ack env w)"
proof -
  from assms(1) have id: "conn_client_id (world_conn w) = Some c" by (simp add: has_window_def)
  obtain res st where g: "Storage_get_inflight_pub_packets c (puback_packet_id pub_ack) True (state_storage (world_state w)) = Some (res, st)"
      and none: "res = None \<Longrightarrow> st = state_storage (world_state w)"
    using get_inflight_some assms(1) unfolding has_window_def by metis
  show ?thesis
  proof (cases res)
    case None
    with none have "st = state_storage (world_state w)" by simp
    with None assms(1) show ?thesis
      by (simp add: handle_pub_ack_def require_client_id_def act id oldest_inflight_def try_storage_def g)
  next
    case (Some p)
    with window_ack [OF assms, of "puback_packet_id pub_ack" p st] g show ?thesis
      by (simp add: handle_pub_ack_def require_client_id_def act id oldest_inflight_def try_storage_def
          has_window_def window_def)
  qed
qed

lemma window_pub_comp:
  assumes "has_window c k 0 w" "k < 2 ^ 64"
  shows "post (\<lambda>_. has_window c k 0) (has_window c k 0) (handle_pub_comp pub_comp env w)"
proof -
  let ?id = "pubcomp_packet_id pub_comp"
  define v where "v = w\<lparr>world_conn := (world_conn w)\<lparr>conn_inflight_qos2_messages :=
      (conn_inflight_qos2_messages (world_conn w))(?id := None)\<rparr>\<rparr>"
  have v: "has_window c k 0 v" "conn_client_id (world_conn w) = Some c" "state_storage (world_state v) = state_storage (world_state w)"
    using assms(1) by (simp_all add: v_def has_window_def window_def)
  obtain res st where g: "Storage_get_inflight_pub_packets c ?id True (state_storage (world_state w)) = Some (res, st)"
      and none: "res = None \<Longrightarrow> st = state_storage (world_state w)"
    using get_inflight_some assms(1) unfolding has_window_def by metis
  have run: "handle_pub_comp pub_comp env w =
    (if conn_inflight_qos2_messages (world_conn w) ?id \<noteq> Some Recorded
     then (Failed (Error_server_disconnect DisconnectReasonCode.ProtocolError), v)
     else case res of
       None \<Rightarrow> (Finished (), v\<lparr>world_state := (world_state v)\<lparr>state_storage := st\<rparr>\<rparr>)
     | Some p \<Rightarrow> handle_notified env (v\<lparr>world_state := (world_state v)\<lparr>state_storage := st\<rparr>,
         world_conn := (world_conn v)\<lparr>conn_receive_out_quota := conn_receive_out_quota (world_conn v) + 1\<rparr>\<rparr>))"
    by (simp add: handle_pub_comp_def require_client_id_def act v(2) oldest_inflight_def try_storage_def g Let_def
        v_def split: option.split)
  show ?thesis
  proof (cases res)
    case None
    with none v(3) have "st = state_storage (world_state v)" by simp
    with None v(1) show ?thesis by (simp add: run)
  next
    case (Some p)
    then have "Storage_get_inflight_pub_packets c ?id True (state_storage (world_state v)) = Some (Some p, st)"
      using g v(3) by simp
    from safeD [OF window_handle_notified window_ack [OF v(1) assms(2) this], of env] v(1) Some
    show ?thesis by (simp add: run)
  qed
qed

lemma window_pub_rec:
  assumes "has_window c k 0 w" "PubRecReasonCode_is_success (pubrec_reason_code pub_rec)"
  shows "post (\<lambda>_. has_window c k 0) (has_window c k 0) (handle_pub_rec pub_rec env w)"
proof -
  let ?id = "pubrec_packet_id pub_rec"
  from assms(1) have id: "conn_client_id (world_conn w) = Some c" by (simp add: has_window_def)
  show ?thesis
  proof (cases "conn_inflight_qos2_messages (world_conn w) ?id = Some Published")
    case True
    define v where "v = w\<lparr>world_conn := (world_conn w)\<lparr>conn_inflight_qos2_messages :=
      (conn_inflight_qos2_messages (world_conn w))(?id \<mapsto> Recorded)\<rparr>\<rparr>"
    have v: "has_window c k 0 v" "state_storage (world_state v) = state_storage (world_state w)"
      using assms(1) by (simp_all add: v_def has_window_def window_def)
    obtain res st where g: "Storage_get_inflight_pub_packets c ?id False (state_storage (world_state w)) = Some (res, st)"
      using get_inflight_some assms(1) unfolding has_window_def by metis
    then have "st = state_storage (world_state w)"
      by (auto simp: Storage_get_inflight_pub_packets_def split: option.splits list.splits if_splits)
    moreover have "v\<lparr>world_state := (world_state v)\<lparr>state_storage := state_storage (world_state w)\<rparr>\<rparr> = v"
      by (simp add: v_def)
    moreover have "post (\<lambda>_. has_window c k 0) (has_window c k 0) (send_pub_rel ?id reason env v)" for reason
      unfolding send_pub_rel_def by (rule safeD [OF window_send v(1)]) simp
    ultimately show ?thesis
      using assms(2) True v(1) by (simp add: handle_pub_rec_def require_client_id_def act id Let_def oldest_inflight_def
          try_storage_def g v_def split: option.split)
  next
    case False
    then show ?thesis using assms(1) by (simp add: handle_pub_rec_def require_client_id_def act id Let_def)
  qed
qed

text \<open>C17: sending queued messages, PUBACK, a PUBREC without an error and PUBCOMP keep the sum of the send quota and the
  number of packets in flight, in every outcome, and they do not panic: as long as only these occur, a client
  that connects to a new session never has more unacknowledged packets than its receive maximum,
  and acknowledgements give the quota back. A PUBREC with an error and a resumed session do change the
  sum, as \<open>refused_packet_shrinks_window\<close> and \<open>resumption_overdraws_quota\<close> show.\<close>

theorem send_window_kept:
  assumes "conn_client_id (world_conn w) = Some c" "session_of (state_storage (world_state w)) c \<noteq> None"
    and "window c w < 2 ^ 64" "PubRecReasonCode_is_success (pubrec_reason_code pub_rec)"
    and "m \<in> {handle_notified, handle_pub_ack pub_ack, handle_pub_rec pub_rec, handle_pub_comp pub_comp}"
  shows "window c (snd (m env w)) = window c w \<and> fst (m env w) \<noteq> Panicked \<and> fst (m env w) \<noteq> Aborted"
proof -
  have w: "has_window c (window c w) 0 w" using assms(1,2) by (simp add: has_window_def)
  have "post (\<lambda>_. has_window c (window c w) 0) (has_window c (window c w) 0) (m env w)"
    using assms(5) window_pub_ack [OF w assms(3)] window_pub_rec [OF w assms(4)] window_pub_comp [OF w assms(3)]
      safeD [OF window_handle_notified w, of env] by auto
  then show ?thesis
    by (cases "m env w"; cases "fst (m env w)") (auto simp: has_window_def)
qed

text \<open>Two packets are in flight, and the first one is acknowledged.\<close>

lemma send_window_kept_witness:
  "window ''c1'' (snd (handle_pub_ack \<lparr>puback_packet_id = 1, puback_reason_code = PubAckReasonCode.Success,
     puback_properties = PubAckProperties_default\<rparr> sample_env
     (sample_client\<lparr>world_state := (world_state sample_client)\<lparr>state_storage := sample_inflight\<rparr>\<rparr>))) = 12"
proof -
  let ?w = "sample_client\<lparr>world_state := (world_state sample_client)\<lparr>state_storage := sample_inflight\<rparr>\<rparr>"
  have w: "conn_client_id (world_conn ?w) = Some ''c1''" "session_of (state_storage (world_state ?w)) ''c1'' \<noteq> None"
    "window ''c1'' ?w = 12"
    by (simp_all add: sample_client_def window_def inflight_of_def sample_inflight_def sample_created(3))
  have "PubRecReasonCode_is_success (pubrec_reason_code \<lparr>pubrec_packet_id = 1, pubrec_reason_code = PubRecReasonCode.Success,
      pubrec_properties = PubRecProperties_default\<rparr>)"
    by (simp add: PubRecReasonCode_is_success_def)
  from send_window_kept [OF w(1,2) _ this, of "handle_pub_ack pub_ack" pub_ack for pub_ack] w(3) show ?thesis
    by simp
qed

subsection \<open>Receiving exactly once\<close>

abbreviation world_storage :: "('r, 'w) World \<Rightarrow> Storage" where
  "world_storage w \<equiv> state_storage (world_state w)"

lemma sent:
  assumes "\<And>connect. packet \<noteq> Packet.Connect connect"
  shows "world_storage (snd (send_packet packet env w)) = world_storage w"
    and "conn_uncompleted_messages (world_conn (snd (send_packet packet env w))) = conn_uncompleted_messages (world_conn w)"
    and "conn_client_id (world_conn (snd (send_packet packet env w))) = conn_client_id (world_conn w)"
    and "conn_receive_out_quota (world_conn (snd (send_packet packet env w))) = conn_receive_out_quota (world_conn w)"
    and "conn_inflight_qos2_messages (world_conn (snd (send_packet packet env w))) = conn_inflight_qos2_messages (world_conn w)"
    and "state_config (world_state (snd (send_packet packet env w))) = state_config (world_state w)"
  using send_packet_sends [OF assms, of env w] by (auto simp: sends_def)

lemma publish_exactly_once_world:
  assumes w': "w' = snd (publish_exactly_once (Some i) msg env w)"
  shows "world_storage w' = world_storage w" "conn_client_id (world_conn w') = conn_client_id (world_conn w)"
    "conn_uncompleted_messages (world_conn w') = (if conn_receive_in_quota (world_conn w) = 0
      then conn_uncompleted_messages (world_conn w) else (conn_uncompleted_messages (world_conn w))(i \<mapsto> msg))"
  unfolding w' by (auto simp: publish_exactly_once_def act unwrap_id_def send_pub_rec_def sent)

lemma handle_pub_rel_world:
  assumes "conn_client_id (world_conn w) = Some c" "pubrel_packet_id pub_rel = i"
    and w': "w' = snd (handle_pub_rel pub_rel env w)"
  shows "conn_client_id (world_conn w') = Some c \<and>
    conn_uncompleted_messages (world_conn w') = (conn_uncompleted_messages (world_conn w))(i := None) \<and>
    world_storage w' = (case conn_uncompleted_messages (world_conn w) i of
      Some msg \<Rightarrow> if PubRelReasonCode_is_success (pubrel_reason_code pub_rel)
        then Storage_deliver (env_now env) (env_pick env) [msg] (world_storage w) else world_storage w
    | None \<Rightarrow> world_storage w)"
proof (cases "conn_uncompleted_messages (world_conn w) i")
  case None
  then show ?thesis
    by (simp add: w' handle_pub_rel_def require_client_id_def assms act Let_def send_pub_comp_def sent)
next
  case (Some msg)
  let ?v = "w\<lparr>world_conn := (world_conn w)\<lparr>conn_uncompleted_messages := (conn_uncompleted_messages (world_conn w))(i := None)\<rparr>,
    world_state := (world_state w)\<lparr>state_storage := deliver_message (env_now env) (env_pick env 0) msg (world_storage w)\<rparr>\<rparr>"
  obtain r u where u: "send_pub_comp i PubCompReasonCode.Success env ?v = (r, u)" by force
  have fields: "world_storage u = world_storage ?v" "conn_client_id (world_conn u) = Some c"
    "conn_uncompleted_messages (world_conn u) = conn_uncompleted_messages (world_conn ?v)"
    using sent(1-3) [of "Packet.PubComp \<lparr>pubcomp_packet_id = i, pubcomp_reason_code = PubCompReasonCode.Success,
      pubcomp_properties = PubCompProperties_default\<rparr>" env ?v] u assms(1)
    unfolding send_pub_comp_def by simp_all
  have "handle_pub_rel pub_rel env w =
    (if \<not> PubRelReasonCode_is_success (pubrel_reason_code pub_rel)
     then (Finished (), w\<lparr>world_conn := (world_conn w)\<lparr>conn_uncompleted_messages := (conn_uncompleted_messages (world_conn w))(i := None)\<rparr>\<rparr>)
     else case r of Finished x \<Rightarrow> (Finished (), u\<lparr>world_conn := (world_conn u)\<lparr>conn_receive_in_quota :=
         conn_receive_in_quota (world_conn u) + 1\<rparr>\<rparr>)
       | Failed e \<Rightarrow> (Failed e, u) | Panicked \<Rightarrow> (Panicked, u) | Aborted \<Rightarrow> (Aborted, u))"
    by (cases r) (simp_all add: handle_pub_rel_def require_client_id_def assms(1,2) act Let_def deliver_one_def Some u)
  then show ?thesis
    using Some fields assms(1) by (cases r) (auto simp: w')
qed

text \<open>C16: a QoS 2 message is delivered exactly once: not when its PUBLISH arrives, nor when the
  PUBLISH is repeated, but when the first successful PUBREL does, and not again by a second one,
  even if the acknowledgements cannot be sent. What is delivered is the message of the last PUBLISH that was not refused: each
  packet makes a message of its own, with its own time of creation, and the repeated one replaces the
  first unless the receive maximum has been used up.\<close>

theorem received_exactly_once:
  assumes "conn_client_id (world_conn w) = Some c" "conn_receive_in_quota (world_conn w) \<noteq> 0"
    and "pubrel_packet_id pub_rel = i" "PubRelReasonCode_is_success (pubrel_reason_code pub_rel)"
    and "w1 = snd (publish_exactly_once (Some i) msg env1 w)"
    and "w2 = snd (publish_exactly_once (Some i) msg' env2 w1)"
    and "w3 = snd (handle_pub_rel pub_rel env3 w2)"
    and "w4 = snd (handle_pub_rel pub_rel env4 w3)"
  shows "world_storage w1 = world_storage w \<and> world_storage w2 = world_storage w \<and>
    world_storage w3 = Storage_deliver (env_now env3) (env_pick env3)
      [if conn_receive_in_quota (world_conn w1) = 0 then msg else msg'] (world_storage w) \<and>
    world_storage w4 = world_storage w3"
proof -
  note w1 = publish_exactly_once_world [OF assms(5)] and w2 = publish_exactly_once_world [OF assms(6)]
  have id: "conn_client_id (world_conn w2) = Some c" using w1(2) w2(2) assms(1) by simp
  note w3 = handle_pub_rel_world [OF id assms(3,7)]
  note w4 = handle_pub_rel_world [OF conjunct1 [OF w3] assms(3,8)]
  show ?thesis using w1 w2 w3 w4 assms(2,4) by (auto split: if_splits)
qed

lemma sample_quota:
  "conn_receive_in_quota (world_conn (snd (publish_exactly_once (Some 7) msg sample_env sample_client))) = 9"
proof -
  have "conn_receive_in_quota (world_conn (snd (send_packet packet env v))) = conn_receive_in_quota (world_conn v)"
    if "\<And>connect. packet \<noteq> Packet.Connect connect" for packet env and v :: "(unit, bytes) World"
    using send_packet_sends [OF that, of env v] by (auto simp: sends_def)
  then show ?thesis
    by (simp add: publish_exactly_once_def act unwrap_id_def send_pub_rec_def sample_client_def sample_conn_def Connection_new_def)
qed

text \<open>The repeated PUBLISH arrives at another time.\<close>

lemma received_exactly_once_witness:
  "world_storage (snd (handle_pub_rel \<lparr>pubrel_packet_id = 7, pubrel_reason_code = PubRelReasonCode.Success,
      pubrel_properties = PubRelProperties_default\<rparr> sample_env
     (snd (publish_exactly_once (Some 7) (sample_message 3\<lparr>message_created_at := 5\<rparr>) sample_env
     (snd (publish_exactly_once (Some 7) (sample_message 3) sample_env sample_client))))))
   = Storage_deliver 0 (\<lambda>_ _ k. k - 1) [sample_message 3\<lparr>message_created_at := 5\<rparr>] sample_created"
proof -
  let ?rel = "\<lparr>pubrel_packet_id = 7, pubrel_reason_code = PubRelReasonCode.Success, pubrel_properties = PubRelProperties_default\<rparr>"
  have "conn_client_id (world_conn sample_client) = Some ''c1''" "conn_receive_in_quota (world_conn sample_client) \<noteq> 0"
    "PubRelReasonCode_is_success (pubrel_reason_code ?rel)" "pubrel_packet_id ?rel = 7"
    by (simp_all add: sample_client_def sample_conn_def Connection_new_def PubRelReasonCode_is_success_def)
  from received_exactly_once [OF this(1,2,4,3) refl refl refl refl, where msg = "sample_message 3"
      and msg' = "sample_message 3\<lparr>message_created_at := 5\<rparr>" and ?env1.0 = sample_env and ?env2.0 = sample_env
      and ?env3.0 = sample_env and ?env4.0 = sample_env]
  show ?thesis
    unfolding sample_quota by (simp add: sample_env_def) (simp add: sample_client_def)
qed

subsection \<open>Takeover and disconnection\<close>

lemma close_world:
  assumes "conn_client_id (world_conn w) = Some c" and w': "w' = snd (close_connection env w)"
  shows "world_storage w' = Storage_disconnect_session (env_instant env) c
      (conn_session_expiry_interval (world_conn w)) (world_storage w)"
    and "state_connections (world_state w') = AList.delete c (state_connections (world_state w))"
  by (simp_all add: w' close_connection_def act assms(1) call_plugins_def)

text \<open>C38: a connection that ends before it has handled the \<open>SessionTakenOver\<close> sent to it still has
  its client id, and so disconnects the session of the connection that has taken over: the new
  connection is removed from the table of connections, and once the session expiry interval of the
  old one has passed, the live session is removed. The next message that the new connection sends
  then panics.\<close>

theorem takeover_race:
  assumes "client_ok c w" "conn_receive_out_quota (world_conn w) \<noteq> 0" "conn_client_id old = Some c"
    and "w1 = snd (close_connection env (w\<lparr>world_conn := old\<rparr>))"
    and "valid_pick pick" "env_instant env + from_secs (conn_session_expiry_interval old) < now'"
    and "st = Storage_update_sessions time now' pick (world_storage w1)"
  shows "map_of (state_connections (world_state w1)) c = None \<and>
    session_of st c = None \<and>
    fst (handle_notified env' (w\<lparr>world_state := (world_state w1)\<lparr>state_storage := st\<rparr>\<rparr>)) = Panicked"
proof -
  have inv: "Storage_inv (world_storage w)" "connected (world_storage w) c" and id: "conn_client_id (world_conn w) = Some c"
    using assms(1) by (simp_all add: logged_in_def)
  obtain s where s: "session_of (world_storage w) c = Some s"
    using inv(2) by (auto simp: connected_def split: option.splits)
  have w1: "world_storage w1 = Storage_disconnect_session (env_instant env) c (conn_session_expiry_interval old) (world_storage w)"
    "state_connections (world_state w1) = AList.delete c (state_connections (world_state w))"
    using close_world [OF _ assms(4), of c] assms(3) by simp_all
  have inv1: "Storage_inv (world_storage w1)" unfolding w1(1) by (rule disconnect_inv [OF inv])
  have "expires now' (world_storage w1) c"
    using assms(6) by (simp add: expires_def w1(1) disconnect_session_eq s update_conv' disconnected_def Let_def)
  then have "session_of st c = None"
    using assms(5) by (simp add: assms(7) update_sessions_spec(1) [OF inv1 _ refl refl])
  then show ?thesis
    using assms(2) by (simp add: w1(2) delete_conv' handle_notified_def act id try_storage_def Storage_next_messages_def)
qed

definition sample_old :: "(unit, bytes) Connection" where
  "sample_old = sample_conn\<lparr>conn_client_id := Some ''c1''\<rparr>"

lemma takeover_race_witness:
  "fst (handle_notified sample_env (sample_client\<lparr>world_state :=
     (world_state (snd (close_connection sample_env (sample_client\<lparr>world_conn := sample_old\<rparr>))))\<lparr>state_storage :=
       Storage_update_sessions 0 1 (\<lambda>_ _ k. k - 1)
         (world_storage (snd (close_connection sample_env (sample_client\<lparr>world_conn := sample_old\<rparr>))))\<rparr>\<rparr>)) = Panicked"
  using takeover_race [OF sample_client_ok(2) _ _ refl _ _ refl, where old = sample_old and env = sample_env
      and pick = "\<lambda>_ _ k. k - 1" and now' = 1 and time = 0 and env' = sample_env]
  by (simp add: sample_client_def sample_old_def sample_conn_def Connection_new_def sample_env_def from_secs_def)


definition sample_disconnect :: Disconnect where
  "sample_disconnect = Disconnect_new DisconnectReasonCode.NormalDisconnection"

text \<open>The sample client leaves normally, and a second client, which waits for its will, gets it.\<close>

definition sample_watched :: Storage where
  "sample_watched = Storage_subscribe 0 ''c2'' (plain ''a/w'') sample_item
     (snd (Storage_create_session ''c2'' True None sample_created))"

lemma sample_watched:
  "Storage_inv sample_watched"
  "session_of sample_watched = [''c1'' \<mapsto> Session_new (Some sample_will), ''c2'' \<mapsto> Session_new None]"
  "Trie_lookup (storage_filter_tree sample_watched) \<lparr>share_name = None, path = flt\<rparr> ''c2'' =
    (if flt = ''a/w'' then Some sample_item else None)"
proof -
  define st where "st = snd (Storage_create_session ''c2'' True None sample_created)"
  note new = create_session_spec [OF sample_created(1) surjective_pairing, of "''c2''" True None, folded st_def]
  have st: "Storage_inv st" "session_of st = [''c1'' \<mapsto> Session_new (Some sample_will), ''c2'' \<mapsto> Session_new None]"
    "Trie_lookup (storage_filter_tree st) f c = None" "Trie_retained (storage_filter_tree st) = (\<lambda>_. None)" for f c
    using new [of f c] sample_created(3,4,5) by (simp_all add: fun_eq_iff)
  obtain res tree where t: "Trie_subscribe (plain ''a/w'') ''c2'' sample_item (storage_filter_tree st) = (res, tree)"
    by force
  note spec = Trie_subscribe_spec [OF Storage_invD(1) [OF st(1)] t, unfolded st(3,4)]
  have "(\<lambda>topic. if retained_topic_matches flt topic then Trie_retained tree topic else None) = (\<lambda>_. None)" for flt
    using spec by auto
  then have "enumerates (\<lambda>_ :: string. None) (Trie_matches_retained_messages flt tree)" for flt
    using Trie_matches_retained_enumerates [of tree flt] spec by simp
  then have none: "Trie_matches_retained_messages flt tree = []" for flt
    by (auto simp: enumerates_def)
  show "Storage_inv sample_watched"
    unfolding sample_watched_def st_def [symmetric] by (rule subscribe_inv [OF st(1)]) (simp add: st(2))
  show "session_of sample_watched = [''c1'' \<mapsto> Session_new (Some sample_will), ''c2'' \<mapsto> Session_new None]"
    unfolding sample_watched_def st_def [symmetric]
    by (rule ext) (simp add: subscribe_session(1) [OF t] st(2) none option.map_ident option.map_id)
  show "Trie_lookup (storage_filter_tree sample_watched) \<lparr>share_name = None, path = flt\<rparr> ''c2'' =
    (if flt = ''a/w'' then Some sample_item else None)"
    unfolding sample_watched_def st_def [symmetric] subscribe_session(2) [OF t]
    using spec [of "\<lparr>share_name = None, path = flt\<rparr>" "''c2''"] by (auto simp: plain_def)
qed


subsection \<open>Resuming a session\<close>

lemma resend_one:
  assumes "resend_inflight p env w = (Finished (), w')"
  shows "conn_receive_out_quota (world_conn w') = conn_receive_out_quota (world_conn w) - 1 \<and>
    conn_inflight_qos2_messages (world_conn w') = conn_inflight_qos2_messages (world_conn w) \<and>
    conn_client_id (world_conn w') = conn_client_id (world_conn w)"
  using assms sent(3-5) [of "Packet.Publish (p\<lparr>publish_dup := True\<rparr>)" env
      "w\<lparr>world_conn := (world_conn w)\<lparr>conn_receive_out_quota := conn_receive_out_quota (world_conn w) - 1\<rparr>\<rparr>"]
  by (simp add: resend_inflight_def act)

lemma resend_all:
  assumes "loop_over resend_inflight packets env w = (Finished (), w')"
  shows "conn_receive_out_quota (world_conn w') = conn_receive_out_quota (world_conn w) - word_of_nat (length packets) \<and>
    conn_inflight_qos2_messages (world_conn w') = conn_inflight_qos2_messages (world_conn w) \<and>
    conn_client_id (world_conn w') = conn_client_id (world_conn w)"
  using assms
proof (induction packets arbitrary: w)
  case (Cons p packets)
  then obtain v where v: "resend_inflight p env w = (Finished (), v)"
    "loop_over resend_inflight packets env v = (Finished (), w')"
    by (auto simp: act split: prod.splits outcome.splits)
  with resend_one [OF v(1)] Cons.IH [OF v(2)] show ?case by simp
qed (simp add: act)

text \<open>A client that resumes a session with more packets in flight than its new receive maximum
  gets all of them at once, and the send quota wraps around: from then on nothing limits the
  number of packets in flight. (With overflow checks the decrement panics.)\<close>

theorem resumption_overdraws_quota:
  assumes "loop_over resend_inflight packets env w = (Finished (), w')"
    and "unat (conn_receive_out_quota (world_conn w)) < length packets" "length packets < 2 ^ 64"
  shows "unat (conn_receive_out_quota (world_conn w')) =
    2 ^ 64 + unat (conn_receive_out_quota (world_conn w)) - length packets"
proof -
  have "unat (word_of_nat (length packets) :: u64) = length packets"
    using assms(3) by (simp add: unat_of_nat)
  then show ?thesis
    using resend_all [OF assms(1)] assms(2,3) by (simp add: unat_sub_if_size word_size)
qed

text \<open>The sample client, resumed with a receive maximum of 1 while two packets are in flight.\<close>

definition sample_resent :: Publish where
  "sample_resent = \<lparr>publish_dup = False, publish_qos = ExactlyOnce, publish_retain = False,
     publish_topic = ''a'', publish_packet_id = Some 1,
     publish_properties = PublishProperties_default, publish_payload = []\<rparr>"

definition sample_resumed :: "(unit, bytes) World" where
  "sample_resumed = sample_client\<lparr>world_conn := (world_conn sample_client)\<lparr>conn_codec := sample_codec,
     conn_receive_out_quota := 1\<rparr>\<rparr>"

lemma sample_resent_sendable: "sendable 1000 1000 V5 (Packet.Publish (sample_resent\<lparr>publish_dup := True\<rparr>))"
  by (simp add: sendable_def sample_resent_def Packet_ok_def Packet_exact_def
      Packet_limit_def Packet_body_def Publish_ok_def Publish_exact_def Publish_body_def
      PublishProperties_fits_def PublishProperties_ok_def PublishProperties_wire_def
      PublishProperties_default_def wire_opt_def users_wire_def off_by_one_def str_ok_def
      valid_str_def as_bytes_def byte_of_char_def props_wire_def length_varint)

lemma resend_sample:
  assumes "conn_codec (world_conn w) = sample_codec"
  shows "fst (resend_inflight sample_resent sample_env w) = Finished ()"
    and "conn_codec (world_conn (snd (resend_inflight sample_resent sample_env w))) = sample_codec"
proof -
  have [simp]: "sample_codec\<lparr>codec_level := V5\<rparr> = sample_codec" by (simp add: sample_codec_def)
  have enc: "Codec_encode (env_write_all sample_env) (Packet.Publish (sample_resent\<lparr>publish_dup := True\<rparr>)) out sample_codec =
    (let wire = Packet_wire V5 (Packet.Publish (sample_resent\<lparr>publish_dup := True\<rparr>))
     in (Inr (length wire), out @ wire, sample_codec))" for out
    using sample_resent_sendable
    by (subst Codec_encode_wire [where n = 1000]) (simp_all add: level_after_def sample_env_def Let_def)
  show "fst (resend_inflight sample_resent sample_env w) = Finished ()"
    "conn_codec (world_conn (snd (resend_inflight sample_resent sample_env w))) = sample_codec"
    by (simp_all add: resend_inflight_def act send_packet_def encode_packet_def assms enc Let_def)
qed

lemma resend_samples:
  obtains w where "loop_over resend_inflight [sample_resent, sample_resent] sample_env sample_resumed = (Finished (), w)"
proof -
  obtain v where v: "resend_inflight sample_resent sample_env sample_resumed = (Finished (), v)"
    "conn_codec (world_conn v) = sample_codec"
    using resend_sample [of sample_resumed]
    by (cases "resend_inflight sample_resent sample_env sample_resumed") (auto simp: sample_resumed_def)
  obtain w where "resend_inflight sample_resent sample_env v = (Finished (), w)"
    using resend_sample(1) [OF v(2)] by (cases "resend_inflight sample_resent sample_env v") auto
  with v(1) show ?thesis by (intro that [of w]) (simp add: act)
qed

lemma resumption_overdraws_quota_witness:
  "\<exists>w. loop_over resend_inflight [sample_resent, sample_resent] sample_env sample_resumed = (Finished (), w) \<and>
    unat (conn_receive_out_quota (world_conn w)) = 2 ^ 64 - 1"
proof -
  obtain w where w: "loop_over resend_inflight [sample_resent, sample_resent] sample_env sample_resumed = (Finished (), w)"
    by (rule resend_samples)
  from resumption_overdraws_quota [OF w] show ?thesis using w by (simp add: sample_resumed_def)
qed

text \<open>The state of QoS 2 packets is not restored with the session: the PUBREC for a packet that
  has been sent again after resumption is refused as a protocol error, which closes the connection.\<close>

theorem resumed_qos2_refused:
  assumes "loop_over resend_inflight packets env w = (Finished (), w')"
    and "conn_inflight_qos2_messages (world_conn w) = conn_inflight_qos2_messages (Connection_new remote_addr sender now reader writer)"
    and "conn_client_id (world_conn w) = Some c"
  shows "handle_pub_rec pub_rec env' w' = (Failed (Error_server_disconnect DisconnectReasonCode.ProtocolError), w')"
  using resend_all [OF assms(1)] assms(2,3)
  by (simp add: handle_pub_rec_def require_client_id_def act Let_def Connection_new_def)

lemma resumed_qos2_refused_witness:
  "\<exists>w. loop_over resend_inflight [sample_resent, sample_resent] sample_env sample_resumed = (Finished (), w) \<and>
    fst (handle_pub_rec \<lparr>pubrec_packet_id = 1, pubrec_reason_code = PubRecReasonCode.Success,
      pubrec_properties = PubRecProperties_default\<rparr> sample_env w) =
    Failed (Error_server_disconnect DisconnectReasonCode.ProtocolError)"
proof -
  obtain w where w: "loop_over resend_inflight [sample_resent, sample_resent] sample_env sample_resumed = (Finished (), w)"
    by (rule resend_samples)
  have "conn_client_id (world_conn sample_resumed) = Some ''c1''" "conn_inflight_qos2_messages (world_conn sample_resumed) =
      conn_inflight_qos2_messages (Connection_new \<lparr>remote_protocol = ''tcp'', remote_address = None\<rparr> 1 0 () ([] :: bytes))"
    by (simp_all add: sample_resumed_def sample_client_def sample_conn_def)
  from resumed_qos2_refused [OF w this(2,1)] w show ?thesis by auto
qed

end
