(* ===== verification/Client_Requests.thy ===== *)
theory Client_Requests
  imports Client_Theorems
begin

text \<open>
  What the requests of a client do to the storage (\<open>libs/service/src/client_loop.rs\<close>): PUBLISH on
  every branch, the acknowledgement of SUBSCRIBE, CONNECT packets that are refused, and packets that the
  receiver refuses.
\<close>

subsection \<open>PUBLISH\<close>

text \<open>The topic under which a packet is accepted, before rewriting: the checks of the packet, its
  alias and the access control.\<close>

definition accepted_topic :: "ServiceState \<Rightarrow> ('r, 'w) Connection \<Rightarrow> Publish \<Rightarrow> string option" where
  "accepted_topic state conn publish =
     (case resolve_topic_alias publish (conn_topic_alias conn) of
        Some (topic, _) \<Rightarrow>
          if publish_refusal (state_config state) publish = None
            \<and> acl_plugins (state_plugins state) (conn_remote_addr conn) (conn_uid conn) PublishAction topic = Inr True
          then Some topic else None
      | None \<Rightarrow> None)"

text \<open>The message that an accepted packet carries.\<close>

definition accepted_message :: "system_time \<Rightarrow> string \<Rightarrow> string \<Rightarrow> ('r, 'w) World \<Rightarrow> Publish \<Rightarrow> Message" where
  "accepted_message now c topic w publish = message_of_publish now c (conn_uid (world_conn w))
     (publish\<lparr>publish_topic := ServiceState_rewrite topic (world_state w)\<rparr>)"

lemma accepted_message_qos: "message_qos (accepted_message now c topic w publish) = publish_qos publish"
  by (simp add: accepted_message_def message_of_publish_def Let_def Message_from_publish_def
      Message_with_from_client_id_def Message_with_from_uid_def Message_with_properties_def
      Message_with_retain_def Message_new_def split: option.split)

lemma send_ends:
  assumes "\<And>connect. packet \<noteq> Packet.Connect connect"
  shows "fst (send_packet packet env w) \<noteq> Panicked" "fst (send_packet packet env w) \<noteq> Aborted"
  using send_packet_sends [OF assms, of env w] by auto

lemma publish_exactly_once_runs:
  "world_storage (snd (publish_exactly_once (Some i) msg env w)) = world_storage w"
  "fst (publish_exactly_once (Some i) msg env w) \<noteq> Panicked"
  "fst (publish_exactly_once (Some i) msg env w) \<noteq> Aborted"
  by (simp_all add: publish_exactly_once_def act unwrap_id_def send_pub_rec_def sent(1) send_ends)

lemma publish_message_world:
  assumes "message_qos msg > AtMostOnce \<Longrightarrow> packet_id \<noteq> None"
  shows "world_storage (snd (publish_message packet_id msg env w)) =
      (if message_qos msg = ExactlyOnce then world_storage w
       else Storage_deliver (env_now env) (env_pick env) [msg] (world_storage w))
    \<and> fst (publish_message packet_id msg env w) \<noteq> Panicked \<and> fst (publish_message packet_id msg env w) \<noteq> Aborted"
proof (cases "message_qos msg = AtMostOnce")
  case False
  then obtain i where "packet_id = Some i"
    using assms by (cases "message_qos msg") (auto simp: less_Qos_def)
  then show ?thesis
    using False by (cases "message_qos msg")
      (simp_all add: publish_message_def act unwrap_id_def deliver_one_def sent(1) send_ends publish_exactly_once_runs)
qed (simp add: publish_message_def act deliver_one_def)

lemma process_publish_world:
  assumes id: "publish_qos publish > AtMostOnce \<Longrightarrow> publish_packet_id publish \<noteq> None"
    and msg: "msg = accepted_message (env_now env) c topic w publish"
  shows "world_storage (snd (process_publish c topic publish env w)) =
      (if acl_plugins (state_plugins (world_state w)) (conn_remote_addr (world_conn w)) (conn_uid (world_conn w))
          PublishAction topic = Inr True then
         let st = (if publish_retain publish then Storage_update_retained_message msg (world_storage w) else world_storage w)
         in if publish_qos publish = ExactlyOnce then st else Storage_deliver (env_now env) (env_pick env) [msg] st
       else world_storage w)
    \<and> fst (process_publish c topic publish env w) \<notin> {Panicked, Aborted}"
proof (cases "acl_plugins (state_plugins (world_state w)) (conn_remote_addr (world_conn w)) (conn_uid (world_conn w))
    PublishAction topic = Inr True")
  case True
  have qos: "message_qos msg = publish_qos publish" by (simp add: msg accepted_message_qos)
  note run = publish_message_world [of msg "publish_packet_id publish" env, unfolded qos, OF id]
  from True show ?thesis
    unfolding process_publish_def
    by (simp add: check_acl_def act Let_def run call_plugins_def msg [symmetric, unfolded accepted_message_def])
next
  case False
  then show ?thesis
    by (auto simp: process_publish_def check_acl_def act split: sum.split)
qed

lemma handle_publish_world:
  assumes "conn_client_id (world_conn w) = Some c"
  shows "world_storage (snd (handle_publish publish env w)) =
      (case accepted_topic (world_state w) (world_conn w) publish of
         None \<Rightarrow> world_storage w
       | Some topic \<Rightarrow>
           let msg = accepted_message (env_now env) c topic w publish;
               st = (if publish_retain publish then Storage_update_retained_message msg (world_storage w) else world_storage w)
           in if publish_qos publish = ExactlyOnce then st else Storage_deliver (env_now env) (env_pick env) [msg] st)" (is ?storage)
    and "fst (handle_publish publish env w) \<notin> {Panicked, Aborted}" (is ?ends)
proof -
  have "?storage \<and> ?ends"
  proof (cases "publish_refusal (state_config (world_state w)) publish")
    case None
    then have id: "publish_qos publish > AtMostOnce \<Longrightarrow> publish_packet_id publish \<noteq> None"
      by (auto simp: publish_refusal_def Let_def split: if_splits)
    show ?thesis
    proof (cases "resolve_topic_alias publish (conn_topic_alias (world_conn w))")
      case (Some res)
      then obtain topic aliases where res: "resolve_topic_alias publish (conn_topic_alias (world_conn w)) = Some (topic, aliases)"
        by (cases res) simp
      define v where "v = w\<lparr>world_state := (world_state w)\<lparr>state_service_metrics := inc_pub_msgs_received 1
          (inc_pub_bytes_received (length (publish_payload publish)) (state_service_metrics (world_state w)))\<rparr>,
        world_conn := (world_conn w)\<lparr>conn_topic_alias := aliases\<rparr>\<rparr>"
      have run: "handle_publish publish env w = process_publish c topic publish env v"
        by (simp add: handle_publish_def require_client_id_def act assms None res v_def)
      have msg: "accepted_message now c topic v publish = accepted_message now c topic w publish" for now
        by (simp add: accepted_message_def v_def ServiceState_rewrite_def)
      have "world_storage v = world_storage w" "state_plugins (world_state v) = state_plugins (world_state w)"
        "conn_remote_addr (world_conn v) = conn_remote_addr (world_conn w)" "conn_uid (world_conn v) = conn_uid (world_conn w)"
        by (simp_all add: v_def)
      then show ?thesis
        using process_publish_world [OF id refl, where env = env and c = c and topic = topic and w = v]
        by (simp add: run msg accepted_topic_def None res Let_def)
    qed (simp add: handle_publish_def require_client_id_def act assms None accepted_topic_def)
  qed (simp add: handle_publish_def require_client_id_def act assms accepted_topic_def split: option.split)
  then show ?storage and ?ends by blast+
qed

text \<open>C14: what a PUBLISH of a logged-in client does to the storage, on every branch: nothing if the
  packet is refused, if its alias is unknown or if access is denied; otherwise its message replaces
  the retained message of the rewritten topic if the packet asks for it, and it is delivered at once unless its
  QoS is 2. The handler does not panic.\<close>

theorem publish_effect:
  assumes "conn_client_id (world_conn w) = Some c"
  shows "world_storage (snd (handle_publish publish env w)) =
      (case accepted_topic (world_state w) (world_conn w) publish of
         None \<Rightarrow> world_storage w
       | Some topic \<Rightarrow>
           let msg = accepted_message (env_now env) c topic w publish;
               st = (if publish_retain publish then Storage_update_retained_message msg (world_storage w) else world_storage w)
           in if publish_qos publish = ExactlyOnce then st else Storage_deliver (env_now env) (env_pick env) [msg] st)
    \<and> fst (handle_publish publish env w) \<notin> {Panicked, Aborted}"
  using handle_publish_world [OF assms] by simp

definition sample_published :: Publish where
  "sample_published = sample_resent\<lparr>publish_qos := AtMostOnce, publish_packet_id := None\<rparr>"

lemma sample_accepted: "accepted_topic (world_state sample_client) (world_conn sample_client) sample_published = Some ''a''"
  by (simp add: sample_client_def sample_published_def sample_resent_def accepted_topic_def resolve_topic_alias_def
      publish_refusal_def PublishProperties_default_def valid_topic_def sample_conn_def sample_state_def
      Connection_new_def ServiceState_new_def ServiceConfig_default_def less_Qos_def Let_def contains_wildcard_def)

lemma publish_effect_witness:
  "world_storage (snd (handle_publish sample_published sample_env sample_client)) =
    Storage_deliver 0 (\<lambda>_ _ k. k - 1) [accepted_message 0 ''c1'' ''a'' sample_client sample_published] sample_created"
proof -
  have "conn_client_id (world_conn sample_client) = Some ''c1''" "world_storage sample_client = sample_created"
    "publish_qos sample_published = AtMostOnce" "\<not> publish_retain sample_published"
    "env_now sample_env = 0" "env_pick sample_env = (\<lambda>_ _ k. k - 1)"
    by (simp_all add: sample_client_def sample_published_def sample_resent_def sample_env_def)
  with publish_effect [of sample_client "''c1''" sample_published sample_env] show ?thesis
    by (simp add: sample_accepted Let_def)
qed

subsection \<open>SUBSCRIBE\<close>

lemma subscribe_one_world:
  assumes "parse_filter (filter_path s) = Some f" "share_name f = None"
    and "config_wildcard_subscription_available (state_config (world_state w))"
    and "acl_plugins (state_plugins (world_state w)) (conn_remote_addr (world_conn w)) (conn_uid (world_conn w))
      SubscribeAction (path f) = Inr True"
  shows "fst (subscribe_one c i s env w) =
      Finished (granted_code (min (filter_qos s) (config_maximum_qos (state_config (world_state w)))))"
    and "world_storage (snd (subscribe_one c i s env w)) = Storage_subscribe (env_now env) c f (item_of s i) (world_storage w)"
  using assms by (simp_all add: subscribe_one_def act check_acl_def Let_def call_plugins_def)

text \<open>The reason code of a subscription grants the smaller one of the QoS asked for and the server's maximum
  QoS, but the subscription that is stored, by which messages are delivered, has the QoS asked for.\<close>

theorem granted_qos_ignored:
  assumes "Storage_inv (world_storage w)" "parse_filter (filter_path s) = Some f" "share_name f = None"
    and "config_wildcard_subscription_available (state_config (world_state w))"
    and "acl_plugins (state_plugins (world_state w)) (conn_remote_addr (world_conn w)) (conn_uid (world_conn w))
      SubscribeAction (path f) = Inr True"
    and "subscribe_one c i s env w = (res, w')"
  shows "res = Finished (granted_code (min (filter_qos s) (config_maximum_qos (state_config (world_state w))))) \<and>
    map_option item_qos (Trie_lookup (storage_filter_tree (world_storage w')) f c) = Some (filter_qos s)"
proof -
  note one = subscribe_one_world [OF assms(2-5), of c i env, unfolded assms(6) fst_conv snd_conv]
  obtain r tree where t: "Trie_subscribe f c (item_of s i) (storage_filter_tree (world_storage w)) = (r, tree)" by force
  have "Trie_lookup tree f c = Some (item_of s i)"
    using Trie_subscribe_spec [OF Storage_invD(1) [OF assms(1)] t, of f c] by simp
  then show ?thesis
    using one subscribe_session(2) [OF t] by (simp add: item_of_def)
qed

definition sample_subscription :: SubscribeFilter where
  "sample_subscription = \<lparr>filter_path = ''a'', filter_qos = ExactlyOnce, filter_no_local = False,
     filter_retain_as_published = False, filter_retain_handling = OnEverySubscribe\<rparr>"

text \<open>A server that grants QoS 0 only.\<close>

definition sample_qos0 :: "(unit, bytes) World" where
  "sample_qos0 = sample_client\<lparr>world_state := (world_state sample_client)\<lparr>state_config :=
     ServiceConfig_default\<lparr>config_maximum_qos := AtMostOnce\<rparr>\<rparr>\<rparr>"

lemma sample_qos0:
  "Storage_inv (world_storage sample_qos0)" "parse_filter (filter_path sample_subscription) = Some (plain ''a'')"
  "share_name (plain ''a'') = None" "config_wildcard_subscription_available (state_config (world_state sample_qos0))"
  "acl_plugins (state_plugins (world_state sample_qos0)) (conn_remote_addr (world_conn sample_qos0))
     (conn_uid (world_conn sample_qos0)) SubscribeAction (path (plain ''a'')) = Inr True"
  "config_maximum_qos (state_config (world_state sample_qos0)) = AtMostOnce"
  by (simp_all add: sample_qos0_def sample_client_def sample_created(1) sample_subscription_def parse_filter_def
      valid_filter_def strip_prefix_def plain_def contains_wildcard_def ServiceConfig_default_def sample_state_def ServiceState_new_def sample_conn_def Connection_new_def)

lemma granted_qos_ignored_witness:
  "fst (subscribe_one ''c1'' None sample_subscription sample_env sample_qos0) = Finished SubscribeReasonCode.QoS0 \<and>
   map_option item_qos (Trie_lookup (storage_filter_tree (world_storage
     (snd (subscribe_one ''c1'' None sample_subscription sample_env sample_qos0)))) (plain ''a'') ''c1'') = Some ExactlyOnce"
  using granted_qos_ignored [OF sample_qos0(1-5) surjective_pairing, of "''c1''" None sample_env]
  by (simp add: sample_qos0(6)) (simp add: sample_subscription_def granted_code_def min_def less_eq_Qos_def)

subsection \<open>What is refused\<close>

text \<open>A CONNECT that is refused because of its will is answered, and the connection stays open, although it
  is not logged in.\<close>

theorem refused_connect_stays_open:
  assumes "conn_client_id (world_conn w) = None" "connect_last_will connect = Some last_will"
    and "will_refusal (state_config (world_state w)) last_will = Some reason"
    and "fst (refuse_connect reason env w) = Finished ()"
  shows "fst (or_close (handle_packet (Packet.Connect connect)) close_on env w) = Finished True \<and>
    conn_client_id (world_conn (snd (or_close (handle_packet (Packet.Connect connect)) close_on env w))) = None"
proof -
  obtain w' where w': "refuse_connect reason env w = (Finished (), w')"
    using assms(4) by (cases "refuse_connect reason env w") simp
  then have "conn_client_id (world_conn w') = None"
    using sent(3) [of "Packet.ConnAck \<lparr>connack_session_present = False, connack_reason_code = reason,
        connack_properties = ConnAckProperties_default\<rparr>" env w] assms(1) by (simp add: refuse_connect_def)
  then show ?thesis
    by (simp add: or_close_def handle_packet_def handle_connect_def act assms(1-3) Let_def w')
qed

text \<open>A plugin that fails to authenticate a client ends the process: \<open>Error::internal_error\<close> does not
  return.\<close>

theorem auth_error_aborts:
  assumes "connect_login connect = Some login" "auth_plugins (state_plugins (world_state w)) login = Inl err"
  shows "authenticate connect env w = (Aborted, w)"
  by (simp add: authenticate_def assms Error_internal_error_None)

text \<open>A QoS 2 packet that the receiver refuses in its PUBREC is no longer in flight, but its place in the
  send window is lost.\<close>

theorem refused_packet_shrinks_window:
  assumes "conn_client_id (world_conn w) = Some c"
    and "conn_inflight_qos2_messages (world_conn w) (pubrec_packet_id pub_rec) = Some Published"
    and "\<not> PubRecReasonCode_is_success (pubrec_reason_code pub_rec)"
    and "handle_pub_rec pub_rec env w = (Finished (), w')"
  shows "Suc (window c w') = window c w"
proof -
  from assms obtain p st where
    g: "Storage_get_inflight_pub_packets c (pubrec_packet_id pub_rec) True (world_storage w) = Some (Some p, st)"
    and w': "world_storage w' = st" "conn_receive_out_quota (world_conn w') = conn_receive_out_quota (world_conn w)"
    by (auto simp: handle_pub_rec_def require_client_id_def act Let_def oldest_inflight_def try_storage_def
        split: option.splits prod.splits if_splits)
  show ?thesis
    using get_inflight_remove [OF g] w' by (simp add: window_def)
qed

end
