(* ===== verification/Plugins.thy ===== *)
theory Plugins
  imports Client_Requests
begin

text \<open>
  The plugins of the repository: password hashes (\<open>libs/passwd_util\<close>), the \<open>basic-auth\<close> and \<open>oso-acl\<close>
  plugins (\<open>libs/plugins\<close>) and their creation from the configuration (\<open>apps/rsmqttd/src/lib.rs\<close>). The
  hash functions, the policy engine and the YAML values are those of other crates: they are parameters.
\<close>

subsection \<open>Password hashes\<close>

datatype HashType = Argon2d | Argon2i | Argon2id | Pbkdf2Sha256 | Pbkdf2Sha512 | Scrypt

definition HashType_from_str :: "string \<Rightarrow> string + HashType" where
  "HashType_from_str s =
     (if s = ''argon2d'' then Inr Argon2d
      else if s = ''argon2i'' then Inr Argon2i
      else if s = ''argon2id'' then Inr Argon2id
      else if s = ''pbkdf2-sha256'' then Inr Pbkdf2Sha256
      else if s = ''pbkdf2-sha512'' then Inr Pbkdf2Sha512
      else if s = ''scrypt'' then Inr Scrypt
      else Inl (''unknown hash type: '' @ s))"

definition HashType_fmt :: "HashType \<Rightarrow> string" where
  "HashType_fmt t = (case t of
     Argon2d \<Rightarrow> ''argon2d'' | Argon2i \<Rightarrow> ''argon2i'' | Argon2id \<Rightarrow> ''argon2id''
   | Pbkdf2Sha256 \<Rightarrow> ''pbkdf2-sha256'' | Pbkdf2Sha512 \<Rightarrow> ''pbkdf2-sha512'' | Scrypt \<Rightarrow> ''scrypt'')"

text \<open>The crates \<open>argon2\<close>, \<open>pbkdf2\<close>, \<open>scrypt\<close> and \<open>password_hash\<close>: hashing a password with a salt to a
  string, parsing such a string, and verifying a password against it. A hash that fails is \<open>None\<close>.\<close>

record 'h crypto =
  argon2_ident :: "HashType \<Rightarrow> string"
  argon2_hash :: "bytes \<Rightarrow> string \<Rightarrow> string \<Rightarrow> string option"
  argon2_verify :: "bytes \<Rightarrow> 'h \<Rightarrow> bool"
  pbkdf2_ident :: "HashType \<Rightarrow> string"
  pbkdf2_hash :: "bytes \<Rightarrow> string \<Rightarrow> string \<Rightarrow> string option"
  pbkdf2_verify :: "bytes \<Rightarrow> 'h \<Rightarrow> bool"
  scrypt_ident :: string
  scrypt_hash :: "bytes \<Rightarrow> string \<Rightarrow> string option"
  scrypt_verify :: "bytes \<Rightarrow> 'h \<Rightarrow> bool"
  phc_new :: "string \<Rightarrow> 'h option"
  phc_algorithm :: "'h \<Rightarrow> string"

definition create_phc :: "'h crypto \<Rightarrow> string \<Rightarrow> HashType \<Rightarrow> bytes \<Rightarrow> string option" where
  "create_phc lib salt t passwd = (case t of
     Argon2d \<Rightarrow> argon2_hash lib passwd (argon2_ident lib Argon2d) salt
   | Argon2i \<Rightarrow> argon2_hash lib passwd (argon2_ident lib Argon2i) salt
   | Argon2id \<Rightarrow> argon2_hash lib passwd (argon2_ident lib Argon2id) salt
   | Pbkdf2Sha256 \<Rightarrow> pbkdf2_hash lib passwd (pbkdf2_ident lib Pbkdf2Sha256) salt
   | Pbkdf2Sha512 \<Rightarrow> pbkdf2_hash lib passwd (pbkdf2_ident lib Pbkdf2Sha512) salt
   | Scrypt \<Rightarrow> scrypt_hash lib passwd salt)"

text \<open>\<open>apps/rsmqtt_passwd\<close>: what the command prints, or the error about its arguments; \<open>None\<close> is a panic.\<close>

definition passwd_main :: "'h crypto \<Rightarrow> string \<Rightarrow> string \<Rightarrow> string \<Rightarrow> string + string option" where
  "passwd_main lib salt hash passwd =
     (case HashType_from_str hash of
        Inl e \<Rightarrow> Inl e
      | Inr t \<Rightarrow> Inr (create_phc lib salt t (as_bytes passwd)))"

definition verify_password :: "'h crypto \<Rightarrow> string \<Rightarrow> bytes \<Rightarrow> bool" where
  "verify_password lib phc passwd =
     (case phc_new lib phc of
        None \<Rightarrow> False
      | Some parsed_hash \<Rightarrow>
          let algorithm = phc_algorithm lib parsed_hash in
          if algorithm \<in> set (map (argon2_ident lib) [Argon2i, Argon2d, Argon2id])
          then argon2_verify lib passwd parsed_hash
          else if algorithm \<in> {''pbkdf2-sha256'', ''pbkdf2-sha512''} then pbkdf2_verify lib passwd parsed_hash
          else if algorithm = scrypt_ident lib then scrypt_verify lib passwd parsed_hash
          else False)"

subsection \<open>The basic-auth plugin\<close>

definition BasicAuth :: "'h crypto \<Rightarrow> (string \<rightharpoonup> string) \<Rightarrow> Plugin" where
  "BasicAuth lib users = (Plugin_default ''basic-auth'')\<lparr>plugin_auth := (\<lambda>user passwd.
     Inr (case users user of
        Some phc \<Rightarrow> if verify_password lib phc (as_bytes passwd) then Some user else None
      | None \<Rightarrow> None))\<rparr>"

subsection \<open>The oso-acl plugin\<close>

text \<open>What the policy sees of a connection.\<close>

record OsoConnection =
  oso_addr :: RemoteAddr
  oso_uid :: "string option"

definition oso_protocol_attribute :: "OsoConnection \<Rightarrow> string" where
  "oso_protocol_attribute conn = remote_protocol (oso_addr conn)"

definition oso_addr_attribute :: "OsoConnection \<Rightarrow> string" where
  "oso_addr_attribute conn = (case remote_address (oso_addr conn) of Some addr \<Rightarrow> addr | None \<Rightarrow> [])"

definition oso_uid_attribute :: "OsoConnection \<Rightarrow> string" where
  "oso_uid_attribute conn = (case oso_uid conn of Some uid \<Rightarrow> uid | None \<Rightarrow> [])"

text \<open>The engine with its rules loaded: it decides from the three attributes, the action and the topic.\<close>

type_synonym oso = "string \<Rightarrow> string \<Rightarrow> string \<Rightarrow> string \<Rightarrow> string \<Rightarrow> string + bool"

definition OsoAcl :: "oso \<Rightarrow> Plugin" where
  "OsoAcl is_allowed = (Plugin_default ''oso-acl'')\<lparr>plugin_check_acl := (\<lambda>remote_addr uid action topic.
     let conn = \<lparr>oso_addr = remote_addr, oso_uid = uid\<rparr>
     in is_allowed (oso_protocol_attribute conn) (oso_addr_attribute conn) (oso_uid_attribute conn)
          (case action of PublishAction \<Rightarrow> ''pub'' | SubscribeAction \<Rightarrow> ''sub'') topic)\<rparr>"

subsection \<open>Creating plugins\<close>

text \<open>The value of \<open>type\<close> in a configuration: a string, something else, or missing.\<close>

datatype yaml_field = YamlString string | YamlOther | YamlMissing

datatype plugin_error =
    InvalidPluginType | RequirePluginType | PluginNotRegistered string | PluginError string

text \<open>A factory is its name and its \<open>create\<close>; the registry has those of the enabled features.\<close>

primrec create_plugins ::
  "('v \<Rightarrow> yaml_field) \<Rightarrow> (string \<rightharpoonup> ('v \<Rightarrow> string + Plugin)) \<Rightarrow> 'v list \<Rightarrow> Plugin list \<Rightarrow> plugin_error + Plugin list" where
  "create_plugins get_type registry [] plugins = Inr plugins"
| "create_plugins get_type registry (config # configs) plugins =
     (case get_type config of
        YamlString plugin_type \<Rightarrow>
          (case registry plugin_type of
             Some create \<Rightarrow>
               (case create config of
                  Inr plugin \<Rightarrow> create_plugins get_type registry configs (plugins @ [plugin])
                | Inl e \<Rightarrow> Inl (PluginError e))
           | None \<Rightarrow> Inl (PluginNotRegistered plugin_type))
      | YamlOther \<Rightarrow> Inl InvalidPluginType
      | YamlMissing \<Rightarrow> Inl RequirePluginType)"

definition plugin_registry ::
  "('v \<Rightarrow> string + (string \<rightharpoonup> string)) \<Rightarrow> ('v \<Rightarrow> string + string) \<Rightarrow> 'h crypto \<Rightarrow> (string \<Rightarrow> string + oso)
   \<Rightarrow> string \<rightharpoonup> ('v \<Rightarrow> string + Plugin)" where
  "plugin_registry read_users read_rules lib load_rules =
     [''basic-auth'' \<mapsto> (\<lambda>config. case read_users config of
        Inl e \<Rightarrow> Inl e | Inr users \<Rightarrow> Inr (BasicAuth lib users)),
      ''oso-acl'' \<mapsto> (\<lambda>config. case read_rules config of
        Inl e \<Rightarrow> Inl e
      | Inr rules \<Rightarrow> (case load_rules rules of Inl e \<Rightarrow> Inl e | Inr is_allowed \<Rightarrow> Inr (OsoAcl is_allowed)))]"

end
