(* ===== verification/Rewrite.thy ===== *)
theory Rewrite
  imports Service_State
begin

text \<open>
  \<open>libs/service/src/rewrite.rs\<close> and the rest of \<open>ServiceState::new\<close> (\<open>state.rs\<close>): the rewrites of a
  configuration. Regular expressions are those of the \<open>regex\<close> crate: \<open>compile\<close> and \<open>replace\<close> are parameters,
  and \<open>replace\<close> tells whether it has changed its argument.
\<close>

datatype cow = Borrowed string | Owned string

record 're Rewrite =
  rewrite_re :: 're
  rewrite_rep :: string

definition Rewrite_try_new :: "(string \<Rightarrow> string + 're) \<Rightarrow> RewriteConfig \<Rightarrow> string + 're Rewrite" where
  "Rewrite_try_new compile rewrite =
     (case compile (rewrite_pattern rewrite) of
        Inl e \<Rightarrow> Inl e
      | Inr re \<Rightarrow> Inr \<lparr>rewrite_re = re, rewrite_rep = rewrite_write rewrite\<rparr>)"

definition Rewrite_rewrite :: "('re \<Rightarrow> string \<Rightarrow> string \<Rightarrow> cow) \<Rightarrow> 're Rewrite \<Rightarrow> string \<Rightarrow> string option" where
  "Rewrite_rewrite replace r topic =
     (case replace (rewrite_re r) topic (rewrite_rep r) of
        Borrowed _ \<Rightarrow> None
      | Owned new_topic \<Rightarrow> Some new_topic)"

text \<open>The loop over the configured rewrites: the first invalid pattern ends it, with its context.\<close>

primrec Rewrites_try_new ::
  "(string \<Rightarrow> string + 're) \<Rightarrow> RewriteConfig list \<Rightarrow> 're Rewrite list \<Rightarrow> (string \<times> string) + 're Rewrite list" where
  "Rewrites_try_new compile [] rewrites = Inr rewrites"
| "Rewrites_try_new compile (rewrite_cfg # configs) rewrites =
     (case Rewrite_try_new compile rewrite_cfg of
        Inl e \<Rightarrow> Inl (''invalid rewrite pattern: '' @ rewrite_pattern rewrite_cfg, e)
      | Inr r \<Rightarrow> Rewrites_try_new compile configs (rewrites @ [r]))"

definition ServiceState_try_new ::
  "(string \<Rightarrow> string + 're) \<Rightarrow> ('re \<Rightarrow> string \<Rightarrow> string \<Rightarrow> cow) \<Rightarrow> ServiceConfig \<Rightarrow> Plugin list
   \<Rightarrow> (string \<times> string) + ServiceState" where
  "ServiceState_try_new compile replace config plugins =
     (case Rewrites_try_new compile (config_rewrites config) [] of
        Inl e \<Rightarrow> Inl e
      | Inr rewrites \<Rightarrow> Inr (ServiceState_new config plugins (map (Rewrite_rewrite replace) rewrites)))"

lemma Rewrites_try_new_Inr:
  "Rewrites_try_new compile configs acc = Inr result \<longleftrightarrow>
    (\<exists>res. map (\<lambda>config. compile (rewrite_pattern config)) configs = map Inr res \<and>
      result = acc @ map2 (\<lambda>config re. \<lparr>rewrite_re = re, rewrite_rep = rewrite_write config\<rparr>) configs res)"
proof (induction configs arbitrary: acc)
  case (Cons config configs)
  show ?case
  proof (cases "compile (rewrite_pattern config)")
    case (Inl e)
    then show ?thesis by (auto simp: Rewrite_try_new_def)
  next
    case (Inr re)
    have "(\<exists>res. map (\<lambda>config. compile (rewrite_pattern config)) (config # configs) = map Inr res \<and> P res) \<longleftrightarrow>
      (\<exists>res. map (\<lambda>config. compile (rewrite_pattern config)) configs = map Inr res \<and> P (re # res))" for P
      by (auto simp: Inr Cons_eq_map_conv)
    then show ?thesis by (simp add: Rewrite_try_new_def Inr Cons.IH)
  qed
qed auto

end
