(* ===== verification/Server.thy ===== *)
theory Server
  imports Plugins Rewrite Sys_Topics
begin

text \<open>
  What \<open>apps/rsmqttd\<close> decides itself: the network configuration and its defaults (\<open>config.rs\<close>), the start of
  the service and the periodic update (\<open>main.rs\<close>), the addresses that connections get (\<open>server.rs\<close>), and the
  byte stream over a websocket (\<open>ws_transport.rs\<close>). The sink of messages, the sockets and the reading of the
  configuration file are parameters.
\<close>

subsection \<open>Configuration\<close>

record TlsConfig =
  tls_cert :: string
  tls_key :: string

record TcpConfig =
  tcp_host :: string
  tcp_port :: "u16 option"
  tcp_tls :: "TlsConfig option"

definition TcpConfig_port :: "TcpConfig \<Rightarrow> u16" where
  "TcpConfig_port c = (case tcp_port c of Some port \<Rightarrow> port
     | None \<Rightarrow> if tcp_tls c \<noteq> None then 8883 else 1883)"

record HttpConfig =
  http_host :: string
  http_port :: "u16 option"
  http_tls :: "TlsConfig option"
  http_websocket :: bool
  http_api :: bool
  http_graphql_api :: bool

definition HttpConfig_port :: "HttpConfig \<Rightarrow> u16" where
  "HttpConfig_port c = (case http_port c of Some port \<Rightarrow> port
     | None \<Rightarrow> if http_tls c \<noteq> None then 8443 else 8080)"

record NetworkConfig =
  network_tcp :: "TcpConfig option"
  network_http :: "HttpConfig option"

definition default_host :: string where
  "default_host = ''127.0.0.1''"

definition NetworkConfig_default :: NetworkConfig where
  "NetworkConfig_default = \<lparr>
     network_tcp = Some \<lparr>tcp_host = default_host, tcp_port = None, tcp_tls = None\<rparr>,
     network_http = Some \<lparr>http_host = default_host, http_port = None, http_tls = None,
       http_websocket = True, http_api = True, http_graphql_api = True\<rparr>\<rparr>"

record 'v Config =
  config_network :: NetworkConfig
  config_service :: ServiceConfig
  config_plugins :: "'v list"

definition Config_default :: "'v Config" where
  "Config_default = \<lparr>config_network = NetworkConfig_default, config_service = ServiceConfig_default,
     config_plugins = []\<rparr>"

subsection \<open>The service\<close>

datatype start_error = PluginsFailed plugin_error | ServiceFailed "string \<times> string"

definition server_start ::
  "('v \<Rightarrow> yaml_field) \<Rightarrow> (string \<rightharpoonup> ('v \<Rightarrow> string + Plugin)) \<Rightarrow> (string \<Rightarrow> string + 're)
   \<Rightarrow> ('re \<Rightarrow> string \<Rightarrow> string \<Rightarrow> cow) \<Rightarrow> 'v Config \<Rightarrow> start_error + ServiceState" where
  "server_start get_type registry compile replace config =
     (case create_plugins get_type registry (config_plugins config) [] of
        Inl e \<Rightarrow> Inl (PluginsFailed e)
      | Inr plugins \<Rightarrow>
          (case ServiceState_try_new compile replace (config_service config) plugins of
             Inl e \<Rightarrow> Inl (ServiceFailed e)
           | Inr state \<Rightarrow> Inr state))"

text \<open>The body of the periodic task.\<close>

definition periodic_update ::
  "'f float_ops \<Rightarrow> nat \<Rightarrow> system_time \<Rightarrow> (nat \<Rightarrow> string \<Rightarrow> nat \<Rightarrow> nat) \<Rightarrow> ServiceState \<times> 'f MetricsState
   \<Rightarrow> ServiceState \<times> 'f MetricsState" where
  "periodic_update ops instant now pick = (\<lambda>(state, ms).
     let ms = ServiceState_update_metrics ops instant state ms
     in (update_sys_topics ops now pick ms state, ms))"

definition tcp_remote_addr :: "string \<Rightarrow> RemoteAddr" where
  "tcp_remote_addr addr = \<lparr>remote_protocol = ''tcp'', remote_address = Some addr\<rparr>"

definition ws_remote_addr :: "string option \<Rightarrow> RemoteAddr" where
  "ws_remote_addr addr = \<lparr>remote_protocol = ''ws'',
     remote_address = Some (case addr of Some a \<Rightarrow> a | None \<Rightarrow> ''unknown'')\<rparr>"

subsection \<open>Websockets\<close>

datatype 'a poll = Ready 'a | Pending

datatype ws_message = WsBinary bytes | WsOther bytes

text \<open>A sink of messages, as \<open>futures\<close> describes it.\<close>

record 's sink_ops =
  sink_poll_ready :: "'s \<Rightarrow> (string + unit) poll \<times> 's"
  sink_start_send :: "ws_message \<Rightarrow> 's \<Rightarrow> (string + unit) \<times> 's"
  sink_poll_flush :: "'s \<Rightarrow> (string + unit) poll \<times> 's"
  sink_poll_close :: "'s \<Rightarrow> (string + unit) poll \<times> 's"

definition SinkWriter_poll_write :: "'s sink_ops \<Rightarrow> bytes \<Rightarrow> 's \<Rightarrow> (string + nat) poll \<times> 's" where
  "SinkWriter_poll_write sink buf s =
     (case sink_poll_ready sink s of
        (Ready (Inl err), s) \<Rightarrow> (Ready (Inl err), s)
      | (Pending, s) \<Rightarrow> (Pending, s)
      | (Ready (Inr _), s) \<Rightarrow>
          (case sink_start_send sink (WsBinary buf) s of
             (Inl err, s) \<Rightarrow> (Ready (Inl err), s)
           | (Inr _, s) \<Rightarrow>
               (case sink_poll_flush sink s of
                  (Ready (Inl err), s) \<Rightarrow> (Ready (Inl err), s)
                | (Ready (Inr _), s) \<Rightarrow> (Ready (Inr (length buf)), s)
                | (Pending, s) \<Rightarrow> (Pending, s))))"

definition SinkWriter_poll_flush :: "'s sink_ops \<Rightarrow> 's \<Rightarrow> (string + unit) poll \<times> 's" where
  "SinkWriter_poll_flush sink s = sink_poll_flush sink s"

definition SinkWriter_poll_shutdown :: "'s sink_ops \<Rightarrow> 's \<Rightarrow> (string + unit) poll \<times> 's" where
  "SinkWriter_poll_shutdown sink s = sink_poll_close sink s"

text \<open>The reader gets the payloads of the binary messages; the others are skipped.\<close>

definition ws_payloads :: "ws_message list \<Rightarrow> bytes list" where
  "ws_payloads msgs = List.map_filter (\<lambda>msg. case msg of WsBinary data \<Rightarrow> Some data | WsOther _ \<Rightarrow> None) msgs"

text \<open>\<open>write_all\<close> of \<open>tokio\<close> on a writer: it polls with what is left, again after \<open>Pending\<close>, until all is
  written. The number of polls is the fuel; \<open>None\<close> is a writer that is still pending.\<close>

fun write_all_polls :: "(bytes \<Rightarrow> 's \<Rightarrow> (string + nat) poll \<times> 's) \<Rightarrow> nat \<Rightarrow> bytes \<Rightarrow> 's \<Rightarrow> ((string + unit) \<times> 's) option" where
  "write_all_polls poll_write fuel [] s = Some (Inr (), s)"
| "write_all_polls poll_write 0 (x # xs) s = None"
| "write_all_polls poll_write (Suc fuel) (x # xs) s =
     (case poll_write (x # xs) s of
        (Pending, s) \<Rightarrow> write_all_polls poll_write fuel (x # xs) s
      | (Ready (Inl err), s) \<Rightarrow> Some (Inl err, s)
      | (Ready (Inr n), s) \<Rightarrow>
          if n = 0 then Some (Inl ''write zero'', s) else write_all_polls poll_write fuel (drop n (x # xs)) s)"

end
