(* ===== verification/Broker.thy ===== *)
theory Broker
  imports Server Client_Loop
begin

text \<open>
  The running server (\<open>apps/rsmqttd/src/main.rs\<close>, \<open>server.rs\<close>): the connections as tasks that share the state
  of the service, the task of \<open>ServiceState::new\<close> that updates the sessions, and the task of \<open>main.rs\<close> that
  updates the metrics and the system topics. Which task runs next is not determined: a run is any sequence
  of events that can occur. A turn of a connection is one step, as in the client loop.
\<close>

record ('r, 'w, 'f) Broker =
  broker_tasks :: "(nat \<times> ('r, 'w) Connection) list"
  broker_channels :: nat
  broker_state :: ServiceState
  broker_metrics :: "'f MetricsState"

definition Broker_new :: "'f float_ops \<Rightarrow> nat \<Rightarrow> ServiceState \<Rightarrow> ('r, 'w, 'f) Broker" where
  "Broker_new ops now state = \<lparr>broker_tasks = [], broker_channels = 0, broker_state = state,
     broker_metrics = MetricsState_new ops now\<rparr>"

datatype ('r, 'w) broker_event =
    Accept RemoteAddr 'r 'w nat
  | Turn nat "('r, 'w) Env" event
  | UpdateSessions system_time nat "nat \<Rightarrow> string \<Rightarrow> nat \<Rightarrow> nat"
  | UpdateMetrics nat system_time "nat \<Rightarrow> string \<Rightarrow> nat \<Rightarrow> nat"

subsection \<open>The tasks\<close>

text \<open>A listener has accepted a connection: its task starts with a channel of its own, whose sender identifies it.\<close>

definition spawn_connection ::
  "RemoteAddr \<Rightarrow> 'r \<Rightarrow> 'w \<Rightarrow> nat \<Rightarrow> ('r, 'w, 'f) Broker \<Rightarrow> ('r, 'w, 'f) Broker" where
  "spawn_connection remote_addr reader writer now b =
     (let n = broker_channels b;
          w = snd (client_loop remote_addr n reader writer now [] (broker_state b))
      in b\<lparr>broker_tasks := broker_tasks b @ [(n, world_conn w)], broker_channels := n + 1,
           broker_state := world_state w\<rparr>)"

text \<open>A turn of a task. A control is taken out of its channel. What is left of the task after its turn: it goes
  on, or it has ended. A task that panics is gone, without what follows the loop; the other tasks go on.\<close>

definition take_control :: "nat \<Rightarrow> event \<Rightarrow> ServiceState \<Rightarrow> ServiceState" where
  "take_control n ev state = (case ev of
     Receive control \<Rightarrow> state\<lparr>state_controls := remove1 (n, control) (state_controls state)\<rparr> | _ \<Rightarrow> state)"

definition task_world :: "nat \<Rightarrow> event \<Rightarrow> ('r, 'w) Connection \<Rightarrow> ('r, 'w, 'f) Broker \<Rightarrow> ('r, 'w) World" where
  "task_world n ev conn b = \<lparr>world_conn = conn, world_state = take_control n ev (broker_state b)\<rparr>"

definition run_task ::
  "nat \<Rightarrow> ('r, 'w) Env \<Rightarrow> event \<Rightarrow> ('r, 'w) Connection \<Rightarrow> ('r, 'w, 'f) Broker
   \<Rightarrow> (Error, unit) Actions.outcome \<times> ('r, 'w, 'f) Broker" where
  "run_task n env ev conn b =
     (case run_turns [(env, ev)] (task_world n ev conn b) of
        (Finished True, w) \<Rightarrow>
          (Finished (), b\<lparr>broker_tasks := AList.update n (world_conn w) (broker_tasks b), broker_state := world_state w\<rparr>)
      | (res, w) \<Rightarrow>
          ((case res of Finished _ \<Rightarrow> Finished () | Failed e \<Rightarrow> Failed e | Panicked \<Rightarrow> Panicked | Aborted \<Rightarrow> Aborted),
           b\<lparr>broker_tasks := AList.delete n (broker_tasks b), broker_state := world_state w\<rparr>))"

text \<open>The task that \<open>ServiceState::new\<close> starts.\<close>

definition update_sessions_task ::
  "system_time \<Rightarrow> nat \<Rightarrow> (nat \<Rightarrow> string \<Rightarrow> nat \<Rightarrow> nat) \<Rightarrow> ServiceState \<Rightarrow> ServiceState" where
  "update_sessions_task time now pick state =
     state\<lparr>state_storage := Storage_update_sessions time now pick (state_storage state)\<rparr>"

definition broker_step ::
  "'f float_ops \<Rightarrow> ('r, 'w) broker_event \<Rightarrow> ('r, 'w, 'f) Broker \<Rightarrow> (Error, unit) Actions.outcome \<times> ('r, 'w, 'f) Broker" where
  "broker_step ops ev b = (case ev of
     Accept remote_addr reader writer now \<Rightarrow> (Finished (), spawn_connection remote_addr reader writer now b)
   | Turn n env ev \<Rightarrow>
       (case map_of (broker_tasks b) n of
          None \<Rightarrow> (Finished (), b)
        | Some conn \<Rightarrow> run_task n env ev conn b)
   | UpdateSessions time now pick \<Rightarrow>
       (Finished (), b\<lparr>broker_state := update_sessions_task time now pick (broker_state b)\<rparr>)
   | UpdateMetrics instant now pick \<Rightarrow>
       (let (state, ms) = periodic_update ops instant now pick (broker_state b, broker_metrics b)
        in (Finished (), b\<lparr>broker_state := state, broker_metrics := ms\<rparr>)))"

subsection \<open>Runs\<close>

text \<open>A turn needs its task, a control in its channel, and random numbers within their bounds. A notification may
  occur at any time, more often than \<open>Notify\<close> allows.\<close>

definition broker_ready :: "('r, 'w) broker_event \<Rightarrow> ('r, 'w, 'f) Broker \<Rightarrow> bool" where
  "broker_ready ev b \<longleftrightarrow> (case ev of
     Accept _ _ _ _ \<Rightarrow> True
   | Turn n env ev \<Rightarrow> n \<in> fst ` set (broker_tasks b) \<and>
       (case ev of Receive control \<Rightarrow> (n, control) \<in> set (state_controls (broker_state b)) | _ \<Rightarrow> True)
   | UpdateSessions _ _ pick \<Rightarrow> \<forall>i name k. 0 < k \<longrightarrow> pick i name k < k
   | UpdateMetrics _ _ pick \<Rightarrow> \<forall>i name k. 0 < k \<longrightarrow> pick i name k < k)"

text \<open>A run, with its steps: each event and the broker it happens to. After a panic of a task the others go on;
  an abort ends the process.\<close>

inductive broker_run ::
  "'f float_ops \<Rightarrow> ('r, 'w, 'f) Broker \<Rightarrow> (('r, 'w) broker_event \<times> ('r, 'w, 'f) Broker) list \<Rightarrow> ('r, 'w, 'f) Broker \<Rightarrow> bool"
  for ops b where
  start: "broker_run ops b [] b"
| step: "broker_run ops b steps b' \<Longrightarrow> broker_ready ev b' \<Longrightarrow> broker_step ops ev b' = (res, b'') \<Longrightarrow> res \<noteq> Aborted \<Longrightarrow>
    broker_run ops b (steps @ [(ev, b')]) b''"

text \<open>A race: a connection ends with a client id that another connection has, too.\<close>

definition races :: "('r, 'w) broker_event \<Rightarrow> ('r, 'w, 'f) Broker \<Rightarrow> bool" where
  "races ev b \<longleftrightarrow> (case ev of
     Turn n env ev \<Rightarrow>
       (case map_of (broker_tasks b) n of
          None \<Rightarrow> False
        | Some conn \<Rightarrow>
            (case loop_turn ev env (task_world n ev conn b) of
               (Finished False, w) \<Rightarrow> conn_client_id (world_conn w) \<noteq> None \<and>
                 list_ex (\<lambda>(m, other). m \<noteq> n \<and> conn_client_id other = conn_client_id (world_conn w)) (broker_tasks b)
             | _ \<Rightarrow> False))
   | _ \<Rightarrow> False)"

end
