(* ===== verification/Client_Counts.thy ===== *)
theory Client_Counts
  imports Client_Requests
begin

text \<open>
  The connection count of the metrics (\<open>inc_connection_count\<close> and \<open>dec_connection_count\<close> in
  \<open>client_loop.rs\<close>), and the end of a connection whose session has been taken over: which actions of a
  connection leave its name and the count alone, and how the others change them.
\<close>

definition connection_count :: "('r, 'w) World \<Rightarrow> u64" where
  "connection_count w = metric_connection_count (state_service_metrics (world_state w))"

text \<open>The count without this connection.\<close>

definition other_connections :: "('r, 'w) World \<Rightarrow> u64" where
  "other_connections w = connection_count w - (if conn_client_id (world_conn w) = None then 0 else 1)"

subsection \<open>Actions that change neither\<close>

text \<open>Who this connection is, and what the connections know of each other.\<close>

definition seat :: "('r, 'w) World \<Rightarrow> string option \<times> nat \<times> (string \<times> nat) list \<times> (nat \<times> Control) list" where
  "seat w = (conn_client_id (world_conn w), conn_control_sender (world_conn w),
     state_connections (world_state w), state_controls (world_state w))"

lemma seat_client: "seat w' = seat w \<Longrightarrow> conn_client_id (world_conn w') = conn_client_id (world_conn w)"
  by (simp add: seat_def)

definition steady :: "('r, 'w, 'a) action \<Rightarrow> bool" where
  "steady m \<longleftrightarrow> (\<forall>env w. connection_count (snd (m env w)) = connection_count w \<and> seat (snd (m env w)) = seat w)"

named_theorems steady_intro "actions that keep the seat and the count"

lemma steady_basic [steady_intro]:
  "steady (finish x)" "steady (fail e)" "steady panic" "steady (disconnect_because r)" "steady (look g)"
  by (simp_all add: steady_def act)

lemma steady_conn [steady_intro]:
  "(\<And>c. conn_client_id (f c) = conn_client_id c) \<Longrightarrow> (\<And>c. conn_control_sender (f c) = conn_control_sender c) \<Longrightarrow>
    steady (update_conn f)"
  by (simp add: steady_def act connection_count_def seat_def)

lemma steady_metrics [steady_intro]:
  "(\<And>m. metric_connection_count (f m) = metric_connection_count m) \<Longrightarrow> steady (update_metrics f)"
  by (simp add: steady_def act connection_count_def seat_def)

lemma steady_calls [steady_intro]: "steady (update_state (call_plugins call))"
  by (simp add: steady_def act connection_count_def call_plugins_def seat_def)

lemma steady_storage [steady_intro]:
  "steady (update_storage f)" "steady (with_storage g)" "steady (try_storage h)"
  by (simp_all add: steady_def act connection_count_def seat_def with_storage_def try_storage_def case_prod_unfold Let_def
      split: option.split)

lemma steady_andthen [steady_intro]:
  assumes "steady m" "\<And>x. steady (f x)"
  shows "steady (andthen m f)"
  unfolding steady_def
proof (intro allI)
  fix env w
  show "connection_count (snd (andthen m f env w)) = connection_count w \<and> seat (snd (andthen m f env w)) = seat w"
    using assms unfolding steady_def by (cases "m env w"; cases "fst (m env w)") (auto simp: act, (metis snd_conv)+)
qed

lemma steady_for_each [steady_intro]: "(\<And>x. steady (f x)) \<Longrightarrow> steady (loop_over f xs)"
  by (induction xs) (auto intro!: steady_intro)

lemma steady_for_codes [steady_intro]: "(\<And>x. steady (f x)) \<Longrightarrow> steady (loop_collect f xs)"
  by (induction xs) (auto intro!: steady_intro)

lemma steady_encode [steady_intro]: "steady (encode_packet packet)"
  by (simp add: steady_def encode_packet_def connection_count_def seat_def case_prod_unfold Let_def)

lemmas metric_counts = inc_bytes_sent_def inc_msgs_sent_def inc_pub_bytes_sent_def inc_bytes_received_def
  inc_msgs_received_def inc_pub_bytes_received_def inc_pub_msgs_received_def inc_pub_msgs_sent_def inc_msg_dropped_def

lemma steady_send [steady_intro]: "steady (send_packet packet)"
  unfolding send_packet_def
  by (auto intro!: steady_intro simp: metric_counts Let_def split: sum.split EncodeError.split Packet.split)

lemma steady_reads [steady_intro]: "steady (check_acl action topic)" "steady require_client_id"
  by (auto simp: steady_def check_acl_def require_client_id_def act split: sum.split option.split)

subsection \<open>The handlers\<close>

lemma steady_sends [steady_intro]:
  "steady (send_pub_rec i r)" "steady (send_pub_rel i r')" "steady (send_pub_comp i r'')" "steady (send_disconnect d p)"
  "steady (deliver_one msg)" "steady (unwrap_id packet_id)" "steady (oldest_inflight c i b)"
  by (auto simp: send_pub_rec_def send_pub_rel_def send_pub_comp_def send_disconnect_def deliver_one_def unwrap_id_def
      oldest_inflight_def intro!: steady_intro split: option.split)

lemma steady_publish_exactly_once [steady_intro]: "steady (publish_exactly_once packet_id msg)"
  unfolding publish_exactly_once_def by (auto intro!: steady_intro simp: metric_counts)

lemma steady_process_publish [steady_intro]: "steady (process_publish c topic publish)"
  unfolding process_publish_def publish_message_def Let_def
  by (auto intro!: steady_intro split: Qos.split prod.split)

lemma steady_publish [steady_intro]: "steady (handle_publish publish)"
  unfolding handle_publish_def
  by (auto intro!: steady_intro simp: metric_counts split: option.split prod.split)

lemma steady_delive [steady_intro]: "steady (delive msg)"
  unfolding delive_def deliver_publish_def Let_def
  by (auto intro!: steady_intro simp: metric_counts split: option.split prod.split)

lemma steady_notified [steady_intro]: "steady handle_notified"
  unfolding handle_notified_def by (auto intro!: steady_intro split: option.split prod.split)

lemma steady_acks [steady_intro]:
  "steady (handle_pub_ack pub_ack)" "steady (handle_pub_rec pub_rec)" "steady (handle_pub_rel pub_rel)"
  "steady (handle_pub_comp pub_comp)"
  unfolding handle_pub_ack_def handle_pub_rec_def handle_pub_rel_def handle_pub_comp_def Let_def
  by (auto intro!: steady_intro split: option.split prod.split)

lemma steady_subscriptions [steady_intro]:
  "steady (handle_subscribe subscribe)" "steady (handle_unsubscribe unsubscribe)"
  unfolding handle_subscribe_def handle_unsubscribe_def subscribe_one_def unsubscribe_one_def Let_def
  by (auto intro!: steady_intro split: option.split prod.split)

lemma steady_others [steady_intro]: "steady handle_ping_req" "steady (handle_disconnect disconnect)"
  unfolding handle_ping_req_def handle_disconnect_def
  by (auto intro!: steady_intro split: option.split)

subsection \<open>Logging in\<close>

definition counts :: "u64 \<Rightarrow> bool \<Rightarrow> ('r, 'w) World \<Rightarrow> bool" where
  "counts k anon w \<longleftrightarrow> connection_count w = k \<and> (conn_client_id (world_conn w) = None) = anon"

text \<open>What holds if an action finishes.\<close>

definition finishes :: "(('r, 'w) World \<Rightarrow> bool) \<Rightarrow> ('r, 'w, 'a) action \<Rightarrow> (('r, 'w) World \<Rightarrow> bool) \<Rightarrow> bool" where
  "finishes P m Q \<longleftrightarrow> (\<forall>env w x w'. P w \<longrightarrow> m env w = (Finished x, w') \<longrightarrow> Q w')"

lemma finishesD: "finishes P m Q \<Longrightarrow> P w \<Longrightarrow> m env w = (Finished x, w') \<Longrightarrow> Q w'"
  unfolding finishes_def by blast

lemma finishes_andthen:
  assumes "finishes P m R" "\<And>x. finishes R (f x) Q"
  shows "finishes P (andthen m f) Q"
  using assms unfolding finishes_def by (auto simp: act split: prod.splits outcome.splits) blast

lemma finishes_steady: "steady m \<Longrightarrow> finishes (counts k anon) m (counts k anon)"
  unfolding finishes_def steady_def counts_def by (metis snd_conv seat_client)

lemma finishes_look: "(\<And>x. finishes P (f x) Q) \<Longrightarrow> finishes P (andthen (look g) f) Q"
  by (simp add: finishes_def act)

lemma finishes_accept: "finishes (counts k True) (accept_connect connect properties uid) (counts (k + 1) False)"
proof -
  have take: "finishes (counts k True) (update_state (take_over client_id sender)) (counts k True)" for client_id sender
    by (simp add: finishes_def act counts_def connection_count_def take_over_def)
  have login: "finishes (counts k True) (update_conn (login_connection config connect uid n)) (counts k False)" for config n
    by (auto simp: finishes_def act counts_def connection_count_def login_connection_def Let_def)
  have inc: "finishes (counts k False) (update_metrics (inc_connection_count 1)) (counts (k + 1) False)"
    by (auto simp: finishes_def act counts_def connection_count_def inc_connection_count_def)
  have resend: "steady (resend_inflight publish)" for publish
    unfolding resend_inflight_def by (intro steady_intro) simp_all
  have proxy: "steady (proxy_subscribe client_id s)" for client_id s
    unfolding proxy_subscribe_def by (auto intro!: steady_intro split: option.split)
  show ?thesis
    unfolding accept_connect_def Let_def
    by (intro finishes_look, clarify)
      (rule finishes_andthen [OF take] finishes_andthen [OF login] finishes_andthen [OF inc] finishes_steady
        finishes_andthen [OF finishes_steady] | (auto intro!: steady_intro resend proxy; fail))+
qed

lemma steady_authenticate [steady_intro]: "steady (authenticate connect)"
  by (auto simp: steady_def authenticate_def act split: option.split sum.split)

lemma steady_refuse [steady_intro]: "steady (refuse_connect reason)"
  unfolding refuse_connect_def by (rule steady_send)

lemma connect_counts:
  assumes "handle_connect connect env w = (Finished (), w')"
  shows "other_connections w' = other_connections w"
proof -
  have anon: "conn_client_id (world_conn w) = None"
    using assms by (auto simp: handle_connect_def act split: if_splits)
  have "finishes (counts k True) (handle_connect connect) (\<lambda>w. counts k True w \<or> counts (k + 1) False w)" for k
  proof -
    have weaken: "finishes P m Q \<Longrightarrow> (\<And>w. Q w \<Longrightarrow> R w) \<Longrightarrow> finishes P m R"
      for P Q R and m :: "('r, 'w, unit) action" by (auto simp: finishes_def)
    have refuse: "finishes (counts k True) (refuse_connect reason) (\<lambda>w. counts k True w \<or> counts (k + 1) False w)" for reason
      by (rule weaken [OF finishes_steady]) (auto intro!: steady_intro)
    have accept: "finishes (counts k True) (andthen (authenticate c) (accept_connect d p))
      (\<lambda>w. counts k True w \<or> counts (k + 1) False w)" for c d p
      by (rule weaken [OF finishes_andthen [OF finishes_steady [OF steady_authenticate] finishes_accept]]) simp
    have fails: "finishes P (disconnect_because r) Q" "finishes P (andthen m (\<lambda>_. fail e)) Q"
      for P Q r e and m :: "('r, 'w, unit) action"
      by (auto simp: finishes_def act split: prod.splits outcome.splits)
    show ?thesis
      unfolding handle_connect_def Let_def
      by (intro finishes_look, clarify) (auto intro: refuse accept fails split: option.split)
  qed
  moreover have "counts (connection_count w) True w" using anon by (simp add: counts_def)
  ultimately have "counts (connection_count w) True w' \<or> counts (connection_count w + 1) False w'"
    using assms by (rule finishesD)
  then show ?thesis using anon by (auto simp: counts_def other_connections_def)
qed

subsection \<open>Turns of the loop\<close>

lemma steady_count: "steady m \<Longrightarrow> m env w = (r, w') \<Longrightarrow> other_connections w' = other_connections w \<and>
    (conn_client_id (world_conn w') = None \<longleftrightarrow> conn_client_id (world_conn w) = None)"
  unfolding steady_def other_connections_def by (metis snd_conv seat_client)

lemmas steady_other = conjunct1 [OF steady_count]

lemma steady_attempt [steady_intro]: "steady m \<Longrightarrow> steady (attempt m)"
  unfolding steady_def attempt_def by (auto split: prod.split outcome.split) (metis snd_conv)+

lemma steady_or_close [steady_intro]:
  assumes "steady m" "\<And>e. steady (h e)"
  shows "steady (or_close m h)"
proof -
  have "steady (andthen (h e) (\<lambda>_. finish False))" for e by (intro steady_intro assms)
  then show ?thesis
    using assms(1) unfolding steady_def or_close_def by (auto split: prod.split outcome.split) (metis snd_conv)+
qed

lemma steady_close_on [steady_intro]: "steady (close_on e)"
  unfolding close_on_def by (auto intro!: steady_intro split: Error.split option.split)

lemma steady_handle_packet: "(\<And>connect. packet \<noteq> Packet.Connect connect) \<Longrightarrow> steady (handle_packet packet)"
  unfolding handle_packet_def by (cases packet) (auto intro: steady_intro)

lemma packet_counts:
  assumes "or_close (handle_packet packet) close_on env w = (Finished go, w')"
    and "go \<or> conn_client_id (world_conn w) \<noteq> None"
  shows "other_connections w' = other_connections w"
proof (cases "\<exists>connect. packet = Packet.Connect connect \<and> conn_client_id (world_conn w) = None")
  case True
  then obtain connect where "packet = Packet.Connect connect" "go" using assms(2) by auto
  then have "handle_connect connect env w = (Finished (), w')"
    using assms(1) by (auto simp: or_close_def handle_packet_def act split: prod.splits outcome.splits)
  then show ?thesis by (rule connect_counts)
next
  case False
  show ?thesis
  proof (cases "\<exists>connect. packet = Packet.Connect connect")
    case True
    with False have "or_close (handle_packet packet) close_on env w =
      or_close (disconnect_because DisconnectReasonCode.ProtocolError) close_on env w"
      by (auto simp: or_close_def handle_packet_def handle_connect_def act)
    then have "or_close (disconnect_because DisconnectReasonCode.ProtocolError) close_on env w = (Finished go, w')"
      using assms(1) by simp
    moreover have "steady (or_close (disconnect_because DisconnectReasonCode.ProtocolError) close_on)"
      by (intro steady_intro)
    ultimately show ?thesis using steady_count by blast
  next
    case False
    then have "steady (or_close (handle_packet packet) close_on)"
      by (intro steady_intro steady_handle_packet) auto
    then show ?thesis using assms(1) steady_count by blast
  qed
qed

lemma steady_decode [steady_intro]: "steady decode_packet"
  by (simp add: steady_def decode_packet_def connection_count_def seat_def case_prod_unfold Let_def)

lemma receive_packet_counts:
  fixes w :: "('r, 'w) World"
  assumes "receive_packet env w = (Finished go, w')" "go \<or> conn_client_id (world_conn w) \<noteq> None"
  shows "other_connections w' = other_connections w"
proof -
  obtain res v where d: "decode_packet env w = (Finished res, v)"
    by (simp add: decode_packet_def case_prod_unfold Let_def)
  note v = steady_count [OF steady_decode d]
  show ?thesis
  proof (cases "\<exists>packet n. res = Inr (Some (packet, n))")
    case True
    then obtain packet n where res: "res = Inr (Some (packet, n))" by blast
    define u where "u = v\<lparr>world_state := (world_state v)\<lparr>state_service_metrics := inc_msgs_received 1
        (inc_bytes_received n (state_service_metrics (world_state v)))\<rparr>,
      world_conn := (world_conn v)\<lparr>conn_last_active := env_instant env\<rparr>\<rparr>"
    have "or_close (handle_packet packet) close_on env u = (Finished go, w')"
      using assms(1) by (simp add: receive_packet_def act d res u_def)
    moreover have "other_connections u = other_connections v"
      "conn_client_id (world_conn u) = None \<longleftrightarrow> conn_client_id (world_conn v) = None"
      by (simp_all add: u_def other_connections_def connection_count_def metric_counts)
    ultimately show ?thesis using packet_counts [of packet env u go w'] assms(2) v by simp
  next
    case False
    define m :: "('r, 'w, bool) action" where "m = (case res of Inl DecodeError.PacketTooLarge \<Rightarrow>
        andthen (attempt (send_disconnect DisconnectReasonCode.PacketTooLarge None)) (\<lambda>_. finish False)
      | _ \<Rightarrow> finish False)"
    have "steady m" unfolding m_def by (auto intro!: steady_intro split: sum.split DecodeError.split)
    moreover have "m env v = (Finished go, w')"
      using assms(1) False by (auto simp: m_def receive_packet_def act d split: sum.splits option.splits DecodeError.splits)
    ultimately have "other_connections w' = other_connections v" by (rule steady_other)
    then show ?thesis using v by simp
  qed
qed



subsection \<open>Taking over\<close>

text \<open>A connection that learns that its session has been taken over closes, and leaves the session and the table of
  connections to its successor.\<close>

theorem takeover_handled:
  assumes "receive_control TakenOver env w = (Finished go, w')"
  shows "\<not> go \<and> world_storage (snd (close_connection env' w')) = world_storage w \<and>
    state_connections (world_state (snd (close_connection env' w'))) = state_connections (world_state w)"
proof -
  define u where "u = w\<lparr>world_conn := (world_conn w)\<lparr>conn_client_id := None\<rparr>,
    world_state := (world_state w)\<lparr>state_service_metrics := dec_connection_count 1 (state_service_metrics (world_state w))\<rparr>\<rparr>"
  let ?send = "send_disconnect DisconnectReasonCode.SessionTakenOver None :: ('a, 'b, unit) action"
  have "fst (?send env u) = Finished () \<or> (\<exists>e. fst (?send env u) = Failed e)" "sends u (snd (?send env u))"
    unfolding send_disconnect_def by (rule conjunct1 [OF send_packet_sends] conjunct2 [OF send_packet_sends], simp)+
  moreover have "andthen (attempt ?send) (\<lambda>_. finish False) env u = (Finished go, w')"
    using assms by (simp add: receive_control_def or_close_def handle_control_def act u_def)
  ultimately have "\<not> go \<and> sends u w'"
    by (cases "?send env u") (auto simp: attempt_def act)
  then show ?thesis
    by (auto simp: sends_def u_def close_connection_def act)
qed

subsection \<open>Failing to log in\<close>

definition ends :: "(('r, 'w) World \<Rightarrow> bool) \<Rightarrow> (Error, 'a) Actions.outcome \<times> ('r, 'w) World \<Rightarrow> bool" where
  "ends P r = P (snd r)"

lemma ends_steps:
  "ends P (f1 (g env w) env w) \<Longrightarrow> ends P (andthen (look g) f1 env w)"
  "ends P (f () env (w\<lparr>world_state := h (world_state w)\<rparr>)) \<Longrightarrow> ends P (andthen (update_state h) f env w)"
  "ends P (f () env (w\<lparr>world_conn := k (world_conn w)\<rparr>)) \<Longrightarrow> ends P (andthen (update_conn k) f env w)"
  "(\<And>x st. ends P (f2 x env (w\<lparr>world_state := (world_state w)\<lparr>state_storage := st\<rparr>\<rparr>)))
    \<Longrightarrow> ends P (andthen (with_storage l) f2 env w)"
  by (simp_all add: ends_def act with_storage_def case_prod_unfold Let_def)

text \<open>If the CONNACK cannot be written, the connection has its name but has not been counted, and
  its end decrements the count all the same: below zero if there is no other connection.\<close>

theorem failed_connack_miscounts:
  fixes w :: "('r, 'w) World"
  assumes "conn_client_id (world_conn w) = None" "connect_last_will connect = None" "connect_login connect = None"
    and "connect_client_id connect \<noteq> []" "env_write_all env = (\<lambda>w _. (Inl e, w))"
    and "w1 = snd (handle_connect connect env w)"
  shows "conn_client_id (world_conn w1) = Some (connect_client_id connect) \<and>
    connection_count (snd (close_connection env w1)) = connection_count w - 1"
proof -
  have fails: "\<exists>err v. send_packet packet env u = (Failed err, v) \<and> connection_count v = connection_count u \<and>
      conn_client_id (world_conn v) = conn_client_id (world_conn u)" for packet u
  proof -
    have "\<exists>err. fst (encode_packet packet env u) = Finished (Inl err)"
      by (auto simp: encode_packet_def Codec_encode_def assms(5) Let_def case_prod_unfold split: sum.split)
    then obtain err v where "encode_packet packet env u = (Finished (Inl err), v)"
      by (cases "encode_packet packet env u") auto
    then have "\<exists>err v. send_packet packet env u = (Failed err, v)"
      by (cases err) (simp_all add: send_packet_def act)
    then obtain err v where r: "send_packet packet env u = (Failed err, v)" by blast
    with steady_send [of packet] show ?thesis unfolding steady_def by (metis snd_conv seat_client)
  qed
  let ?login = "\<lambda>v. conn_client_id (world_conn v) = Some (connect_client_id connect) \<and> connection_count v = connection_count w"
  have step: "?login u \<Longrightarrow> ends ?login (andthen (send_packet packet) f env u)"
    for packet u and f :: "unit \<Rightarrow> ('r, 'w, unit) action"
    using fails [of packet u] by (auto simp: ends_def act)
  have accept: "ends ?login (accept_connect connect properties None env w)" for properties
    unfolding accept_connect_def Let_def
    by (rule ends_steps, unfold prod.case, (rule ends_steps)+, rule step)
      (simp add: login_connection_def connection_count_def take_over_def Let_def)
  have auth: "ends ?login (andthen (authenticate connect) (accept_connect connect properties) env w)" for properties
    using accept by (simp add: authenticate_def assms(3) act)
  have "ends ?login (handle_connect connect env w)"
    unfolding handle_connect_def Let_def
    by (rule ends_steps, unfold prod.case) (simp add: assms(1,2,4) auth)
  then have "?login w1" by (simp add: ends_def assms(6))
  then show ?thesis
    by (simp add: close_connection_def act connection_count_def call_plugins_def
        dec_connection_count_def dec_socket_connections_def)
qed

end
