(* ===== verification/Client_Seats.thy ===== *)
theory Client_Seats
  imports Client_Counts
begin

text \<open>
  What a turn of a connection does to its name, to the table of connections and to the channels: nothing, but for
  a CONNECT that is accepted and for a takeover.
\<close>

type_synonym seat = "string option \<times> nat \<times> (string \<times> nat) list \<times> (nat \<times> Control) list"

fun logged_seat :: "string \<Rightarrow> seat \<Rightarrow> seat" where
  "logged_seat c (client_id, n, connections, controls) = (Some c, n, AList.update c n connections,
     controls @ (case map_of connections c of Some sender \<Rightarrow> [(sender, TakenOver)] | None \<Rightarrow> []))"

definition seated :: "seat \<Rightarrow> seat \<Rightarrow> bool" where
  "seated s s' \<longleftrightarrow> s' = s \<or> fst s = None \<and> (\<exists>c. s' = logged_seat c s)"

text \<open>Actions that leave the seat alone, but may change the count.\<close>

definition still :: "('r, 'w, 'a) action \<Rightarrow> bool" where
  "still m \<longleftrightarrow> (\<forall>env w. seat (snd (m env w)) = seat w)"

lemma still_steady: "steady m \<Longrightarrow> still m"
  by (simp add: still_def steady_def)

lemma still_andthen:
  assumes "still m" "\<And>x. still (f x)"
  shows "still (andthen m f)"
  unfolding still_def
proof (intro allI)
  fix env w
  show "seat (snd (andthen m f env w)) = seat w"
    using assms unfolding still_def by (cases "m env w"; cases "fst (m env w)") (auto simp: act, (metis snd_conv)+)
qed

lemma still_metrics: "still (update_metrics f)"
  by (simp add: still_def act seat_def)

lemma ends_still: "still m \<Longrightarrow> seat v = s \<Longrightarrow> ends (\<lambda>u. seat u = s) (m env v)"
  by (simp add: ends_def still_def)

lemma steady_resend [steady_intro]: "steady (resend_inflight publish)"
  unfolding resend_inflight_def by (intro steady_intro) simp_all

lemma steady_proxy [steady_intro]: "steady (proxy_subscribe client_id s)"
  unfolding proxy_subscribe_def by (auto intro!: steady_intro split: option.split)

lemma accept_seat:
  fixes w :: "('r, 'w) World"
  shows "ends (\<lambda>u. seat u = logged_seat (connect_client_id connect) (seat w)) (accept_connect connect properties uid env w)"
  unfolding accept_connect_def Let_def
  by (rule ends_steps, unfold prod.case, (rule ends_steps)+, rule ends_still,
      rule still_andthen [OF still_steady [OF steady_send]], rule still_andthen [OF still_metrics], rule still_steady)
    (auto intro!: steady_intro simp: seat_def login_connection_def take_over_def Let_def)

lemma connect_seat:
  fixes w :: "('r, 'w) World"
  shows "seated (seat w) (seat (snd (handle_connect connect env w)))"
proof (cases "conn_client_id (world_conn w)")
  case None
  have steady: "ends (\<lambda>u. seated (seat w) (seat u)) (m env w)" if "steady m" for m :: "('r, 'w, unit) action"
    using that by (simp add: ends_def steady_def seated_def)
  have accept: "ends (\<lambda>u. seated (seat w) (seat u)) (andthen (authenticate c) (accept_connect c p) env w)" for c p
  proof -
    obtain r v where r: "authenticate c env w = (r, v)" by force
    have "v = w" using r by (auto simp: authenticate_def act split: option.splits sum.splits)
    then show ?thesis
      using r accept_seat [where connect = c and properties = p and env = env and w = w] None
      by (cases r) (auto simp: ends_def act seated_def seat_def)
  qed
  have "ends (\<lambda>u. seated (seat w) (seat u)) (handle_connect connect env w)"
    unfolding handle_connect_def Let_def
    by (rule ends_steps, unfold prod.case) (auto simp: None intro!: accept steady steady_intro split: option.split)
  then show ?thesis by (simp add: ends_def)
qed (simp add: handle_connect_def act seated_def)

lemma seated_steady: "steady m \<Longrightarrow> seated (seat w) (seat (snd (m env w)))"
  by (simp add: steady_def seated_def)

lemma packet_seat: "seated (seat w) (seat (snd (handle_packet packet env w)))"
proof (cases "\<exists>connect. packet = Packet.Connect connect")
  case True
  then show ?thesis by (auto simp: handle_packet_def connect_seat)
next
  case False
  then show ?thesis by (intro seated_steady steady_handle_packet) auto
qed

lemma seat_or_close:
  assumes "\<And>e. steady (h e)"
  shows "seat (snd (or_close m h env w)) = seat (snd (m env w))"
proof -
  have "steady (andthen (h e) (\<lambda>_. finish False))" for e by (intro steady_intro assms)
  then show ?thesis by (auto simp: or_close_def steady_def split: prod.split outcome.split)
qed

lemma receive_seat:
  fixes w :: "('r, 'w) World"
  shows "seated (seat w) (seat (snd (receive_packet env w)))"
proof -
  obtain res v where d: "decode_packet env w = (Finished res, v)"
    by (simp add: decode_packet_def case_prod_unfold Let_def)
  then have v: "seat v = seat w" using steady_decode unfolding steady_def by (metis snd_conv)
  define u where "u = (\<lambda>m. v\<lparr>world_state := (world_state v)\<lparr>state_service_metrics := m\<rparr>,
      world_conn := (world_conn v)\<lparr>conn_last_active := env_instant env\<rparr>\<rparr>)"
  have "seat (u m) = seat w" for m unfolding v [symmetric] by (simp add: u_def seat_def)
  then have handle: "seated (seat w) (seat (snd (or_close (handle_packet packet) close_on env (u m))))" for packet m
    using packet_seat [of "u m" packet env] by (simp add: seat_or_close steady_close_on)
  have "seat (snd ((andthen (attempt (send_disconnect reason None)) (\<lambda>_. finish False) :: ('r, 'w, bool) action) env v)) = seat v" for reason
  proof -
    have "steady (andthen (attempt (send_disconnect reason None)) (\<lambda>_. finish False) :: ('r, 'w, bool) action)"
      by (intro steady_intro)
    then show ?thesis by (simp add: steady_def)
  qed
  then have refuse: "seated (seat w) (seat (snd ((andthen (attempt (send_disconnect reason None)) (\<lambda>_. finish False) ::
      ('r, 'w, bool) action) env v)))" for reason
    by (simp add: v seated_def)
  have "seated (seat w) (seat v)" by (simp add: v seated_def)
  show ?thesis
  proof (cases "\<exists>packet n. res = Inr (Some (packet, n))")
    case True
    then show ?thesis using handle by (auto simp: receive_packet_def andthen_app d act_simps handler_simps u_def)
  next
    case False
    then show ?thesis
      using refuse \<open>seated (seat w) (seat v)\<close>
      by (auto simp: receive_packet_def andthen_app d handler_simps split: sum.splits option.splits DecodeError.splits)
  qed
qed

text \<open>A turn of the loop.\<close>

lemma turn_seat:
  assumes "ev \<noteq> Receive TakenOver"
  shows "seated (seat w) (seat (snd (loop_turn ev env w)))"
proof (cases ev)
  case Tick
  show ?thesis unfolding Tick loop_turn_def event.case tick_def
    by (rule seated_steady) (auto intro!: steady_intro split: prod.split)
next
  case Decode
  then show ?thesis by (simp add: loop_turn_def receive_seat)
next
  case (Receive control)
  then show ?thesis using assms by (cases control) simp
next
  case Notified
  show ?thesis unfolding Notified loop_turn_def event.case take_permit_def
    by (rule seated_steady) (auto intro!: steady_intro split: option.split)
qed

lemma takeover_seat:
  fixes w :: "('r, 'w) World"
  assumes "loop_turn (Receive TakenOver) env w = (Finished go, w')"
  shows "\<not> go \<and> seat w' = (None, snd (seat w))"
proof -
  define u where "u = w\<lparr>world_conn := (world_conn w)\<lparr>conn_client_id := None\<rparr>,
    world_state := (world_state w)\<lparr>state_service_metrics := dec_connection_count 1 (state_service_metrics (world_state w))\<rparr>\<rparr>"
  let ?rest = "andthen (attempt (send_disconnect DisconnectReasonCode.SessionTakenOver None)) (\<lambda>_. finish False) :: ('r, 'w, bool) action"
  have e: "?rest env u = (Finished go, w')"
    using assms by (simp add: loop_turn_def receive_control_def or_close_def handle_control_def act u_def)
  have "steady ?rest" by (intro steady_intro)
  then have "seat w' = seat u" using e unfolding steady_def by (metis snd_conv)
  moreover have "\<not> go" using e by (auto simp: act attempt_def split: prod.splits outcome.splits)
  ultimately show ?thesis by (simp add: u_def seat_def)
qed

end
