(* ===== verification/Broker_Samples.thy ===== *)
theory Broker_Samples
  imports Metrics_Theorems Broker Client_Seats
begin

text \<open>
  A client that connects at level 4, from its bytes on: the samples of the theorems on the running server.
\<close>

definition hello :: Connect where
  "hello = \<lparr>connect_level = V4, connect_keep_alive = 0, connect_clean_start = True, connect_client_id = ''c1'',
     connect_last_will = None, connect_login = None, connect_properties = ConnectProperties_default\<rparr>"

lemma hello_simps [simp]:
  "connect_level hello = V4" "connect_clean_start hello" "connect_client_id hello = ''c1''" "connect_last_will hello = None"
  "connect_login hello = None"
  by (simp_all add: hello_def)

text \<open>The bytes come in one piece, and what is written is kept.\<close>

definition wire_env :: "(bytes list, bytes) Env" where
  "wire_env = \<lparr>env_read = read_chunks, env_write_all = append_all, env_now = 0, env_instant = 0, env_uuid = ''0'',
     env_pick = (\<lambda>_ _ k. k - 1)\<rparr>"

definition hello_wire :: bytes where
  "hello_wire = Packet_wire V4 (Packet.Connect hello)"

lemma hello_sendable: "sendable n usize_max V4 (Packet.Connect hello)" if "1000 \<le> n"
  using that by (simp add: hello_def sendable_def Packet_ok_def Packet_exact_def Packet_limit_def Packet_body_def Connect_ok_def
      Connect_exact_def Connect_body_def str_ok_def valid_str_def as_bytes_def byte_of_char_def usize_max_def)

lemma connack_sendable:
  "sendable n usize_max V4 (Packet.ConnAck \<lparr>connack_session_present = b, connack_reason_code = r, connack_properties = p\<rparr>)"
  if "1000 \<le> n"
  using that by (simp add: sendable_def Packet_ok_def Packet_exact_def Packet_limit_def Packet_body_def ConnAck_ok_def
      ConnAck_exact_def ConnAck_body_def usize_max_def)

lemma hello_decode:
  assumes "codec_decoder_state c = Flag" "codec_read_buf c = []" "codec_input_max_size c = usize_max"
  shows "\<exists>chunks c'. Codec_decode read_chunks [hello_wire] c = (Inr (Some (Packet.Connect hello, length (Packet_body V4 (Packet.Connect hello)))), chunks, c') \<and>
    codec_level c' = V4 \<and> codec_write_buf c' = codec_write_buf c"
proof -
  obtain result chunks c' where d: "Codec_decode read_chunks [hello_wire] c = (result, chunks, c')"
    using prod_cases3 by blast
  have "hello_wire \<noteq> []" by (simp add: hello_wire_def Packet_wire_def)
  moreover have "next_packet (codec_level c) usize_max hello_wire =
      Inr (Some (Packet.Connect hello, length (Packet_body V4 (Packet.Connect hello)), []))"
    using next_packet_wire [of 1000 usize_max "codec_level c" "Packet.Connect hello" "[]"] hello_sendable [of 1000]
    by (simp add: level_after_def hello_wire_def Packet_norm_def Connect_norm_def) (simp add: hello_def)
  ultimately show ?thesis
    using Codec_decode_chunks [OF d] d assms by (auto simp: yields_def next_of_def level_after_def hello_def)
qed

lemma send_connack:
  assumes "codec_level (conn_codec (world_conn w)) = V4" "codec_write_buf (conn_codec (world_conn w)) = []"
    and "1000 \<le> codec_output_max_size (conn_codec (world_conn w))"
  shows "\<exists>v. send_packet (Packet.ConnAck \<lparr>connack_session_present = b, connack_reason_code = r, connack_properties = p\<rparr>) wire_env w
      = (Finished (), v) \<and> sends w v"
proof -
  let ?p = "Packet.ConnAck \<lparr>connack_session_present = b, connack_reason_code = r, connack_properties = p\<rparr>"
  have "sendable (codec_output_max_size (conn_codec (world_conn w))) usize_max (level_after (codec_level (conn_codec (world_conn w))) ?p) ?p"
    using assms(1,3) connack_sendable by (simp add: level_after_def)
  from Codec_encode_wire [OF this assms(2), of append_all "conn_writer (world_conn w)"]
  have "fst (Codec_encode (env_write_all wire_env) ?p (conn_writer (world_conn w)) (conn_codec (world_conn w))) =
      Inr (length (Packet_wire V4 ?p))"
    using assms(1) by (simp add: level_after_def wire_env_def append_all_def Let_def)
  then have "fst (send_packet ?p wire_env w) = Finished ()"
    by (simp add: send_packet_def encode_packet_def act case_prod_unfold Let_def)
  then show ?thesis using send_packet_sends [of ?p wire_env w] by (auto simp: prod_eq_iff)
qed

text \<open>A new connection logs in.\<close>

lemma hello_accepted:
  assumes "conn_client_id (world_conn w) = None" "state_config (world_state w) = ServiceConfig_default"
    and "codec_level (conn_codec (world_conn w)) = V4" "codec_write_buf (conn_codec (world_conn w)) = []"
  shows "\<exists>w'. handle_connect hello wire_env w = (Finished (), w') \<and> seat w' = logged_seat ''c1'' (seat w) \<and>
    state_config (world_state w') = ServiceConfig_default"
proof -
  have run: "handle_connect hello wire_env w = accept_connect hello (connect_ack_properties ServiceConfig_default hello) None wire_env w"
    using assms(1,2) by (simp add: handle_connect_def act authenticate_def hello_def Let_def)
  have hello_max: "connprop_max_packet_size (connect_properties hello) = None"
    by (simp add: hello_def ConnectProperties_default_def)
  have no_subscriptions: "config_subscriptions ServiceConfig_default = []" by (simp add: ServiceConfig_default_def)
  have create: "fst (Storage_create_session c True will st) = False" for c will st
    by (simp add: Storage_create_session_def Let_def)
  define state where "state = take_over ''c1'' (conn_control_sender (world_conn w)) (world_state w)"
  define u where "u = w\<lparr>world_state := state\<lparr>state_storage := snd (Storage_create_session ''c1'' True None (state_storage state))\<rparr>,
    world_conn := login_connection ServiceConfig_default hello None
      (fst (connect_session_expiry ServiceConfig_default hello)) (world_conn w)\<rparr>"
  have "\<exists>v. send_packet (Packet.ConnAck \<lparr>connack_session_present = False, connack_reason_code = ConnectReasonCode.Success,
      connack_properties = connect_ack_properties ServiceConfig_default hello\<rparr>) wire_env u = (Finished (), v) \<and> sends u v"
    using assms(3,4) by (intro send_connack) (simp_all add: u_def login_connection_def Codec_set_input_max_size_def
        Codec_set_output_max_size_def u32_max_def hello_max Let_def)
  then obtain v where v: "send_packet (Packet.ConnAck \<lparr>connack_session_present = False, connack_reason_code = ConnectReasonCode.Success,
      connack_properties = connect_ack_properties ServiceConfig_default hello\<rparr>) wire_env u = (Finished (), v)"
    and "sends u v" by blast
  then have config: "state_config (world_state v) = ServiceConfig_default"
    using assms(2) by (auto simp: sends_def u_def state_def take_over_def)
  have "\<exists>w'. accept_connect hello (connect_ack_properties ServiceConfig_default hello) None wire_env w = (Finished (), w') \<and>
      state_config (world_state w') = ServiceConfig_default"
    using config v [unfolded u_def state_def]
    by (simp add: accept_connect_def act assms(2) with_storage_def case_prod_unfold create no_subscriptions call_plugins_def
        Let_def)
  moreover have "seat (snd (accept_connect hello (connect_ack_properties ServiceConfig_default hello) None wire_env w)) = logged_seat ''c1'' (seat w)"
    using accept_seat [of hello w] by (simp add: ends_def)
  ultimately show ?thesis by (auto simp: run)
qed

lemma hello_turn:
  assumes "conn_client_id (world_conn w) = None" "state_config (world_state w) = ServiceConfig_default"
    and "conn_codec (world_conn w) = Codec_new" "conn_reader (world_conn w) = [hello_wire]"
  shows "\<exists>w'. loop_turn Decode wire_env w = (Finished True, w') \<and> seat w' = logged_seat ''c1'' (seat w) \<and>
    state_config (world_state w') = ServiceConfig_default"
proof -
  obtain n chunks c' where d: "Codec_decode read_chunks [hello_wire] Codec_new = (Inr (Some (Packet.Connect hello, n)), chunks, c')"
      "codec_level c' = V4" "codec_write_buf c' = []"
    using hello_decode [of Codec_new] by (auto simp: Codec_new_def)
  define u where "u = w\<lparr>world_state := (world_state w)\<lparr>state_service_metrics := inc_msgs_received 1
      (inc_bytes_received n (state_service_metrics (world_state w)))\<rparr>,
    world_conn := (world_conn w)\<lparr>conn_reader := chunks, conn_codec := c', conn_last_active := 0\<rparr>\<rparr>"
  obtain w' where w': "handle_connect hello wire_env u = (Finished (), w')" "seat w' = logged_seat ''c1'' (seat u)"
      "state_config (world_state w') = ServiceConfig_default"
    using hello_accepted [of u] assms d by (auto simp: u_def)
  have "seat u = seat w" by (simp add: u_def seat_def)
  moreover have "loop_turn Decode wire_env w = or_close (handle_connect hello) close_on wire_env u"
    using d assms(3,4) by (simp add: loop_turn_def receive_packet_def decode_packet_def act u_def wire_env_def handle_packet_def)
  ultimately show ?thesis using w' by (simp add: or_close_def)
qed

subsection \<open>A takeover\<close>

text \<open>Two connections log in with the same client id.\<close>

definition sample_start :: "(bytes list, bytes, real) Broker" where
  "sample_start = Broker_new (real_ops (\<lambda>_. ''0'')) 0 (ServiceState_new ServiceConfig_default [] [])"

definition sample_accept :: "(bytes list, bytes) broker_event" where
  "sample_accept = Accept (tcp_remote_addr ''10.0.0.1:4242'') [hello_wire] [] 0"

definition sample_step :: "(bytes list, bytes) broker_event \<Rightarrow> (bytes list, bytes, real) Broker \<Rightarrow> (bytes list, bytes, real) Broker" where
  "sample_step ev b = snd (broker_step (real_ops (\<lambda>_. ''0'')) ev b)"

lemma sample_accepted_at:
  "broker_step (real_ops (\<lambda>_. ''0'')) sample_accept b = (Finished (), sample_step sample_accept b)"
  "broker_tasks (sample_step sample_accept b) = broker_tasks b @ [(broker_channels b,
    Connection_new (tcp_remote_addr ''10.0.0.1:4242'') (broker_channels b) 0 [hello_wire] [])]"
  "broker_channels (sample_step sample_accept b) = broker_channels b + 1"
  "state_config (broker_state (sample_step sample_accept b)) = state_config (broker_state b)"
  "state_connections (broker_state (sample_step sample_accept b)) = state_connections (broker_state b)"
  "state_controls (broker_state (sample_step sample_accept b)) = state_controls (broker_state b)"
  by (simp_all add: broker_step_def sample_accept_def sample_step_def spawn_connection_def client_loop_def Let_def)

text \<open>The first turn of a connection.\<close>

lemma sample_turn_at:
  assumes "map_of (broker_tasks b) n = Some (Connection_new addr n 0 [hello_wire] [])"
    and "state_config (broker_state b) = ServiceConfig_default"
  shows "\<exists>conn. broker_step (real_ops (\<lambda>_. ''0'')) (Turn n wire_env Decode) b = (Finished (), sample_step (Turn n wire_env Decode) b) \<and>
    \<not> races (Turn n wire_env Decode) b \<and>
    broker_tasks (sample_step (Turn n wire_env Decode) b) = AList.update n conn (broker_tasks b) \<and>
    conn_client_id conn = Some ''c1'' \<and> broker_channels (sample_step (Turn n wire_env Decode) b) = broker_channels b \<and>
    state_config (broker_state (sample_step (Turn n wire_env Decode) b)) = ServiceConfig_default \<and>
    state_connections (broker_state (sample_step (Turn n wire_env Decode) b)) =
      AList.update ''c1'' n (state_connections (broker_state b)) \<and>
    state_controls (broker_state (sample_step (Turn n wire_env Decode) b)) = state_controls (broker_state b) @
      (case map_of (state_connections (broker_state b)) ''c1'' of Some m \<Rightarrow> [(m, TakenOver)] | None \<Rightarrow> [])"
proof -
  let ?w = "task_world n Decode (Connection_new addr n 0 [hello_wire] []) b"
  obtain w' where "loop_turn Decode wire_env ?w = (Finished True, w')" "seat w' = logged_seat ''c1'' (seat ?w)"
      "state_config (world_state w') = ServiceConfig_default"
    using hello_turn [of ?w] assms(2) by (auto simp: task_world_def take_control_def Connection_new_def)
  then show ?thesis
    using assms(1) by (auto simp: sample_step_def broker_step_def run_task_def races_def seat_def task_world_def take_control_def
        Connection_new_def)
qed

definition sample_1 :: "(bytes list, bytes, real) Broker" where
  "sample_1 = sample_step sample_accept sample_start"

definition sample_2 :: "(bytes list, bytes, real) Broker" where
  "sample_2 = sample_step (Turn 0 wire_env Decode) sample_1"

definition sample_3 :: "(bytes list, bytes, real) Broker" where
  "sample_3 = sample_step sample_accept sample_2"

definition sample_4 :: "(bytes list, bytes, real) Broker" where
  "sample_4 = sample_step (Turn 1 wire_env Decode) sample_3"

definition sample_steps :: "((bytes list, bytes) broker_event \<times> (bytes list, bytes, real) Broker) list" where
  "sample_steps = [(sample_accept, sample_start), (Turn 0 wire_env Decode, sample_1), (sample_accept, sample_2),
     (Turn 1 wire_env Decode, sample_3)]"

lemma sample_run:
  "broker_run (real_ops (\<lambda>_. ''0'')) sample_start sample_steps sample_4"
  "\<forall>(ev, b) \<in> set sample_steps. \<not> races ev b"
  "\<exists>conn. map_of (broker_tasks sample_4) 0 = Some conn \<and> conn_client_id conn = Some ''c1''"
  "map_of (state_connections (broker_state sample_4)) ''c1'' = Some 1"
  "state_controls (broker_state sample_4) = [(0, TakenOver)]"
proof -
  let ?conn = "\<lambda>n. Connection_new (tcp_remote_addr ''10.0.0.1:4242'') n 0 [hello_wire] [] :: (bytes list, bytes) Connection"
  have s0: "broker_tasks sample_start = []" "broker_channels sample_start = 0"
    "state_connections (broker_state sample_start) = []" "state_controls (broker_state sample_start) = []"
    "state_config (broker_state sample_start) = ServiceConfig_default"
    by (simp_all add: sample_start_def Broker_new_def ServiceState_new_def)
  note s1 = sample_accepted_at [of sample_start, folded sample_1_def, unfolded s0]
  from s1 obtain conn where s2: "broker_step (real_ops (\<lambda>_. ''0'')) (Turn 0 wire_env Decode) sample_1 = (Finished (), sample_2)"
    "\<not> races (Turn 0 wire_env Decode) sample_1" "broker_tasks sample_2 = [(0, conn)]" "conn_client_id conn = Some ''c1''"
    "broker_channels sample_2 = 1" "state_config (broker_state sample_2) = ServiceConfig_default"
    "state_connections (broker_state sample_2) = [(''c1'', 0)]" "state_controls (broker_state sample_2) = []"
    using sample_turn_at [of sample_1 0] by (auto simp: sample_2_def)
  note s3 = sample_accepted_at [of sample_2, folded sample_3_def, unfolded s2]
  from s3 obtain conn' where s4: "broker_step (real_ops (\<lambda>_. ''0'')) (Turn 1 wire_env Decode) sample_3 = (Finished (), sample_4)"
    "\<not> races (Turn 1 wire_env Decode) sample_3" "broker_tasks sample_4 = [(0, conn), (1, conn')]"
    "state_connections (broker_state sample_4) = [(''c1'', 1)]" "state_controls (broker_state sample_4) = [(0, TakenOver)]"
    using sample_turn_at [of sample_3 1] by (auto simp: sample_4_def)
  have ready: "broker_ready sample_accept b" for b :: "(bytes list, bytes, real) Broker" by (simp add: broker_ready_def sample_accept_def)
  show "broker_run (real_ops (\<lambda>_. ''0'')) sample_start sample_steps sample_4"
    unfolding sample_steps_def
    using broker_run.step [OF broker_run.step [OF broker_run.step [OF broker_run.step [OF broker_run.start ready s1(1)] _ s2(1)] ready s3(1)] _ s4(1)]
      s1 s3 by (simp add: broker_ready_def)
  show "\<forall>(ev, b) \<in> set sample_steps. \<not> races ev b"
    using s2(2) s4(2) by (simp add: sample_steps_def) (simp add: races_def sample_accept_def)
  show "\<exists>conn. map_of (broker_tasks sample_4) 0 = Some conn \<and> conn_client_id conn = Some ''c1''"
    "map_of (state_connections (broker_state sample_4)) ''c1'' = Some 1"
    "state_controls (broker_state sample_4) = [(0, TakenOver)]"
    using s4 s2(4) by simp_all
qed

text \<open>The first connection takes the control out of its channel and ends.\<close>

lemma sample_taken_over:
  "broker_ready (Turn 0 wire_env (Receive TakenOver)) sample_4" "\<not> races (Turn 0 wire_env (Receive TakenOver)) sample_4"
proof -
  obtain conn where conn: "map_of (broker_tasks sample_4) 0 = Some conn" using sample_run(3) by blast
  then show "broker_ready (Turn 0 wire_env (Receive TakenOver)) sample_4"
    using sample_run(5) by (force simp: broker_ready_def dest: map_of_SomeD)
  have "conn_client_id (world_conn w) = None"
    if "loop_turn (Receive TakenOver) wire_env (task_world 0 (Receive TakenOver) conn sample_4) = (Finished False, w)" for w
    using takeover_seat [OF that] by (simp add: seat_def)
  then show "\<not> races (Turn 0 wire_env (Receive TakenOver)) sample_4"
    by (auto simp: races_def conn split: prod.splits outcome.splits bool.splits)
qed

end
