(* ===== verification/Broker_Theorems.thy ===== *)
theory Broker_Theorems
  imports Broker_Samples
begin

text \<open>
  The invariant of the running server: it holds in every run in which no connection ends while another one has
  its client id, and then no task panics. Takeovers are allowed.
\<close>

subsection \<open>The invariant\<close>

text \<open>What the tasks rely on in the shared state.\<close>

definition state_keeps :: "string set \<Rightarrow> ServiceState \<Rightarrow> bool" where
  "state_keeps D state \<longleftrightarrow> Storage_inv (state_storage state) \<and> all_connected D (state_storage state) \<and>
     (\<forall>topic. valid_topic topic \<longrightarrow> valid_topic (ServiceState_rewrite topic state)) \<and> auth_ok (state_plugins state)"

definition aliases_ok :: "('r, 'w) Connection \<Rightarrow> bool" where
  "aliases_ok conn \<longleftrightarrow> (\<forall>i topic. conn_topic_alias conn i = Some topic \<longrightarrow> valid_topic topic)"

lemma conn_keeps_state:
  "conn_keeps D w \<longleftrightarrow> state_keeps (D \<union> set_option (conn_client_id (world_conn w))) (world_state w) \<and> aliases_ok (world_conn w)"
  by (auto simp: conn_keeps_def state_keeps_def aliases_ok_def all_connected_def)

lemma state_keeps_mono: "state_keeps D state \<Longrightarrow> D' \<subseteq> D \<Longrightarrow> state_keeps D' state"
  by (auto simp: state_keeps_def all_connected_def)

lemma state_keeps_storage:
  assumes "state_keeps D state" "Storage_inv st" "all_connected D' st"
  shows "state_keeps D' (state\<lparr>state_storage := st\<rparr>)"
  using assms by (simp add: state_keeps_def ServiceState_rewrite_def)

definition task_clients :: "(nat \<times> ('r, 'w) Connection) list \<Rightarrow> string set" where
  "task_clients tasks = {c. \<exists>(n, conn) \<in> set tasks. conn_client_id conn = Some c}"

definition broker_ok :: "('r, 'w, 'f) Broker \<Rightarrow> bool" where
  "broker_ok b \<longleftrightarrow> state_keeps (task_clients (broker_tasks b)) (broker_state b) \<and>
     distinct (map fst (broker_tasks b)) \<and>
     (\<forall>(n, conn) \<in> set (broker_tasks b). n < broker_channels b \<and> aliases_ok conn)"

lemma broker_ok_task:
  assumes "broker_ok b" "map_of (broker_tasks b) n = Some conn"
  shows "conn_keeps (task_clients (broker_tasks b)) (task_world n ev conn b)"
proof -
  let ?D = "task_clients (broker_tasks b)"
  have mem: "(n, conn) \<in> set (broker_tasks b)" by (rule map_of_SomeD [OF assms(2)])
  then have "set_option (conn_client_id conn) \<subseteq> ?D" by (auto simp: task_clients_def)
  then have "?D \<union> set_option (conn_client_id conn) = ?D" by blast
  moreover have "state_keeps D (take_control n ev s) \<longleftrightarrow> state_keeps D s" for D s
    by (simp add: take_control_def state_keeps_def ServiceState_rewrite_def split: event.split)
  ultimately show ?thesis
    using assms(1) mem by (auto simp: broker_ok_def conn_keeps_state task_world_def)
qed

subsection \<open>Steps\<close>

text \<open>What follows the loop disconnects the client of this connection only.\<close>

lemma close_connection_keeps:
  assumes "conn_keeps D w" "D' \<subseteq> D" "set_option (conn_client_id (world_conn w)) \<inter> D' = {}"
    and "close_connection env w = (res, w')"
  shows "res = Finished () \<and> state_keeps D' (world_state w')"
proof (cases "conn_client_id (world_conn w)")
  case None
  then show ?thesis
    using assms by (auto simp: close_connection_def act conn_keeps_def state_keeps_def ServiceState_rewrite_def all_connected_def)
next
  case (Some c)
  let ?st = "Storage_disconnect_session (env_instant env) c (conn_session_expiry_interval (world_conn w)) (state_storage (world_state w))"
  have st: "Storage_inv ?st" using assms(1) Some by (simp add: conn_keeps_def disconnect_inv)
  have "c \<notin> D'" using assms(3) Some by auto
  then have "connected ?st d" if "d \<in> D'" for d
    using that assms(1,2) by (auto simp: disconnect_session_eq connected_def update_conv' conn_keeps_def all_connected_def
        split: option.splits)
  with st show ?thesis
    using assms Some by (auto simp: close_connection_def act conn_keeps_def state_keeps_def ServiceState_rewrite_def
        call_plugins_def all_connected_def)
qed

text \<open>The loop handles every error.\<close>

definition unfailing :: "('r, 'w, 'a) action \<Rightarrow> bool" where
  "unfailing m \<longleftrightarrow> (\<forall>env w e. fst (m env w) \<noteq> Failed e)"

lemma unfailing_basic: "unfailing (finish x)" "unfailing (update_metrics f)" "unfailing (update_conn g)"
    "unfailing (update_storage h)" "unfailing decode_packet" "unfailing (attempt m)"
  by (auto simp: unfailing_def act decode_packet_def attempt_def case_prod_unfold Let_def split: outcome.split prod.split)

lemma unfailing_andthen:
  assumes "unfailing m" "\<And>x. unfailing (f x)"
  shows "unfailing (andthen m f)"
  unfolding unfailing_def
proof (intro allI)
  fix env w e
  show "fst (andthen m f env w) \<noteq> Failed e"
    using assms unfolding unfailing_def by (cases "m env w"; cases "fst (m env w)") (auto simp: act, (metis fst_conv)+)
qed

lemma unfailing_look: "(\<And>x. unfailing (f x)) \<Longrightarrow> unfailing (andthen (look g) f)"
  by (simp add: unfailing_def act)

lemma unfailing_or_close:
  assumes "\<And>e. unfailing (h e)"
  shows "unfailing (or_close m h)"
proof -
  have "unfailing (andthen (h e) (\<lambda>_. finish False))" for e by (intro unfailing_andthen assms unfailing_basic)
  then show ?thesis unfolding unfailing_def or_close_def by (auto split: prod.split outcome.split)
qed

lemmas unfailing_intros = unfailing_basic unfailing_andthen unfailing_look unfailing_or_close

lemma loop_turn_unfailing:
  fixes w :: "('r, 'w) World"
  shows "fst (loop_turn ev env w) \<noteq> Failed e"
proof -
  have "unfailing (loop_turn ev :: ('r, 'w, bool) action)"
    unfolding loop_turn_def tick_def receive_packet_def receive_control_def take_permit_def close_on_def
    by (cases ev) (auto intro!: unfailing_intros split: sum.split option.split DecodeError.split Error.split)
  then show ?thesis by (simp add: unfailing_def)
qed

lemma task_clients_delete: "task_clients (AList.delete n tasks) =
    {c. \<exists>(m, conn) \<in> set tasks. m \<noteq> n \<and> conn_client_id conn = Some c}"
  by (auto simp: task_clients_def AList.delete_eq)

lemma in_update: "(m, y) \<in> set (AList.update k x al) \<Longrightarrow> m = k \<and> y = x \<or> (m, y) \<in> set al"
  by (induction al) (auto split: if_splits)

lemma in_delete: "x \<in> set (AList.delete k al) \<Longrightarrow> x \<in> set al"
  by (simp add: AList.delete_eq)

lemma run_task_cases:
  assumes "broker_ok b" "map_of (broker_tasks b) n = Some conn"
  obtains (goes_on) w where "loop_turn ev env (task_world n ev conn b) = (Finished True, w)"
      "conn_keeps (task_clients (broker_tasks b)) w"
      "run_task n env ev conn b = (Finished (), b\<lparr>broker_tasks := AList.update n (world_conn w) (broker_tasks b),
        broker_state := world_state w\<rparr>)"
  | (ends) w w' where "loop_turn ev env (task_world n ev conn b) = (Finished False, w)"
      "conn_keeps (task_clients (broker_tasks b)) w" "close_connection env w = (Finished (), w')"
      "run_task n env ev conn b = (Finished (), b\<lparr>broker_tasks := AList.delete n (broker_tasks b),
        broker_state := world_state w'\<rparr>)"
proof -
  let ?D = "task_clients (broker_tasks b)"
  obtain r w where turn: "loop_turn ev env (task_world n ev conn b) = (r, w)" by force
  have "post (\<lambda>_. conn_keeps ?D) (conn_keeps ?D) (r, w)"
    using safeD [OF stays_ok_loop_turn broker_ok_task [OF assms], of ev env ev] by (simp add: turn)
  moreover have "r \<noteq> Failed e" for e using loop_turn_unfailing [of ev env _ e] by (metis turn fst_conv)
  ultimately obtain go where r: "r = Finished go" and w: "conn_keeps ?D w" by (cases r) auto
  obtain res' w' where close: "close_connection env w = (res', w')" by force
  have "res' = Finished ()" using close_connection_keeps [OF w _ _ close, of "{}"] by simp
  then show thesis
    using goes_on [of w] ends [of w w'] turn r w close by (cases go) (simp_all add: run_task_def act)
qed

lemma no_race:
  assumes "\<not> races (Turn n env ev) b" "map_of (broker_tasks b) n = Some conn"
    and "loop_turn ev env (task_world n ev conn b) = (Finished False, w)"
    and "conn_client_id (world_conn w) = Some c" "(m, other) \<in> set (broker_tasks b)" "m \<noteq> n"
  shows "conn_client_id other \<noteq> Some c"
  using assms by (fastforce simp: races_def list_ex_iff)

lemma run_task_ok:
  assumes "broker_ok b" "map_of (broker_tasks b) n = Some conn" "\<not> races (Turn n env ev) b"
    and "run_task n env ev conn b = (res, b')"
  shows "res = Finished () \<and> broker_ok b'"
proof -
  have tasks: "distinct (map fst (broker_tasks b))" "\<And>m other. (m, other) \<in> set (broker_tasks b) \<Longrightarrow> m < broker_channels b \<and> aliases_ok other"
    using assms(1) by (auto simp: broker_ok_def)
  show ?thesis
  proof (cases rule: run_task_cases [OF assms(1,2), of ev env, case_names goes_on ends])
    case (goes_on w)
    let ?tasks = "AList.update n (world_conn w) (broker_tasks b)"
    have "task_clients ?tasks \<subseteq> task_clients (broker_tasks b) \<union> set_option (conn_client_id (world_conn w))"
      by (auto simp: task_clients_def dest!: in_update)
    then have "state_keeps (task_clients ?tasks) (world_state w)"
      using goes_on(2) state_keeps_mono by (auto simp: conn_keeps_state)
    moreover have "n < broker_channels b" using tasks(2) map_of_SomeD [OF assms(2)] by blast
    then have "m < broker_channels b \<and> aliases_ok other" if "(m, other) \<in> set ?tasks" for m other
      using in_update [OF that] tasks(2) goes_on(2) by (auto simp: conn_keeps_state)
    ultimately show ?thesis
      using assms(4) tasks(1) goes_on(3) by (auto simp: broker_ok_def distinct_update)
  next
    case (ends w w')
    let ?tasks = "AList.delete n (broker_tasks b)"
    have "set_option (conn_client_id (world_conn w)) \<inter> task_clients ?tasks = {}"
      using no_race [OF assms(3,2) ends(1)] by (auto simp: task_clients_delete)
    moreover have "task_clients ?tasks \<subseteq> task_clients (broker_tasks b)"
      unfolding task_clients_delete by (auto simp: task_clients_def)
    ultimately have "state_keeps (task_clients ?tasks) (world_state w')"
      using close_connection_keeps [OF ends(2) _ _ ends(3)] by blast
    moreover have "distinct (map fst ?tasks)" using tasks(1) by (simp add: distinct_delete)
    ultimately show ?thesis
      using assms(4) tasks(2) ends(4) by (auto simp: broker_ok_def AList.delete_eq)
  qed
qed

lemma spawn_connection_ok: "broker_ok b \<Longrightarrow> broker_ok (spawn_connection remote_addr reader writer now b)"
  by (auto simp: spawn_connection_def client_loop_def Connection_new_def broker_ok_def state_keeps_def task_clients_def
      ServiceState_rewrite_def aliases_ok_def Let_def)

lemma update_sessions_task_ok:
  assumes "state_keeps D state" "valid_pick pick"
  shows "state_keeps D (update_sessions_task time now pick state)"
proof -
  let ?st = "Storage_update_sessions time now pick (state_storage state)"
  have inv: "Storage_inv (state_storage state)" using assms(1) by (simp add: state_keeps_def)
  have "connected ?st d" if "connected (state_storage state) d" for d
    using that storage_step_queue [OF storage_step.update [OF assms(2)] inv, of d time now]
    by (auto simp: queue_extends_def connected_def split: option.splits)
  then show ?thesis
    using assms(1) inv unfolding update_sessions_task_def
    by (auto intro!: update_sessions_inv simp: state_keeps_def all_connected_def ServiceState_rewrite_def)
qed

lemma periodic_update_ok:
  assumes "state_keeps D state" "periodic_update ops instant now pick (state, ms) = (state', ms')"
  shows "state_keeps D state'"
proof -
  have "connected (Storage_deliver now pick msgs st) d = connected st d" for msgs st d
    by (simp add: connected_keeps [OF keeps_timeouts_deliver])
  then show ?thesis
    using assms by (auto simp: periodic_update_def update_sys_topics_def Let_def state_keeps_def ServiceState_rewrite_def
        deliver_inv all_connected_def)
qed

lemma broker_step_ok:
  assumes "broker_ok b" "broker_ready ev b" "\<not> races ev b" "broker_step ops ev b = (res, b')"
  shows "res = Finished () \<and> broker_ok b'"
proof (cases ev)
  case (Accept remote_addr reader writer now)
  then show ?thesis using assms spawn_connection_ok [OF assms(1)] by (auto simp: broker_step_def)
next
  case (Turn n env ev')
  then show ?thesis
    using assms run_task_ok [OF assms(1), of n _ env ev'] by (auto simp: broker_step_def split: option.splits)
next
  case (UpdateSessions time now pick)
  then show ?thesis
    using assms by (auto simp: broker_step_def broker_ready_def broker_ok_def intro: update_sessions_task_ok)
next
  case (UpdateMetrics instant now pick)
  then show ?thesis
    using assms by (auto simp: broker_step_def broker_ok_def Let_def dest: periodic_update_ok split: prod.splits)
qed

lemma broker_run_ok:
  "broker_run ops b0 steps b \<Longrightarrow> broker_ok b0 \<Longrightarrow> \<forall>(ev, b') \<in> set steps. \<not> races ev b' \<Longrightarrow> broker_ok b"
  by (induction rule: broker_run.induct) (auto dest: broker_step_ok)

lemma broker_new_ok:
  assumes "auth_ok plugins" "\<And>topic. valid_topic topic \<Longrightarrow> valid_topic (first_rewrite rewrites topic)"
  shows "broker_ok (Broker_new ops start (ServiceState_new config plugins rewrites))"
  using assms by (simp add: broker_ok_def Broker_new_def state_keeps_def ServiceState_new_def Storage_inv_default
      all_connected_def task_clients_def ServiceState_rewrite_def)

text \<open>C3: the server never panics by itself: in every interleaving of connections, takeovers, the session timer and
  the metrics task, as long as no connection ends while another one still has its client id, no task panics and the
  process does not abort, the storage keeps its invariant, and every client that is logged in has a connected session.\<close>

theorem broker_never_panics:
  assumes "broker_run ops (Broker_new ops start (ServiceState_new config plugins rewrites)) steps b"
    and "auth_ok plugins" "\<And>topic. valid_topic topic \<Longrightarrow> valid_topic (first_rewrite rewrites topic)"
    and "\<forall>(ev, b') \<in> set (steps @ [(ev, b)]). \<not> races ev b'" "broker_ready ev b"
  shows "fst (broker_step ops ev b) = Finished () \<and> Storage_inv (state_storage (broker_state b)) \<and>
    (\<forall>(n, conn) \<in> set (broker_tasks b). \<forall>c. conn_client_id conn = Some c \<longrightarrow> connected (state_storage (broker_state b)) c)"
proof -
  have "broker_ok b"
    using broker_run_ok [OF assms(1) broker_new_ok] assms(2-4) by auto
  then show ?thesis
    using broker_step_ok [of b ev ops "fst (broker_step ops ev b)" "snd (broker_step ops ev b)"] assms(4,5)
    by (fastforce simp: broker_ok_def state_keeps_def all_connected_def task_clients_def)
qed

lemma broker_never_panics_witness:
  "fst (broker_step (real_ops (\<lambda>_. ''0'')) (Turn 0 wire_env (Receive TakenOver)) sample_4) = Finished ()"
  using broker_never_panics [OF sample_run(1) [unfolded sample_start_def], of "Turn 0 wire_env (Receive TakenOver)"]
    sample_run(2) sample_taken_over by (simp add: auth_ok_def)

subsection \<open>The table of connections\<close>

text \<open>The client ids of the tasks, the table, the controls in the channels, and a bound of the channels: the table
  has connections that are logged in and have not been told to go; the other connections that are logged in
  have been told.\<close>

definition table_ok :: "(nat \<rightharpoonup> string option) \<Rightarrow> (string \<rightharpoonup> nat) \<Rightarrow> (nat \<times> Control) set \<Rightarrow> nat \<Rightarrow> bool" where
  "table_ok ids table controls k \<longleftrightarrow>
     (\<forall>c n. table c = Some n \<longrightarrow> ids n = Some (Some c) \<and> (n, TakenOver) \<notin> controls) \<and>
     (\<forall>c n. ids n = Some (Some c) \<longrightarrow> table c = Some n \<or> (n, TakenOver) \<in> controls) \<and>
     (\<forall>n. (n, TakenOver) \<in> controls \<longrightarrow> n < k \<and> ids n \<noteq> Some None) \<and> (\<forall>n. ids n \<noteq> None \<longrightarrow> n < k)"

lemma table_okD:
  assumes "table_ok ids table controls k"
  shows "table c = Some n \<Longrightarrow> ids n = Some (Some c)" "table c = Some n \<Longrightarrow> (n, TakenOver) \<notin> controls"
    "ids n = Some (Some c) \<Longrightarrow> table c = Some n \<or> (n, TakenOver) \<in> controls"
    "(n, TakenOver) \<in> controls \<Longrightarrow> n < k" "(n, TakenOver) \<in> controls \<Longrightarrow> ids n \<noteq> Some None"
    "ids n = Some x \<Longrightarrow> n < k"
  using assms unfolding table_ok_def by blast+

lemma table_okI:
  assumes "\<And>c n. table c = Some n \<Longrightarrow> ids n = Some (Some c)" "\<And>c n. table c = Some n \<Longrightarrow> (n, TakenOver) \<notin> controls"
    "\<And>c n. ids n = Some (Some c) \<Longrightarrow> table c = Some n \<or> (n, TakenOver) \<in> controls"
    "\<And>n. (n, TakenOver) \<in> controls \<Longrightarrow> n < k" "\<And>n. (n, TakenOver) \<in> controls \<Longrightarrow> ids n \<noteq> Some None"
    "\<And>n x. ids n = Some x \<Longrightarrow> n < k"
  shows "table_ok ids table controls k"
  using assms unfolding table_ok_def by blast

lemma table_spawn:
  assumes "table_ok ids table controls k"
  shows "table_ok (ids(k \<mapsto> None)) table controls (k + 1)"
proof -
  note D = table_okD [OF assms]
  have k: "ids k = None" "(k, TakenOver) \<notin> controls" using D(4,6) [of k] by (cases "ids k"; blast)+
  show ?thesis
    by (rule table_okI) (use D k less_SucI [OF D(4)] less_SucI [OF D(6)] in \<open>auto split: if_splits\<close>)
qed

lemma table_login:
  assumes "table_ok ids table controls k" "ids n = Some None"
  shows "table_ok (ids(n \<mapsto> Some c)) (table(c \<mapsto> n))
    (controls \<union> (case table c of Some sender \<Rightarrow> {(sender, TakenOver)} | None \<Rightarrow> {})) k"
proof -
  note D = table_okD [OF assms(1)]
  have n: "(n, TakenOver) \<notin> controls" "table d \<noteq> Some n" "n < k" for d
    using assms(2) D(1) [of d n] D(5,6) [of n] by auto
  have old: "ids m = Some (Some c)" "m < k" if "table c = Some m" for m using D(1,6) that by blast+
  show ?thesis
  proof (cases "table c")
    case None
    have "(m, TakenOver) \<in> controls" if "ids m = Some (Some c)" for m using D(3) [OF that] None by auto
    then show ?thesis by (intro table_okI) (use D n None in \<open>auto split: if_splits\<close>)
  next
    case (Some m)
    have one: "table d \<noteq> Some m" if "d \<noteq> c" for d using D(1) [of d m] old(1) [OF Some] that by auto
    have told: "m' = m \<or> (m', TakenOver) \<in> controls" if "ids m' = Some (Some c)" for m'
      using D(3) [OF that] Some by auto
    have rest: "table d = Some m' \<or> m' = m \<or> (m', TakenOver) \<in> controls" if "ids m' = Some (Some d)" for m' d
      using D(3) [OF that] by blast
    show ?thesis
      by (rule table_okI) (use D(1,2,4-6) n old [OF Some] one rest Some in \<open>auto split: if_splits dest: told\<close>)
  qed
qed

lemma table_close:
  assumes "table_ok ids table controls k" "ids n = Some (Some c)" "\<And>m. m \<noteq> n \<Longrightarrow> ids m \<noteq> Some (Some c)"
  shows "table_ok (ids(n := None)) (table(c := None)) controls k"
  by (rule table_okI) (use table_okD [OF assms(1)] assms(2,3) in \<open>auto split: if_splits\<close>)

lemma table_close_anonymous:
  assumes "table_ok ids table controls k" "ids n = Some None"
  shows "table_ok (ids(n := None)) table controls k"
  by (rule table_okI) (use table_okD [OF assms(1)] assms(2) in \<open>auto split: if_splits\<close>)

lemma table_takeover:
  assumes "table_ok ids table controls k" "(n, TakenOver) \<in> controls"
    and "\<And>m. m \<noteq> n \<Longrightarrow> (m, TakenOver) \<in> controls' \<longleftrightarrow> (m, TakenOver) \<in> controls" "controls' \<subseteq> controls"
  shows "table_ok (ids(n := None)) table controls' k"
  by (rule table_okI) (use table_okD [OF assms(1)] assms(2-4) in \<open>auto split: if_splits\<close>)

definition task_ids :: "(nat \<times> ('r, 'w) Connection) list \<Rightarrow> (nat \<rightharpoonup> string option)" where
  "task_ids tasks = (\<lambda>n. map_option conn_client_id (map_of tasks n))"

lemma task_ids_simps:
  "task_ids (AList.update n conn tasks) = (task_ids tasks)(n \<mapsto> conn_client_id conn)"
  "task_ids (AList.delete n tasks) = (task_ids tasks)(n := None)"
  by (simp_all add: task_ids_def fun_eq_iff update_conv' delete_conv')

definition broker_told :: "('r, 'w, 'f) Broker \<Rightarrow> bool" where
  "broker_told b \<longleftrightarrow> table_ok (task_ids (broker_tasks b)) (map_of (state_connections (broker_state b)))
       (set (state_controls (broker_state b))) (broker_channels b) \<and>
     (\<forall>(n, conn) \<in> set (broker_tasks b). conn_control_sender conn = n)"

lemma close_table:
  assumes "close_connection env w = (res, w')"
  shows "map_of (state_connections (world_state w')) = (case conn_client_id (world_conn w) of
      Some c \<Rightarrow> (map_of (state_connections (world_state w)))(c := None) | None \<Rightarrow> map_of (state_connections (world_state w)))"
    "state_controls (world_state w') = state_controls (world_state w)"
  using assms by (auto simp: close_connection_def act call_plugins_def delete_conv split: option.splits)

lemma task_ids_Some: "map_of tasks n = Some conn \<Longrightarrow> task_ids tasks n = Some (conn_client_id conn)"
  by (simp add: task_ids_def)

text \<open>The end of a turn that goes on or ends, and the tables after it.\<close>

lemma run_task_told:
  assumes "broker_ok b" "broker_told b" "map_of (broker_tasks b) n = Some conn" "\<not> races (Turn n env ev) b"
    and "broker_ready (Turn n env ev) b" "run_task n env ev conn b = (res, b')"
  shows "broker_told b'"
proof -
  let ?s = "broker_state b"
  have table: "table_ok (task_ids (broker_tasks b)) (map_of (state_connections ?s)) (set (state_controls ?s)) (broker_channels b)"
    and senders: "\<And>m other. (m, other) \<in> set (broker_tasks b) \<Longrightarrow> conn_control_sender other = m"
    using assms(2) by (auto simp: broker_told_def)
  have id: "task_ids (broker_tasks b) n = Some (conn_client_id conn)" using assms(3) by (rule task_ids_Some)
  have n: "conn_control_sender conn = n" using senders map_of_SomeD [OF assms(3)] by blast
  have others: "task_ids (broker_tasks b) m \<noteq> Some (Some c)"
    if "loop_turn ev env (task_world n ev conn b) = (Finished False, w)" "conn_client_id (world_conn w) = Some c" "m \<noteq> n" for w c m
    using no_race [OF assms(4,3) that(1,2) _ that(3)] map_of_SomeD [of "broker_tasks b" m] by (auto simp: task_ids_def)
  show ?thesis
  proof (cases "ev = Receive TakenOver")
    case True
    have told: "(n, TakenOver) \<in> set (state_controls ?s)" using assms(5) by (simp add: broker_ready_def True)
    show ?thesis
    proof (cases rule: run_task_cases [OF assms(1,3), of ev env, case_names goes_on ends])
      case (goes_on w)
      then show ?thesis using takeover_seat by (auto simp: True)
    next
      case (ends w w')
      have "seat w = (None, n, state_connections ?s, remove1 (n, TakenOver) (state_controls ?s))"
        using takeover_seat ends(1) by (auto simp: True seat_def task_world_def take_control_def n)
      then have "state_connections (world_state w) = state_connections ?s" "conn_client_id (world_conn w) = None"
        "state_controls (world_state w) = remove1 (n, TakenOver) (state_controls ?s)" by (auto simp: seat_def)
      moreover have "table_ok ((task_ids (broker_tasks b))(n := None)) (map_of (state_connections ?s))
          (set (remove1 (n, TakenOver) (state_controls ?s))) (broker_channels b)"
        by (rule table_takeover [OF table told]) (auto simp: set_remove1_subset dest: notin_set_remove1)
      ultimately show ?thesis
        using assms(6) ends(4) close_table [OF ends(3)] senders by (auto simp: broker_told_def task_ids_simps dest!: in_delete)
    qed
  next
    case False
    let ?w0 = "task_world n ev conn b"
    let ?ids = "\<lambda>w. (task_ids (broker_tasks b))(n \<mapsto> conn_client_id (world_conn w))"
    have seat0: "seat ?w0 = (conn_client_id conn, n, state_connections ?s, state_controls ?s)"
      using False by (cases ev) (auto simp: seat_def task_world_def take_control_def n intro: Control.exhaust)
    have sits: "conn_control_sender (world_conn w) = n \<and>
        table_ok (?ids w) (map_of (state_connections (world_state w))) (set (state_controls (world_state w))) (broker_channels b)"
      if "loop_turn ev env ?w0 = (r, w)" for r w
    proof -
      have "seated (seat ?w0) (seat w)" using turn_seat [OF False, of ?w0 env] by (simp add: that)
      then consider "seat w = (conn_client_id conn, n, state_connections ?s, state_controls ?s)"
        | c where "conn_client_id conn = None"
            "seat w = logged_seat c (conn_client_id conn, n, state_connections ?s, state_controls ?s)"
        unfolding seated_def seat0 by auto
      then show ?thesis
      proof cases
        case 1
        moreover have "(task_ids (broker_tasks b))(n \<mapsto> conn_client_id conn) = task_ids (broker_tasks b)"
          using id by (rule fun_upd_idem)
        ultimately show ?thesis using table by (simp add: seat_def)
      next
        case (2 c)
        then have w: "conn_client_id (world_conn w) = Some c" "conn_control_sender (world_conn w) = n"
          "map_of (state_connections (world_state w)) = (map_of (state_connections ?s))(c \<mapsto> n)"
          "set (state_controls (world_state w)) = set (state_controls ?s) \<union>
            (case map_of (state_connections ?s) c of Some sender \<Rightarrow> {(sender, TakenOver)} | None \<Rightarrow> {})"
          by (auto simp: seat_def update_conv split: option.split)
        show ?thesis using table_login [OF table, of n c] id 2(1) by (simp add: w)
      qed
    qed
    show ?thesis
    proof (cases rule: run_task_cases [OF assms(1,3), of ev env, case_names goes_on ends])
      case (goes_on w)
      then show ?thesis
        using assms(6) sits [OF goes_on(1)] senders by (auto simp: broker_told_def task_ids_simps dest!: in_update)
    next
      case (ends w w')
      note close = close_table [OF ends(3)] and w = sits [OF ends(1)]
      have "table_ok ((?ids w)(n := None)) (map_of (state_connections (world_state w'))) (set (state_controls (world_state w'))) (broker_channels b)"
      proof (cases "conn_client_id (world_conn w)")
        case None
        then show ?thesis using table_close_anonymous [OF conjunct2 [OF w], of n] by (simp add: close)
      next
        case (Some c)
        then show ?thesis using table_close [OF conjunct2 [OF w], of n c] others [OF ends(1) Some] by (simp add: close)
      qed
      then show ?thesis
        using assms(6) ends(4) senders by (auto simp: broker_told_def task_ids_simps dest!: in_delete)
    qed
  qed
qed

lemma broker_step_told:
  assumes "broker_ok b" "broker_told b" "broker_ready ev b" "\<not> races ev b" "broker_step ops ev b = (res, b')"
  shows "broker_told b'"
proof (cases ev)
  case (Accept remote_addr reader writer now)
  have fresh: "map_of (broker_tasks b) (broker_channels b) = None"
    using assms(1) by (force simp: broker_ok_def map_of_eq_None_iff)
  have "task_ids (broker_tasks b @ [(broker_channels b, conn)]) = (task_ids (broker_tasks b))(broker_channels b \<mapsto> conn_client_id conn)" for conn
    using fresh by (auto simp: task_ids_def fun_eq_iff map_add_def split: option.split)
  then show ?thesis
    using assms(2,5) table_spawn by (auto simp: Accept broker_step_def spawn_connection_def client_loop_def Connection_new_def
        broker_told_def Let_def)
next
  case (Turn n env ev')
  then show ?thesis
    using assms run_task_told [OF assms(1,2), of n _ env ev'] by (auto simp: broker_step_def split: option.splits)
next
  case (UpdateSessions time now pick)
  then show ?thesis using assms(2,5) by (auto simp: broker_step_def broker_told_def update_sessions_task_def)
next
  case (UpdateMetrics instant now pick)
  then show ?thesis
    using assms(2,5) by (auto simp: broker_step_def broker_told_def periodic_update_def update_sys_topics_def Let_def)
qed

lemma broker_run_told:
  "broker_run ops b0 steps b \<Longrightarrow> broker_ok b0 \<Longrightarrow> broker_told b0 \<Longrightarrow> \<forall>(ev, b') \<in> set steps. \<not> races ev b' \<Longrightarrow> broker_told b"
proof (induction rule: broker_run.induct)
  case (step steps b' ev res b'')
  then show ?case using broker_step_told [of b' ev ops res b''] broker_run_ok [of ops b0 steps b'] by simp
qed

lemma broker_new_told: "broker_told (Broker_new ops start (ServiceState_new config plugins rewrites))"
  by (simp add: broker_told_def Broker_new_def ServiceState_new_def table_ok_def task_ids_def)

text \<open>C9: no client id belongs to two connections for long: in every run in which no step races, that is, no
  connection ends with a client id that another connection has, too
  (what such a step does is the subject of \<open>takeover_race\<close>), the table has for each
  client id a connection that is logged in with it, and every other connection that is logged in with it has
  \<open>SessionTakenOver\<close> in its channel.\<close>

theorem one_connection_per_client:
  assumes "broker_run ops (Broker_new ops start (ServiceState_new config plugins rewrites)) steps b"
    and "auth_ok plugins" "\<And>topic. valid_topic topic \<Longrightarrow> valid_topic (first_rewrite rewrites topic)"
    and "\<forall>(ev, b') \<in> set steps. \<not> races ev b'"
  shows "(\<forall>c n. map_of (state_connections (broker_state b)) c = Some n \<longrightarrow>
      (\<exists>conn. map_of (broker_tasks b) n = Some conn \<and> conn_client_id conn = Some c)) \<and>
    (\<forall>(n, conn) \<in> set (broker_tasks b). \<forall>c. conn_client_id conn = Some c \<longrightarrow>
      map_of (state_connections (broker_state b)) c = Some n \<or> (n, TakenOver) \<in> set (state_controls (broker_state b)))"
proof -
  have "table_ok (task_ids (broker_tasks b)) (map_of (state_connections (broker_state b)))
      (set (state_controls (broker_state b))) (broker_channels b)"
    using broker_run_told [OF assms(1) broker_new_ok [OF assms(2,3)] broker_new_told assms(4)] by (simp add: broker_told_def)
  note D = table_okD [OF this]
  have "distinct (map fst (broker_tasks b))" using broker_run_ok [OF assms(1) broker_new_ok [OF assms(2,3)] assms(4)] by (simp add: broker_ok_def)
  then have "task_ids (broker_tasks b) n = Some (conn_client_id conn)" if "(n, conn) \<in> set (broker_tasks b)" for n conn
    using that by (simp add: task_ids_def)
  then show ?thesis using D(1,3) by (fastforce simp: task_ids_def)
qed

lemma one_connection_per_client_witness:
  "\<exists>conn. map_of (broker_tasks sample_4) 1 = Some conn \<and> conn_client_id conn = Some ''c1''"
  using one_connection_per_client [OF sample_run(1) [unfolded sample_start_def]] sample_run(2,4) by (simp add: auth_ok_def)

end
