(* ===== verification/Client_Sending.thy ===== *)
theory Client_Sending
  imports Client_Requests
begin

text \<open>
  What a notified connection sends: the messages of its queue, in their order, each once, as many as the client's
  receive maximum allows.
\<close>

subsection \<open>The packets\<close>

text \<open>The packets that carry the messages: those that have expired are left out, and those with a QoS above 0 get
  the next packet identifiers.\<close>

primrec outgoing :: "PacketIdAllocator \<Rightarrow> system_time \<Rightarrow> Message list \<Rightarrow> Publish list \<times> PacketIdAllocator" where
  "outgoing a now [] = ([], a)"
| "outgoing a now (msg # msgs) =
     (case (if Message_is_expired now msg then None else Message_to_publish_and_update_expiry_interval now msg) of
        None \<Rightarrow> outgoing a now msgs
      | Some p \<Rightarrow>
          let (p, a) = (if publish_qos p = AtMostOnce then (p, a)
            else let (i, a) = PacketIdAllocator_take a in (p\<lparr>publish_packet_id := Some i\<rparr>, a));
              (ps, a) = outgoing a now msgs
          in (p # ps, a))"

text \<open>The packets that have to be acknowledged.\<close>

definition with_ack :: "Publish list \<Rightarrow> Publish list" where
  "with_ack ps = filter (\<lambda>p. publish_qos p \<noteq> AtMostOnce) ps"

definition publishes_wire :: "ProtocolLevel \<Rightarrow> Publish list \<Rightarrow> bytes" where
  "publishes_wire level ps = concat (map (\<lambda>p. Packet_wire level (Packet.Publish p)) ps)"

lemma publishes_simps [simp]:
  "with_ack [] = []" "with_ack (p # ps) = (if publish_qos p = AtMostOnce then with_ack ps else p # with_ack ps)"
  "publishes_wire level [] = []"
  "publishes_wire level (p # ps) = Packet_wire level (Packet.Publish p) @ publishes_wire level ps"
  by (simp_all add: with_ack_def publishes_wire_def)

subsection \<open>Sending them\<close>

text \<open>A transport that takes everything, and a codec that has nothing left to write.\<close>

definition can_send :: "ProtocolLevel \<Rightarrow> nat \<Rightarrow> ('r, bytes) Env \<Rightarrow> ('r, bytes) World \<Rightarrow> bool" where
  "can_send level n env w \<longleftrightarrow> env_write_all env = append_all \<and> codec_level (conn_codec (world_conn w)) = level \<and>
     codec_write_buf (conn_codec (world_conn w)) = [] \<and> codec_output_max_size (conn_codec (world_conn w)) = n"

lemma send_publish_wire:
  assumes "can_send level n env w" "sendable n k level (Packet.Publish p)"
  shows "\<exists>m. send_packet (Packet.Publish p) env w = (Finished (),
    w\<lparr>world_conn := (world_conn w)\<lparr>conn_writer := conn_writer (world_conn w) @ Packet_wire level (Packet.Publish p)\<rparr>,
      world_state := (world_state w)\<lparr>state_service_metrics := m\<rparr>\<rparr>)"
proof -
  let ?c = "conn_codec (world_conn w)"
  have level: "level_after (codec_level ?c) (Packet.Publish p) = level" "?c\<lparr>codec_level := level\<rparr> = ?c"
    using assms(1) by (auto simp: can_send_def level_after_def)
  have "Codec_encode (env_write_all env) (Packet.Publish p) (conn_writer (world_conn w)) ?c =
    (Inr (length (Packet_wire level (Packet.Publish p))), conn_writer (world_conn w) @ Packet_wire level (Packet.Publish p), ?c)"
    using assms level by (subst Codec_encode_wire) (auto simp: can_send_def append_all_def Let_def)
  then show ?thesis
    by (auto simp: send_packet_def encode_packet_def act Let_def)
qed

text \<open>What has changed when the packets \<open>ps\<close> have been sent, \<open>a\<close> being the allocator then.\<close>

definition has_sent ::
  "string \<Rightarrow> ProtocolLevel \<Rightarrow> Publish list \<Rightarrow> PacketIdAllocator \<Rightarrow> ('r, bytes) World \<Rightarrow> ('r, bytes) World \<Rightarrow> bool" where
  "has_sent c level ps a w w' \<longleftrightarrow>
     conn_client_id (world_conn w') = conn_client_id (world_conn w) \<and>
     conn_codec (world_conn w') = conn_codec (world_conn w) \<and>
     conn_writer (world_conn w') = conn_writer (world_conn w) @ publishes_wire level ps \<and>
     conn_packet_id_allocator (world_conn w') = a \<and>
     conn_receive_out_quota (world_conn w') = conn_receive_out_quota (world_conn w) - word_of_nat (length (with_ack ps)) \<and>
     session_of (world_storage w') c = map_option (\<lambda>s. s\<lparr>session_inflight_pub_packets :=
       session_inflight_pub_packets s @ with_ack ps\<rparr>) (session_of (world_storage w) c)"

lemma has_sent_none: "has_sent c level [] (conn_packet_id_allocator (world_conn w)) w w"
  by (simp add: has_sent_def option.map_ident)

lemma has_sent_append:
  assumes "has_sent c level ps a w w'" "has_sent c level qs a' w' w''"
  shows "has_sent c level (ps @ qs) a' w w''"
  using assms by (simp add: has_sent_def publishes_wire_def with_ack_def option.map_comp o_def diff_diff_eq)

lemma delive_none:
  assumes "Message_to_publish_and_update_expiry_interval (env_now env) msg = None"
  shows "delive msg env w = (Finished (), w)"
  using assms by (simp add: delive_def act split: option.split)

lemma delive_sends:
  assumes "can_send level n env w" "conn_client_id (world_conn w) = Some c" "session_of (world_storage w) c \<noteq> None"
    and "Message_to_publish_and_update_expiry_interval (env_now env) msg = Some p"
    and "(p', a) = (if publish_qos p = AtMostOnce then (p, conn_packet_id_allocator (world_conn w))
      else let (i, a) = PacketIdAllocator_take (conn_packet_id_allocator (world_conn w)) in (p\<lparr>publish_packet_id := Some i\<rparr>, a))"
    and "sendable n k level (Packet.Publish p')"
  shows "\<exists>w'. delive msg env w = (Finished (), w') \<and> has_sent c level [p'] a w w'"
proof -
  define state where "state = call_plugins (OnMessageDelivered c (conn_uid (world_conn w)) (message_from_client_id msg)
      (message_from_uid msg) (message_topic msg) (message_qos msg) (message_retain msg) (message_payload msg)) (world_state w)"
  define v where "v = w\<lparr>world_state := state\<lparr>state_service_metrics := inc_pub_msgs_sent 1 (state_service_metrics state)\<rparr>\<rparr>"
  have run: "delive msg env w = (if publish_qos p = AtMostOnce then send_packet (Packet.Publish p) else deliver_publish c p) env v"
    using assms(2,4) by (simp add: delive_def act v_def state_def)
  have v: "world_conn v = world_conn w" "world_storage v = world_storage w" "can_send level n env v"
    using assms(1) by (simp_all add: v_def state_def call_plugins_def can_send_def)
  show ?thesis
  proof (cases "publish_qos p = AtMostOnce")
    case True
    then have p: "p' = p" "a = conn_packet_id_allocator (world_conn w)" using assms(5) by simp_all
    from send_publish_wire [OF v(3) assms(6)] obtain m where "send_packet (Packet.Publish p) env v = (Finished (),
        v\<lparr>world_conn := (world_conn v)\<lparr>conn_writer := conn_writer (world_conn v) @ Packet_wire level (Packet.Publish p)\<rparr>,
          world_state := (world_state v)\<lparr>state_service_metrics := m\<rparr>\<rparr>)" unfolding p by blast
    then show ?thesis using True v by (simp add: run has_sent_def p option.map_ident)
  next
    case False
    define i where "i = fst (PacketIdAllocator_take (conn_packet_id_allocator (world_conn w)))"
    have p: "p' = p\<lparr>publish_packet_id := Some i\<rparr>" "PacketIdAllocator_take (conn_packet_id_allocator (world_conn w)) = (i, a)"
      using False assms(5) by (auto simp: i_def split: prod.splits)
    define st where "st = modify_session c (\<lambda>s. s\<lparr>session_inflight_pub_packets :=
      session_inflight_pub_packets s @ [p']\<rparr>) (world_storage w)"
    have st: "Storage_add_inflight_pub_packet c p' (world_storage w) = Some st"
      using assms(3) by (auto simp: Storage_add_inflight_pub_packet_def st_def)
    define u where "u = v\<lparr>world_state := (world_state v)\<lparr>state_storage := st\<rparr>,
      world_conn := (world_conn v)\<lparr>conn_packet_id_allocator := a,
        conn_receive_out_quota := conn_receive_out_quota (world_conn v) - 1,
        conn_inflight_qos2_messages := (conn_inflight_qos2_messages (world_conn v))(i \<mapsto> Published)\<rparr>\<rparr>"
    have run': "delive msg env w = send_packet (Packet.Publish p') env u"
      using False by (simp add: run deliver_publish_def act v(1,2) p try_storage_def st [unfolded p] u_def Let_def)
    have "can_send level n env u" using v(1,3) by (simp add: can_send_def u_def)
    from send_publish_wire [OF this assms(6)] obtain m where "send_packet (Packet.Publish p') env u = (Finished (),
        u\<lparr>world_conn := (world_conn u)\<lparr>conn_writer := conn_writer (world_conn u) @ Packet_wire level (Packet.Publish p')\<rparr>,
          world_state := (world_state u)\<lparr>state_service_metrics := m\<rparr>\<rparr>)" by blast
    moreover have "publish_qos p' \<noteq> AtMostOnce" using False by (simp add: p)
    moreover have "session_of st c = map_option (\<lambda>s. s\<lparr>session_inflight_pub_packets :=
        session_inflight_pub_packets s @ [p']\<rparr>) (session_of (world_storage w) c)"
      using assms(3) by (auto simp: st_def)
    ultimately show ?thesis by (simp add: run' has_sent_def u_def v)
  qed
qed

lemma has_sentD:
  assumes "has_sent c level ps a w w'"
  shows "can_send level n env w' \<longleftrightarrow> can_send level n env w" "conn_client_id (world_conn w') = conn_client_id (world_conn w)"
    "session_of (world_storage w') c = None \<longleftrightarrow> session_of (world_storage w) c = None"
    "conn_packet_id_allocator (world_conn w') = a"
  using assms by (auto simp: has_sent_def can_send_def)

lemma loop_sends:
  assumes "can_send level n env w" "conn_client_id (world_conn w) = Some c" "session_of (world_storage w) c \<noteq> None"
    and "outgoing (conn_packet_id_allocator (world_conn w)) (env_now env) msgs = (ps, a)"
    and "\<forall>p \<in> set ps. sendable n k level (Packet.Publish p)"
  shows "\<exists>w'. loop_over (\<lambda>msg. if Message_is_expired (env_now env) msg then finish () else delive msg) msgs env w = (Finished (), w') \<and>
    has_sent c level ps a w w'"
  using assms
proof (induction msgs arbitrary: w ps)
  case Nil
  then show ?case using has_sent_none by (auto simp: act)
next
  case (Cons msg msgs)
  let ?a = "conn_packet_id_allocator (world_conn w)"
  show ?case
  proof (cases "if Message_is_expired (env_now env) msg then None else Message_to_publish_and_update_expiry_interval (env_now env) msg")
    case None
    then have "(if Message_is_expired (env_now env) msg then finish () else delive msg) env w = (Finished (), w)"
      by (auto simp: act delive_none split: if_splits)
    with None Cons show ?thesis by (simp add: act)
  next
    case (Some p)
    obtain p' a' where p': "(p', a') = (if publish_qos p = AtMostOnce then (p, ?a)
        else let (i, a) = PacketIdAllocator_take ?a in (p\<lparr>publish_packet_id := Some i\<rparr>, a))"
      by (metis surj_pair)
    obtain qs where qs: "outgoing a' (env_now env) msgs = (qs, a)" "ps = p' # qs"
      using Cons.prems(4) Some p' [symmetric] by (auto simp: Let_def split: prod.splits)
    have "Message_to_publish_and_update_expiry_interval (env_now env) msg = Some p" "\<not> Message_is_expired (env_now env) msg"
      using Some by (auto split: if_splits)
    moreover from delive_sends [OF Cons.prems(1-3) this(1) p'] Cons.prems(5) qs(2)
    obtain v where v: "delive msg env w = (Finished (), v)" "has_sent c level [p'] a' w v" by auto
    moreover obtain w' where "loop_over (\<lambda>msg. if Message_is_expired (env_now env) msg then finish () else delive msg) msgs env v
        = (Finished (), w')" "has_sent c level qs a v w'"
      using Cons.IH [of v qs] Cons.prems qs has_sentD [OF v(2)] by auto
    ultimately show ?thesis
      using has_sent_append [OF v(2), of qs a w'] qs(2) by (simp add: act)
  qed
qed

lemma notified_world:
  assumes "conn_client_id (world_conn w) = Some c" "session_of (world_storage w) c = Some s"
    and "conn_receive_out_quota (world_conn w) = quota" "quota \<noteq> 0" "can_send level n env w"
    and "outgoing (conn_packet_id_allocator (world_conn w)) (env_now env) (take (unat quota) (session_queue s)) = (ps, a)"
    and "\<forall>p \<in> set ps. sendable n k level (Packet.Publish p)"
  defines "s' \<equiv> s\<lparr>session_notify := False, session_queue := drop (unat quota) (session_queue s)\<rparr>"
  obtains w1 w' where "loop_turn Notified env w = (Finished True, w')" "has_sent c level ps a w1 w'"
    "session_of (world_storage w1) c = Some s'" "world_conn w1 = world_conn w"
proof -
  define v where "v = w\<lparr>world_state := (world_state w)\<lparr>state_storage :=
    modify_session c (\<lambda>s. s\<lparr>session_notify := False\<rparr>) (world_storage w)\<rparr>\<rparr>"
  have v: "session_of (world_storage v) c = Some (s\<lparr>session_notify := False\<rparr>)" "world_conn v = world_conn w"
    using assms(2) by (simp_all add: v_def)
  define st where "st = modify_session c (\<lambda>s. s\<lparr>session_queue := drop (unat quota) (session_queue s)\<rparr>) (world_storage v)"
  define u where "u = v\<lparr>world_state := (world_state v)\<lparr>state_storage := st\<rparr>\<rparr>"
  have u: "session_of (world_storage u) c = Some (s\<lparr>session_notify := False, session_queue := drop (unat quota) (session_queue s)\<rparr>)"
    "world_conn u = world_conn w" "can_send level n env u"
    using v assms(5) by (simp_all add: u_def st_def can_send_def)
  let ?loop = "loop_over (\<lambda>msg. if Message_is_expired (env_now env) msg then finish () else delive msg) (take (unat quota) (session_queue s))"
  have next_msgs: "Storage_next_messages c (Some (unat quota)) (world_storage v) = Some (take (unat quota) (session_queue s), st)"
    using v(1) by (simp add: Storage_next_messages_def st_def Let_def)
  have "handle_notified env v = ?loop env u"
    using assms(1,3,4) by (simp add: handle_notified_def act v(2) try_storage_def next_msgs u_def)
  moreover obtain w1 where sent: "?loop env u = (Finished (), w1)" "has_sent c level ps a u w1"
    using loop_sends [of level n env u c _ ps a k] assms(1,6,7) u by auto
  moreover have "loop_turn Notified env w = or_close handle_notified (\<lambda>_. finish ()) env v"
    using assms(1) by (simp add: loop_turn_def take_permit_def act v_def)
  ultimately have "loop_turn Notified env w = (Finished True, w1)" by (simp add: or_close_def)
  from that [OF this sent(2)] show ?thesis using u by (simp add: s'_def)
qed

text \<open>C15: a notified client is sent the messages of its queue, in their order, each exactly once and as many as its
  quota allows: those that have expired are dropped, the others go over the wire, a message with a QoS above 0 with
  the next packet identifier, after it has been recorded as in flight and has been subtracted from the quota.\<close>

theorem notified_sends:
  assumes "conn_client_id (world_conn w) = Some c" "session_of (world_storage w) c = Some s"
    and "conn_receive_out_quota (world_conn w) = quota" "quota \<noteq> 0" "can_send level n env w"
    and "outgoing (conn_packet_id_allocator (world_conn w)) (env_now env) (take (unat quota) (session_queue s)) = (ps, a)"
    and "\<forall>p \<in> set ps. sendable n k level (Packet.Publish p)"
    and "loop_turn Notified env w = (res, w')"
  shows "res = Finished True \<and>
    conn_writer (world_conn w') = conn_writer (world_conn w) @ publishes_wire level ps \<and>
    conn_receive_out_quota (world_conn w') = quota - word_of_nat (length (with_ack ps)) \<and>
    conn_packet_id_allocator (world_conn w') = a \<and>
    session_of (world_storage w') c = Some (s\<lparr>session_notify := False, session_queue := drop (unat quota) (session_queue s),
      session_inflight_pub_packets := session_inflight_pub_packets s @ with_ack ps\<rparr>)"
proof -
  obtain w1 w2 where "loop_turn Notified env w = (Finished True, w2)" "has_sent c level ps a w1 w2"
    "session_of (world_storage w1) c = Some (s\<lparr>session_notify := False, session_queue := drop (unat quota) (session_queue s)\<rparr>)"
    "world_conn w1 = world_conn w"
    using notified_world [OF assms(1-7)] by blast
  then show ?thesis using assms(3,8) by (simp add: has_sent_def)
qed

text \<open>With two messages in its queue and a quota of one, a client gets the first message.\<close>

definition greeting :: "u16 \<Rightarrow> Publish" where
  "greeting i = \<lparr>publish_dup = False, publish_qos = AtLeastOnce, publish_retain = False, publish_topic = ''a'',
     publish_packet_id = Some i, publish_properties = PublishProperties_default, publish_payload = [42]\<rparr>"

lemma greeting_sendable: "i \<noteq> 0 \<Longrightarrow> sendable 1000 1000 V5 (Packet.Publish (greeting i))"
  by (simp add: greeting_def sendable_def Packet_ok_def Packet_exact_def Packet_limit_def Packet_body_def Publish_ok_def
      Publish_exact_def Publish_body_def PublishProperties_fits_def PublishProperties_ok_def PublishProperties_wire_def
      PublishProperties_default_def wire_opt_def users_wire_def off_by_one_def str_ok_def valid_str_def as_bytes_def
      byte_of_char_def props_wire_def length_varint)

definition greeting_message :: Message where
  "greeting_message = Message_new 0 ''a'' AtLeastOnce [42]"

definition sample_notified :: "(unit, bytes) World" where
  "sample_notified = sample_resumed\<lparr>world_state := (world_state sample_resumed)\<lparr>state_storage :=
     modify_session ''c1'' (\<lambda>s. s\<lparr>session_queue := [greeting_message, greeting_message]\<rparr>) sample_created\<rparr>\<rparr>"

lemma notified_sends_witness:
  "\<exists>w'. loop_turn Notified sample_env sample_notified = (Finished True, w') \<and>
    conn_writer (world_conn w') = Packet_wire V5 (Packet.Publish (greeting 1)) \<and>
    conn_receive_out_quota (world_conn w') = 0 \<and>
    map_option session_queue (session_of (world_storage w') ''c1'') = Some [greeting_message]"
proof -
  let ?s = "(Session_new (Some sample_will))\<lparr>session_queue := [greeting_message, greeting_message]\<rparr>"
  have conn: "conn_client_id (world_conn sample_notified) = Some ''c1''" "conn_receive_out_quota (world_conn sample_notified) = 1"
    "conn_packet_id_allocator (world_conn sample_notified) = 1" "conn_writer (world_conn sample_notified) = []"
    "can_send V5 1000 sample_env sample_notified"
    by (simp_all add: sample_notified_def sample_resumed_def sample_client_def sample_conn_def Connection_new_def
        can_send_def sample_env_def append_all_def PacketIdAllocator_default_def fun_eq_iff)
  have session: "session_of (world_storage sample_notified) ''c1'' = Some ?s"
    by (simp add: sample_notified_def sample_created(3))
  have "PacketIdAllocator_take 1 = (1, 2)" by (simp add: PacketIdAllocator_take_def)
  then have out: "outgoing 1 (env_now sample_env) [greeting_message] = ([greeting 1], 2)"
    by (simp add: greeting_message_def Message_new_def Message_is_expired_def Message_to_publish_and_update_expiry_interval_def
        Message_to_publish_def PublishProperties_default_def greeting_def)
  have out: "outgoing (conn_packet_id_allocator (world_conn sample_notified)) (env_now sample_env)
      (take (unat (1 :: u64)) (session_queue ?s)) = ([greeting 1], 2)"
    unfolding conn(3) using out by simp
  obtain res w' where turn: "loop_turn Notified sample_env sample_notified = (res, w')" by force
  have "\<forall>p \<in> set [greeting 1]. sendable 1000 1000 V5 (Packet.Publish p)" by (simp add: greeting_sendable)
  moreover have "with_ack [greeting 1] = [greeting 1]" by (simp add: greeting_def)
  ultimately show ?thesis
    using notified_sends [OF conn(1) session conn(2) _ conn(5) out _ turn, of 1000] turn by (simp add: conn(4))
qed

end
