(* ===== verification/Broker_Delivery.thy ===== *)
theory Broker_Delivery
  imports Sys_Theorems Broker_Theorems Client_Sending
begin

text \<open>
  A message on its way through the server, from the socket of the client that publishes it to the socket of a client
  that has subscribed to its topic.
\<close>

subsection \<open>The turn of the publisher\<close>

text \<open>What the loop does with an error does not touch the storage.\<close>

lemma attempt_storage:
  assumes "\<And>connect. packet \<noteq> Packet.Connect connect"
  shows "world_storage (snd (attempt (send_packet packet) env w)) = world_storage w"
  using sent(1) [OF assms, of env w] by (auto simp: attempt_def split: prod.split outcome.split)

lemma close_on_storage: "world_storage (snd (close_on e env w)) = world_storage w"
  by (auto simp: close_on_def send_disconnect_def act attempt_storage split: Error.split option.split)

lemma or_close_storage: "world_storage (snd (or_close m close_on env w)) = world_storage (snd (m env w))"
proof -
  have "world_storage v = world_storage u" if "close_on e env u = (r, v)" for r u v e
    using close_on_storage [of e env u] that by simp
  then show ?thesis
    by (auto simp: or_close_def andthen_app finish_def split: prod.split outcome.split)
qed

lemma publish_turn:
  assumes "conn_client_id (world_conn w) = Some p"
    and "fst (Codec_decode (env_read env) (conn_reader (world_conn w)) (conn_codec (world_conn w))) = Inr (Some (Packet.Publish publish, len))"
    and "accepted_topic (world_state w) (world_conn w) publish = Some topic"
    and "publish_qos publish \<noteq> ExactlyOnce" "\<not> publish_retain publish"
  shows "world_storage (snd (loop_turn Decode env w)) =
      Storage_deliver (env_now env) (env_pick env) [accepted_message (env_now env) p topic w publish] (world_storage w)"
    and "conn_client_id (world_conn (snd (loop_turn Decode env w))) = Some p"
proof -
  obtain reader codec where d: "Codec_decode (env_read env) (conn_reader (world_conn w)) (conn_codec (world_conn w)) =
      (Inr (Some (Packet.Publish publish, len)), reader, codec)"
    using assms(2) by (metis prod.collapse)
  define u where "u = w\<lparr>world_state := (world_state w)\<lparr>state_service_metrics := inc_msgs_received 1
      (inc_bytes_received len (state_service_metrics (world_state w)))\<rparr>,
    world_conn := (world_conn w)\<lparr>conn_reader := reader, conn_codec := codec, conn_last_active := env_instant env\<rparr>\<rparr>"
  have run: "loop_turn Decode env w = or_close (handle_publish publish) close_on env u"
    by (simp add: loop_turn_def receive_packet_def decode_packet_def act d u_def handle_packet_def)
  have fields: "state_config (world_state u) = state_config (world_state w)" "state_plugins (world_state u) = state_plugins (world_state w)"
    "conn_remote_addr (world_conn u) = conn_remote_addr (world_conn w)" "conn_uid (world_conn u) = conn_uid (world_conn w)"
    "conn_topic_alias (world_conn u) = conn_topic_alias (world_conn w)"
    by (simp_all add: u_def)
  have accepted: "accepted_topic (world_state u) (world_conn u) publish = Some topic"
    using assms(3) unfolding accepted_topic_def fields .
  have u: "conn_client_id (world_conn u) = Some p" "accepted_topic (world_state u) (world_conn u) publish = Some topic"
    "accepted_message now p topic u publish = accepted_message now p topic w publish" "world_storage u = world_storage w" for now
    using assms(1) accepted by (simp_all add: u_def accepted_message_def ServiceState_rewrite_def)
  show "world_storage (snd (loop_turn Decode env w)) =
      Storage_deliver (env_now env) (env_pick env) [accepted_message (env_now env) p topic w publish] (world_storage w)"
    using handle_publish_world(1) [OF u(1), of publish env] assms(4,5) by (simp add: run or_close_storage u Let_def)
  have "steady (or_close (handle_publish publish) close_on)" by (intro steady_intro)
  then show "conn_client_id (world_conn (snd (loop_turn Decode env w))) = Some p"
    using u(1) unfolding run steady_def by (metis seat_client)
qed

text \<open>What remains of the publisher does not matter to another client.\<close>

lemma publisher_turn:
  assumes "broker_ok b" "map_of (broker_tasks b) n = Some pub" "conn_client_id pub = Some p" "p \<noteq> c" "m \<noteq> n"
    and "fst (Codec_decode (env_read env) (conn_reader pub) (conn_codec pub)) = Inr (Some (Packet.Publish publish, len))"
    and "accepted_topic (broker_state b) pub publish = Some topic"
    and "publish_qos publish \<noteq> ExactlyOnce" "\<not> publish_retain publish"
    and "b' = snd (broker_step ops (Turn n env Decode) b)"
  shows "map_of (broker_tasks b') m = map_of (broker_tasks b) m \<and>
    session_of (state_storage (broker_state b')) c = session_of (Storage_deliver (env_now env) (env_pick env)
      [accepted_message (env_now env) p topic (task_world n Decode pub b) publish] (state_storage (broker_state b))) c"
proof -
  let ?w = "task_world n Decode pub b"
  have w: "conn_client_id (world_conn ?w) = Some p" "world_storage ?w = state_storage (broker_state b)"
    "fst (Codec_decode (env_read env) (conn_reader (world_conn ?w)) (conn_codec (world_conn ?w))) = Inr (Some (Packet.Publish publish, len))"
    "accepted_topic (world_state ?w) (world_conn ?w) publish = Some topic"
    using assms(3,6,7) by (simp_all add: task_world_def take_control_def)
  note turn = publish_turn [OF w(1,3,4) assms(8,9), unfolded w(2)]
  show ?thesis
  proof (cases rule: run_task_cases [OF assms(1,2), of Decode env, case_names goes_on ends])
    case (goes_on v)
    then show ?thesis using assms(2,5,10) turn by (simp add: broker_step_def update_conv')
  next
    case (ends v v')
    have "world_storage v' = Storage_disconnect_session (env_instant env) p (conn_session_expiry_interval (world_conn v)) (world_storage v)"
      using close_world(1) [of v p v' env] turn(2) ends(1,3) by simp
    then have "session_of (world_storage v') c = session_of (world_storage v) c"
      using assms(4) by (simp add: disconnect_session_eq update_conv' split: option.split)
    then show ?thesis using assms(2,5,10) turn(1) ends(1,4) by (simp add: broker_step_def delete_conv')
  qed
qed

subsection \<open>From socket to socket\<close>

lemma outgoing_one:
  assumes "outgoing a now [message_copy now' msg [item]] = ([q], a')"
  shows "publish_topic q = message_topic msg \<and> publish_payload q = message_payload msg \<and>
    publish_qos q = min (message_qos msg) (item_qos item)"
  using assms by (auto simp: Message_to_publish_and_update_expiry_interval_def Message_to_publish_def message_copy_def
      PacketIdAllocator_take_def Let_def split: option.splits if_splits)

lemma accepted_message_fields:
  "message_topic (accepted_message now p topic w publish) = ServiceState_rewrite topic (world_state w)"
  "message_payload (accepted_message now p topic w publish) = publish_payload publish"
  "message_from_client_id (accepted_message now p topic w publish) = Some p"
  by (simp_all add: accepted_message_def message_of_publish_def Let_def Message_from_publish_def
      Message_with_from_client_id_def Message_with_from_uid_def Message_with_properties_def
      Message_with_retain_def Message_new_def split: option.split)

text \<open>C2: a message goes from socket to socket: when a PUBLISH with a QoS of 0 or 1, which has not expired and
  is not to be retained, has been read from one client's connection and is accepted, another client that has one
  subscription, which matches the topic, an empty queue and some quota left, is notified, and when its turn
  comes and its codec and its transport can take the packet, the message is written to its connection, once,
  with the payload of the PUBLISH, under its topic, at the lower of its QoS and
  the granted one, whatever becomes of the publisher's connection. No shared subscription is in the way. A
  PUBLISH with a QoS of 2 is delivered by its PUBREL only, as \<open>received_exactly_once\<close> shows.\<close>

theorem published_message_arrives:
  assumes "broker_ok b" "map_of (broker_tasks b) n = Some pub" "conn_client_id pub = Some p"
    and "map_of (broker_tasks b) m = Some sub" "conn_client_id sub = Some c" "p \<noteq> c"
    and "fst (Codec_decode (env_read env) (conn_reader pub) (conn_codec pub)) = Inr (Some (Packet.Publish publish, len))"
    and "accepted_topic (broker_state b) pub publish = Some topic"
    and "publish_qos publish \<noteq> ExactlyOnce" "\<not> publish_retain publish"
    and "msg = accepted_message (env_now env) p topic (task_world n Decode pub b) publish"
    and "\<not> Message_is_expired (env_now env) msg" "valid_pick (env_pick env)"
    and "trie_share_subscriptions (storage_filter_tree (state_storage (broker_state b))) = []"
    and "\<And>flt. Trie_lookup (storage_filter_tree (state_storage (broker_state b))) \<lparr>share_name = None, path = flt\<rparr> c =
      (if flt = f then Some item else None)"
    and "topic_matches f (ServiceState_rewrite topic (broker_state b))"
    and "session_of (state_storage (broker_state b)) c = Some s" "session_queue s = []" "conn_receive_out_quota sub \<noteq> 0"
    and "can_send level k env' (task_world m Notified sub b)"
    and "outgoing (conn_packet_id_allocator sub) (env_now env') [message_copy (env_now env) msg [item]] = ([q], a)"
    and "sendable k l level (Packet.Publish q)"
    and "b1 = snd (broker_step ops (Turn n env Decode) b)" "b2 = snd (broker_step ops (Turn m env' Notified) b1)"
  shows "(\<exists>s1. session_of (state_storage (broker_state b1)) c = Some s1 \<and> session_notify s1) \<and>
    (\<exists>sub'. map_of (broker_tasks b2) m = Some sub' \<and> conn_writer sub' = conn_writer sub @ Packet_wire level (Packet.Publish q)) \<and>
    publish_topic q = ServiceState_rewrite topic (broker_state b) \<and> publish_payload q = publish_payload publish \<and>
    publish_qos q = min (publish_qos publish) (item_qos item)"
proof -
  let ?st = "state_storage (broker_state b)" and ?copy = "message_copy (env_now env) msg [item]"
  have "n \<noteq> m" using assms(2-6) by auto
  then have mn: "m \<noteq> n" by simp
  have inv: "Storage_inv ?st" using assms(1) by (simp add: broker_ok_def state_keeps_def)
  have msg: "message_topic msg = ServiceState_rewrite topic (broker_state b)" "message_payload msg = publish_payload publish"
    "message_from_client_id msg = Some p" "message_qos msg = publish_qos publish"
    by (simp_all add: assms(11) accepted_message_fields accepted_message_qos task_world_def take_control_def)
  have "plain_copies (env_now env) msg c (storage_filter_tree ?st) = [?copy]"
    using items_one_subscription [OF inv _ assms(15), of msg "env_now env"] assms(6,16) msg by simp
  moreover have "shared_copies (env_now env) pick msg c (storage_filter_tree ?st) = []" for pick
    by (simp add: shared_copies_def Trie_matches_shared_def assms(14) items_of_def)
  ultimately have "copies (env_now env) (env_pick env) [msg] c (storage_filter_tree ?st) = [?copy]"
    using assms(12) by simp
  then have "session_of (Storage_deliver (env_now env) (env_pick env) [msg] ?st) c = Some (queue_messages [?copy] s)"
    using deliver_session [of "env_pick env" "env_now env" "[msg]" ?st c] assms(13,17) by simp
  then have b1: "map_of (broker_tasks b1) m = Some sub" "session_of (state_storage (broker_state b1)) c = Some (queue_messages [?copy] s)"
    using publisher_turn [OF assms(1-3,6) mn assms(7-10,23)] assms(4) by (simp_all add: assms(11))
  let ?w = "task_world m Notified sub b1"
  have w: "conn_client_id (world_conn ?w) = Some c" "world_storage ?w = state_storage (broker_state b1)" "world_conn ?w = sub"
    using assms(5) by (simp_all add: task_world_def take_control_def)
  have quota: "unat (conn_receive_out_quota sub) \<noteq> 0" using assms(19) by (simp add: unat_eq_0)
  then have queue: "take (unat (conn_receive_out_quota sub)) (session_queue (queue_messages [?copy] s)) = [?copy]"
    using assms(18) by (cases "unat (conn_receive_out_quota sub)") simp_all
  have "can_send level k env' ?w" using assms(20) by (simp add: can_send_def task_world_def)
  from notified_world [OF w(1) b1(2) [folded w(2)] refl _ this, unfolded w(3) queue, OF assms(19,21)]
  obtain w1 w' where turn: "loop_turn Notified env' ?w = (Finished True, w')" "has_sent c level [q] a w1 w'" "world_conn w1 = sub"
    using assms(22) by (metis empty_iff empty_set set_ConsD)
  then have "map_of (broker_tasks b2) m = Some (world_conn w')" "conn_writer (world_conn w') = conn_writer sub @ Packet_wire level (Packet.Publish q)"
    using turn b1(1) by (simp_all add: assms(24) broker_step_def run_task_def update_conv' has_sent_def)
  then show ?thesis using b1(2) outgoing_one [OF assms(21)] msg by (simp add: queue_messages_def)
qed

text \<open>A publisher of \<open>greeting 7\<close>, and a subscriber.\<close>

definition pair_conn :: "string \<Rightarrow> nat \<Rightarrow> bytes list \<Rightarrow> (bytes list, bytes) Connection" where
  "pair_conn c n chunks = (Connection_new (tcp_remote_addr ''10.0.0.1:4242'') n 0 chunks [])\<lparr>conn_client_id := Some c,
     conn_codec := sample_codec, conn_receive_out_quota := 10\<rparr>"

definition pair_storage :: Storage where
  "pair_storage = snd (Storage_create_session ''c2'' False None (sample_subscribed ''a''))"

definition pair_broker :: "(bytes list, bytes, real) Broker" where
  "pair_broker = \<lparr>broker_tasks = [(0, pair_conn ''c2'' 0 [Packet_wire V5 (Packet.Publish (greeting 7))]), (1, pair_conn ''c1'' 1 [])],
     broker_channels = 2, broker_state = (ServiceState_new ServiceConfig_default [] [])\<lparr>state_storage := pair_storage\<rparr>,
     broker_metrics = MetricsState_new (real_ops (\<lambda>_. ''0'')) 0\<rparr>"

lemma pair_storage:
  "Storage_inv pair_storage" "all_connected {''c1'', ''c2''} pair_storage"
  "session_of pair_storage ''c1'' = Some (Session_new (Some sample_will))"
  "Trie_lookup (storage_filter_tree pair_storage) f ''c1'' = (if f = plain ''a'' then Some sample_item else None)"
  "trie_share_subscriptions (storage_filter_tree pair_storage) = []"
proof -
  note sub = sample_subscribed [of "''a''"]
  note spec = create_session_spec [OF sub(1) surjective_pairing, of "''c2''" False None, folded pair_storage_def]
  show "Storage_inv pair_storage" using spec by simp
  show c1: "session_of pair_storage ''c1'' = Some (Session_new (Some sample_will))" using spec sub(2) by simp
  have "connected pair_storage ''c2''" using spec by simp
  then show "all_connected {''c1'', ''c2''} pair_storage"
    using c1 by (simp add: all_connected_def connected_def Session_new_def)
  show "Trie_lookup (storage_filter_tree pair_storage) f ''c1'' = (if f = plain ''a'' then Some sample_item else None)"
    using spec [of f "''c1''"] sub(3) by simp
  have "storage_filter_tree pair_storage = storage_filter_tree (sample_subscribed ''a'')"
    by (simp add: pair_storage_def Storage_create_session_def split: option.split)
  then show "trie_share_subscriptions (storage_filter_tree pair_storage) = []" using sub(4) by simp
qed

lemma greeting_decode:
  "\<exists>len. fst (Codec_decode read_chunks [Packet_wire V5 (Packet.Publish (greeting 7))] sample_codec) =
    Inr (Some (Packet.Publish (greeting 7), len))"
proof -
  let ?wire = "Packet_wire V5 (Packet.Publish (greeting 7))"
  obtain result chunks c' where d: "Codec_decode read_chunks [?wire] sample_codec = (result, chunks, c')"
    using prod_cases3 by blast
  have "next_packet V5 1000 ?wire =
      Inr (Some (Packet.Publish (greeting 7), length (Packet_body V5 (Packet.Publish (greeting 7))), []))"
    using next_packet_wire [of 1000 1000 V5 "Packet.Publish (greeting 7)" "[]"] greeting_sendable [of 7]
    by (simp add: level_after_def Packet_norm_def Publish_norm_def)
  moreover have "?wire \<noteq> []" by (simp add: Packet_wire_def)
  ultimately show ?thesis
    using Codec_decode_chunks [OF d] d by (auto simp: yields_def next_of_def level_after_def)
qed

lemma greeting_copy:
  "Message_to_publish (message_copy 0 (accepted_message 0 ''c2'' ''a'' (task_world 0 Decode pub pair_broker) (greeting 7)) [sample_item])
    = (greeting 7)\<lparr>publish_packet_id := None\<rparr>"
  "message_properties (accepted_message 0 ''c2'' ''a'' (task_world 0 Decode pub pair_broker) (greeting 7)) = PublishProperties_default"
  by (simp_all add: greeting_def Message_to_publish_def message_copy_def accepted_message_def message_of_publish_def
      Message_from_publish_def Message_with_from_client_id_def Message_with_from_uid_def Message_with_properties_def
      Message_with_retain_def Message_new_def PublishProperties_default_def sample_item_def task_world_def take_control_def
      pair_broker_def ServiceState_rewrite_def ServiceState_new_def first_rewrite_def Let_def split: option.split)

lemma greeting_outgoing:
  "outgoing 1 0 [message_copy 0 (accepted_message 0 ''c2'' ''a'' (task_world 0 Decode pub pair_broker) (greeting 7)) [sample_item]]
    = ([greeting 1], 2)"
proof -
  let ?msg = "message_copy 0 (accepted_message 0 ''c2'' ''a'' (task_world 0 Decode pub pair_broker) (greeting 7)) [sample_item]"
  have "message_properties ?msg = publish_properties (Message_to_publish ?msg)" by (simp add: Message_to_publish_def)
  then have "message_properties ?msg = PublishProperties_default" unfolding greeting_copy by (simp add: greeting_def)
  moreover have "PacketIdAllocator_take 1 = (1, 2)" by (simp add: PacketIdAllocator_take_def)
  ultimately show ?thesis
    by (simp add: Message_is_expired_def Message_to_publish_and_update_expiry_interval_def greeting_copy)
      (simp add: greeting_def PublishProperties_default_def)
qed

lemma pair_ok: "broker_ok pair_broker"
proof -
  have "task_clients (broker_tasks pair_broker) = {''c1'', ''c2''}"
    by (auto simp: pair_broker_def pair_conn_def task_clients_def)
  then show ?thesis
    using pair_storage(1,2) by (simp add: broker_ok_def pair_broker_def state_keeps_def aliases_ok_def pair_conn_def
        Connection_new_def ServiceState_rewrite_def ServiceState_new_def first_rewrite_def auth_ok_def)
qed

lemma greeting_accepted:
  "accepted_topic (broker_state pair_broker) (pair_conn c n chunks) (greeting 7) = Some ''a''"
  by (simp add: pair_broker_def pair_conn_def greeting_def accepted_topic_def resolve_topic_alias_def
      publish_refusal_def PublishProperties_default_def valid_topic_def Connection_new_def ServiceState_new_def
      ServiceConfig_default_def less_Qos_def Let_def contains_wildcard_def)

lemma published_message_arrives_witness:
  "\<exists>sub'. map_of (broker_tasks (snd (broker_step (real_ops (\<lambda>_. ''0'')) (Turn 1 wire_env Notified)
      (snd (broker_step (real_ops (\<lambda>_. ''0'')) (Turn 0 wire_env Decode) pair_broker))))) 1 = Some sub' \<and>
    conn_writer sub' = Packet_wire V5 (Packet.Publish (greeting 1))"
proof -
  let ?pub = "pair_conn ''c2'' 0 [Packet_wire V5 (Packet.Publish (greeting 7))]" and ?sub = "pair_conn ''c1'' 1 []"
  have tasks: "map_of (broker_tasks pair_broker) 0 = Some ?pub" "map_of (broker_tasks pair_broker) 1 = Some ?sub"
    and storage: "state_storage (broker_state pair_broker) = pair_storage"
    and rewrite: "ServiceState_rewrite ''a'' (broker_state pair_broker) = ''a''"
    by (simp_all add: pair_broker_def ServiceState_rewrite_def ServiceState_new_def first_rewrite_def)
  have conns: "conn_client_id ?pub = Some ''c2''" "conn_client_id ?sub = Some ''c1''" "conn_receive_out_quota ?sub \<noteq> 0"
    "conn_packet_id_allocator ?sub = 1" "conn_writer ?sub = []" "can_send V5 1000 wire_env (task_world 1 Notified ?sub pair_broker)"
    by (simp_all add: pair_conn_def Connection_new_def wire_env_def can_send_def task_world_def PacketIdAllocator_default_def)
  have env: "env_now wire_env = 0" "valid_pick (env_pick wire_env)" by (simp_all add: wire_env_def)
  obtain len where decode: "fst (Codec_decode (env_read wire_env) (conn_reader ?pub) (conn_codec ?pub)) =
      Inr (Some (Packet.Publish (greeting 7), len))"
    using greeting_decode by (auto simp: pair_conn_def Connection_new_def wire_env_def)
  have kind: "publish_qos (greeting 7) \<noteq> ExactlyOnce" "\<not> publish_retain (greeting 7)" by (simp_all add: greeting_def)
  let ?msg = "accepted_message (env_now wire_env) ''c2'' ''a'' (task_world 0 Decode ?pub pair_broker) (greeting 7)"
  have fresh: "\<not> Message_is_expired (env_now wire_env) ?msg"
    by (simp add: env Message_is_expired_def greeting_copy(2) PublishProperties_default_def)
  have lookup: "Trie_lookup (storage_filter_tree (state_storage (broker_state pair_broker))) \<lparr>share_name = None, path = flt\<rparr> ''c1'' =
      (if flt = ''a'' then Some sample_item else None)" for flt
    by (simp add: storage pair_storage(4) plain_def)
  have matches: "topic_matches ''a'' (ServiceState_rewrite ''a'' (broker_state pair_broker))"
    by (simp add: rewrite topic_matches_def)
  have out: "outgoing (conn_packet_id_allocator ?sub) (env_now wire_env) [message_copy (env_now wire_env) ?msg [sample_item]] = ([greeting 1], 2)"
    unfolding conns(4) env(1) by (rule greeting_outgoing)
  have plain: "trie_share_subscriptions (storage_filter_tree (state_storage (broker_state pair_broker))) = []"
    "session_queue (Session_new (Some sample_will)) = []"
    by (simp_all add: storage pair_storage(5) Session_new_def)
  show ?thesis
    using published_message_arrives [OF pair_ok tasks(1) conns(1) tasks(2) conns(2) _ decode greeting_accepted kind refl fresh
      env(2) plain(1) lookup matches pair_storage(3) [folded storage] plain(2) conns(3,6) out greeting_sendable refl refl]
    by (simp add: conns(5) del: One_nat_def)
qed

end
