(* ===== verification/Codec_Reads.thy ===== *)
theory Codec_Reads
  imports Codec_Theorems
begin

text \<open>
  How long \<open>Codec::decode\<close> (\<open>libs/codec/src/codec.rs\<close>) runs: the number of reads of one call.
\<close>

text \<open>A reader that counts how often it is read.\<close>

definition counted :: "('r \<Rightarrow> (io_error + bytes) \<times> 'r) \<Rightarrow> 'r \<times> nat \<Rightarrow> (io_error + bytes) \<times> 'r \<times> nat" where
  "counted read = (\<lambda>(r, n). case read r of (res, r) \<Rightarrow> (res, r, Suc n))"

lemma counted_app: "counted read (r, n) = (fst (read r), snd (read r), Suc n)"
  by (simp add: counted_def case_prod_unfold)

text \<open>The bytes that a packet may still need.\<close>

definition bytes_left :: "Codec \<Rightarrow> nat" where
  "bytes_left c =
     (case codec_decoder_state c of
        Flag \<Rightarrow> 4 + codec_input_max_size c
      | Length _ \<Rightarrow> codec_input_max_size c
      | Body _ _ \<Rightarrow> 0) + awaited c"

lemma bytes_left_Continue: "Codec_turn c = Continue c' \<Longrightarrow> bytes_left c' \<le> bytes_left c"
  by (auto simp: Codec_turn_def bytes_left_def awaited_def Let_def
      split: DecoderState.splits list.splits sum.splits option.splits if_splits)

lemma bytes_left_Await:
  assumes "Codec_turn c = Await" "data \<noteq> []"
  shows "Suc (bytes_left (c\<lparr>codec_read_buf := codec_read_buf c @ data\<rparr>)) \<le> bytes_left c"
proof -
  have "awaited (c\<lparr>codec_read_buf := codec_read_buf c @ data\<rparr>) < awaited c"
    using Codec_turn_awaited [OF assms(1)] assms(2)
    by (auto simp: awaited_def Suc_le_eq split: DecoderState.splits intro!: diff_less_mono2)
  then show ?thesis by (simp add: bytes_left_def split: DecoderState.splits)
qed

lemma Codec_decode_counted:
  "Codec_decode (counted read) (r, n) c = (result, (r', m), c') \<Longrightarrow>
    m \<le> n + bytes_left c + 1 \<and> Codec_decode read r c = (result, r', c')"
proof (induction read r c arbitrary: n rule: Codec_decode.induct)
  case (1 read r c)
  note unfolded = Codec_decode.simps [of read r c] Codec_decode.simps [of "counted read" "(r, n)" c]
  show ?case
  proof (cases "Codec_turn c")
    case (Continue c1)
    with 1 bytes_left_Continue [OF Continue] show ?thesis by (fastforce simp: unfolded)
  next
    case (Return res c1)
    then have "Codec_decode read r c = (res, r, c1)" "Codec_decode (counted read) (r, n) c = (res, (r, n), c1)"
      by (simp_all add: unfolded)
    with 1(3) show ?thesis by simp
  next
    case Await
    obtain res r1 where read: "read r = (res, r1)" by force
    show ?thesis
    proof (cases res)
      case (Inl e)
      with read Await have "Codec_decode read r c = (Inl (DecodeIo e), r1, c)"
        "Codec_decode (counted read) (r, n) c = (Inl (DecodeIo e), (r1, Suc n), c)"
        by (simp_all add: unfolded counted_app)
      with 1(3) show ?thesis by simp
    next
      case (Inr data)
      show ?thesis
      proof (cases "data = []")
        case True
        with read Await Inr have "Codec_decode read r c = (Codec_eof c, r1, c)"
          "Codec_decode (counted read) (r, n) c = (Codec_eof c, (r1, Suc n), c)"
          by (simp_all add: unfolded counted_app)
        with 1(3) show ?thesis by auto
      next
        case False
        let ?c = "c\<lparr>codec_read_buf := codec_read_buf c @ data\<rparr>"
        have step: "Codec_decode (counted read) (r, n) c = Codec_decode (counted read) (r1, Suc n) ?c"
          "Codec_decode read r c = Codec_decode read r1 ?c"
          using read Await Inr False by (simp_all add: unfolded counted_app)
        have "m \<le> Suc n + bytes_left ?c + 1 \<and> Codec_decode read r1 ?c = (result, r', c')"
          by (rule 1(2) [OF Await read [symmetric] Inr False]) (use 1(3) step(1) in simp)
        with bytes_left_Await [OF Await False] show ?thesis by (simp add: step(2))
      qed
    qed
  qed
qed

text \<open>C5: one call of \<open>decode\<close> returns after at most as many reads as the packet may have bytes left,
  plus one that reports the end of the stream or an error, whatever the reader delivers. At the start of a packet that is the
  limit on the packet size plus six.\<close>

theorem decode_terminates:
  assumes "codec_decoder_state c = Flag"
  shows "\<exists>result r' n c'. Codec_decode (counted read) (r, 0) c = (result, (r', n), c') \<and>
    Codec_decode read r c = (result, r', c') \<and> n \<le> codec_input_max_size c + 6"
proof -
  obtain result r' n c' where d: "Codec_decode (counted read) (r, 0) c = (result, (r', n), c')"
    by (metis prod.exhaust)
  from Codec_decode_counted [OF this] have "n \<le> bytes_left c + 1" "Codec_decode read r c = (result, r', c')" by simp_all
  moreover have "bytes_left c \<le> codec_input_max_size c + 5" using assms by (simp add: bytes_left_def awaited_def)
  ultimately show ?thesis using d by (auto intro: order_trans)
qed

lemma decode_terminates_witness:
  "\<exists>n. snd (fst (snd (Codec_decode (counted (\<lambda>r. (Inr [0xc0], r))) ((), 0) sample_codec))) = n \<and> n \<le> 1006"
  using decode_terminates [of sample_codec "\<lambda>r. (Inr [0xc0], r)" "()"] by auto

end
