(* ===== verification/Plugin_Theorems.thy ===== *)
theory Plugin_Theorems
  imports Plugins Rewrite
begin

text \<open>
  The correctness properties of the plugins: a password verifies against its own hash, and with the \<open>basic-auth\<close> plugin
  only the right password logs a client in.
\<close>

text \<open>What the hashing crates promise: a hash can be parsed, names its algorithm and verifies the password it
  was made from. The names of the algorithms differ.\<close>

definition argon2_types :: "HashType list" where
  "argon2_types = [Argon2i, Argon2d, Argon2id]"

definition pbkdf2_types :: "HashType list" where
  "pbkdf2_types = [Pbkdf2Sha256, Pbkdf2Sha512]"

definition crypto_ok :: "'h crypto \<Rightarrow> bool" where
  "crypto_ok lib \<longleftrightarrow>
     (\<forall>t \<in> set argon2_types. \<forall>passwd salt phc. argon2_hash lib passwd (argon2_ident lib t) salt = Some phc \<longrightarrow>
       (\<exists>h. phc_new lib phc = Some h \<and> phc_algorithm lib h = argon2_ident lib t \<and> argon2_verify lib passwd h)) \<and>
     (\<forall>t \<in> set pbkdf2_types. \<forall>passwd salt phc. pbkdf2_hash lib passwd (pbkdf2_ident lib t) salt = Some phc \<longrightarrow>
       (\<exists>h. phc_new lib phc = Some h \<and> phc_algorithm lib h = pbkdf2_ident lib t \<and> pbkdf2_verify lib passwd h)) \<and>
     (\<forall>passwd salt phc. scrypt_hash lib passwd salt = Some phc \<longrightarrow>
       (\<exists>h. phc_new lib phc = Some h \<and> phc_algorithm lib h = scrypt_ident lib \<and> scrypt_verify lib passwd h)) \<and>
     map (pbkdf2_ident lib) pbkdf2_types = [''pbkdf2-sha256'', ''pbkdf2-sha512''] \<and>
     set (map (argon2_ident lib) argon2_types) \<inter> {''pbkdf2-sha256'', ''pbkdf2-sha512'', scrypt_ident lib} = {} \<and>
     scrypt_ident lib \<notin> {''pbkdf2-sha256'', ''pbkdf2-sha512''}"

text \<open>Which library verifies a hash.\<close>

lemma verify_password_parsed:
  assumes "crypto_ok lib" "phc_new lib phc = Some h"
  shows "phc_algorithm lib h \<in> set (map (argon2_ident lib) argon2_types) \<Longrightarrow>
      verify_password lib phc passwd = argon2_verify lib passwd h"
    and "phc_algorithm lib h \<in> set (map (pbkdf2_ident lib) pbkdf2_types) \<Longrightarrow>
      verify_password lib phc passwd = pbkdf2_verify lib passwd h"
    and "phc_algorithm lib h = scrypt_ident lib \<Longrightarrow> verify_password lib phc passwd = scrypt_verify lib passwd h"
proof -
  have run: "verify_password lib phc passwd =
    (if phc_algorithm lib h \<in> set (map (argon2_ident lib) argon2_types) then argon2_verify lib passwd h
     else if phc_algorithm lib h \<in> set (map (pbkdf2_ident lib) pbkdf2_types) then pbkdf2_verify lib passwd h
     else if phc_algorithm lib h = scrypt_ident lib then scrypt_verify lib passwd h else False)"
    using assms by (simp add: verify_password_def Let_def argon2_types_def crypto_ok_def)
  have "set (map (argon2_ident lib) argon2_types) \<inter> set (map (pbkdf2_ident lib) pbkdf2_types) = {}"
    "scrypt_ident lib \<notin> set (map (argon2_ident lib) argon2_types)"
    "scrypt_ident lib \<notin> set (map (pbkdf2_ident lib) pbkdf2_types)"
    using assms(1) unfolding crypto_ok_def by auto
  then show "phc_algorithm lib h \<in> set (map (argon2_ident lib) argon2_types) \<Longrightarrow>
      verify_password lib phc passwd = argon2_verify lib passwd h"
    and "phc_algorithm lib h \<in> set (map (pbkdf2_ident lib) pbkdf2_types) \<Longrightarrow>
      verify_password lib phc passwd = pbkdf2_verify lib passwd h"
    and "phc_algorithm lib h = scrypt_ident lib \<Longrightarrow> verify_password lib phc passwd = scrypt_verify lib passwd h"
    unfolding run by auto
qed

lemma crypto_okD:
  assumes "crypto_ok lib"
  shows "t \<in> set argon2_types \<Longrightarrow> argon2_hash lib passwd (argon2_ident lib t) salt = Some phc \<Longrightarrow>
      \<exists>h. phc_new lib phc = Some h \<and> phc_algorithm lib h = argon2_ident lib t \<and> argon2_verify lib passwd h"
    and "t \<in> set pbkdf2_types \<Longrightarrow> pbkdf2_hash lib passwd (pbkdf2_ident lib t) salt = Some phc \<Longrightarrow>
      \<exists>h. phc_new lib phc = Some h \<and> phc_algorithm lib h = pbkdf2_ident lib t \<and> pbkdf2_verify lib passwd h"
    and "scrypt_hash lib passwd salt = Some phc \<Longrightarrow>
      \<exists>h. phc_new lib phc = Some h \<and> phc_algorithm lib h = scrypt_ident lib \<and> scrypt_verify lib passwd h"
  using assms by (simp_all only: crypto_ok_def)

lemma HashType_roundtrip: "HashType_from_str (HashType_fmt t) = Inr t"
  by (cases t) (simp_all add: HashType_fmt_def HashType_from_str_def)

text \<open>The hash that is created for a password verifies it, whatever the hash type: \<open>verify_password\<close>
  finds the algorithm in the hash.\<close>

theorem password_roundtrip:
  assumes "crypto_ok lib" "create_phc lib salt t passwd = Some phc"
  shows "verify_password lib phc passwd"
proof (cases "t = Scrypt")
  case True
  then have "scrypt_hash lib passwd salt = Some phc" using assms(2) by (simp add: create_phc_def)
  then obtain h where "phc_new lib phc = Some h" "phc_algorithm lib h = scrypt_ident lib" "scrypt_verify lib passwd h"
    using crypto_okD(3) [OF assms(1)] by blast
  then show ?thesis using verify_password_parsed(3) [OF assms(1)] by simp
next
  case False
  then consider "t \<in> set argon2_types" | "t \<in> set pbkdf2_types"
    by (cases t) (simp_all add: argon2_types_def pbkdf2_types_def)
  then show ?thesis
  proof cases
    case 1
    then have "argon2_hash lib passwd (argon2_ident lib t) salt = Some phc"
      using assms(2) by (auto simp: create_phc_def argon2_types_def)
    then obtain h where "phc_new lib phc = Some h" "phc_algorithm lib h = argon2_ident lib t" "argon2_verify lib passwd h"
      using crypto_okD(1) [OF assms(1) 1] by blast
    then show ?thesis using verify_password_parsed(1) [OF assms(1)] 1 by simp
  next
    case 2
    then have "pbkdf2_hash lib passwd (pbkdf2_ident lib t) salt = Some phc"
      using assms(2) by (auto simp: create_phc_def pbkdf2_types_def)
    then obtain h where "phc_new lib phc = Some h" "phc_algorithm lib h = pbkdf2_ident lib t" "pbkdf2_verify lib passwd h"
      using crypto_okD(2) [OF assms(1) 2] by blast
    then show ?thesis using verify_password_parsed(2) [OF assms(1)] 2 by simp
  qed
qed

text \<open>A sample library whose hashes are the algorithm and the password.\<close>

definition sample_crypto :: "(string \<times> string) crypto" where
  "sample_crypto = \<lparr>argon2_ident = HashType_fmt,
     argon2_hash = (\<lambda>passwd ident salt. Some (ident @ ''$'' @ string_of_bytes passwd)),
     argon2_verify = (\<lambda>passwd h. snd h = string_of_bytes passwd),
     pbkdf2_ident = HashType_fmt,
     pbkdf2_hash = (\<lambda>passwd ident salt. Some (ident @ ''$'' @ string_of_bytes passwd)),
     pbkdf2_verify = (\<lambda>passwd h. snd h = string_of_bytes passwd),
     scrypt_ident = ''scrypt'',
     scrypt_hash = (\<lambda>passwd salt. Some (''scrypt$'' @ string_of_bytes passwd)),
     scrypt_verify = (\<lambda>passwd h. snd h = string_of_bytes passwd),
     phc_new = split_once CHR ''$'', phc_algorithm = fst\<rparr>"

lemma split_once_head: "CHR ''$'' \<notin> set ident \<Longrightarrow> split_once CHR ''$'' (ident @ CHR ''$'' # s) = Some (ident, s)"
  by (simp add: split_once_Some)

lemma sample_crypto_ok: "crypto_ok sample_crypto"
  by (simp add: crypto_ok_def sample_crypto_def argon2_types_def pbkdf2_types_def HashType_fmt_def
      split_once_head [where ident = "''argon2i''", simplified] split_once_head [where ident = "''argon2d''", simplified]
      split_once_head [where ident = "''argon2id''", simplified] split_once_head [where ident = "''pbkdf2-sha256''", simplified]
      split_once_head [where ident = "''pbkdf2-sha512''", simplified] split_once_head [where ident = "''scrypt''", simplified])

lemma password_roundtrip_witness:
  "verify_password sample_crypto (''pbkdf2-sha512$'' @ ''secret'') (as_bytes ''secret'')"
  using password_roundtrip [OF sample_crypto_ok, of "[]" Pbkdf2Sha512 "as_bytes ''secret''"]
  by (simp add: create_phc_def sample_crypto_def HashType_fmt_def)

subsection \<open>Logging in\<close>

text \<open>The password of a CONNECT is that of its user.\<close>

definition right_password :: "'h crypto \<Rightarrow> (string \<rightharpoonup> string) \<Rightarrow> Login \<Rightarrow> bool" where
  "right_password lib users login \<longleftrightarrow>
     (\<exists>phc. users (username login) = Some phc \<and> verify_password lib phc (as_bytes (password login)))"

lemma basic_auth:
  "auth_plugins [BasicAuth lib users] login =
    Inr (if right_password lib users login then Some (username login) else None)"
  by (auto simp: BasicAuth_def Plugin_default_def right_password_def split: option.split)

lemma refuse_world:
  "world_storage (snd (refuse_connect reason env w)) = world_storage w"
  "conn_client_id (world_conn (snd (refuse_connect reason env w))) = conn_client_id (world_conn w)"
  "state_connections (world_state (snd (refuse_connect reason env w))) = state_connections (world_state w)"
  "state_controls (world_state (snd (refuse_connect reason env w))) = state_controls (world_state w)"
proof -
  have "sends w (snd (refuse_connect reason env w))"
    unfolding refuse_connect_def by (rule send_packet_sends [THEN conjunct2]) simp
  then show "world_storage (snd (refuse_connect reason env w)) = world_storage w"
    "conn_client_id (world_conn (snd (refuse_connect reason env w))) = conn_client_id (world_conn w)"
    "state_connections (world_state (snd (refuse_connect reason env w))) = state_connections (world_state w)"
    "state_controls (world_state (snd (refuse_connect reason env w))) = state_controls (world_state w)"
    by (auto simp: sends_def)
qed

text \<open>C8: with the \<open>basic-auth\<close> plugin, a CONNECT that gives a user name logs in only with that user's
  password; otherwise the connection stays anonymous, and no session is created, resumed or taken
  over. (A CONNECT without a user name is not authenticated at all.)\<close>

theorem login_requires_password:
  assumes "state_plugins (world_state w) = [BasicAuth lib users]"
    and "conn_client_id (world_conn w) = None" "connect_login connect = Some login"
    and "\<not> right_password lib users login"
  shows "conn_client_id (world_conn (snd (handle_connect connect env w))) = None \<and>
    world_storage (snd (handle_connect connect env w)) = world_storage w \<and>
    state_connections (world_state (snd (handle_connect connect env w))) = state_connections (world_state w) \<and>
    state_controls (world_state (snd (handle_connect connect env w))) = state_controls (world_state w)"
proof -
  have auth: "authenticate c env w = (Failed (Error_server_disconnect DisconnectReasonCode.NotAuthorized), w)"
    if "connect_login c = Some login" for c
    using that by (simp add: authenticate_def assms(1) basic_auth assms(4) act del: auth_plugins.simps)
  show ?thesis
  proof (cases "Option.bind (connect_last_will connect) (will_refusal (state_config (world_state w)))")
    case (Some reason)
    then show ?thesis by (simp add: handle_connect_def act assms(2) Let_def refuse_world)
  next
    case None
    then show ?thesis
      using refuse_world [of ConnectReasonCode.ClientIdentifierNotValid env w] assms(2)
      by (auto simp: handle_connect_def act Let_def auth assms(3) split: outcome.split prod.split)
  qed
qed

definition sample_login :: Connect where
  "sample_login = (sample_connect V5 WillProperties_default)\<lparr>connect_last_will := None,
     connect_login := Some \<lparr>username = ''alice'', password = ''wrong''\<rparr>\<rparr>"

definition sample_guarded :: "(unit, bytes) World" where
  "sample_guarded = sample_world\<lparr>world_state := sample_state\<lparr>state_plugins :=
     [BasicAuth sample_crypto [''alice'' \<mapsto> ''scrypt$secret'']]\<rparr>\<rparr>"

lemma sample_wrong_password:
  "\<not> right_password sample_crypto [''alice'' \<mapsto> ''scrypt$secret''] \<lparr>username = ''alice'', password = ''wrong''\<rparr>"
  by (simp add: right_password_def verify_password_def sample_crypto_def HashType_fmt_def
      split_once_head [where ident = "''scrypt''", simplified])

lemma login_requires_password_witness:
  "conn_client_id (world_conn (snd (handle_connect sample_login sample_env sample_guarded))) = None"
  using login_requires_password [OF _ _ _ sample_wrong_password, of sample_guarded sample_login sample_env]
  by (simp add: sample_guarded_def sample_login_def sample_world_def sample_conn_def Connection_new_def)

end
