(* ===== verification/Server_Theorems.thy ===== *)
theory Server_Theorems
  imports Server
begin

text \<open>
  The properties of the server (\<open>apps/rsmqttd\<close>): how it starts, and what its websocket writer sends.
\<close>

subsection \<open>Starting\<close>

lemma create_plugins_Inr:
  "create_plugins get_type registry configs acc = Inr plugins \<longleftrightarrow>
    (\<exists>new. plugins = acc @ new \<and> list_all2 (\<lambda>config plugin. \<exists>ty create. get_type config = YamlString ty \<and>
      registry ty = Some create \<and> create config = Inr plugin) configs new)"
proof (induction configs arbitrary: acc)
  case (Cons config configs)
  show ?case
    by (auto simp: Cons.IH list_all2_Cons1 split: yaml_field.split option.split sum.split)
qed auto

lemma ex_list_all2: "(\<exists>ys. list_all2 P xs ys) \<longleftrightarrow> (\<forall>x \<in> set xs. \<exists>y. P x y)"
  by (induction xs) (auto simp: list_all2_Cons1)

lemma ex_map_Inr: "(\<exists>ys. map f xs = map Inr ys) \<longleftrightarrow> (\<forall>x \<in> set xs. \<exists>y. f x = Inr y)"
  by (induction xs) (auto simp: map_eq_Cons_conv Cons_eq_map_conv)

text \<open>The service starts exactly if every plugin and every rewrite of its configuration can be created; it then has these
  plugins, in their order, and an empty storage.\<close>

theorem server_starts:
  "(\<exists>state. server_start get_type registry compile replace config = Inr state) \<longleftrightarrow>
    (\<forall>c \<in> set (config_plugins config). \<exists>ty create plugin. get_type c = YamlString ty \<and>
      registry ty = Some create \<and> create c = Inr plugin) \<and>
    (\<forall>r \<in> set (config_rewrites (config_service config)). \<exists>re. compile (rewrite_pattern r) = Inr re)"
proof -
  have "(\<exists>state. ServiceState_try_new compile replace service plugins = Inr state) \<longleftrightarrow>
      (\<exists>rs. Rewrites_try_new compile (config_rewrites service) [] = Inr rs)" for service plugins
    by (auto simp: ServiceState_try_new_def split: sum.split)
  then have "(\<exists>state. ServiceState_try_new compile replace service plugins = Inr state) \<longleftrightarrow>
      (\<forall>r \<in> set (config_rewrites service). \<exists>re. compile (rewrite_pattern r) = Inr re)" for service plugins
    by (simp add: Rewrites_try_new_Inr ex_map_Inr)
  moreover have "(\<exists>state. server_start get_type registry compile replace config = Inr state) \<longleftrightarrow>
      (\<exists>plugins. create_plugins get_type registry (config_plugins config) [] = Inr plugins \<and>
        (\<exists>state. ServiceState_try_new compile replace (config_service config) plugins = Inr state))"
    by (auto simp: server_start_def split: sum.splits)
  moreover have "(\<exists>plugins. create_plugins get_type registry (config_plugins config) [] = Inr plugins) \<longleftrightarrow>
      (\<forall>c \<in> set (config_plugins config). \<exists>ty create plugin. get_type c = YamlString ty \<and>
        registry ty = Some create \<and> create c = Inr plugin)"
    by (simp add: create_plugins_Inr ex_list_all2) blast
  ultimately show ?thesis by simp
qed

subsection \<open>Websockets\<close>

text \<open>A sink that records the messages it is given and whose flush is pending a number of times.\<close>

definition slow_sink :: "(ws_message list \<times> nat) sink_ops" where
  "slow_sink = \<lparr>sink_poll_ready = (\<lambda>s. (Ready (Inr ()), s)),
     sink_start_send = (\<lambda>msg (msgs, k). (Inr (), msgs @ [msg], k)),
     sink_poll_flush = (\<lambda>(msgs, k). if k = 0 then (Ready (Inr ()), msgs, k) else (Pending, msgs, k - 1)),
     sink_poll_close = (\<lambda>s. (Ready (Inr ()), s))\<rparr>"

text \<open>A write over a websocket is sent once for every time that the flush is pending, and once more: the writer
  says that it has written nothing although the message is on its way, and so the same bytes
  are written again.\<close>

theorem websocket_repeats:
  assumes "buf \<noteq> []"
  shows "write_all_polls (SinkWriter_poll_write slow_sink) (Suc k) buf (msgs, k) =
    Some (Inr (), msgs @ replicate (Suc k) (WsBinary buf), 0)"
proof -
  obtain x xs where buf: "buf = x # xs" using assms by (cases buf) auto
  show ?thesis
  proof (induction k arbitrary: msgs)
    case (Suc k)
    have "write_all_polls (SinkWriter_poll_write slow_sink) (Suc (Suc k)) buf (msgs, Suc k) =
        write_all_polls (SinkWriter_poll_write slow_sink) (Suc k) buf (msgs @ [WsBinary buf], k)"
      by (simp add: buf SinkWriter_poll_write_def slow_sink_def)
    then show ?case by (simp add: Suc.IH replicate_append_same [symmetric])
  qed (simp add: buf SinkWriter_poll_write_def slow_sink_def)
qed

lemma websocket_repeats_witness:
  "write_all_polls (SinkWriter_poll_write slow_sink) 2 [0xc0, 0] ([], 1) =
    Some (Inr (), [WsBinary [0xc0, 0], WsBinary [0xc0, 0]], 0)"
  using websocket_repeats [of "[0xc0, 0]" 1 "[]"] by (simp add: numeral_2_eq_2)

end
