(* ===== verification/Daemon.thy ===== *)
theory Daemon
  imports Broker
begin

text \<open>
  The process around the broker (\<open>apps/rsmqttd/src/main.rs\<close>, \<open>server.rs\<close>, \<open>ws_transport.rs\<close>, \<open>api.rs\<close>): the
  configuration file, the servers that are started, the listeners that accept connections, and the routes of the HTTP
  server. The file system, the YAML parser, the TLS library and the sockets are parameters. A listener is described by
  what it accepts, one after the other; the connections are the \<open>Accept\<close> events of the broker.
\<close>

subsection \<open>Start\<close>

definition DEFAULT_CONFIG_FILENAME :: string where
  "DEFAULT_CONFIG_FILENAME = ''.rsmqttd''"

text \<open>\<open>Path::join\<close> with a relative path on Unix.\<close>

definition path_join :: "string \<Rightarrow> string \<Rightarrow> string" where
  "path_join base name = (if base = [] \<or> last base = CHR ''/'' then base @ name else base @ ''/'' @ name)"

definition find_config :: "string option \<Rightarrow> string option \<Rightarrow> (string \<Rightarrow> bool) \<Rightarrow> string option" where
  "find_config option home_dir exists = (case option of
     Some config_filename \<Rightarrow> Some config_filename
   | None \<Rightarrow>
       (case map_option (\<lambda>home_dir. path_join home_dir DEFAULT_CONFIG_FILENAME) home_dir of
          Some file \<Rightarrow> if exists file then Some file else None
        | None \<Rightarrow> None))"

text \<open>The files: what is there, and what reading them gives.\<close>

record files =
  file_exists :: "string \<Rightarrow> bool"
  file_read :: "string \<Rightarrow> string + bytes"

datatype daemon_error =
    LoadConfigFile string string
  | ParseConfigFile string string
  | StartFailed start_error

text \<open>\<open>read_to_string\<close>, with what it does to bytes that are no UTF-8, is in \<open>read_text\<close>.\<close>

definition load_config ::
  "files \<Rightarrow> (bytes \<Rightarrow> string + string) \<Rightarrow> (string \<Rightarrow> string + 'v Config) \<Rightarrow> string option \<Rightarrow> daemon_error + 'v Config" where
  "load_config files read_text parse config_filename = (case config_filename of
     Some config_filename \<Rightarrow>
       (case file_read files config_filename of
          Inl e \<Rightarrow> Inl (LoadConfigFile config_filename e)
        | Inr data \<Rightarrow>
            (case read_text data of
               Inl e \<Rightarrow> Inl (LoadConfigFile config_filename e)
             | Inr text \<Rightarrow>
                 (case parse text of
                    Inl e \<Rightarrow> Inl (ParseConfigFile config_filename e)
                  | Inr config \<Rightarrow> Inr config)))
   | None \<Rightarrow> Inr Config_default)"

definition daemon_start ::
  "files \<Rightarrow> (bytes \<Rightarrow> string + string) \<Rightarrow> (string \<Rightarrow> string + 'v Config) \<Rightarrow> ('v Config \<Rightarrow> start_error + ServiceState)
   \<Rightarrow> string option \<Rightarrow> string option \<Rightarrow> daemon_error + ServiceState \<times> NetworkConfig" where
  "daemon_start files read_text parse start option home_dir =
     (case load_config files read_text parse (find_config option home_dir (file_exists files)) of
        Inl e \<Rightarrow> Inl e
      | Inr config \<Rightarrow>
          (case start config of
             Inl e \<Rightarrow> Inl (StartFailed e)
           | Inr state \<Rightarrow> Inr (state, config_network config)))"

subsection \<open>The TCP server\<close>

text \<open>What the TLS library makes of the two files: certificates, private keys, and a configuration.\<close>

record ('cert, 'key, 'tls) tls_ops =
  pem_certs :: "bytes \<Rightarrow> 'cert list option"
  pem_keys :: "bytes \<Rightarrow> 'key list option"
  single_cert :: "'cert list \<Rightarrow> 'key \<Rightarrow> string + 'tls"

datatype tcp_error =
    ReadCertificates string string
  | ReadKey string string
  | LoadCertificates
  | LoadKey
  | SetCertificate string
  | BindFailed string

text \<open>The last key of the file is used. The message about the key file has the name of the certificates file.\<close>

definition tls_setup ::
  "(string \<Rightarrow> string + bytes) \<Rightarrow> ('cert, 'key, 'tls) tls_ops \<Rightarrow> TlsConfig \<Rightarrow> (tcp_error, 'tls) Actions.outcome" where
  "tls_setup read ops tls =
     (case read (tls_cert tls) of
        Inl e \<Rightarrow> Failed (ReadCertificates (tls_cert tls) e)
      | Inr cert_data \<Rightarrow>
     (case read (tls_key tls) of
        Inl e \<Rightarrow> Failed (ReadKey (tls_cert tls) e)
      | Inr key_data \<Rightarrow>
     (case pem_certs ops cert_data of
        None \<Rightarrow> Failed LoadCertificates
      | Some cert \<Rightarrow>
     (case pem_keys ops key_data of
        None \<Rightarrow> Failed LoadKey
      | Some keys \<Rightarrow>
          if keys = [] then Panicked
          else (case single_cert ops cert (last keys) of
            Inl e \<Rightarrow> Failed (SetCertificate e)
          | Inr config \<Rightarrow> Finished config)))))"

text \<open>A server that listens: with the TLS configuration, if it has one.\<close>

definition tcp_listen ::
  "(string \<Rightarrow> string + bytes) \<Rightarrow> ('cert, 'key, 'tls) tls_ops \<Rightarrow> (string \<Rightarrow> u16 \<Rightarrow> string + unit) \<Rightarrow> TcpConfig
   \<Rightarrow> (tcp_error, 'tls option) Actions.outcome" where
  "tcp_listen read ops bind tcp_config =
     (let port = TcpConfig_port tcp_config;
          listen = (\<lambda>tls. case bind (tcp_host tcp_config) port of
             Inl e \<Rightarrow> Failed (BindFailed e) | Inr _ \<Rightarrow> Finished tls)
      in case tcp_tls tcp_config of
        Some tls_config \<Rightarrow>
          (case tls_setup read ops tls_config of
             Finished config \<Rightarrow> listen (Some config)
           | Failed e \<Rightarrow> Failed e
           | Panicked \<Rightarrow> Panicked
           | Aborted \<Rightarrow> Aborted)
      | None \<Rightarrow> listen None)"

text \<open>The loops that accept connections. Each call of \<open>accept\<close> gives an error, which ends the loop, or a stream with
  its address; with TLS the handshake comes first, in the same loop, and it may never complete. The connections
  that have been spawned, and where the loop is.\<close>

datatype listener = Accepting | AcceptFailed string | InHandshake

primrec accept_plain ::
  "('s \<Rightarrow> 'r \<times> 'w) \<Rightarrow> (string + 's \<times> string \<times> nat) list \<Rightarrow> ('r, 'w) broker_event list \<times> listener" where
  "accept_plain io_split [] = ([], Accepting)"
| "accept_plain io_split (x # xs) = (case x of
     Inl e \<Rightarrow> ([], AcceptFailed e)
   | Inr (stream, addr, now) \<Rightarrow>
       let (reader, writer) = io_split stream;
           (evs, l) = accept_plain io_split xs
       in (Accept (tcp_remote_addr addr) reader writer now # evs, l))"

primrec accept_tls ::
  "('s \<Rightarrow> (string + 't) option) \<Rightarrow> ('t \<Rightarrow> 'r \<times> 'w) \<Rightarrow> (string + 's \<times> string \<times> nat) list
   \<Rightarrow> ('r, 'w) broker_event list \<times> listener" where
  "accept_tls handshake io_split [] = ([], Accepting)"
| "accept_tls handshake io_split (x # xs) = (case x of
     Inl e \<Rightarrow> ([], AcceptFailed e)
   | Inr (stream, addr, now) \<Rightarrow>
       (case handshake stream of
          None \<Rightarrow> ([], InHandshake)
        | Some (Inl _) \<Rightarrow> accept_tls handshake io_split xs
        | Some (Inr stream) \<Rightarrow>
            let (reader, writer) = io_split stream;
                (evs, l) = accept_tls handshake io_split xs
            in (Accept (tcp_remote_addr addr) reader writer now # evs, l)))"

subsection \<open>The HTTP server\<close>

text \<open>A request: the segments of its path, whether its method is GET, whether it asks for a websocket, and the address
  it comes from.\<close>

record http_request =
  request_path :: "string list"
  request_get :: bool
  request_upgrade :: bool
  request_addr :: "string option"

datatype route = HealthRoute | WsRoute | ApiRoute

definition http_routes :: "HttpConfig \<Rightarrow> route list" where
  "http_routes http_config =
     (let routes = [HealthRoute];
          routes = (if http_websocket http_config then routes @ [WsRoute] else routes);
          routes = (if http_api http_config then routes @ [ApiRoute] else routes)
      in routes)"

datatype 'f http_reply = ReplyOk | ReplyUpgrade "(string \<times> string) list" RemoteAddr | ReplyMetrics "'f Metrics"

definition ws_handler :: "http_request \<Rightarrow> 'f http_reply option" where
  "ws_handler req =
     (if request_get req \<and> request_upgrade req
      then Some (ReplyUpgrade [(''Sec-WebSocket-Protocol'', ''mqtt'')] (ws_remote_addr (request_addr req)))
      else None)"

definition api_metrics :: "'f MetricsState \<Rightarrow> string list \<Rightarrow> 'f http_reply option" where
  "api_metrics ms segments = (if segments = [''metrics''] then Some (ReplyMetrics (ServiceState_metrics ms)) else None)"

definition route_reply :: "'f MetricsState \<Rightarrow> http_request \<Rightarrow> route \<Rightarrow> 'f http_reply option" where
  "route_reply ms req route = (case route of
     HealthRoute \<Rightarrow> if request_path req = [''health''] then Some ReplyOk else None
   | WsRoute \<Rightarrow> if request_path req = [''ws''] then ws_handler req else None
   | ApiRoute \<Rightarrow> (case request_path req of
       p # q # segments \<Rightarrow> if p = ''api'' \<and> q = ''v1'' then api_metrics ms segments else None
     | _ \<Rightarrow> None))"

text \<open>The first route that does not reject the request answers it.\<close>

primrec first_reply :: "'f MetricsState \<Rightarrow> http_request \<Rightarrow> route list \<Rightarrow> 'f http_reply option" where
  "first_reply ms req [] = None"
| "first_reply ms req (route # routes) =
     (case route_reply ms req route of Some reply \<Rightarrow> Some reply | None \<Rightarrow> first_reply ms req routes)"

definition http_handle :: "HttpConfig \<Rightarrow> 'f MetricsState \<Rightarrow> http_request \<Rightarrow> 'f http_reply option" where
  "http_handle http_config ms req = first_reply ms req (http_routes http_config)"

text \<open>Where the server listens; its host has to be an IP address, as the parameter \<open>parse_addr\<close> reads it.\<close>

definition http_listen :: "(string \<Rightarrow> string + 'ip) \<Rightarrow> HttpConfig \<Rightarrow> string + 'ip \<times> u16 \<times> TlsConfig option" where
  "http_listen parse_addr http_config =
     (let port = HttpConfig_port http_config
      in case parse_addr (http_host http_config) of
           Inl e \<Rightarrow> Inl e
         | Inr ip \<Rightarrow> Inr (ip, port, http_tls http_config))"

subsection \<open>All servers\<close>

datatype server = TcpServer TcpConfig | HttpServer HttpConfig

definition servers :: "NetworkConfig \<Rightarrow> server list" where
  "servers network =
     (let servers = [];
          servers = (case network_tcp network of Some c \<Rightarrow> servers @ [TcpServer c] | None \<Rightarrow> servers);
          servers = (case network_http network of Some c \<Rightarrow> servers @ [HttpServer c] | None \<Rightarrow> servers)
      in servers)"

text \<open>The log of the servers, given how each of them ends, if it ends: an error is logged and a panic is ignored.
  \<open>run\<close> returns when all of them have ended.\<close>

definition server_log :: "(string, unit) Actions.outcome \<Rightarrow> (string \<times> string) list" where
  "server_log res = (case res of Failed e \<Rightarrow> [(''tcp server'', e)] | _ \<Rightarrow> [])"

definition server_run ::
  "(server \<Rightarrow> (string, unit) Actions.outcome option) \<Rightarrow> NetworkConfig \<Rightarrow> (string \<times> string) list \<times> bool" where
  "server_run serve network =
     (concat (map (\<lambda>s. case serve s of Some res \<Rightarrow> server_log res | None \<Rightarrow> []) (servers network)),
      list_all (\<lambda>s. serve s \<noteq> None) (servers network))"

end
