(* ===== verification/Daemon_Theorems.thy ===== *)
theory Daemon_Theorems
  imports Broker_Samples Daemon
begin

text \<open>
  What the process around the broker does: which configuration it starts with, when it panics, which connections the
  listeners hand to the broker, and which requests the HTTP server answers.
\<close>

subsection \<open>Start\<close>

text \<open>A file that is named has to be there; without a name, a missing default file means the default configuration.\<close>

theorem default_config_used:
  assumes "\<not> file_exists files (path_join home ''.rsmqttd'')"
  shows "daemon_start files read_text parse start None (Some home) = daemon_start files read_text parse start None None"
    and "daemon_start files read_text parse start None None =
      (case start Config_default of Inl e \<Rightarrow> Inl (StartFailed e) | Inr state \<Rightarrow> Inr (state, NetworkConfig_default))"
    and "file_read files file = Inl e \<Longrightarrow>
      daemon_start files read_text parse start (Some file) home_dir = Inl (LoadConfigFile file e)"
  using assms by (simp_all add: daemon_start_def find_config_def load_config_def DEFAULT_CONFIG_FILENAME_def Config_default_def
      split: sum.split)

text \<open>The ports of the default configuration.\<close>

lemma default_servers:
  "servers NetworkConfig_default =
     [TcpServer \<lparr>tcp_host = ''127.0.0.1'', tcp_port = None, tcp_tls = None\<rparr>,
      HttpServer \<lparr>http_host = ''127.0.0.1'', http_port = None, http_tls = None, http_websocket = True, http_api = True,
        http_graphql_api = True\<rparr>]"
  "TcpConfig_port \<lparr>tcp_host = h, tcp_port = None, tcp_tls = None\<rparr> = 1883"
  "HttpConfig_port \<lparr>http_host = h, http_port = None, http_tls = None, http_websocket = w, http_api = a, http_graphql_api = g\<rparr> = 8080"
  by (simp_all add: servers_def NetworkConfig_default_def default_host_def TcpConfig_port_def HttpConfig_port_def)

text \<open>The setup of TLS panics exactly if both files are there and the key file is well-formed, but has no RSA key.\<close>

theorem tls_setup_panics:
  "tls_setup read ops tls = Panicked \<longleftrightarrow>
     (\<exists>cert_data key_data. read (tls_cert tls) = Inr cert_data \<and> read (tls_key tls) = Inr key_data \<and>
        pem_certs ops cert_data \<noteq> None \<and> pem_keys ops key_data = Some [])"
  by (auto simp: tls_setup_def split: sum.split option.split)

text \<open>The error about a key file that cannot be read names the certificates file.\<close>

theorem key_error_names_certificates:
  assumes "read (tls_cert tls) = Inr cert_data" "read (tls_key tls) = Inl e"
  shows "tls_setup read ops tls = Failed (ReadKey (tls_cert tls) e)"
  using assms by (simp add: tls_setup_def)

text \<open>No error of a server reaches the caller of \<open>run\<close>: with all servers failed, it returns.\<close>

lemma servers_all_failed:
  assumes "\<And>s. serve s = Some (Failed e)"
  shows "snd (server_run serve network)"
  by (simp add: server_run_def assms list_all_iff)

subsection \<open>Listeners\<close>

definition spawned :: "('s \<Rightarrow> 'r \<times> 'w) \<Rightarrow> 's \<times> string \<times> nat \<Rightarrow> ('r, 'w) broker_event" where
  "spawned io_split = (\<lambda>(stream, addr, now). case io_split stream of (r, w) \<Rightarrow> Accept (tcp_remote_addr addr) r w now)"

lemma accept_plain_all:
  "accept_plain io_split (map Inr xs @ ys) =
     (map (spawned io_split) xs @ fst (accept_plain io_split ys), snd (accept_plain io_split ys))"
  by (induction xs) (auto simp: spawned_def Let_def split: prod.split)

text \<open>The connections whose handshake succeeds.\<close>

definition secured :: "('s \<Rightarrow> (string + 't) option) \<Rightarrow> ('s \<times> string \<times> nat) list \<Rightarrow> ('t \<times> string \<times> nat) list" where
  "secured handshake xs = List.map_filter (\<lambda>(stream, addr, now). case handshake stream of
     Some (Inr stream) \<Rightarrow> Some (stream, addr, now) | _ \<Rightarrow> None) xs"

lemma accept_tls_all:
  assumes "\<forall>x \<in> set xs. handshake (fst x) \<noteq> None"
  shows "accept_tls handshake io_split (map Inr xs @ ys) =
     (map (spawned io_split) (secured handshake xs) @ fst (accept_tls handshake io_split ys), snd (accept_tls handshake io_split ys))"
  using assms
  by (induction xs) (auto simp: secured_def spawned_def map_filter_simps Let_def split: prod.split sum.split)

text \<open>One TLS client blocks the server: the listener waits for a handshake before it accepts again, so that behind a
  connection whose handshake does not complete no other one is ever served, while without TLS every one is
  handed to the broker.\<close>

theorem tls_handshake_blocks:
  assumes "handshake stream = None" "\<forall>x \<in> set xs. handshake (fst x) \<noteq> None"
  shows "accept_tls handshake io_split (map Inr xs @ Inr (stream, addr, now) # ys) =
      (map (spawned io_split) (secured handshake xs), InHandshake) \<and>
    accept_plain plain_split (map Inr xs @ Inr (stream, addr, now) # map Inr zs) =
      (map (spawned plain_split) (xs @ (stream, addr, now) # zs), Accepting)"
  using accept_tls_all [OF assms(2), of io_split "Inr (stream, addr, now) # ys"] assms(1)
    accept_plain_all [of plain_split "xs @ (stream, addr, now) # zs" "[]"] by simp_all

text \<open>Two connections, the first of which does not start its handshake.\<close>

lemma tls_handshake_blocks_witness:
  "accept_tls (\<lambda>s. if s = ''slow'' then None else Some (Inr s)) (\<lambda>s. (s, s))
     [Inr (''good'', ''10.0.0.1:1'', 0), Inr (''slow'', ''10.0.0.2:1'', 1), Inr (''good'', ''10.0.0.3:1'', 2)] =
   ([Accept (tcp_remote_addr ''10.0.0.1:1'') ''good'' ''good'' 0], InHandshake)"
  using tls_handshake_blocks [of "\<lambda>s. if s = ''slow'' then None else Some (Inr s)" "''slow''" "[(''good'', ''10.0.0.1:1'', 0)]"
      "\<lambda>s. (s, s)" "''10.0.0.2:1''" 1 "[Inr (''good'', ''10.0.0.3:1'', 2)]"]
  by (simp add: secured_def map_filter_simps spawned_def)

text \<open>The connections of a listener become tasks of the broker, at any time, each with a channel of its own.\<close>

definition is_accept :: "('r, 'w) broker_event \<Rightarrow> bool" where
  "is_accept ev \<longleftrightarrow> (case ev of Accept _ _ _ _ \<Rightarrow> True | _ \<Rightarrow> False)"

lemma accepted_run:
  assumes "broker_run ops b0 steps b" "list_all is_accept evs"
  shows "\<exists>steps' b'. broker_run ops b0 (steps @ steps') b' \<and> map fst steps' = evs \<and>
    map fst (broker_tasks b') = map fst (broker_tasks b) @ map (\<lambda>i. broker_channels b + i) [0..<length evs] \<and>
    broker_channels b' = broker_channels b + length evs"
  using assms(2)
proof (induction evs rule: rev_induct)
  case Nil
  then show ?case using assms(1) by (intro exI [of _ "[]"]) auto
next
  case (snoc ev evs)
  then obtain steps' b' where IH: "broker_run ops b0 (steps @ steps') b'" "map fst steps' = evs"
    "map fst (broker_tasks b') = map fst (broker_tasks b) @ map (\<lambda>i. broker_channels b + i) [0..<length evs]"
    "broker_channels b' = broker_channels b + length evs"
    by auto
  obtain a r w now where ev: "ev = Accept a r w now"
    using snoc.prems by (auto simp: is_accept_def split: broker_event.splits)
  have "broker_run ops b0 ((steps @ steps') @ [(ev, b')]) (spawn_connection a r w now b')"
    using IH(1) by (rule broker_run.step [where res = "Finished ()"]) (simp_all add: ev broker_ready_def broker_step_def)
  then show ?case
    using IH(2-4) by (intro exI [of _ "steps' @ [(ev, b')]"] exI [of _ "spawn_connection a r w now b'"])
      (simp add: spawn_connection_def Let_def)
qed

subsection \<open>Requests\<close>

text \<open>What the HTTP server answers, and that the flag of the GraphQL API means nothing.\<close>

theorem http_handle_answers:
  "http_handle c ms req =
     (if request_path req = [''health''] then Some ReplyOk
      else if request_path req = [''ws''] \<and> http_websocket c \<and> request_get req \<and> request_upgrade req
        then Some (ReplyUpgrade [(''Sec-WebSocket-Protocol'', ''mqtt'')] (ws_remote_addr (request_addr req)))
      else if request_path req = [''api'', ''v1'', ''metrics''] \<and> http_api c then Some (ReplyMetrics (ServiceState_metrics ms))
      else None)"
  by (auto simp: http_handle_def http_routes_def Let_def route_reply_def ws_handler_def api_metrics_def split: list.split)

corollary graphql_api_ignored: "http_handle (c\<lparr>http_graphql_api := g\<rparr>) ms req = http_handle c ms req"
  by (simp add: http_handle_answers)

end
