(* ===== verification/Test_Runner.thy ===== *)
theory Test_Runner
  imports "HOL-Library.Multiset" Broker
begin

text \<open>
  The runner of the end-to-end tests (\<open>libs/testutil\<close>): a suite is a tree of steps, which clients on in-memory
  pipes execute against the service. A step that does not wait for others is one call; the calls hold the lock of the
  runner's context, so that the parallel branches of a suite are interleaved call by call. A panic is \<open>None\<close>.
\<close>

subsection \<open>Suites\<close>

datatype Step =
    StepConnect "RemoteAddr option"
  | StepDisconnect
  | StepSend Packet
  | StepReceive Packet "u64 option"
  | StepEof
  | StepDelay u64
  | StepParallel "Step list"
  | StepSequence "string option" "string option" "Step list"

record 'v Suite =
  suite_config :: ServiceConfig
  suite_plugins :: "'v list"
  suite_step :: Step
  suite_disable :: bool

subsection \<open>Calls\<close>

record ('r, 'w) TestClient =
  client_codec :: Codec
  client_reader :: 'r
  client_writer :: 'w

record ('r, 'w, 'f) RunnerContext =
  ctx_broker :: "('r, 'w, 'f) Broker"
  ctx_clients :: "(string \<times> ('r, 'w) TestClient) list"

text \<open>What a call meets: the two ends of a new pipe, how its bytes are read and written, whether a packet is
  decoded before the timeout, how long that takes in nanoseconds, and the time.\<close>

record ('r, 'w) StepEnv =
  senv_server :: "'r \<times> 'w"
  senv_client :: "'r \<times> 'w"
  senv_read :: "'r \<Rightarrow> (io_error + bytes) \<times> 'r"
  senv_write_all :: "'w \<Rightarrow> bytes \<Rightarrow> (io_error + unit) \<times> 'w"
  senv_timely :: bool
  senv_elapsed :: nat
  senv_instant :: nat

definition decode_in_time ::
  "('r, 'w) StepEnv \<Rightarrow> ('r, 'w) TestClient \<Rightarrow> ((DecodeError + (Packet \<times> nat) option) \<times> ('r, 'w) TestClient) option" where
  "decode_in_time env client =
     (if senv_timely env
      then (let (result, r, codec) = Codec_decode (senv_read env) (client_reader client) (client_codec client)
        in Some (result, client\<lparr>client_codec := codec, client_reader := r\<rparr>))
      else None)"

definition step_connect ::
  "string \<Rightarrow> RemoteAddr option \<Rightarrow> ('r, 'w) StepEnv \<Rightarrow> ('r, 'w, 'f) RunnerContext \<Rightarrow> ('r, 'w, 'f) RunnerContext option" where
  "step_connect key remote_addr env ctx =
     (let (server_reader, server_writer) = senv_server env;
          (client_reader, client_writer) = senv_client env;
          client = \<lparr>client_codec = Codec_new, client_reader = client_reader, client_writer = client_writer\<rparr>;
          remote_addr = (case remote_addr of Some a \<Rightarrow> a
            | None \<Rightarrow> \<lparr>remote_protocol = ''memory'', remote_address = Some key\<rparr>);
          broker = spawn_connection remote_addr server_reader server_writer (senv_instant env) (ctx_broker ctx)
      in if map_of (ctx_clients ctx) key = None
         then Some (ctx\<lparr>ctx_broker := broker, ctx_clients := (key, client) # ctx_clients ctx\<rparr>)
         else None)"

definition step_send ::
  "string \<Rightarrow> string option \<Rightarrow> Packet \<Rightarrow> ('r, 'w) StepEnv \<Rightarrow> ('r, 'w, 'f) RunnerContext \<Rightarrow> ('r, 'w, 'f) RunnerContext option" where
  "step_send key client_id packet env ctx =
     (let packet = (case packet of
          Packet.Connect connect \<Rightarrow> Packet.Connect (connect\<lparr>connect_client_id := (case client_id of Some c \<Rightarrow> c | None \<Rightarrow> key)\<rparr>)
        | _ \<Rightarrow> packet)
      in case map_of (ctx_clients ctx) key of
           None \<Rightarrow> None
         | Some client \<Rightarrow>
             (case Codec_encode (senv_write_all env) packet (client_writer client) (client_codec client) of
                (Inl _, _, _) \<Rightarrow> None
              | (Inr _, w, codec) \<Rightarrow> Some (ctx\<lparr>ctx_clients :=
                  AList.update key (client\<lparr>client_codec := codec, client_writer := w\<rparr>) (ctx_clients ctx)\<rparr>)))"

definition step_receive ::
  "string \<Rightarrow> Packet \<Rightarrow> u64 option \<Rightarrow> ('r, 'w) StepEnv \<Rightarrow> ('r, 'w, 'f) RunnerContext \<Rightarrow> ('r, 'w, 'f) RunnerContext option" where
  "step_receive key packet after env ctx =
     (case map_of (ctx_clients ctx) key of
        None \<Rightarrow> None
      | Some client \<Rightarrow>
          (case decode_in_time env client of
             Some (Inr (Some (recv_packet, _)), client) \<Rightarrow>
               if (case after of Some after \<Rightarrow> senv_elapsed env < unat after * 10 ^ 9 | None \<Rightarrow> False) then None
               else if packet = recv_packet
               then Some (ctx\<lparr>ctx_clients := AList.update key client (ctx_clients ctx)\<rparr>)
               else None
           | _ \<Rightarrow> None))"

definition step_eof ::
  "string \<Rightarrow> ('r, 'w) StepEnv \<Rightarrow> ('r, 'w, 'f) RunnerContext \<Rightarrow> ('r, 'w, 'f) RunnerContext option" where
  "step_eof key env ctx =
     (case map_of (ctx_clients ctx) key of
        None \<Rightarrow> None
      | Some client \<Rightarrow>
          (case decode_in_time env client of
             Some (Inr None, client) \<Rightarrow> Some (ctx\<lparr>ctx_clients := AList.update key client (ctx_clients ctx)\<rparr>)
           | _ \<Rightarrow> None))"

definition step_disconnect :: "string \<Rightarrow> ('r, 'w, 'f) RunnerContext \<Rightarrow> ('r, 'w, 'f) RunnerContext option" where
  "step_disconnect key ctx =
     (if map_of (ctx_clients ctx) key = None then None
      else Some (ctx\<lparr>ctx_clients := AList.delete key (ctx_clients ctx)\<rparr>))"

text \<open>One call. Only a delay does without a connection id; the branching steps are no calls.\<close>

definition execute_call ::
  "Step \<Rightarrow> string option \<Rightarrow> string option \<Rightarrow> ('r, 'w) StepEnv \<Rightarrow> ('r, 'w, 'f) RunnerContext
   \<Rightarrow> ('r, 'w, 'f) RunnerContext option" where
  "execute_call step key client_id env ctx =
     (case (step, key) of
        (StepConnect remote_addr, Some key) \<Rightarrow> step_connect key remote_addr env ctx
      | (StepDisconnect, Some key) \<Rightarrow> step_disconnect key ctx
      | (StepSend packet, Some key) \<Rightarrow> step_send key client_id packet env ctx
      | (StepReceive packet after, Some key) \<Rightarrow> step_receive key packet after env ctx
      | (StepEof, Some key) \<Rightarrow> step_eof key env ctx
      | (StepDelay _, _) \<Rightarrow> Some ctx
      | _ \<Rightarrow> None)"

subsection \<open>Schedules\<close>

text \<open>The orders in which the calls of a step can be made, each with the ids it is made with: those of a sequence one
  after the other, those of parallel steps interleaved. The id of an outer sequence is kept, while the client id
  of an outer sequence is replaced.\<close>

type_synonym step_call = "Step \<times> string option \<times> string option"

definition in_sequence :: "step_call list set \<Rightarrow> step_call list set \<Rightarrow> step_call list set" where
  "in_sequence A B = (\<Union>a \<in> A. (\<lambda>b. a @ b) ` B)"

definition in_parallel :: "step_call list set \<Rightarrow> step_call list set \<Rightarrow> step_call list set" where
  "in_parallel A B = (\<Union>a \<in> A. \<Union>b \<in> B. shuffles a b)"

fun execute_step :: "Step \<Rightarrow> string option \<Rightarrow> string option \<Rightarrow> step_call list set" where
  "execute_step (StepParallel steps) key client_id =
     foldr in_parallel (map (\<lambda>step. execute_step step key client_id) steps) {[]}"
| "execute_step (StepSequence new_id client_id' steps) key client_id =
     foldr in_sequence (map (\<lambda>step. execute_step step (case key of Some i \<Rightarrow> Some i | None \<Rightarrow> new_id) client_id') steps) {[]}"
| "execute_step step key client_id = {[(step, key, client_id)]}"

text \<open>A run of a suite, given the order of its calls; the server runs between them.\<close>

datatype ('r, 'w) runner_event = RunCall step_call "('r, 'w) StepEnv" | RunServer "('r, 'w) broker_event"

definition runner_step ::
  "'f float_ops \<Rightarrow> ('r, 'w) runner_event \<Rightarrow> ('r, 'w, 'f) RunnerContext \<Rightarrow> ('r, 'w, 'f) RunnerContext option" where
  "runner_step ops ev ctx = (case ev of
     RunCall (step, key, client_id) env \<Rightarrow> execute_call step key client_id env ctx
   | RunServer ev \<Rightarrow> Some (ctx\<lparr>ctx_broker := snd (broker_step ops ev (ctx_broker ctx))\<rparr>))"

fun runner_steps ::
  "'f float_ops \<Rightarrow> ('r, 'w) runner_event list \<Rightarrow> ('r, 'w, 'f) RunnerContext \<Rightarrow> ('r, 'w, 'f) RunnerContext option" where
  "runner_steps ops [] ctx = Some ctx"
| "runner_steps ops (ev # evs) ctx = (case runner_step ops ev ctx of None \<Rightarrow> None | Some ctx \<Rightarrow> runner_steps ops evs ctx)"

definition run_calls :: "('r, 'w) runner_event list \<Rightarrow> step_call list" where
  "run_calls evs = List.map_filter (\<lambda>ev. case ev of RunCall call _ \<Rightarrow> Some call | RunServer _ \<Rightarrow> None) evs"

text \<open>\<open>run\<close>: the outcome of a suite, \<open>None\<close> if the events are not a run of it, \<open>Some None\<close> for a panic.\<close>

definition run_suite ::
  "'f float_ops \<Rightarrow> (string \<Rightarrow> string + 're) \<Rightarrow> ('re \<Rightarrow> string \<Rightarrow> string \<Rightarrow> cow) \<Rightarrow> ('v list \<Rightarrow> Plugin list) \<Rightarrow> nat
   \<Rightarrow> 'v Suite \<Rightarrow> ('r, 'w) runner_event list \<Rightarrow> ('r, 'w, 'f) RunnerContext option option" where
  "run_suite ops compile replace plugins_of start suite evs =
     (case ServiceState_try_new compile replace (suite_config suite) (plugins_of (suite_plugins suite)) of
        Inl _ \<Rightarrow> Some None
      | Inr state \<Rightarrow>
          if run_calls evs \<in> execute_step (suite_step suite) None None
          then Some (map_option (\<lambda>ctx. ctx\<lparr>ctx_clients := []\<rparr>)
            (runner_steps ops evs \<lparr>ctx_broker = Broker_new ops start state, ctx_clients = []\<rparr>))
          else None)"

text \<open>\<open>run_yaml_file\<close>: nothing happens for a suite that is disabled.\<close>

definition run_yaml_file ::
  "(string \<Rightarrow> string option) \<Rightarrow> (string \<Rightarrow> 'v Suite option) \<Rightarrow> ('v Suite \<Rightarrow> 'c option) \<Rightarrow> 'c \<Rightarrow> string \<Rightarrow> 'c option" where
  "run_yaml_file read parse run ctx file =
     (case Option.bind (read file) parse of
        None \<Rightarrow> None
      | Some suite \<Rightarrow> if suite_disable suite then Some ctx else run suite)"

subsection \<open>What a schedule is\<close>

text \<open>The calls of a step, depth first.\<close>

fun calls :: "Step \<Rightarrow> string option \<Rightarrow> string option \<Rightarrow> step_call list" where
  "calls (StepParallel steps) key client_id = concat (map (\<lambda>step. calls step key client_id) steps)"
| "calls (StepSequence new_id client_id' steps) key client_id =
     concat (map (\<lambda>step. calls step (case key of Some i \<Rightarrow> Some i | None \<Rightarrow> new_id) client_id') steps)"
| "calls step key client_id = [(step, key, client_id)]"

lemma append_in_shuffles: "xs @ ys \<in> shuffles xs ys"
  by (induction xs) (auto simp: Cons_in_shuffles_leftI)

text \<open>Both ways of putting schedules together: appended schedules are there, and no call is lost or doubled.\<close>

definition joins :: "(step_call list set \<Rightarrow> step_call list set \<Rightarrow> step_call list set) \<Rightarrow> bool" where
  "joins both \<longleftrightarrow> (\<forall>A B. \<forall>a \<in> A. \<forall>b \<in> B. a @ b \<in> both A B) \<and>
     (\<forall>A B. \<forall>s \<in> both A B. \<exists>a \<in> A. \<exists>b \<in> B. mset s = mset a + mset b)"

lemma joins: "joins in_sequence" "joins in_parallel"
proof -
  show "joins in_sequence" by (fastforce simp: joins_def in_sequence_def)
  have "\<exists>a \<in> A. \<exists>b \<in> B. mset s = mset a + mset b" if s: "s \<in> in_parallel A B" for A B s
  proof -
    from s obtain a b where "a \<in> A" "b \<in> B" "s \<in> shuffles a b" by (auto simp: in_parallel_def)
    with mset_shuffles [of s a b] show ?thesis by blast
  qed
  moreover have "a @ b \<in> in_parallel A B" if "a \<in> A" "b \<in> B" for A B a b
    using that append_in_shuffles [of a b] by (auto simp: in_parallel_def)
  ultimately show "joins in_parallel" by (simp add: joins_def)
qed

lemma joinsD:
  assumes "joins both"
  shows "a \<in> A \<Longrightarrow> b \<in> B \<Longrightarrow> a @ b \<in> both A B"
    and "s \<in> both A B \<Longrightarrow> \<exists>a \<in> A. \<exists>b \<in> B. mset s = mset a + mset b"
  using assms by (simp_all add: joins_def)

definition schedules_of :: "step_call list \<Rightarrow> step_call list set \<Rightarrow> bool" where
  "schedules_of xs A \<longleftrightarrow> xs \<in> A \<and> (\<forall>s \<in> A. mset s = mset xs)"

lemma joins_schedules:
  assumes "joins both" "schedules_of xs A" "schedules_of ys B"
  shows "schedules_of (xs @ ys) (both A B)"
  unfolding schedules_of_def
proof (intro conjI ballI)
  show "xs @ ys \<in> both A B" using joinsD(1) [OF assms(1)] assms(2,3) by (simp only: schedules_of_def)
  fix s
  assume "s \<in> both A B"
  from joinsD(2) [OF assms(1) this] obtain a b where "a \<in> A" "b \<in> B" "mset s = mset a + mset b" by (elim bexE)
  moreover have "mset a = mset xs" "mset b = mset ys"
    using \<open>a \<in> A\<close> \<open>b \<in> B\<close> assms(2,3) unfolding schedules_of_def by blast+
  ultimately show "mset s = mset (xs @ ys)" by simp
qed

lemma foldr_schedules:
  assumes "joins both" "\<And>step. step \<in> set steps \<Longrightarrow> schedules_of (f step) (F step)"
  shows "schedules_of (concat (map f steps)) (foldr both (map F steps) {[]})"
  using assms(2)
proof (induction steps)
  case (Cons step steps)
  then show ?case using joins_schedules [OF assms(1), of "f step" "F step"] by simp
qed (simp add: schedules_of_def)

text \<open>Every schedule of a suite makes each of its calls exactly once, and depth first is one of the schedules.\<close>

theorem execute_step_calls: "schedules_of (calls step key client_id) (execute_step step key client_id)"
proof (induction step key client_id rule: calls.induct)
  case (1 steps key client_id)
  then show ?case by (simp add: foldr_schedules [OF joins(2)])
next
  case (2 new_id client_id' steps key client_id)
  then show ?case by (simp add: foldr_schedules [OF joins(1)])
qed (simp_all add: schedules_of_def)

text \<open>The id of the outermost sequence that has one is that of all connections below it.\<close>

theorem outer_id_kept: "call \<in> set (calls step (Some i) client_id) \<Longrightarrow> fst (snd call) = Some i"
  by (induction step "Some i" client_id rule: calls.induct) auto

end
