(* ===== verification/Mqtt_Client.thy ===== *)
theory Mqtt_Client
  imports Codec Packet_Id_Allocator Actions "HOL-Library.AList"
begin

text \<open>
  The client library (\<open>libs/client/src\<close>): the builders of commands and the task \<open>Core\<close> that keeps a connection
  to a broker. A handler of \<open>Core\<close> works on the core and the connected state; the transport, the clock
  and whether somebody still receives the messages are its environment. The library is not a member of the
  workspace and does not compile as it stands: \<open>InflightPacket\<close> and the type aliases for results have no
  definition. Here \<open>InflightPacket\<close> has the two fields that its uses name, all errors are values of one type
  \<open>ClientError\<close>, and the reply of a command is optional, as in its uses. A channel for a reply is a
  number, and the replies that are sent are recorded.
\<close>

subsection \<open>Commands and messages\<close>

type_synonym reply = nat

record ClientMessage =
  cmsg_tx_command :: bool
  cmsg_packet_id :: "u16 option"
  cmsg_topic :: string
  cmsg_qos :: Qos
  cmsg_payload :: bytes
  cmsg_retain :: bool
  cmsg_properties :: PublishProperties

text \<open>Of \<open>tx_command\<close>, which is the channel of the client itself, only its presence is kept.\<close>

definition ClientMessage_new :: "bool \<Rightarrow> Publish \<Rightarrow> ClientMessage" where
  "ClientMessage_new tx_command publish = \<lparr>cmsg_tx_command = tx_command,
     cmsg_packet_id = publish_packet_id publish, cmsg_topic = publish_topic publish,
     cmsg_qos = publish_qos publish, cmsg_payload = publish_payload publish,
     cmsg_retain = publish_retain publish, cmsg_properties = publish_properties publish\<rparr>"

record SubscribeCommand =
  subcmd_filters :: "SubscribeFilter list"

record UnsubscribeCommand =
  unsubcmd_filters :: "string list"

record PublishCommand =
  pubcmd_publish :: Publish
  pubcmd_reply :: "reply option"

record RequestCommand =
  reqcmd_publish :: Publish
  reqcmd_reply :: "reply option"

record AckCommand =
  ackcmd_packet_id :: u16
  ackcmd_qos :: Qos
  ackcmd_reply :: reply

datatype Command =
    CommandSubscribe SubscribeCommand
  | CommandUnsubscribe UnsubscribeCommand
  | CommandPublish PublishCommand
  | CommandRequest RequestCommand
  | CommandAck AckCommand

datatype ClientError =
    DisconnectByServer "DisconnectReasonCode option"
  | Handshake ConnectReasonCode
  | PubAckError PubAckReasonCode
  | PubRecError PubRecReasonCode
  | ProtocolError
  | ClientClosed
  | EncodeFailed EncodeError
  | DecodeFailed DecodeError

text \<open>\<open>ack\<close>: nothing for QoS 0, otherwise a command; \<open>unwrap\<close> may panic.\<close>

definition ClientMessage_ack :: "reply \<Rightarrow> ClientMessage \<Rightarrow> (ClientError, Command option) outcome" where
  "ClientMessage_ack tx_reply msg =
     (case cmsg_qos msg of
        AtMostOnce \<Rightarrow> Finished None
      | _ \<Rightarrow>
          if \<not> cmsg_tx_command msg then Panicked
          else (case cmsg_packet_id msg of
              None \<Rightarrow> Panicked
            | Some packet_id \<Rightarrow> Finished (Some (CommandAck \<lparr>ackcmd_packet_id = packet_id,
                ackcmd_qos = AtMostOnce, ackcmd_reply = tx_reply\<rparr>))))"

subsection \<open>Builders\<close>

definition ClientBuilder_new :: Connect where
  "ClientBuilder_new = \<lparr>connect_level = V5, connect_keep_alive = 30, connect_clean_start = False,
     connect_client_id = [], connect_last_will = None, connect_login = None,
     connect_properties = ConnectProperties_default\<rparr>"

definition ClientBuilder_keep_alive :: "u16 \<Rightarrow> Connect \<Rightarrow> Connect" where
  "ClientBuilder_keep_alive seconds c = c\<lparr>connect_keep_alive := seconds\<rparr>"

definition ClientBuilder_clean_start :: "Connect \<Rightarrow> Connect" where
  "ClientBuilder_clean_start c = c\<lparr>connect_clean_start := True\<rparr>"

definition ClientBuilder_client_id :: "string \<Rightarrow> Connect \<Rightarrow> Connect" where
  "ClientBuilder_client_id client_id c = c\<lparr>connect_client_id := client_id\<rparr>"

definition ClientBuilder_login :: "string \<Rightarrow> string \<Rightarrow> Connect \<Rightarrow> Connect" where
  "ClientBuilder_login user passwd c =
     c\<lparr>connect_login := Some \<lparr>username = user, password = passwd\<rparr>\<rparr>"

definition ClientBuilder_session_expiry_interval :: "u32 \<Rightarrow> Connect \<Rightarrow> Connect" where
  "ClientBuilder_session_expiry_interval value c =
     c\<lparr>connect_properties := (connect_properties c)\<lparr>connprop_session_expiry_interval := Some value\<rparr>\<rparr>"

definition ClientBuilder_receive_max :: "u16 \<Rightarrow> Connect \<Rightarrow> Connect" where
  "ClientBuilder_receive_max value c =
     c\<lparr>connect_properties := (connect_properties c)\<lparr>connprop_receive_max := Some value\<rparr>\<rparr>"

definition ClientBuilder_max_packet_size :: "u32 \<Rightarrow> Connect \<Rightarrow> Connect" where
  "ClientBuilder_max_packet_size value c =
     c\<lparr>connect_properties := (connect_properties c)\<lparr>connprop_max_packet_size := Some value\<rparr>\<rparr>"

definition ClientBuilder_topic_alias_max :: "u16 \<Rightarrow> Connect \<Rightarrow> Connect" where
  "ClientBuilder_topic_alias_max value c =
     c\<lparr>connect_properties := (connect_properties c)\<lparr>connprop_topic_alias_max := Some value\<rparr>\<rparr>"

definition ClientBuilder_user_property :: "string \<Rightarrow> string \<Rightarrow> Connect \<Rightarrow> Connect" where
  "ClientBuilder_user_property name value c =
     c\<lparr>connect_properties := (connect_properties c)\<lparr>connprop_user_properties :=
       connprop_user_properties (connect_properties c) @ [(name, value)]\<rparr>\<rparr>"

definition PublishBuilder_new :: "string \<Rightarrow> Publish" where
  "PublishBuilder_new topic = \<lparr>publish_dup = False, publish_qos = AtMostOnce, publish_retain = False,
     publish_topic = topic, publish_packet_id = None, publish_properties = PublishProperties_default,
     publish_payload = []\<rparr>"

definition PublishBuilder_retain :: "Publish \<Rightarrow> Publish" where
  "PublishBuilder_retain p = p\<lparr>publish_retain := True\<rparr>"

definition PublishBuilder_qos :: "Qos \<Rightarrow> Publish \<Rightarrow> Publish" where
  "PublishBuilder_qos qos p = p\<lparr>publish_qos := qos\<rparr>"

definition PublishBuilder_payload :: "bytes \<Rightarrow> Publish \<Rightarrow> Publish" where
  "PublishBuilder_payload payload p = p\<lparr>publish_payload := payload\<rparr>"

definition PublishBuilder_content_type :: "string \<Rightarrow> Publish \<Rightarrow> Publish" where
  "PublishBuilder_content_type ty p =
     p\<lparr>publish_properties := (publish_properties p)\<lparr>pubprop_content_type := Some ty\<rparr>\<rparr>"

definition PublishBuilder_expiry_interval :: "u32 \<Rightarrow> Publish \<Rightarrow> Publish" where
  "PublishBuilder_expiry_interval seconds p =
     p\<lparr>publish_properties := (publish_properties p)\<lparr>pubprop_message_expiry_interval := Some seconds\<rparr>\<rparr>"

definition PublishBuilder_user_property :: "string \<Rightarrow> string \<Rightarrow> Publish \<Rightarrow> Publish" where
  "PublishBuilder_user_property name value p =
     p\<lparr>publish_properties := (publish_properties p)\<lparr>pubprop_user_properties :=
       pubprop_user_properties (publish_properties p) @ [(name, value)]\<rparr>\<rparr>"

text \<open>The command that \<open>send\<close> puts on the channel, and what the caller gets: with QoS 0 nothing is
  awaited, otherwise the reply, or an error when its sender is dropped.\<close>

definition PublishBuilder_send :: "reply \<Rightarrow> Publish \<Rightarrow> Command" where
  "PublishBuilder_send tx_reply publish = CommandPublish \<lparr>pubcmd_publish = publish,
     pubcmd_reply = (case publish_qos publish of AtMostOnce \<Rightarrow> None | _ \<Rightarrow> Some tx_reply)\<rparr>"

definition PublishBuilder_result :: "Publish \<Rightarrow> (ClientError + unit) option \<Rightarrow> ClientError + unit" where
  "PublishBuilder_result publish rx_reply =
     (case publish_qos publish of
        AtMostOnce \<Rightarrow> Inr ()
      | _ \<Rightarrow> (case rx_reply of Some r \<Rightarrow> r | None \<Rightarrow> Inl ClientClosed))"

definition PublishBuilder_request :: "reply \<Rightarrow> Publish \<Rightarrow> Command" where
  "PublishBuilder_request tx_reply publish =
     CommandRequest \<lparr>reqcmd_publish = publish, reqcmd_reply = Some tx_reply\<rparr>"

definition FilterBuilder_new :: "string \<Rightarrow> SubscribeFilter" where
  "FilterBuilder_new path = \<lparr>filter_path = path, filter_qos = AtMostOnce, filter_no_local = False,
     filter_retain_as_published = False, filter_retain_handling = RetainHandling.OnEverySubscribe\<rparr>"

definition FilterBuilder_qos :: "Qos \<Rightarrow> SubscribeFilter \<Rightarrow> SubscribeFilter" where
  "FilterBuilder_qos qos f = f\<lparr>filter_qos := qos\<rparr>"

definition FilterBuilder_no_local :: "SubscribeFilter \<Rightarrow> SubscribeFilter" where
  "FilterBuilder_no_local f = f\<lparr>filter_no_local := True\<rparr>"

definition FilterBuilder_retain_as_published :: "SubscribeFilter \<Rightarrow> SubscribeFilter" where
  "FilterBuilder_retain_as_published f = f\<lparr>filter_retain_as_published := True\<rparr>"

definition FilterBuilder_retain_handling :: "RetainHandling \<Rightarrow> SubscribeFilter \<Rightarrow> SubscribeFilter" where
  "FilterBuilder_retain_handling handling f = f\<lparr>filter_retain_handling := handling\<rparr>"

definition SubscribeBuilder_filter :: "SubscribeFilter \<Rightarrow> SubscribeFilter list \<Rightarrow> SubscribeFilter list" where
  "SubscribeBuilder_filter flt filters = filters @ [flt]"

definition SubscribeBuilder_send :: "SubscribeFilter list \<Rightarrow> Command" where
  "SubscribeBuilder_send filters = CommandSubscribe \<lparr>subcmd_filters = filters\<rparr>"

definition UnsubscribeBuilder_filter :: "string \<Rightarrow> string list \<Rightarrow> string list" where
  "UnsubscribeBuilder_filter path filters = filters @ [path]"

definition UnsubscribeBuilder_send :: "string list \<Rightarrow> Command" where
  "UnsubscribeBuilder_send filters = CommandUnsubscribe \<lparr>unsubcmd_filters = filters\<rparr>"

subsection \<open>The core\<close>

record InflightPacket =
  inflight_packet :: Packet
  inflight_reply :: "reply option"

record ('r, 'w) ConnectedState =
  cs_codec :: Codec
  cs_reader :: 'r
  cs_writer :: 'w
  cs_packet_id_allocator :: PacketIdAllocator
  cs_keep_alive_delay :: nat
  cs_inflight_packets :: "u16 \<rightharpoonup> InflightPacket"
  cs_uncompleted_messages :: "u16 \<rightharpoonup> ClientMessage"

text \<open>The messages and the replies that have been sent, in their order, stand for the channels.\<close>

record Core =
  core_connect :: Connect
  core_keep_alive :: u16
  core_subscriptions :: "(string \<times> SubscribeFilter) list"
  core_req_id :: u64
  core_messages :: "ClientMessage list"
  core_replies :: "(reply \<times> (ClientError + unit)) list"

definition Core_new :: "Connect \<Rightarrow> Core" where
  "Core_new connect = \<lparr>core_connect = connect, core_keep_alive = connect_keep_alive connect,
     core_subscriptions = [], core_req_id = 1, core_messages = [], core_replies = []\<rparr>"

record ('r, 'w) Client =
  client_core :: Core
  client_conn :: "('r, 'w) ConnectedState"

record ('r, 'w) ClientEnv =
  cenv_connect :: "io_error + 'r \<times> 'w"
  cenv_read :: "'r \<Rightarrow> (io_error + bytes) \<times> 'r"
  cenv_write_all :: "'w \<Rightarrow> bytes \<Rightarrow> (io_error + unit) \<times> 'w"
  cenv_now :: nat
  cenv_receiving :: bool

type_synonym ('r, 'w, 'a) core_handler = "(('r, 'w) ClientEnv, ('r, 'w) Client, ClientError, 'a) handler"

definition update_core :: "(Core \<Rightarrow> Core) \<Rightarrow> ('r, 'w, unit) core_handler" where
  "update_core f = modify (\<lambda>w. w\<lparr>client_core := f (client_core w)\<rparr>)"

definition update_cs :: "(('r, 'w) ConnectedState \<Rightarrow> ('r, 'w) ConnectedState) \<Rightarrow> ('r, 'w, unit) core_handler" where
  "update_cs f = modify (\<lambda>w. w\<lparr>client_conn := f (client_conn w)\<rparr>)"

definition Core_send_packet :: "Packet \<Rightarrow> ('r, 'w, unit) core_handler" where
  "Core_send_packet packet = (\<lambda>env w.
     let cs = client_conn w;
         (res, writer, codec) = Codec_encode (cenv_write_all env) packet (cs_writer cs) (cs_codec cs);
         w = w\<lparr>client_conn := cs\<lparr>cs_writer := writer, cs_codec := codec\<rparr>\<rparr>
     in (case res of Inl e \<Rightarrow> (Failed (EncodeFailed e), w) | Inr _ \<Rightarrow> (Finished (), w)))"

definition Core_receive_packet :: "('r, 'w, Packet option) core_handler" where
  "Core_receive_packet = (\<lambda>env w.
     let cs = client_conn w;
         (res, reader, codec) = Codec_decode (cenv_read env) (cs_reader cs) (cs_codec cs);
         w = w\<lparr>client_conn := cs\<lparr>cs_reader := reader, cs_codec := codec\<rparr>\<rparr>
     in (case res of
           Inl e \<Rightarrow> (Failed (DecodeFailed e), w)
         | Inr (Some (packet, _)) \<Rightarrow> (Finished (Some packet), w)
         | Inr None \<Rightarrow> (Finished None, w)))"

text \<open>\<open>packet_id_allocator.take()\<close>.\<close>

definition take_packet_id :: "('r, 'w, u16) core_handler" where
  "take_packet_id =
     andthen (look (\<lambda>env w. PacketIdAllocator_take (cs_packet_id_allocator (client_conn w)))) (\<lambda>(packet_id, a).
     andthen (update_cs (\<lambda>cs. cs\<lparr>cs_packet_id_allocator := a\<rparr>)) (\<lambda>_.
     finish packet_id))"

definition insert_inflight :: "u16 \<Rightarrow> Packet \<Rightarrow> reply option \<Rightarrow> ('r, 'w, unit) core_handler" where
  "insert_inflight packet_id packet reply = update_cs (\<lambda>cs. cs\<lparr>cs_inflight_packets :=
     (cs_inflight_packets cs)(packet_id \<mapsto> \<lparr>inflight_packet = packet, inflight_reply = reply\<rparr>)\<rparr>)"

text \<open>\<open>inflight_packets.remove(&packet_id)\<close>.\<close>

definition remove_inflight :: "u16 \<Rightarrow> ('r, 'w, InflightPacket option) core_handler" where
  "remove_inflight packet_id =
     andthen (look (\<lambda>env w. cs_inflight_packets (client_conn w) packet_id)) (\<lambda>inflight.
     andthen (update_cs (\<lambda>cs. cs\<lparr>cs_inflight_packets := (cs_inflight_packets cs)(packet_id := None)\<rparr>)) (\<lambda>_.
     finish inflight))"

text \<open>\<open>reply.unwrap().send(result).ok()\<close>, and \<open>tx_msg.send(msg).await\<close>.\<close>

definition send_reply :: "reply option \<Rightarrow> ClientError + unit \<Rightarrow> ('r, 'w, unit) core_handler" where
  "send_reply reply result =
     (case reply of
        Some tx \<Rightarrow> update_core (\<lambda>c. c\<lparr>core_replies := core_replies c @ [(tx, result)]\<rparr>)
      | None \<Rightarrow> panic)"

definition send_message :: "ClientMessage \<Rightarrow> ('r, 'w, unit) core_handler" where
  "send_message msg =
     andthen (look (\<lambda>env w. cenv_receiving env)) (\<lambda>receiving.
     if receiving then update_core (\<lambda>c. c\<lparr>core_messages := core_messages c @ [msg]\<rparr>)
     else fail ClientClosed)"

subsection \<open>Commands of the user\<close>

definition handle_subscribe_command :: "SubscribeCommand \<Rightarrow> ('r, 'w, unit) core_handler" where
  "handle_subscribe_command subscribe =
     andthen take_packet_id (\<lambda>packet_id.
     andthen (update_core (\<lambda>c. c\<lparr>core_subscriptions :=
       fold (\<lambda>f. AList.update (filter_path f) f) (subcmd_filters subscribe) (core_subscriptions c)\<rparr>)) (\<lambda>_.
     let packet = Packet.Subscribe \<lparr>subscribe_packet_id = packet_id,
           subscribe_properties = SubscribeProperties_default, subscribe_filters = subcmd_filters subscribe\<rparr>
     in andthen (Core_send_packet packet) (\<lambda>_. insert_inflight packet_id packet None)))"

definition handle_unsubscribe_command :: "UnsubscribeCommand \<Rightarrow> ('r, 'w, unit) core_handler" where
  "handle_unsubscribe_command unsubscribe =
     andthen take_packet_id (\<lambda>packet_id.
     andthen (update_core (\<lambda>c. c\<lparr>core_subscriptions :=
       fold AList.delete (unsubcmd_filters unsubscribe) (core_subscriptions c)\<rparr>)) (\<lambda>_.
     let packet = Packet.Unsubscribe \<lparr>unsubscribe_packet_id = packet_id,
           unsubscribe_filters = unsubcmd_filters unsubscribe, unsubscribe_properties = UnsubscribeProperties_default\<rparr>
     in andthen (Core_send_packet packet) (\<lambda>_. insert_inflight packet_id packet None)))"

text \<open>The packet is sent as the builder has made it: the identifier that is taken for it is the key of the
  entry in flight, and does not get into the packet.\<close>

definition handle_publish_command :: "PublishCommand \<Rightarrow> ('r, 'w, unit) core_handler" where
  "handle_publish_command publish =
     (case publish_qos (pubcmd_publish publish) of
        AtMostOnce \<Rightarrow> Core_send_packet (Packet.Publish (pubcmd_publish publish))
      | _ \<Rightarrow>
          andthen take_packet_id (\<lambda>packet_id.
          let packet = Packet.Publish (pubcmd_publish publish)
          in andthen (Core_send_packet packet) (\<lambda>_. insert_inflight packet_id packet (pubcmd_reply publish))))"

text \<open>\<open>u64::to_le_bytes\<close>.\<close>

definition to_le_bytes :: "u64 \<Rightarrow> bytes" where
  "to_le_bytes n = map (\<lambda>i. ucast (drop_bit (8 * i) n)) [0..<8]"

definition handle_request_command :: "RequestCommand \<Rightarrow> ('r, 'w, unit) core_handler" where
  "handle_request_command request =
     andthen (look (\<lambda>env w. core_req_id (client_core w))) (\<lambda>req_id.
     andthen (update_core (\<lambda>c. c\<lparr>core_req_id := core_req_id c + 1\<rparr>)) (\<lambda>_.
     let publish = (reqcmd_publish request)\<lparr>publish_properties :=
           (publish_properties (reqcmd_publish request))\<lparr>pubprop_correlation_data := Some (to_le_bytes req_id)\<rparr>\<rparr>
     in (case publish_qos publish of
           AtMostOnce \<Rightarrow> Core_send_packet (Packet.Publish publish)
         | _ \<Rightarrow>
             andthen take_packet_id (\<lambda>packet_id.
             let packet = Packet.Publish publish
             in andthen (Core_send_packet packet) (\<lambda>_. insert_inflight packet_id packet None)))))"

text \<open>\<open>unreachable!()\<close> panics.\<close>

definition handle_ack_command :: "AckCommand \<Rightarrow> ('r, 'w, unit) core_handler" where
  "handle_ack_command ack =
     (case ackcmd_qos ack of
        AtMostOnce \<Rightarrow> panic
      | AtLeastOnce \<Rightarrow> Core_send_packet (Packet.PubAck \<lparr>puback_packet_id = ackcmd_packet_id ack,
          puback_reason_code = PubAckReasonCode.Success, puback_properties = PubAckProperties_default\<rparr>)
      | ExactlyOnce \<Rightarrow> Core_send_packet (Packet.PubComp \<lparr>pubcomp_packet_id = ackcmd_packet_id ack,
          pubcomp_reason_code = PubCompReasonCode.Success, pubcomp_properties = PubCompProperties_default\<rparr>))"

definition handle_command :: "Command \<Rightarrow> ('r, 'w, unit) core_handler" where
  "handle_command command =
     (case command of
        CommandSubscribe subscribe \<Rightarrow> handle_subscribe_command subscribe
      | CommandUnsubscribe unsubscribe \<Rightarrow> handle_unsubscribe_command unsubscribe
      | CommandPublish publish \<Rightarrow> handle_publish_command publish
      | CommandRequest request \<Rightarrow> handle_request_command request
      | CommandAck ack \<Rightarrow> handle_ack_command ack)"

subsection \<open>Packets of the broker\<close>

definition Core_handle_publish :: "Publish \<Rightarrow> ('r, 'w, unit) core_handler" where
  "Core_handle_publish publish =
     (case publish_qos publish of
        AtMostOnce \<Rightarrow> send_message (ClientMessage_new False publish)
      | AtLeastOnce \<Rightarrow>
          (case publish_packet_id publish of
             None \<Rightarrow> fail ProtocolError
           | Some packet_id \<Rightarrow>
               andthen (send_message (ClientMessage_new True publish)) (\<lambda>_.
               Core_send_packet (Packet.PubAck \<lparr>puback_packet_id = packet_id,
                 puback_reason_code = PubAckReasonCode.Success, puback_properties = PubAckProperties_default\<rparr>)))
      | ExactlyOnce \<Rightarrow>
          (case publish_packet_id publish of
             None \<Rightarrow> fail ProtocolError
           | Some packet_id \<Rightarrow>
               let msg = ClientMessage_new True publish;
                   pub_rec = (\<lambda>reason_code. Packet.PubRec \<lparr>pubrec_packet_id = packet_id,
                     pubrec_reason_code = reason_code, pubrec_properties = PubRecProperties_default\<rparr>)
               in andthen (look (\<lambda>env w. cs_uncompleted_messages (client_conn w) packet_id)) (\<lambda>uncompleted.
                  if uncompleted \<noteq> None then Core_send_packet (pub_rec PubRecReasonCode.PacketIdentifierInUse)
                  else andthen (update_cs (\<lambda>cs. cs\<lparr>cs_uncompleted_messages :=
                      (cs_uncompleted_messages cs)(packet_id \<mapsto> msg)\<rparr>)) (\<lambda>_.
                    Core_send_packet (pub_rec PubRecReasonCode.Success)))))"

text \<open>The patterns \<open>Some(InflightPacket { packet: Packet::Publish(..), reply })\<close> and their like.\<close>

definition publish_entry :: "InflightPacket option \<Rightarrow> reply option option" where
  "publish_entry inflight =
     Option.bind inflight (\<lambda>e. case inflight_packet e of Packet.Publish _ \<Rightarrow> Some (inflight_reply e) | _ \<Rightarrow> None)"

definition subscribe_entry :: "InflightPacket option \<Rightarrow> Subscribe option" where
  "subscribe_entry inflight =
     Option.bind inflight (\<lambda>e. case inflight_packet e of Packet.Subscribe subscribe \<Rightarrow> Some subscribe | _ \<Rightarrow> None)"

definition unsubscribe_entry :: "InflightPacket option \<Rightarrow> Unsubscribe option" where
  "unsubscribe_entry inflight =
     Option.bind inflight (\<lambda>e. case inflight_packet e of Packet.Unsubscribe unsubscribe \<Rightarrow> Some unsubscribe | _ \<Rightarrow> None)"

definition Core_handle_pub_ack :: "PubAck \<Rightarrow> ('r, 'w, unit) core_handler" where
  "Core_handle_pub_ack pub_ack =
     andthen (remove_inflight (puback_packet_id pub_ack)) (\<lambda>inflight.
     case publish_entry inflight of
       Some reply \<Rightarrow>
         if PubAckReasonCode_is_success (puback_reason_code pub_ack) then send_reply reply (Inr ())
         else send_reply reply (Inl (PubAckError (puback_reason_code pub_ack)))
     | _ \<Rightarrow> fail ProtocolError)"

definition Core_handle_pub_rec :: "PubRec \<Rightarrow> ('r, 'w, unit) core_handler" where
  "Core_handle_pub_rec pub_rec =
     (let packet_id = pubrec_packet_id pub_rec;
          pub_rel = (\<lambda>reason_code. Packet.PubRel \<lparr>pubrel_packet_id = packet_id,
            pubrel_reason_code = reason_code, pubrel_properties = PubRelProperties_default\<rparr>)
      in andthen (look (\<lambda>env w. cs_inflight_packets (client_conn w) packet_id)) (\<lambda>inflight.
         case publish_entry inflight of
           Some _ \<Rightarrow>
             if PubRecReasonCode_is_success (pubrec_reason_code pub_rec)
             then Core_send_packet (pub_rel PubRelReasonCode.Success)
             else andthen (remove_inflight packet_id) (\<lambda>removed.
               case removed of
                 Some entry \<Rightarrow> send_reply (inflight_reply entry) (Inl (PubRecError (pubrec_reason_code pub_rec)))
               | None \<Rightarrow> panic)
         | _ \<Rightarrow> Core_send_packet (pub_rel PubRelReasonCode.PacketIdentifierNotFound)))"

definition Core_handle_pub_comp :: "PubComp \<Rightarrow> ('r, 'w, unit) core_handler" where
  "Core_handle_pub_comp pub_comp =
     andthen (remove_inflight (pubcomp_packet_id pub_comp)) (\<lambda>inflight.
     case publish_entry inflight of
       Some reply \<Rightarrow>
         if PubCompReasonCode_is_success (pubcomp_reason_code pub_comp) then send_reply reply (Inr ())
         else send_reply reply (Inl ProtocolError)
     | _ \<Rightarrow> fail ProtocolError)"

definition Core_handle_pub_rel :: "PubRel \<Rightarrow> ('r, 'w, unit) core_handler" where
  "Core_handle_pub_rel pub_rel =
     (let packet_id = pubrel_packet_id pub_rel
      in andthen (look (\<lambda>env w. cs_uncompleted_messages (client_conn w) packet_id)) (\<lambda>uncompleted.
         andthen (update_cs (\<lambda>cs. cs\<lparr>cs_uncompleted_messages := (cs_uncompleted_messages cs)(packet_id := None)\<rparr>)) (\<lambda>_.
         case uncompleted of Some msg \<Rightarrow> send_message msg | None \<Rightarrow> fail ProtocolError)))"

text \<open>A subscription whose reason code is a refusal is forgotten.\<close>

definition drop_refused :: "('c \<Rightarrow> bool) \<Rightarrow> ('c \<times> string) list \<Rightarrow> Core \<Rightarrow> Core" where
  "drop_refused is_success codes c = c\<lparr>core_subscriptions :=
     fold (\<lambda>(reason_code, path) subs. if is_success reason_code then subs else AList.delete path subs)
       codes (core_subscriptions c)\<rparr>"

definition Core_handle_sub_ack :: "SubAck \<Rightarrow> ('r, 'w, unit) core_handler" where
  "Core_handle_sub_ack sub_ack =
     andthen (remove_inflight (suback_packet_id sub_ack)) (\<lambda>inflight.
     case subscribe_entry inflight of
       Some subscribe \<Rightarrow>
         if length (suback_reason_codes sub_ack) \<noteq> length (subscribe_filters subscribe) then fail ProtocolError
         else update_core (drop_refused SubscribeReasonCode_is_success
           (zip (suback_reason_codes sub_ack) (map filter_path (subscribe_filters subscribe))))
     | _ \<Rightarrow> fail ProtocolError)"

definition Core_handle_unsub_ack :: "UnsubAck \<Rightarrow> ('r, 'w, unit) core_handler" where
  "Core_handle_unsub_ack unsub_ack =
     andthen (remove_inflight (unsuback_packet_id unsub_ack)) (\<lambda>inflight.
     case unsubscribe_entry inflight of
       Some unsubscribe \<Rightarrow>
         if length (unsuback_reason_codes unsub_ack) \<noteq> length (unsubscribe_filters unsubscribe) then fail ProtocolError
         else update_core (drop_refused UnsubAckReasonCode_is_success
           (zip (unsuback_reason_codes unsub_ack) (unsubscribe_filters unsubscribe)))
     | _ \<Rightarrow> fail ProtocolError)"

definition Core_handle_disconnect :: "Disconnect \<Rightarrow> ('r, 'w, unit) core_handler" where
  "Core_handle_disconnect disconnect = fail (DisconnectByServer (Some (disconnect_reason_code disconnect)))"

definition Core_handle_packet :: "Packet \<Rightarrow> ('r, 'w, unit) core_handler" where
  "Core_handle_packet packet =
     (case packet of
        PingResp \<Rightarrow> finish ()
      | Packet.Publish publish \<Rightarrow> Core_handle_publish publish
      | Packet.PubAck pub_ack \<Rightarrow> Core_handle_pub_ack pub_ack
      | Packet.PubRec pub_rec \<Rightarrow> Core_handle_pub_rec pub_rec
      | Packet.PubComp pub_comp \<Rightarrow> Core_handle_pub_comp pub_comp
      | Packet.PubRel pub_rel \<Rightarrow> Core_handle_pub_rel pub_rel
      | Packet.SubAck sub_ack \<Rightarrow> Core_handle_sub_ack sub_ack
      | Packet.UnsubAck unsub_ack \<Rightarrow> Core_handle_unsub_ack unsub_ack
      | Packet.Disconnect disconnect \<Rightarrow> Core_handle_disconnect disconnect
      | _ \<Rightarrow> fail ProtocolError)"

subsection \<open>The connection\<close>

text \<open>\<open>Instant::now() + Duration::from_secs(keep_alive)\<close>, in milliseconds.\<close>

definition keep_alive_deadline :: "nat \<Rightarrow> u16 \<Rightarrow> nat" where
  "keep_alive_deadline now keep_alive = now + 1000 * unat keep_alive"

definition ConnectedState_new :: "nat \<Rightarrow> u16 \<Rightarrow> 'r \<Rightarrow> 'w \<Rightarrow> ('r, 'w) ConnectedState" where
  "ConnectedState_new now keep_alive reader writer = \<lparr>cs_codec = Codec_new, cs_reader = reader, cs_writer = writer,
     cs_packet_id_allocator = PacketIdAllocator_default, cs_keep_alive_delay = keep_alive_deadline now keep_alive,
     cs_inflight_packets = Map.empty, cs_uncompleted_messages = Map.empty\<rparr>"

definition re_subscribe :: "('r, 'w, unit) core_handler" where
  "re_subscribe =
     andthen take_packet_id (\<lambda>packet_id.
     andthen (look (\<lambda>env w. map snd (core_subscriptions (client_core w)))) (\<lambda>filters.
     let packet = Packet.Subscribe \<lparr>subscribe_packet_id = packet_id,
           subscribe_properties = SubscribeProperties_default, subscribe_filters = filters\<rparr>
     in andthen (Core_send_packet packet) (\<lambda>_. insert_inflight packet_id packet None)))"

text \<open>\<open>do_connect\<close> behind the TCP connection, on a connected state that is new.\<close>

definition accept_conn_ack :: "ConnAck \<Rightarrow> ('r, 'w, unit) core_handler" where
  "accept_conn_ack conn_ack =
     (if \<not> ConnectReasonCode_is_success (connack_reason_code conn_ack)
      then fail (Handshake (connack_reason_code conn_ack))
      else
        andthen (update_core (\<lambda>c. case connackprop_server_keep_alive (connack_properties conn_ack) of
            Some server_keep_alive \<Rightarrow> c\<lparr>core_keep_alive := server_keep_alive\<rparr> | None \<Rightarrow> c)) (\<lambda>_.
        andthen (look (\<lambda>env w. core_subscriptions (client_core w))) (\<lambda>subscriptions.
        if \<not> connack_session_present conn_ack \<and> subscriptions \<noteq> [] then re_subscribe else finish ())))"

definition do_connect :: "('r, 'w, unit) core_handler" where
  "do_connect =
     andthen (look (\<lambda>env w. core_connect (client_core w))) (\<lambda>connect.
     andthen (Core_send_packet (Packet.Connect connect)) (\<lambda>_.
     andthen Core_receive_packet (\<lambda>received.
     case received of
       None \<Rightarrow> fail (DisconnectByServer None)
     | Some (Packet.ConnAck conn_ack) \<Rightarrow> accept_conn_ack conn_ack
     | Some _ \<Rightarrow> fail ProtocolError)))"

text \<open>The branches of \<open>select!\<close>: a command, the end of all senders of commands, the keep-alive delay, a packet.\<close>

datatype core_event = OnCommand Command | OnCommandsClosed | OnKeepAlive | OnReceive

text \<open>The delay stays elapsed when it has been polled: only a packet resets it.\<close>

definition event_ready :: "core_event \<Rightarrow> ('r, 'w) ClientEnv \<Rightarrow> ('r, 'w) Client \<Rightarrow> bool" where
  "event_ready ev env w \<longleftrightarrow> (ev = OnKeepAlive \<longrightarrow> cs_keep_alive_delay (client_conn w) \<le> cenv_now env)"

definition do_connected :: "core_event \<Rightarrow> ('r, 'w, unit) core_handler" where
  "do_connected ev =
     (case ev of
        OnCommand command \<Rightarrow> handle_command command
      | OnCommandsClosed \<Rightarrow> fail ClientClosed
      | OnKeepAlive \<Rightarrow> Core_send_packet PingReq
      | OnReceive \<Rightarrow>
          andthen Core_receive_packet (\<lambda>received.
          case received of
            Some packet \<Rightarrow>
              andthen (look (\<lambda>env w. keep_alive_deadline (cenv_now env) (core_keep_alive (client_core w)))) (\<lambda>deadline.
              andthen (update_cs (\<lambda>cs. cs\<lparr>cs_keep_alive_delay := deadline\<rparr>)) (\<lambda>_.
              Core_handle_packet packet))
          | None \<Rightarrow> fail (DisconnectByServer None)))"

datatype ('r, 'w) State = Connecting | Connected "('r, 'w) ConnectedState"

text \<open>One turn of \<open>client_loop\<close>; \<open>None\<close> is a panic of the task. A connection that fails is dropped with its
  packets in flight and their replies.\<close>

definition core_turn ::
  "core_event \<Rightarrow> ('r, 'w) ClientEnv \<Rightarrow> Core \<times> ('r, 'w) State \<Rightarrow> (Core \<times> ('r, 'w) State) option" where
  "core_turn ev env = (\<lambda>(core, state).
     (case state of
        Connecting \<Rightarrow>
          (case cenv_connect env of
             Inl e \<Rightarrow> Some (core, Connecting)
           | Inr (reader, writer) \<Rightarrow>
               (case do_connect env \<lparr>client_core = core,
                   client_conn = ConnectedState_new (cenv_now env) (core_keep_alive core) reader writer\<rparr> of
                  (Finished _, w) \<Rightarrow> Some (client_core w, Connected (client_conn w))
                | (Failed e, w) \<Rightarrow> Some (client_core w, Connecting)
                | _ \<Rightarrow> None))
      | Connected cs \<Rightarrow>
          (case do_connected ev env \<lparr>client_core = core, client_conn = cs\<rparr> of
             (Finished _, w) \<Rightarrow> Some (client_core w, Connected (client_conn w))
           | (Failed e, w) \<Rightarrow> Some (client_core w, Connecting)
           | _ \<Rightarrow> None)))"

end
