(* ===== verification/Mqtt_Client_Theorems.thy ===== *)
theory Mqtt_Client_Theorems
  imports Mqtt_Client Codec_Theorems
begin

text \<open>
  The correctness properties of the client library (\<open>libs/client/src\<close>): what makes its task panic, how
  it receives messages of QoS 2, and what it remembers of its subscriptions.
\<close>

subsection \<open>What sending changes\<close>

lemma client_simps [act]:
  "update_core f env w = (Finished (), w\<lparr>client_core := f (client_core w)\<rparr>)"
  "update_cs g env w = (Finished (), w\<lparr>client_conn := g (client_conn w)\<rparr>)"
  "insert_inflight i packet reply env w = (Finished (), w\<lparr>client_conn := (client_conn w)\<lparr>cs_inflight_packets :=
     (cs_inflight_packets (client_conn w))(i \<mapsto> \<lparr>inflight_packet = packet, inflight_reply = reply\<rparr>)\<rparr>\<rparr>)"
  "remove_inflight i env w = (Finished (cs_inflight_packets (client_conn w) i), w\<lparr>client_conn := (client_conn w)
     \<lparr>cs_inflight_packets := (cs_inflight_packets (client_conn w))(i := None)\<rparr>\<rparr>)"
  "take_packet_id env w = (Finished (fst (PacketIdAllocator_take (cs_packet_id_allocator (client_conn w)))),
     w\<lparr>client_conn := (client_conn w)\<lparr>cs_packet_id_allocator :=
       snd (PacketIdAllocator_take (cs_packet_id_allocator (client_conn w)))\<rparr>\<rparr>)"
  by (simp_all add: update_core_def update_cs_def insert_inflight_def remove_inflight_def take_packet_id_def act
      case_prod_unfold)

definition core_sends :: "('r, 'w) Client \<Rightarrow> ('r, 'w) Client \<Rightarrow> bool" where
  "core_sends w w' \<longleftrightarrow> (\<exists>writer codec. w' = w\<lparr>client_conn := (client_conn w)\<lparr>cs_writer := writer, cs_codec := codec\<rparr>\<rparr>)"

lemma core_send_cases:
  obtains w' where "core_sends w w'" "Core_send_packet packet env w = (Finished (), w')"
  | e w' where "core_sends w w'" "Core_send_packet packet env w = (Failed (EncodeFailed e), w')"
proof -
  obtain res writer codec where enc: "Codec_encode (cenv_write_all env) packet
      (cs_writer (client_conn w)) (cs_codec (client_conn w)) = (res, writer, codec)"
    using prod_cases3 by blast
  let ?w = "w\<lparr>client_conn := (client_conn w)\<lparr>cs_writer := writer, cs_codec := codec\<rparr>\<rparr>"
  have "core_sends w ?w" unfolding core_sends_def by blast
  then show thesis using that by (cases res) (simp_all add: Core_send_packet_def enc)
qed

lemma core_send_outcome:
  "fst (Core_send_packet packet env w) = Finished () \<or> (\<exists>e. fst (Core_send_packet packet env w) = Failed e)"
  by (rule core_send_cases [of w packet env]) simp_all

lemma core_sent:
  assumes "Core_send_packet packet env w = (r, w')"
  shows "client_core w' = client_core w"
    and "cs_inflight_packets (client_conn w') = cs_inflight_packets (client_conn w)"
    and "cs_uncompleted_messages (client_conn w') = cs_uncompleted_messages (client_conn w)"
    and "cs_keep_alive_delay (client_conn w') = cs_keep_alive_delay (client_conn w)"
    and "cs_packet_id_allocator (client_conn w') = cs_packet_id_allocator (client_conn w)"
  using assms by (cases rule: core_send_cases [of w packet env]; auto simp: core_sends_def)+

subsection \<open>The invariant\<close>

text \<open>The subscriptions are a map from the paths of the filters; every PUBLISH in flight has its reply.\<close>

definition core_ok :: "Core \<Rightarrow> bool" where
  "core_ok core \<longleftrightarrow> distinct (map fst (core_subscriptions core)) \<and>
     (\<forall>path flt. map_of (core_subscriptions core) path = Some flt \<longrightarrow> filter_path flt = path)"

lemma core_ok_simps [simp]:
  "core_ok (c\<lparr>core_keep_alive := k\<rparr>) = core_ok c" "core_ok (c\<lparr>core_req_id := n\<rparr>) = core_ok c"
  "core_ok (c\<lparr>core_messages := ms\<rparr>) = core_ok c" "core_ok (c\<lparr>core_replies := rs\<rparr>) = core_ok c"
  by (simp_all add: core_ok_def)

definition replies_ok :: "('r, 'w) ConnectedState \<Rightarrow> bool" where
  "replies_ok cs \<longleftrightarrow> (\<forall>i. publish_entry (cs_inflight_packets cs i) \<noteq> Some None)"

definition client_inv :: "('r, 'w) Client \<Rightarrow> bool" where
  "client_inv w \<longleftrightarrow> core_ok (client_core w) \<and> replies_ok (client_conn w)"

abbreviation kept :: "('r, 'w, unit) core_handler \<Rightarrow> bool" where
  "kept m \<equiv> safe client_inv m (\<lambda>_. client_inv) (\<lambda>w. core_ok (client_core w))"

named_theorems kept_intro "handlers that keep the invariant"

lemma kept_basic [kept_intro]: "kept (finish ())" "kept (fail e)"
  by (simp_all add: safe_def act client_inv_def)

lemma kept_send [kept_intro]: "kept (Core_send_packet packet)"
proof (rule safeI)
  fix env and w :: "('r, 'w) Client"
  assume inv: "client_inv w"
  show "post (\<lambda>_. client_inv) (\<lambda>w. core_ok (client_core w)) (Core_send_packet packet env w)"
    by (rule core_send_cases [of w packet env])
      (use inv in \<open>auto simp: core_sends_def client_inv_def replies_ok_def\<close>)
qed

lemma kept_look [kept_intro]: "(\<And>x. kept (f x)) \<Longrightarrow> kept (andthen (look g) f)"
  by (simp add: safe_def act)

lemma kept_andthen [kept_intro]: "kept m \<Longrightarrow> kept n \<Longrightarrow> kept (andthen m (\<lambda>_. n))"
  by (rule safe_andthen)

lemma kept_take [kept_intro]: "(\<And>i. kept (f i)) \<Longrightarrow> kept (andthen take_packet_id f)"
  by (simp add: safe_def act client_inv_def replies_ok_def)

lemma kept_insert [kept_intro]:
  "publish_entry (Some \<lparr>inflight_packet = packet, inflight_reply = reply\<rparr>) \<noteq> Some None \<Longrightarrow>
    kept (insert_inflight i packet reply)"
  by (simp add: safe_def act client_inv_def replies_ok_def)

lemma kept_remove [kept_intro]:
  "(\<And>e. publish_entry e \<noteq> Some None \<Longrightarrow> kept (f e)) \<Longrightarrow> kept (andthen (remove_inflight i) f)"
  by (simp add: safe_def act client_inv_def replies_ok_def publish_entry_def)

lemma kept_reply [kept_intro]: "reply \<noteq> None \<Longrightarrow> kept (send_reply reply result)"
  by (auto simp: safe_def send_reply_def act client_inv_def)

lemma kept_message [kept_intro]: "kept (send_message msg)"
  by (auto simp: safe_def send_message_def act client_inv_def)

lemma kept_cs [kept_intro]:
  "(\<And>cs. cs_inflight_packets (f cs) = cs_inflight_packets cs) \<Longrightarrow> kept (update_cs f)"
  by (simp add: safe_def act client_inv_def replies_ok_def)

lemma kept_core [kept_intro]: "(\<And>c. core_ok c \<Longrightarrow> core_ok (f c)) \<Longrightarrow> kept (update_core f)"
  by (simp add: safe_def act client_inv_def)

subsection \<open>Subscriptions\<close>

lemma subscriptions_update:
  "core_ok c \<Longrightarrow> core_ok (c\<lparr>core_subscriptions :=
    fold (\<lambda>f. AList.update (filter_path f) f) filters (core_subscriptions c)\<rparr>)"
proof (induction filters arbitrary: c)
  case (Cons flt filters)
  have "core_ok (c\<lparr>core_subscriptions := AList.update (filter_path flt) flt (core_subscriptions c)\<rparr>)"
    using Cons.prems by (simp add: core_ok_def AList.update_conv' AList.distinct_update)
  from Cons.IH [OF this] show ?case by simp
qed simp

lemma subscriptions_delete:
  "core_ok c \<Longrightarrow> core_ok (c\<lparr>core_subscriptions := AList.delete path (core_subscriptions c)\<rparr>)"
  by (simp add: core_ok_def AList.delete_conv' AList.distinct_delete)

lemma subscriptions_deletes:
  "core_ok c \<Longrightarrow> core_ok (c\<lparr>core_subscriptions := fold AList.delete paths (core_subscriptions c)\<rparr>)"
proof (induction paths arbitrary: c)
  case (Cons path paths)
  from Cons.IH [OF subscriptions_delete [OF Cons.prems]] show ?case by simp
qed simp

lemma subscriptions_refused: "core_ok c \<Longrightarrow> core_ok (drop_refused is_success codes c)"
proof (induction codes arbitrary: c)
  case (Cons code codes)
  then have "core_ok (c\<lparr>core_subscriptions := if is_success (fst code) then core_subscriptions c
      else AList.delete (snd code) (core_subscriptions c)\<rparr>)" (is "core_ok ?c")
    by (simp add: subscriptions_delete)
  from Cons.IH [OF this] show ?case by (simp add: drop_refused_def case_prod_unfold)
qed (simp add: drop_refused_def)

lemmas subscriptions_ok = subscriptions_update subscriptions_delete subscriptions_deletes subscriptions_refused

subsection \<open>The handlers\<close>

text \<open>A command that the task can handle: a PUBLISH with its reply, and neither a request with a QoS nor an
  acknowledgement of QoS 0.\<close>

definition command_ok :: "Command \<Rightarrow> bool" where
  "command_ok command =
     (case command of
        CommandPublish publish \<Rightarrow> publish_qos (pubcmd_publish publish) = AtMostOnce \<or> pubcmd_reply publish \<noteq> None
      | CommandRequest request \<Rightarrow> publish_qos (reqcmd_publish request) = AtMostOnce
      | CommandAck ack \<Rightarrow> ackcmd_qos ack \<noteq> AtMostOnce
      | _ \<Rightarrow> True)"

lemma kept_command:
  assumes "command_ok command"
  shows "kept (handle_command command)"
proof (cases command)
  case (CommandSubscribe subscribe)
  then show ?thesis unfolding handle_command_def handle_subscribe_command_def Let_def
    by (auto intro!: kept_intro subscriptions_ok simp: publish_entry_def)
next
  case (CommandUnsubscribe unsubscribe)
  then show ?thesis unfolding handle_command_def handle_unsubscribe_command_def Let_def
    by (auto intro!: kept_intro subscriptions_ok simp: publish_entry_def)
next
  case (CommandPublish publish)
  with assms show ?thesis unfolding handle_command_def handle_publish_command_def Let_def
    by (auto intro!: kept_intro simp: publish_entry_def command_ok_def split: Qos.split)
next
  case (CommandRequest request)
  with assms show ?thesis unfolding handle_command_def handle_request_command_def Let_def
    by (auto intro!: kept_intro simp: command_ok_def)
next
  case (CommandAck ack)
  with assms show ?thesis unfolding handle_command_def handle_ack_command_def
    by (auto intro!: kept_intro simp: command_ok_def split: Qos.split)
qed

lemma kept_publish: "kept (Core_handle_publish publish)"
  unfolding Core_handle_publish_def Let_def
  by (auto intro!: kept_intro split: Qos.split option.split)

lemma kept_acks:
  "kept (Core_handle_pub_ack pub_ack)" "kept (Core_handle_pub_comp pub_comp)" "kept (Core_handle_pub_rel pub_rel)"
  unfolding Core_handle_pub_ack_def Core_handle_pub_comp_def Core_handle_pub_rel_def Let_def
  by (auto intro!: kept_intro split: option.split)

lemma kept_sub_acks: "kept (Core_handle_sub_ack sub_ack)" "kept (Core_handle_unsub_ack unsub_ack)"
  unfolding Core_handle_sub_ack_def Core_handle_unsub_ack_def
  by (auto intro!: kept_intro subscriptions_ok split: option.split)

lemma kept_pub_rec: "kept (Core_handle_pub_rec pub_rec)"
proof (rule safeI)
  fix env and w :: "('r, 'w) Client"
  assume inv: "client_inv w"
  let ?i = "pubrec_packet_id pub_rec"
  have send: "post (\<lambda>_. client_inv) (\<lambda>w. core_ok (client_core w)) (Core_send_packet packet env w)" for packet
    using inv by (rule safeD [OF kept_send])
  show "post (\<lambda>_. client_inv) (\<lambda>w. core_ok (client_core w)) (Core_handle_pub_rec pub_rec env w)"
  proof (cases "cs_inflight_packets (client_conn w) ?i")
    case (Some e)
    then have "publish_entry (Some e) \<noteq> Some None" using inv unfolding client_inv_def replies_ok_def by metis
    moreover have inv': "client_inv (w\<lparr>client_conn := (client_conn w)\<lparr>cs_inflight_packets :=
        (cs_inflight_packets (client_conn w))(?i := None)\<rparr>\<rparr>)" (is "client_inv ?w")
      using inv by (simp add: client_inv_def replies_ok_def publish_entry_def)
    have "post (\<lambda>_. client_inv) (\<lambda>w. core_ok (client_core w)) (send_reply (inflight_reply e) result env ?w)"
      if "inflight_reply e \<noteq> None" for result
      using inv' by (rule safeD [OF kept_reply [OF that]])
    ultimately show ?thesis using Some send
      by (auto simp: Core_handle_pub_rec_def Let_def act publish_entry_def split: Packet.split)
  qed (use send in \<open>simp add: Core_handle_pub_rec_def Let_def act publish_entry_def\<close>)
qed

lemma kept_packet: "kept (Core_handle_packet packet)"
  unfolding Core_handle_packet_def
  by (cases packet) (auto intro: kept_basic kept_publish kept_acks kept_sub_acks kept_pub_rec simp: Core_handle_disconnect_def)

lemma kept_receive: "safe client_inv Core_receive_packet (\<lambda>_. client_inv) (\<lambda>w. core_ok (client_core w))"
  by (auto simp: safe_def Core_receive_packet_def Let_def client_inv_def replies_ok_def
      split: prod.split sum.split option.split)

definition event_ok :: "core_event \<Rightarrow> bool" where
  "event_ok ev = (case ev of OnCommand command \<Rightarrow> command_ok command | _ \<Rightarrow> True)"

lemma kept_connected:
  assumes "event_ok ev"
  shows "kept (do_connected ev)"
proof (cases ev)
  case OnReceive
  have "kept (case received of
      Some packet \<Rightarrow>
        andthen (look (\<lambda>env w. keep_alive_deadline (cenv_now env) (core_keep_alive (client_core w)))) (\<lambda>deadline.
        andthen (update_cs (\<lambda>cs. cs\<lparr>cs_keep_alive_delay := deadline\<rparr>)) (\<lambda>_. Core_handle_packet packet))
    | None \<Rightarrow> fail (DisconnectByServer None))" for received
    by (auto intro!: kept_intro kept_packet split: option.split)
  with kept_receive show ?thesis unfolding OnReceive do_connected_def by (auto intro: safe_andthen)
qed (use assms in \<open>auto simp: do_connected_def event_ok_def intro: kept_basic kept_send kept_command\<close>)

lemma kept_connect: "kept do_connect"
proof -
  have "kept re_subscribe"
    unfolding re_subscribe_def Let_def by (auto intro!: kept_intro simp: publish_entry_def)
  then have "kept (accept_conn_ack conn_ack)" for conn_ack
    unfolding accept_conn_ack_def by (auto intro!: kept_intro split: option.split)
  then have "kept (case received of
      None \<Rightarrow> fail (DisconnectByServer None)
    | Some (Packet.ConnAck conn_ack) \<Rightarrow> accept_conn_ack conn_ack
    | Some _ \<Rightarrow> fail ProtocolError)" for received
    by (auto intro!: kept_basic split: option.split Packet.split)
  then show ?thesis
    unfolding do_connect_def by (intro kept_look kept_andthen kept_send safe_andthen [OF kept_receive])
qed

text \<open>Runs of \<open>client_loop\<close>, from the start of the task.\<close>

primrec core_run :: "(core_event \<times> ('r, 'w) ClientEnv) list \<Rightarrow> Core \<times> ('r, 'w) State \<Rightarrow> (Core \<times> ('r, 'w) State) option" where
  "core_run [] s = Some s"
| "core_run (e # es) s = Option.bind (core_turn (fst e) (snd e) s) (core_run es)"

definition task_ok :: "Core \<times> ('r, 'w) State \<Rightarrow> bool" where
  "task_ok s \<longleftrightarrow> core_ok (fst s) \<and> (case snd s of Connecting \<Rightarrow> True | Connected cs \<Rightarrow> replies_ok cs)"

lemma core_turn_ok:
  assumes "task_ok s" "event_ok ev"
  shows "\<exists>s'. core_turn ev env s = Some s' \<and> task_ok s'"
proof -
  have turn: "\<exists>s'. (case r of (Finished _, w) \<Rightarrow> Some (client_core w, Connected (client_conn w))
      | (Failed e, w) \<Rightarrow> Some (client_core w, Connecting) | _ \<Rightarrow> None) = Some s' \<and> task_ok s'"
    if "post (\<lambda>_. client_inv) (\<lambda>w. core_ok (client_core w)) r"
    for r :: "(ClientError, unit) Actions.outcome \<times> ('a, 'b) Client"
  proof -
    obtain res w where "r = (res, w)" by force
    with that show ?thesis by (cases res) (simp_all add: task_ok_def client_inv_def)
  qed
  obtain core state where s: "s = (core, state)" by force
  show ?thesis
  proof (cases state)
    case Connecting
    show ?thesis
    proof (cases "cenv_connect env")
      case (Inr streams)
      then obtain reader writer where streams: "streams = (reader, writer)" by force
      have "client_inv \<lparr>client_core = core,
          client_conn = ConnectedState_new (cenv_now env) (core_keep_alive core) reader writer\<rparr>"
        using assms(1) s by (simp add: task_ok_def client_inv_def replies_ok_def ConnectedState_new_def publish_entry_def)
      from turn [OF safeD [OF kept_connect this]] show ?thesis
        by (simp add: s core_turn_def Connecting Inr streams)
    qed (use assms(1) s in \<open>simp add: core_turn_def Connecting task_ok_def\<close>)
  next
    case (Connected cs)
    then have "client_inv \<lparr>client_core = core, client_conn = cs\<rparr>"
      using assms(1) s by (simp add: task_ok_def client_inv_def)
    from turn [OF safeD [OF kept_connected [OF assms(2)] this]] show ?thesis
      by (simp add: s core_turn_def Connected)
  qed
qed

text \<open>C36: the task of a client does not panic, whatever the broker sends and wherever the connection fails, as long
  as a PUBLISH comes with its reply and neither requests with a QoS nor acknowledgements of QoS 0 are issued;
  it remembers at most one subscription per path.\<close>

theorem client_never_panics:
  assumes "\<forall>(ev, env) \<in> set events. event_ok ev"
  shows "\<exists>s. core_run events (Core_new connect, Connecting) = Some s \<and> task_ok s"
proof -
  have "\<exists>s'. core_run events s = Some s' \<and> task_ok s'" if "task_ok s" for s
    using assms that
  proof (induction events arbitrary: s)
    case (Cons e events)
    have "event_ok (fst e)" using Cons.prems(1) by (cases e) auto
    from core_turn_ok [OF Cons.prems(2) this, of "snd e"] obtain s'
      where "core_turn (fst e) (snd e) s = Some s'" "task_ok s'" by blast
    with Cons show ?case by auto
  qed simp
  moreover have "task_ok (Core_new connect, Connecting)" by (simp add: task_ok_def core_ok_def Core_new_def)
  ultimately show ?thesis by blast
qed

definition sample_client_env :: "(unit, bytes) ClientEnv" where
  "sample_client_env = \<lparr>cenv_connect = Inr ((), []), cenv_read = (\<lambda>r. (Inr [], r)),
     cenv_write_all = (\<lambda>w data. (Inr (), w @ data)), cenv_now = 0, cenv_receiving = True\<rparr>"

lemma client_never_panics_witness:
  "\<exists>s. core_run [(OnReceive, sample_client_env),
      (OnCommand (PublishBuilder_send 7 (PublishBuilder_qos AtLeastOnce (PublishBuilder_new ''t''))), sample_client_env)]
    (Core_new ClientBuilder_new, Connecting) = Some s \<and> task_ok s"
  by (rule client_never_panics)
    (simp add: event_ok_def command_ok_def PublishBuilder_send_def PublishBuilder_qos_def)

subsection \<open>Receiving\<close>

definition holds_back :: "u16 \<Rightarrow> ClientMessage \<Rightarrow> Core \<Rightarrow> ('r, 'w) Client \<Rightarrow> bool" where
  "holds_back i msg core w \<longleftrightarrow> client_core w = core \<and> cs_uncompleted_messages (client_conn w) i = Some msg"

lemma receive_first:
  assumes "publish_qos p = ExactlyOnce" "publish_packet_id p = Some i" "cs_uncompleted_messages (client_conn w) i = None"
    and "Core_handle_publish p env w = (Finished (), w')"
  shows "holds_back i (ClientMessage_new True p) (client_core w) w'"
proof -
  let ?w = "w\<lparr>client_conn := (client_conn w)\<lparr>cs_uncompleted_messages :=
    (cs_uncompleted_messages (client_conn w))(i \<mapsto> ClientMessage_new True p)\<rparr>\<rparr>"
  have "Core_send_packet (Packet.PubRec \<lparr>pubrec_packet_id = i, pubrec_reason_code = PubRecReasonCode.Success,
      pubrec_properties = PubRecProperties_default\<rparr>) env ?w = (Finished (), w')"
    using assms by (simp add: Core_handle_publish_def Let_def act)
  from core_sent [OF this] show ?thesis by (simp add: holds_back_def)
qed

lemma receive_again:
  assumes "publish_qos p = ExactlyOnce" "publish_packet_id p = Some i" "holds_back i msg core w"
    and "Core_handle_publish p env w = (Finished (), w')"
  shows "holds_back i msg core w'"
proof -
  have "Core_send_packet (Packet.PubRec \<lparr>pubrec_packet_id = i, pubrec_reason_code = PubRecReasonCode.PacketIdentifierInUse,
      pubrec_properties = PubRecProperties_default\<rparr>) env w = (Finished (), w')"
    using assms by (simp add: Core_handle_publish_def Let_def act holds_back_def)
  from core_sent [OF this] assms(3) show ?thesis by (simp add: holds_back_def)
qed

lemma receive_repeated:
  assumes "\<forall>p \<in> set ps. publish_qos p = ExactlyOnce \<and> publish_packet_id p = Some i" "holds_back i msg core w"
    and "loop_over Core_handle_publish ps env w = (Finished (), w')"
  shows "holds_back i msg core w'"
  using assms
proof (induction ps arbitrary: w)
  case (Cons p ps)
  obtain v where v: "Core_handle_publish p env w = (Finished (), v)" "loop_over Core_handle_publish ps env v = (Finished (), w')"
    using Cons.prems(3) by (auto simp: act split: prod.splits outcome.splits)
  have "holds_back i msg core v" by (rule receive_again [OF _ _ Cons.prems(2) v(1)]) (use Cons.prems(1) in auto)
  with Cons v(2) show ?case by simp
qed (simp add: act)

text \<open>C37: the client hands a message of QoS 2 to its user when the first PUBREL arrives: not when the PUBLISH
  arrives, however often, and not again. What it hands over is the first packet.\<close>

theorem client_receives_once:
  assumes "cs_uncompleted_messages (client_conn w) i = None" "cenv_receiving env" "publishes \<noteq> []"
    and "\<forall>p \<in> set publishes. publish_qos p = ExactlyOnce \<and> publish_packet_id p = Some i"
    and "loop_over Core_handle_publish publishes env w = (Finished (), w1)" "pubrel_packet_id pub_rel = i"
  shows "client_core w1 = client_core w \<and>
    (\<exists>w2. Core_handle_pub_rel pub_rel env w1 = (Finished (), w2) \<and>
      core_messages (client_core w2) = core_messages (client_core w) @ [ClientMessage_new True (hd publishes)] \<and>
      fst (Core_handle_pub_rel pub_rel env w2) = Failed ProtocolError)"
proof -
  obtain p ps where ps: "publishes = p # ps" using assms(3) by (cases publishes) auto
  obtain v where v: "Core_handle_publish p env w = (Finished (), v)" "loop_over Core_handle_publish ps env v = (Finished (), w1)"
    using assms(5) by (auto simp: ps act split: prod.splits outcome.splits)
  have "holds_back i (ClientMessage_new True p) (client_core w) v"
    by (rule receive_first [OF _ _ assms(1) v(1)]) (use assms(4) ps in auto)
  then have "holds_back i (ClientMessage_new True p) (client_core w) w1"
    by (rule receive_repeated [OF _ _ v(2), rotated]) (use assms(4) ps in auto)
  then show ?thesis
    using assms(2,6) by (auto simp: holds_back_def ps Core_handle_pub_rel_def Let_def send_message_def act)
qed

definition sample_client_conn :: "(unit, bytes) ConnectedState" where
  "sample_client_conn = ConnectedState_new 0 30 () []"

definition sample_qos2 :: Publish where
  "sample_qos2 = (PublishBuilder_new ''t'')\<lparr>publish_qos := ExactlyOnce, publish_packet_id := Some 5\<rparr>"

lemma sample_pub_rec:
  "\<exists>n. fst (Codec_encode (\<lambda>w data. (Inr (), w @ data)) (Packet.PubRec \<lparr>pubrec_packet_id = 5,
     pubrec_reason_code = PubRecReasonCode.Success, pubrec_properties = PubRecProperties_default\<rparr>) [] Codec_new) = Inr n"
    (is "\<exists>n. fst (Codec_encode _ ?p _ _) = _")
proof -
  have "sendable usize_max 1000 V4 ?p"
    by (simp add: sendable_def Packet_ok_def Packet_exact_def Packet_limit_def Packet_body_def PubRec_ok_def
        PubRec_exact_def PubRec_body_def PubRecProperties_fits_def PubRecProperties_ok_def PubRecProperties_wire_def
        PubRecProperties_default_def PubRecProperties_is_empty_def wire_opt_def users_wire_def off_by_one_def usize_max_def)
  then show ?thesis
    by (simp add: Codec_encode_wire [where n = 1000] Codec_new_def level_after_def Let_def)
qed

lemma client_receives_once_witness:
  "\<exists>w1 w2. Core_handle_publish sample_qos2 sample_client_env
      \<lparr>client_core = Core_new ClientBuilder_new, client_conn = sample_client_conn\<rparr> = (Finished (), w1) \<and>
    Core_handle_pub_rel \<lparr>pubrel_packet_id = 5, pubrel_reason_code = PubRelReasonCode.Success,
      pubrel_properties = PubRelProperties_default\<rparr> sample_client_env w1 = (Finished (), w2) \<and>
    map cmsg_topic (core_messages (client_core w2)) = [''t'']"
proof -
  let ?w = "\<lparr>client_core = Core_new ClientBuilder_new, client_conn = sample_client_conn\<rparr>"
  let ?rel = "\<lparr>pubrel_packet_id = 5, pubrel_reason_code = PubRelReasonCode.Success, pubrel_properties = PubRelProperties_default\<rparr>"
  obtain w1 where w1: "Core_handle_publish sample_qos2 sample_client_env ?w = (Finished (), w1)"
    using sample_pub_rec by (auto simp: Core_handle_publish_def sample_qos2_def PublishBuilder_new_def Let_def act
        Core_send_packet_def sample_client_conn_def ConnectedState_new_def sample_client_env_def case_prod_unfold
        split: sum.split)
  then have loop: "loop_over Core_handle_publish [sample_qos2] sample_client_env ?w = (Finished (), w1)"
    by (simp add: act)
  have none: "cs_uncompleted_messages (client_conn ?w) 5 = None"
    by (simp add: sample_client_conn_def ConnectedState_new_def)
  have "cenv_receiving sample_client_env" "\<forall>p \<in> set [sample_qos2]. publish_qos p = ExactlyOnce \<and> publish_packet_id p = Some 5"
    "pubrel_packet_id ?rel = 5"
    by (simp_all add: sample_client_env_def sample_qos2_def)
  from client_receives_once [OF none this(1) _ this(2) loop this(3)] w1 show ?thesis
    by (auto simp: Core_new_def ClientMessage_new_def sample_qos2_def PublishBuilder_new_def)
qed

subsection \<open>Publishing\<close>

text \<open>A PUBLISH with a QoS never gets out: the builder makes it without a packet identifier, the task does not
  put in the one that it takes, and the encoder refuses it. The connection is dropped and the
  caller gets an error.\<close>

theorem client_publish_fails:
  assumes "publish_qos publish \<noteq> AtMostOnce" "publish_packet_id publish = None"
  shows "core_turn (OnCommand (PublishBuilder_send reply publish)) env (core, Connected cs) = Some (core, Connecting) \<and>
    PublishBuilder_result publish None = Inl ClientClosed"
proof -
  have "Packet_encode (Packet.Publish publish) level max_size buf = (Inl RequirePacketId, buf)" for level max_size buf
    using assms by (simp add: Packet_encode_def Publish_encode_def block.simps ensure_w_def)
  then have send: "Core_send_packet (Packet.Publish publish) env w = (Failed (EncodeFailed RequirePacketId), w)" for w
    by (simp add: Core_send_packet_def Codec_encode_def)
  have "\<exists>v. handle_publish_command \<lparr>pubcmd_publish = publish, pubcmd_reply = r\<rparr> env w =
      (Failed (EncodeFailed RequirePacketId), v) \<and> client_core v = client_core w" for r w
    using assms(1) by (cases "publish_qos publish") (simp_all add: handle_publish_command_def Let_def act send)
  then obtain v where "do_connected (OnCommand (PublishBuilder_send reply publish)) env \<lparr>client_core = core, client_conn = cs\<rparr> =
      (Failed (EncodeFailed RequirePacketId), v)" "client_core v = core"
    unfolding do_connected_def handle_command_def PublishBuilder_send_def by fastforce
  then show ?thesis
    using assms(1) by (cases "publish_qos publish") (simp_all add: core_turn_def PublishBuilder_result_def)
qed

lemma client_publish_fails_witness:
  "core_turn (OnCommand (PublishBuilder_send 7 (PublishBuilder_qos AtLeastOnce (PublishBuilder_new ''t''))))
    sample_client_env (Core_new ClientBuilder_new, Connected (ConnectedState_new 0 30 () [])) =
   Some (Core_new ClientBuilder_new, Connecting)"
  by (rule client_publish_fails [THEN conjunct1]) (simp_all add: PublishBuilder_qos_def PublishBuilder_new_def)

text \<open>A request with a QoS that already had an identifier would be sent, but its acknowledgement would
  panic: no reply is kept for it. So does the acknowledgement of any message that the user has got.\<close>

theorem request_acknowledged_panics:
  assumes "publish_qos (reqcmd_publish request) \<noteq> AtMostOnce" "handle_request_command request env w = (Finished (), w')"
    and "puback_packet_id pub_ack = cs_packet_id_allocator (client_conn w)"
  shows "fst (Core_handle_pub_ack pub_ack env' w') = Panicked"
proof -
  define packet where "packet = Packet.Publish ((reqcmd_publish request)\<lparr>publish_properties :=
    (publish_properties (reqcmd_publish request))\<lparr>pubprop_correlation_data := Some (to_le_bytes (core_req_id (client_core w)))\<rparr>\<rparr>)"
  obtain v where "w' = v\<lparr>client_conn := (client_conn v)\<lparr>cs_inflight_packets := (cs_inflight_packets (client_conn v))
      (puback_packet_id pub_ack \<mapsto> \<lparr>inflight_packet = packet, inflight_reply = None\<rparr>)\<rparr>\<rparr>"
    using assms by (auto simp: handle_request_command_def act Let_def packet_def PacketIdAllocator_take_def
        split: Qos.splits prod.splits outcome.splits)
  then show ?thesis
    by (simp add: Core_handle_pub_ack_def act publish_entry_def packet_def send_reply_def)
qed

theorem message_acknowledged_panics:
  assumes "publish_qos publish \<noteq> AtMostOnce" "publish_packet_id publish = Some i"
  shows "\<exists>command. ClientMessage_ack reply (ClientMessage_new True publish) = Finished (Some command) \<and>
    handle_command command env w = (Panicked, w)"
  using assms by (cases "publish_qos publish")
    (simp_all add: ClientMessage_ack_def ClientMessage_new_def handle_command_def handle_ack_command_def act)

subsection \<open>Keeping alive\<close>

text \<open>The delay is not reset when it has elapsed: until the next packet arrives, the task can send PINGREQ
  again at once.\<close>

theorem ping_repeats:
  assumes "event_ready OnKeepAlive env w" "do_connected OnKeepAlive env w = (Finished (), w')"
  shows "event_ready OnKeepAlive env w'"
  using assms core_sent(4) [of PingReq env w "Finished ()" w'] by (simp add: event_ready_def do_connected_def)

subsection \<open>Subscriptions\<close>

text \<open>A new connection without a session subscribes to everything that is remembered.\<close>

theorem re_subscribe_all:
  assumes "re_subscribe env w = (Finished (), w')" "cs_packet_id_allocator (client_conn w) = PacketIdAllocator_default"
  shows "client_core w' = client_core w \<and>
    cs_inflight_packets (client_conn w') = (cs_inflight_packets (client_conn w))(1 \<mapsto>
      \<lparr>inflight_packet = Packet.Subscribe \<lparr>subscribe_packet_id = 1, subscribe_properties = SubscribeProperties_default,
         subscribe_filters = map snd (core_subscriptions (client_core w))\<rparr>, inflight_reply = None\<rparr>)"
proof -
  let ?w = "w\<lparr>client_conn := (client_conn w)\<lparr>cs_packet_id_allocator := snd (PacketIdAllocator_take PacketIdAllocator_default)\<rparr>\<rparr>"
  let ?packet = "Packet.Subscribe \<lparr>subscribe_packet_id = 1, subscribe_properties = SubscribeProperties_default,
    subscribe_filters = map snd (core_subscriptions (client_core w))\<rparr>"
  obtain v where v: "Core_send_packet ?packet env ?w = (Finished (), v)"
      "w' = v\<lparr>client_conn := (client_conn v)\<lparr>cs_inflight_packets := (cs_inflight_packets (client_conn v))
        (1 \<mapsto> \<lparr>inflight_packet = ?packet, inflight_reply = None\<rparr>)\<rparr>\<rparr>"
    using assms by (auto simp: re_subscribe_def act Let_def PacketIdAllocator_take_def PacketIdAllocator_default_def
        split: prod.splits outcome.splits)
  from core_sent [OF v(1)] show ?thesis by (simp add: v(2))
qed

end
