(* ===== verification/Spec2Isabelle.thy ===== *)
theory Spec2Isabelle
  imports Sys_Theorems Broker_Delivery Codec_Reads Service_Theorems Storage_Runs Client_Counts Plugin_Theorems
    Server_Theorems Daemon_Theorems Test_Runner Mqtt_Client_Theorems
begin

text \<open>
  A verification library of rsmqtt, an MQTT broker in Rust (protocol levels 4 and 5).

  The parts of the program. The codec (\<open>libs/codec\<close>) turns packets into bytes and a stream of bytes
  into packets. The service (\<open>libs/service\<close>) is the broker: each connection runs a loop
  (\<open>client_loop.rs\<close>) that decodes packets, handles them and encodes the answers; the connections
  share a \<open>ServiceState\<close> (\<open>state.rs\<close>) with the storage (\<open>storage.rs\<close>), the table of connections, the
  counters, the topic rewrites and the plugins. The storage holds the sessions with their queues and
  packets in flight, two ordered sets of timeouts, and the subscription tree (\<open>trie.rs\<close>) with the
  retained messages. The server (\<open>apps/rsmqttd\<close>) creates the plugins, accepts sockets and starts a
  loop for each. The client library (\<open>libs/client\<close>) is the other end: a task that keeps a connection to a
  broker and carries out the commands of its user.

  Which theory models what:

  \<^item> \<open>Prelude\<close>: machine words, \<open>Result\<close> and the question mark operator as a sum and \<open>and_then\<close>,
    big-endian integers, byte strings, association lists for hash maps. Locale \<open>primitive_enum\<close>: what
    the crate \<open>num_enum\<close> derives, interpreted for each enumeration of the codec.
  \<^item> \<open>Codec_Types\<close>, \<open>Codec_Reader\<close>, \<open>Codec_Writer\<close>, \<open>Codec_Properties\<close>: \<open>types.rs\<close>,
    \<open>error.rs\<close>, \<open>property.rs\<close>, \<open>reader.rs\<close>, \<open>writer.rs\<close>, \<open>macros.rs\<close>. A reader takes the rest of the
    input, a writer appends to a buffer, and both may fail. The locales \<open>properties_loop\<close>,
    \<open>properties_codec\<close> and \<open>packet_codec\<close> are the contracts of a property list (its loop and its round
    trip) and of a packet (its size and its encoder); every packet interprets them.
  \<^item> \<open>Packet_Connect\<close> and the other \<open>Packet_\<close> theories: one file of \<open>libs/codec/src\<close> each, the
    records with the fields of the source, \<open>bytes_length\<close>, \<open>encode\<close> and \<open>decode\<close> of the properties and of
    the packet at both protocol levels. \<open>Packet\<close>: the tagged union and its dispatch.
  \<^item> \<open>Packet_Id_Allocator\<close>, \<open>Codec\<close>: \<open>packet_id_allocator.rs\<close> and \<open>codec.rs\<close>. The transport is a
    parameter: a function that returns bytes, the end of the stream or an error, and a function that takes
    bytes. \<open>Codec_Stream\<close>, \<open>Codec_Theorems\<close>, \<open>Codec_Reads\<close>: a parser of whole streams that \<open>decode\<close>
    refines, the round trips, the packets whose announced size is exact, and the number of reads.
  \<^item> \<open>Filter_Util\<close>, \<open>Message\<close>: \<open>filter_util.rs\<close>, \<open>message.rs\<close>.
  \<^item> \<open>Trie_Node\<close>, \<open>Trie_Subscriptions\<close>, \<open>Trie_Unsubscribe_All\<close>, \<open>Trie_Match\<close>, \<open>Trie_Retained\<close>,
    \<open>Trie\<close>, \<open>Trie_Matching\<close>: \<open>trie.rs\<close>. Locale \<open>subscription_store\<close>: a map from filter and client to the
    options; the tree interprets it. \<open>Service_Theorems\<close>: its properties.
  \<^item> \<open>Storage\<close>: \<open>storage.rs\<close>. \<open>Storage_Delivery\<close>, \<open>Storage_Sessions\<close>, \<open>Storage_Update\<close>,
    \<open>Storage_Lifecycle\<close>, \<open>Storage_Operations\<close>: delivery as the update of each queue, the invariant that
    ties the timeout sets to the sessions, and its preservation. \<open>Storage_Theorems\<close>: each operation;
    \<open>Storage_Runs\<close>: sequences of operations as an inductive relation, in which only connected sessions are
    disconnected, and what a second disconnection would do; the order of the queue.
  \<^item> \<open>Service_State\<close>, \<open>Rewrite\<close>, \<open>Metrics\<close>, \<open>Sys_Topics\<close>: \<open>error.rs\<close>, \<open>config.rs\<close>, \<open>plugin.rs\<close>,
    \<open>state.rs\<close>, \<open>rewrite.rs\<close>, \<open>metrics.rs\<close>, \<open>sys_topics.rs\<close>. \<open>Metrics_Theorems\<close>, \<open>Sys_Theorems\<close>: the averages,
    the maximum, and the delivery of the system topics, which are compared with a table of their own.
  \<^item> \<open>Actions\<close>: handlers of asynchronous tasks, for the broker and for the client library: a handler
    finishes, fails with an error, panics, or aborts the process; triples for handlers.
  \<^item> \<open>Client_Loop\<close>: \<open>client_loop.rs\<close>. A handler works on the \<open>World\<close>, that is the connection and the
    service state. \<open>Client_Actions\<close>: their triples. \<open>Client_Safety\<close>: locale \<open>storage_client\<close>, what the
    handlers need of the storage, with their safety proved inside it, interpreted on the storage.
    \<open>Client_Runs\<close>: turns of the loop between steps of the other connections. \<open>Client_Window\<close>,
    \<open>Client_Theorems\<close>, \<open>Client_Requests\<close>, \<open>Client_Counts\<close>: the send window, the safety of a
    connection, PUBLISH, exactly-once reception, the order of a login, the connection count, and the end of
    a connection whose session has been taken over. \<open>Client_Sending\<close>: what a notified connection writes.
    \<open>Client_Seats\<close>: what a turn does to the table of connections and to the channels.
  \<^item> \<open>Plugins\<close>, \<open>Plugin_Theorems\<close>: \<open>libs/passwd_util\<close>, \<open>libs/plugins/basic-auth\<close>,
    \<open>libs/plugins/oso-acl\<close> and \<open>create_plugins\<close> of \<open>apps/rsmqttd/src/lib.rs\<close>.
  \<^item> \<open>Server\<close>, \<open>Server_Theorems\<close>: \<open>config.rs\<close>, the start of the service and its periodic update
    (\<open>main.rs\<close>), and the byte stream over a websocket (\<open>ws_transport.rs\<close>).
  \<^item> \<open>Broker\<close>: the running server, that is the tasks of \<open>server.rs\<close> (\<open>spawn_connection\<close>), \<open>state.rs\<close>
    (\<open>update_sessions_task\<close>) and \<open>main.rs\<close> (\<open>periodic_update\<close>) over one \<open>ServiceState\<close>. \<open>broker_step\<close> is one
    turn of one task, \<open>broker_run\<close> any sequence of turns. \<open>Broker_Samples\<close>: two logins, from their bytes on.
    \<open>Broker_Theorems\<close>: without a race at the end of a connection no task panics, and the table has one connection for
    each client. \<open>Broker_Delivery\<close>: a message from the socket of its publisher to the socket of a subscriber.
  \<^item> \<open>Daemon\<close>, \<open>Daemon_Theorems\<close>: the process around the broker (\<open>main.rs\<close>, \<open>server.rs\<close>, \<open>ws_transport.rs\<close>,
    \<open>api.rs\<close>): configuration file, TLS setup, accept loops, HTTP routes.
  \<^item> \<open>Test_Runner\<close>: \<open>libs/testutil/src\<close>, the calls of a test suite and their possible orders.
  \<^item> \<open>Mqtt_Client\<close>, \<open>Mqtt_Client_Theorems\<close>: \<open>libs/client/src\<close>. The crate is commented out of the
    workspace and does not compile; \<open>Mqtt_Client\<close> says how its undefined types are read.

  What the model assumes. Integers have the width of the source (\<open>usize\<close> has 64 bits) and wrap around, as in
  a release build; where a debug build would panic, a property says so. A lock is held for a whole
  operation, so each operation of the storage is one step, and a handler is one step of its
  connection: the other connections and the timer work between the turns of a loop, in any order. The branches
  of \<open>select!\<close> are events that the environment chooses. Clocks are read once per operation and are
  arguments, as are the random index in a share group and the generated client identifiers. Iteration over
  a hash map is the order of its association list; no property depends on it. Hash functions, policy
  rules, regular expressions, YAML values and \<open>f64\<close> are those of other crates or of the machine: they are
  parameters, and what a property needs of them is one of its hypotheses.

  Bounds. Only \<open>write_all_polls\<close> takes fuel, the number of polls of a writer; \<open>websocket_repeats\<close> says
  how many are needed. The decoder consumes input or asks for bytes that it still needs, so
  \<open>Codec_decode\<close> is a total function; \<open>Codec_Reads\<close> bounds its reads. The loop of a connection is a
  sequence of events (\<open>run_turns\<close>). \<open>Error::internal_error\<close>, which never returns, is a partial
  function that is proved to be undefined.

  In \<open>Broker\<close>, a notification may occur at any time, more often than \<open>Notify\<close> allows, and a connection whose
  session has been replaced shares the notifications of the new session; both only add runs. A theorem on all runs
  holds for those of the program.

  Not modelled. Sockets, threads and the scheduler, beyond the events that they cause; command lines and
  tracing; \<open>apps/rsmqtt_bench\<close>, a load generator that measures time. The derived implementations of \<open>serde\<close>.
  Interleavings inside a handler, and the reader of a transport that is cancelled by \<open>select!\<close> in the
  middle of a read.
\<close>

end
